(* ===== verification/Huxio_Prelude.thy ===== *)
theory Huxio_Prelude
  imports Main "HOL-Library.Word"
begin

text \<open>
  Shared vocabulary of the development: the Go and SQL value types the components use
  (time, durations, sized integers, bytes), the sentinel errors of the repository layer,
  the lemma collections, and the generic list and map facts.

  \<^item> A \<^verbatim>\<open>time.Time\<close> is an \<open>int\<close>, the nanoseconds since the Unix epoch; Go's zero time (year 1)
    is the constant \<open>zero_time\<close>. A \<^verbatim>\<open>time.Duration\<close> is an \<open>int\<close> number of nanoseconds that
    arithmetic wraps to 64 bits (\<open>wrap64\<close>), except \<^verbatim>\<open>Time.Sub\<close>, which saturates.
  \<^item> A Go string is a list of bytes (\<open>string\<close>); a \<^verbatim>\<open>[]byte\<close> is an \<open>8 word list\<close>.
  \<^item> A pointer that may be nil is an \<open>option\<close>.
\<close>

section \<open>Lemma collections\<close>

named_theorems width_simps \<open>wrap-around is the identity inside the type's range\<close>
named_theorems rec_defs \<open>definitions of straight-line operations, unfolded by component proofs\<close>

section \<open>Sized integers\<close>

definition wrap16 :: "int \<Rightarrow> int" where
  "wrap16 x = (x + 2 ^ 15) mod 2 ^ 16 - 2 ^ 15"

definition wrap32 :: "int \<Rightarrow> int" where
  "wrap32 x = (x + 2 ^ 31) mod 2 ^ 32 - 2 ^ 31"

definition wrap64 :: "int \<Rightarrow> int" where
  "wrap64 x = (x + 2 ^ 63) mod 2 ^ 64 - 2 ^ 63"

lemma wrap16_id [width_simps]: "- (2 ^ 15) \<le> x \<Longrightarrow> x < 2 ^ 15 \<Longrightarrow> wrap16 x = x"
  by (simp add: wrap16_def)

lemma wrap32_id [width_simps]: "- (2 ^ 31) \<le> x \<Longrightarrow> x < 2 ^ 31 \<Longrightarrow> wrap32 x = x"
  by (simp add: wrap32_def)

lemma wrap64_id [width_simps]: "- (2 ^ 63) \<le> x \<Longrightarrow> x < 2 ^ 63 \<Longrightarrow> wrap64 x = x"
  by (simp add: wrap64_def)

lemma wrap16_range: "- (2 ^ 15) \<le> wrap16 x \<and> wrap16 x < 2 ^ 15"
  unfolding wrap16_def using pos_mod_bound [of "2 ^ 16" "x + 2 ^ 15"] pos_mod_sign [of "2 ^ 16" "x + 2 ^ 15"]
  by (auto simp del: pos_mod_bound pos_mod_sign)

lemma wrap64_range: "- (2 ^ 63) \<le> wrap64 x \<and> wrap64 x < 2 ^ 63"
  unfolding wrap64_def using pos_mod_bound [of "2 ^ 64" "x + 2 ^ 63"] pos_mod_sign [of "2 ^ 64" "x + 2 ^ 63"]
  by (auto simp del: pos_mod_bound pos_mod_sign)

text \<open>Go's integer division truncates towards zero.\<close>

definition go_div :: "int \<Rightarrow> int \<Rightarrow> int" where
  "go_div a b = sgn a * sgn b * (\<bar>a\<bar> div \<bar>b\<bar>)"

lemma go_div_nonneg: "0 \<le> a \<Longrightarrow> 0 < b \<Longrightarrow> go_div a b = a div b"
  by (cases "a = 0") (auto simp: go_div_def)

section \<open>Time and durations\<close>

type_synonym time = int
type_synonym duration = int
type_synonym byte = "8 word"
type_synonym bytes = "8 word list"

abbreviation Millisecond :: duration where "Millisecond \<equiv> 1000000"
abbreviation Second :: duration where "Second \<equiv> 1000000000"
abbreviation Minute :: duration where "Minute \<equiv> 60000000000"
abbreviation Hour :: duration where "Hour \<equiv> 3600000000000"

definition zero_time :: time where
  "zero_time = - 62135596800 * 1000000000"

definition time_IsZero :: "time \<Rightarrow> bool" where
  "time_IsZero t \<longleftrightarrow> t = zero_time"

text \<open>\<^verbatim>\<open>Time.Sub\<close> saturates at the largest and smallest duration.\<close>

definition time_Sub :: "time \<Rightarrow> time \<Rightarrow> duration" where
  "time_Sub t u = max (- (2 ^ 63)) (min (2 ^ 63 - 1) (t - u))"

definition Milliseconds :: "duration \<Rightarrow> int" where
  "Milliseconds d = go_div d Millisecond"

definition time_Unix :: "time \<Rightarrow> int" where
  "time_Unix t = t div Second"

lemma time_Sub_self [simp]: "time_Sub t t = 0"
  by (simp add: time_Sub_def)

lemma time_Sub_mono: "t \<le> t' \<Longrightarrow> time_Sub t u \<le> time_Sub t' u"
  by (auto simp: time_Sub_def)

lemma time_Sub_nonneg: "u \<le> t \<Longrightarrow> 0 \<le> time_Sub t u"
  by (auto simp: time_Sub_def)

section \<open>Errors of the repository layer\<close>

text \<open>
  The two sentinels of \<^verbatim>\<open>repositories/errors.go\<close>, and any other driver error with the text it
  is wrapped with.
\<close>

datatype repo_error = ErrNotFound | ErrConflict | DriverError string

section \<open>Bytes and strings\<close>

definition bytes_of :: "string \<Rightarrow> bytes" where
  "bytes_of s = map (\<lambda>c. of_nat (of_char c)) s"

definition string_of :: "bytes \<Rightarrow> string" where
  "string_of b = map (\<lambda>w. char_of (unat w)) b"

lemma unat_of_char_byte: "unat (of_nat (of_char c) :: byte) = of_char c"
  by (simp add: unat_of_nat of_char_def take_bit_eq_mod split: char.splits)

lemma string_of_bytes_of [simp]: "string_of (bytes_of s) = s"
  by (simp add: string_of_def bytes_of_def comp_def unat_of_char_byte)

lemma length_bytes_of [simp]: "length (bytes_of s) = length s"
  by (simp add: bytes_of_def)

lemma bytes_of_append [simp]: "bytes_of (s @ t) = bytes_of s @ bytes_of t"
  by (simp add: bytes_of_def)

lemma bytes_of_inject: "bytes_of s = bytes_of t \<longleftrightarrow> s = t"
  by (metis string_of_bytes_of)

section \<open>Lists\<close>

lemma set_take_filterD: "x \<in> set (take n (filter P xs)) \<Longrightarrow> x \<in> set xs \<and> P x"
  by (drule in_set_takeD) simp

lemma find_Some_iff_distinct:
  assumes "distinct (map k xs)" and "x \<in> set xs"
  shows "find (\<lambda>y. k y = k x) xs = Some x"
  using assms by (induction xs) (auto simp: rev_image_eqI)

lemma split_at_first_sep:
  assumes "a @ c # b = a' @ c # b'" and "c \<notin> set a" and "c \<notin> set a'"
  shows "a = a' \<and> b = b'"
  using assms by (induction a arbitrary: a') (case_tac a'; auto)+

end
