(* ===== verification/Breaker.thy ===== *)
theory Breaker
  imports Huxio_Prelude
begin

text \<open>
  \<^verbatim>\<open>internal/application/dispatch/breaker.go\<close>: the per-endpoint circuit breaker. Each method runs
  under the breaker's mutex, so it is one atomic function on the state; \<^verbatim>\<open>opts.Now()\<close> is the
  argument \<open>now\<close>. Runs of the breaker are lists of events.
\<close>

datatype BreakerState = BreakerClosed | BreakerOpen | BreakerHalfOpen

record BreakerOptions =
  bo_FailureThreshold :: int
  bo_Cooldown :: duration
  bo_MaxCooldown :: duration

record Breaker =
  br_opts :: BreakerOptions
  br_state :: BreakerState
  br_consecutiveFails :: int
  br_cooldown :: duration
  br_openedAt :: time
  br_retryAt :: time
  br_probeInFlight :: bool

definition BreakerState_String :: "BreakerState \<Rightarrow> string" where
  "BreakerState_String s =
     (case s of BreakerOpen \<Rightarrow> ''open'' | BreakerHalfOpen \<Rightarrow> ''half-open'' | _ \<Rightarrow> ''closed'')"

definition breaker_defaults :: "BreakerOptions \<Rightarrow> BreakerOptions" where
  "breaker_defaults opts =
    (let opts = (if bo_FailureThreshold opts \<le> 0 then opts\<lparr>bo_FailureThreshold := 20\<rparr> else opts);
         opts = (if bo_Cooldown opts \<le> 0 then opts\<lparr>bo_Cooldown := 30 * Second\<rparr> else opts);
         opts = (if bo_MaxCooldown opts < bo_Cooldown opts
                 then opts\<lparr>bo_MaxCooldown := max (10 * Minute) (bo_Cooldown opts)\<rparr> else opts)
     in opts)"

definition NewBreaker :: "BreakerOptions \<Rightarrow> Breaker" where
  "NewBreaker opts = (let opts = breaker_defaults opts in
     \<lparr>br_opts = opts, br_state = BreakerClosed, br_consecutiveFails = 0,
      br_cooldown = bo_Cooldown opts, br_openedAt = zero_time, br_retryAt = zero_time,
      br_probeInFlight = False\<rparr>)"

definition Breaker_Allow :: "time \<Rightarrow> Breaker \<Rightarrow> bool \<times> Breaker" where
  "Breaker_Allow now b = (case br_state b of
      BreakerClosed \<Rightarrow> (True, b)
    | BreakerOpen \<Rightarrow>
        if now < br_retryAt b then (False, b)
        else (True, b\<lparr>br_state := BreakerHalfOpen, br_probeInFlight := True\<rparr>)
    | BreakerHalfOpen \<Rightarrow>
        if br_probeInFlight b then (False, b)
        else (True, b\<lparr>br_probeInFlight := True\<rparr>))"

definition Breaker_OnSuccess :: "Breaker \<Rightarrow> Breaker" where
  "Breaker_OnSuccess b =
     b\<lparr>br_consecutiveFails := 0, br_probeInFlight := False, br_state := BreakerClosed,
       br_cooldown := bo_Cooldown (br_opts b), br_openedAt := zero_time\<rparr>"

definition reopen :: "time \<Rightarrow> Breaker \<Rightarrow> Breaker" where
  "reopen now b =
    (let b = (if time_IsZero (br_openedAt b) then b\<lparr>br_openedAt := now\<rparr> else b);
         b = (if br_state b = BreakerOpen \<or> br_state b = BreakerHalfOpen
              then b\<lparr>br_cooldown := min (wrap64 (br_cooldown b * 2)) (bo_MaxCooldown (br_opts b))\<rparr>
              else b)
     in b\<lparr>br_state := BreakerOpen, br_retryAt := now + br_cooldown b\<rparr>)"

definition Breaker_OnFailure :: "time \<Rightarrow> Breaker \<Rightarrow> Breaker" where
  "Breaker_OnFailure now b =
    (let b = b\<lparr>br_consecutiveFails := br_consecutiveFails b + 1\<rparr> in
     if br_state b = BreakerHalfOpen then reopen now (b\<lparr>br_probeInFlight := False\<rparr>)
     else if br_state b = BreakerClosed \<and> br_consecutiveFails b \<ge> bo_FailureThreshold (br_opts b)
     then reopen now (b\<lparr>br_openedAt := now\<rparr>)
     else b)"

definition OpenFor :: "time \<Rightarrow> Breaker \<Rightarrow> duration" where
  "OpenFor now b =
     (if br_state b = BreakerClosed \<or> time_IsZero (br_openedAt b) then 0
      else time_Sub now (br_openedAt b))"

lemmas breaker_defs = Breaker_Allow_def Breaker_OnSuccess_def reopen_def Breaker_OnFailure_def Let_def

section \<open>Runs\<close>

datatype breaker_event = EAllow time | ESuccess | EFailure time

fun breaker_step :: "Breaker \<Rightarrow> breaker_event \<Rightarrow> Breaker" where
  "breaker_step b (EAllow now) = snd (Breaker_Allow now b)"
| "breaker_step b ESuccess = Breaker_OnSuccess b"
| "breaker_step b (EFailure now) = Breaker_OnFailure now b"

definition breaker_run :: "Breaker \<Rightarrow> breaker_event list \<Rightarrow> Breaker" where
  "breaker_run = foldl breaker_step"

lemma breaker_run_simps [simp]:
  "breaker_run b [] = b" "breaker_run b (e # es) = breaker_run (breaker_step b e) es"
  "breaker_run b (es @ fs) = breaker_run (breaker_run b es) fs"
  by (simp_all add: breaker_run_def)

section \<open>Invariant\<close>

text \<open>
  The options are in range; half-open and only half-open has a probe in flight; a closed breaker
  has seen fewer consecutive failures than the threshold; the cooldown stays between its first
  value and its cap.
\<close>

definition opts_ok :: "BreakerOptions \<Rightarrow> bool" where
  "opts_ok opts \<longleftrightarrow> 0 < bo_FailureThreshold opts \<and> 0 < bo_Cooldown opts \<and>
     bo_Cooldown opts \<le> bo_MaxCooldown opts \<and> bo_MaxCooldown opts < 2 ^ 62"

definition breaker_inv :: "Breaker \<Rightarrow> bool" where
  "breaker_inv b \<longleftrightarrow> opts_ok (br_opts b) \<and>
     (br_probeInFlight b \<longleftrightarrow> br_state b = BreakerHalfOpen) \<and>
     (br_state b = BreakerClosed \<longrightarrow> br_consecutiveFails b < bo_FailureThreshold (br_opts b)) \<and>
     0 \<le> br_consecutiveFails b \<and>
     bo_Cooldown (br_opts b) \<le> br_cooldown b \<and> br_cooldown b \<le> bo_MaxCooldown (br_opts b)"

lemma breaker_defaults_ok:
  assumes "bo_MaxCooldown opts < 2 ^ 62" and "bo_Cooldown opts < 2 ^ 62"
  shows "opts_ok (breaker_defaults opts)"
  using assms by (auto simp: opts_ok_def breaker_defaults_def Let_def)

lemma NewBreaker_inv:
  assumes "bo_MaxCooldown opts < 2 ^ 62" and "bo_Cooldown opts < 2 ^ 62"
  shows "breaker_inv (NewBreaker opts)"
  using breaker_defaults_ok [OF assms] by (simp add: breaker_inv_def NewBreaker_def Let_def opts_ok_def)

lemma doubled_cooldown:
  assumes "breaker_inv b"
  shows "wrap64 (br_cooldown b * 2) = br_cooldown b * 2"
  using assms by (intro wrap64_id) (auto simp: breaker_inv_def opts_ok_def)

lemma Allow_inv: "breaker_inv b \<Longrightarrow> breaker_inv (snd (Breaker_Allow now b))"
  by (auto simp: breaker_inv_def Breaker_Allow_def split: BreakerState.splits)

lemma OnSuccess_inv: "breaker_inv b \<Longrightarrow> breaker_inv (Breaker_OnSuccess b)"
  by (auto simp: breaker_inv_def Breaker_OnSuccess_def opts_ok_def)

lemma OnFailure_inv:
  assumes "breaker_inv b"
  shows "breaker_inv (Breaker_OnFailure now b)"
  using assms doubled_cooldown [OF assms]
  by (cases "br_state b") (auto simp: breaker_inv_def Breaker_OnFailure_def reopen_def Let_def opts_ok_def)

lemma breaker_step_inv: "breaker_inv b \<Longrightarrow> breaker_inv (breaker_step b e)"
  by (cases e) (auto simp: Allow_inv OnSuccess_inv OnFailure_inv)

lemma breaker_run_inv: "breaker_inv b \<Longrightarrow> breaker_inv (breaker_run b es)"
  by (induction es arbitrary: b) (auto simp: breaker_step_inv)

lemma breaker_step_opts [simp]: "br_opts (breaker_step b e) = br_opts b"
  by (cases e) (auto simp: breaker_defs split: BreakerState.splits)

lemma breaker_run_opts [simp]: "br_opts (breaker_run b es) = br_opts b"
  by (induction es arbitrary: b) auto

section \<open>Properties\<close>

lemma OnFailure_open [simp]: "br_state b = BreakerOpen \<Longrightarrow>
    Breaker_OnFailure now b = b\<lparr>br_consecutiveFails := br_consecutiveFails b + 1\<rparr>"
  by (simp add: Breaker_OnFailure_def Let_def)

lemma failures_while_open:
  "br_state b = BreakerOpen \<Longrightarrow> br_state (breaker_run b (map EFailure ts)) = BreakerOpen"
  by (induction ts arbitrary: b) auto

lemma OnFailure_closed_state:
  assumes "br_state b = BreakerClosed"
  shows "br_state (Breaker_OnFailure now b) =
      (if br_consecutiveFails b + 1 < bo_FailureThreshold (br_opts b) then BreakerClosed else BreakerOpen)"
    and "br_consecutiveFails (Breaker_OnFailure now b) = br_consecutiveFails b + 1"
  using assms by (auto simp: Breaker_OnFailure_def reopen_def Let_def)

text \<open>
  From any state reached by a run that ends closed, a further sequence of failures opens the
  breaker exactly when the consecutive failures reach the threshold, and further failures keep it
  open.
\<close>
theorem breaker_opens_at_threshold:
  assumes "bo_MaxCooldown opts < 2 ^ 62" and "bo_Cooldown opts < 2 ^ 62"
    and "b = breaker_run (NewBreaker opts) es" and "br_state b = BreakerClosed"
  shows "br_state (breaker_run b (map EFailure ts)) =
    (if br_consecutiveFails b + int (length ts) < bo_FailureThreshold (breaker_defaults opts)
     then BreakerClosed else BreakerOpen)"
proof -
  have inv: "breaker_inv b" using assms(3) breaker_run_inv [OF NewBreaker_inv [OF assms(1,2)]] by simp
  have opts: "br_opts b = breaker_defaults opts" using assms(3) by (simp add: NewBreaker_def Let_def)
  have "br_state (breaker_run c (map EFailure ts)) =
      (if br_consecutiveFails c + int (length ts) < bo_FailureThreshold (br_opts c)
       then BreakerClosed else BreakerOpen)"
    if "breaker_inv c" and "br_state c = BreakerClosed" for c
    using that
  proof (induction ts arbitrary: c)
    case Nil
    then show ?case by (simp add: breaker_inv_def)
  next
    case (Cons t ts)
    show ?case
    proof (cases "br_consecutiveFails c + 1 < bo_FailureThreshold (br_opts c)")
      case True
      then have "br_state (breaker_step c (EFailure t)) = BreakerClosed"
        using Cons.prems(2) by (simp add: OnFailure_closed_state)
      from Cons.IH [OF breaker_step_inv [OF Cons.prems(1)] this] show ?thesis
        using Cons.prems(2) by (simp add: OnFailure_closed_state(2) add.assoc breaker_step_opts [of c "EFailure t", simplified])
    next
      case False
      then have "br_state (breaker_step c (EFailure t)) = BreakerOpen"
        using Cons.prems(2) by (simp add: OnFailure_closed_state)
      from failures_while_open [OF this] False show ?thesis by simp
    qed
  qed
  from this [OF inv assms(4)] show ?thesis by (simp add: opts)
qed

theorem breaker_opens_at_threshold_witness:
  "br_state (breaker_run (NewBreaker \<lparr>bo_FailureThreshold = 3, bo_Cooldown = 0, bo_MaxCooldown = 0\<rparr>)
     (map EFailure [1, 2])) = BreakerClosed \<and>
   br_state (breaker_run (NewBreaker \<lparr>bo_FailureThreshold = 3, bo_Cooldown = 0, bo_MaxCooldown = 0\<rparr>)
     (map EFailure [1, 2, 3])) = BreakerOpen"
  using breaker_opens_at_threshold [of "\<lparr>bo_FailureThreshold = 3, bo_Cooldown = 0, bo_MaxCooldown = 0\<rparr>"
      _ "[]" "[1, 2]"]
    breaker_opens_at_threshold [of "\<lparr>bo_FailureThreshold = 3, bo_Cooldown = 0, bo_MaxCooldown = 0\<rparr>"
      _ "[]" "[1, 2, 3]"]
  by (simp add: NewBreaker_def breaker_defaults_def Let_def)

text \<open>A failed probe: the breaker is asked at \<open>t\<close>, at or after \<open>retryAt\<close>, and the probe fails.\<close>

definition failed_probe :: "time \<Rightarrow> breaker_event list" where
  "failed_probe t = [EAllow t, EFailure t]"

fun probes_due :: "Breaker \<Rightarrow> time list \<Rightarrow> bool" where
  "probes_due b [] = True"
| "probes_due b (t # ts) \<longleftrightarrow> br_retryAt b \<le> t \<and> probes_due (breaker_run b (failed_probe t)) ts"

lemma failed_probe_step:
  assumes "breaker_inv b" and "br_state b = BreakerOpen" and "br_retryAt b \<le> t"
  shows "br_state (breaker_run b (failed_probe t)) = BreakerOpen"
    and "br_cooldown (breaker_run b (failed_probe t)) = min (br_cooldown b * 2) (bo_MaxCooldown (br_opts b))"
    and "br_retryAt (breaker_run b (failed_probe t)) = t + br_cooldown (breaker_run b (failed_probe t))"
  using assms doubled_cooldown [OF assms(1)]
  by (auto simp: failed_probe_def breaker_defs)

lemma min_double: "min (min (c * 2) m * 2 ^ k) m = min (c * 2 ^ Suc k) (m :: int)" if "0 < m"
proof (cases "c * 2 \<le> m")
  case True
  then show ?thesis by (simp add: mult.assoc)
next
  case False
  have "(1 :: int) \<le> 2 ^ k" by simp
  then have "m \<le> m * 2 ^ k" using that by simp
  moreover have "m \<le> c * 2 * 2 ^ k"
    using False that mult_mono [of m "c * 2" 1 "2 ^ k"] by simp
  ultimately show ?thesis using False by (simp add: mult.assoc min_def)
qed

text \<open>
  Each failed probe doubles the cooldown up to the cap, so after \<open>k\<close> failed probes in a row the
  breaker is open with cooldown \<open>min (c * 2 ^ k) MaxCooldown\<close>, the arithmetic never wraps, and until
  that long after the last probe every delivery is refused.
\<close>
theorem breaker_backoff:
  assumes "breaker_inv b" and "br_state b = BreakerOpen" and "probes_due b ts"
  defines "b' \<equiv> breaker_run b (concat (map failed_probe ts))"
  shows "br_state b' = BreakerOpen \<and>
    br_cooldown b' = min (br_cooldown b * 2 ^ length ts) (bo_MaxCooldown (br_opts b)) \<and>
    (ts \<noteq> [] \<longrightarrow> br_retryAt b' = last ts + br_cooldown b') \<and>
    (\<forall>now. fst (Breaker_Allow now b') \<longleftrightarrow> br_retryAt b' \<le> now)"
proof -
  have m: "0 < bo_MaxCooldown (br_opts b)" and c: "br_cooldown b \<le> bo_MaxCooldown (br_opts b)"
    using assms(1) by (auto simp: breaker_inv_def opts_ok_def)
  have "br_state (breaker_run c (concat (map failed_probe ts))) = BreakerOpen \<and>
      br_cooldown (breaker_run c (concat (map failed_probe ts))) =
        min (br_cooldown c * 2 ^ length ts) (bo_MaxCooldown (br_opts c)) \<and>
      (ts \<noteq> [] \<longrightarrow> br_retryAt (breaker_run c (concat (map failed_probe ts))) =
        last ts + br_cooldown (breaker_run c (concat (map failed_probe ts))))"
    if "breaker_inv c" "br_state c = BreakerOpen" "probes_due c ts" for c
    using that
  proof (induction ts arbitrary: c)
    case Nil
    then show ?case by (simp add: breaker_inv_def)
  next
    case (Cons t ts)
    let ?c = "breaker_run c (failed_probe t)"
    have due: "br_retryAt c \<le> t" "probes_due ?c ts" using Cons.prems(3) by auto
    note fp = failed_probe_step [OF Cons.prems(1,2) due(1)]
    have mc: "0 < bo_MaxCooldown (br_opts c)" using Cons.prems(1) by (simp add: breaker_inv_def opts_ok_def)
    from Cons.IH [OF breaker_run_inv [OF Cons.prems(1)] fp(1) due(2)] fp(2,3) min_double [OF mc]
    show ?case by auto
  qed
  from this [OF assms(1-3)] show ?thesis
    by (auto simp: b'_def Breaker_Allow_def not_less)
qed

theorem breaker_backoff_witness:
  "let b = breaker_run (NewBreaker \<lparr>bo_FailureThreshold = 1, bo_Cooldown = 30 * Second, bo_MaxCooldown = 0\<rparr>) [EFailure 0];
       b' = breaker_run b (concat (map failed_probe [30 * Second, 90 * Second]))
   in br_cooldown b' = 120 * Second \<and> br_retryAt b' = 210 * Second"
  using breaker_backoff [of "breaker_run (NewBreaker \<lparr>bo_FailureThreshold = 1, bo_Cooldown = 30 * Second, bo_MaxCooldown = 0\<rparr>) [EFailure 0]"
      "[30 * Second, 90 * Second]", OF breaker_run_inv [OF NewBreaker_inv]]
  by (simp add: NewBreaker_def breaker_defaults_def breaker_defs failed_probe_def time_IsZero_def zero_time_def wrap64_def)

text \<open>
  Once an open breaker has admitted a probe it admits nothing else: every later request, at any
  time and however many, is refused and changes nothing, until the probe reports a success or a
  failure.
\<close>
theorem breaker_single_probe:
  assumes "breaker_inv b" and "br_state b = BreakerOpen" and "Breaker_Allow now b = (True, b')"
  shows "breaker_run b' (map EAllow ts) = b' \<and> fst (Breaker_Allow t b') = False"
proof -
  have st: "br_state b' = BreakerHalfOpen" "br_probeInFlight b'"
    using assms(2,3) by (auto simp: Breaker_Allow_def split: if_splits)
  then have refused: "Breaker_Allow u b' = (False, b')" for u by (simp add: Breaker_Allow_def)
  then have "breaker_run b' (map EAllow ts) = b'" by (induction ts) auto
  with refused show ?thesis by simp
qed

theorem breaker_single_probe_witness:
  "let b = breaker_run (NewBreaker \<lparr>bo_FailureThreshold = 1, bo_Cooldown = 0, bo_MaxCooldown = 0\<rparr>) [EFailure 0];
       b' = snd (Breaker_Allow (30 * Second) b)
   in fst (Breaker_Allow (1000 * Hour) b') = False"
  using breaker_single_probe [of "breaker_run (NewBreaker \<lparr>bo_FailureThreshold = 1, bo_Cooldown = 0, bo_MaxCooldown = 0\<rparr>) [EFailure 0]"
      "30 * Second" _ "[]" "1000 * Hour", OF breaker_run_inv [OF NewBreaker_inv]]
  by (simp add: NewBreaker_def breaker_defaults_def breaker_defs time_IsZero_def zero_time_def)

end
