(* ===== verification/Utils.thy ===== *)
theory Utils
  imports Huxio_Prelude
begin

text \<open>
  The helpers of \<^verbatim>\<open>internal/utils\<close>: \<^verbatim>\<open>Unique\<close>, \<^verbatim>\<open>Map\<close>, \<^verbatim>\<open>Deref\<close>, the blank-string tests and
  \<^verbatim>\<open>Truncate\<close>. Strings are byte lists, so Unicode white space is recognised by its UTF-8 bytes,
  as \<^verbatim>\<open>strings.TrimSpace\<close> does.
\<close>

unbundle bit_operations_syntax

section \<open>slice.go\<close>

text \<open>\<^verbatim>\<open>seen\<close> is the map of values met so far.\<close>

fun Unique_loop :: "'a set \<Rightarrow> 'a list \<Rightarrow> 'a list \<Rightarrow> 'a list" where
  "Unique_loop seen out [] = out"
| "Unique_loop seen out (v # vs) =
     (if v \<in> seen then Unique_loop seen out vs
      else Unique_loop (insert v seen) (out @ [v]) vs)"

definition Unique :: "'a list \<Rightarrow> 'a list" where
  "Unique s = Unique_loop {} [] s"

lemma Unique_loop_spec:
  assumes "set out = seen" and "distinct out"
  shows "set (Unique_loop seen out vs) = seen \<union> set vs \<and> distinct (Unique_loop seen out vs)"
  using assms by (induction vs arbitrary: seen out) auto

lemma set_Unique [simp]: "set (Unique s) = set s"
  using Unique_loop_spec [of "[]" "{}" s] by (simp add: Unique_def)

lemma distinct_Unique [simp]: "distinct (Unique s)"
  using Unique_loop_spec [of "[]" "{}" s] by (simp add: Unique_def)

lemma Unique_loop_distinct:
  assumes "distinct vs" and "set vs \<inter> seen = {}"
  shows "Unique_loop seen out vs = out @ vs"
  using assms by (induction vs arbitrary: seen out) auto

lemma Unique_id [simp]: "distinct s \<Longrightarrow> Unique s = s"
  by (simp add: Unique_def Unique_loop_distinct)

section \<open>ptr.go\<close>

definition Deref :: "'a option \<Rightarrow> 'a \<Rightarrow> 'a" where
  "Deref v d = (case v of None \<Rightarrow> d | Some x \<Rightarrow> x)"

section \<open>str.go\<close>

text \<open>
  The byte length of the white space rune at the head of a string, 0 when there is none:
  \<^verbatim>\<open>unicode.IsSpace\<close> over UTF-8.
\<close>

definition space_prefix :: "nat list \<Rightarrow> nat" where
  "space_prefix cs = (case cs of
      [] \<Rightarrow> 0
    | a # r1 \<Rightarrow>
       if a \<in> {9, 10, 11, 12, 13, 32} then 1
       else (case r1 of
          [] \<Rightarrow> 0
        | b # r2 \<Rightarrow>
           if a = 194 \<and> (b = 133 \<or> b = 160) then 2
           else (case r2 of
              [] \<Rightarrow> 0
            | c # _ \<Rightarrow>
               if (a = 225 \<and> b = 154 \<and> c = 128) \<or>
                  (a = 226 \<and> b = 128 \<and> ((128 \<le> c \<and> c \<le> 138) \<or> c = 168 \<or> c = 169 \<or> c = 175)) \<or>
                  (a = 226 \<and> b = 129 \<and> c = 159) \<or>
                  (a = 227 \<and> b = 128 \<and> c = 128)
               then 3 else 0)))"

text \<open>
  \<^verbatim>\<open>strings.TrimSpace\<close>: white space runes are taken off the head, then off the end. The encodings
  are self-synchronizing, so the last rune is white space when a suffix of one to three bytes is.
\<close>

function trim_left :: "nat list \<Rightarrow> nat list" where
  "trim_left cs = (if space_prefix cs = 0 \<or> cs = [] then cs else trim_left (drop (space_prefix cs) cs))"
  by pat_completeness auto
termination
  by (relation "measure length") auto

declare trim_left.simps [simp del]

definition space_suffix :: "nat list \<Rightarrow> nat" where
  "space_suffix cs = (case filter (\<lambda>k. k \<le> length cs \<and> space_prefix (drop (length cs - k) cs) = k) [1, 2, 3] of
     [] \<Rightarrow> 0 | k # _ \<Rightarrow> k)"

function trim_right :: "nat list \<Rightarrow> nat list" where
  "trim_right cs = (if space_suffix cs = 0 \<or> cs = [] then cs else trim_right (take (length cs - space_suffix cs) cs))"
  by pat_completeness auto
termination
  by (relation "measure length") auto

declare trim_right.simps [simp del]

definition TrimSpace :: "string \<Rightarrow> string" where
  "TrimSpace s = map char_of (trim_right (trim_left (map of_char s)))"

definition IsBlank :: "string \<Rightarrow> bool" where
  "IsBlank s \<longleftrightarrow> TrimSpace s = []"

definition NilIfBlank :: "string \<Rightarrow> string option" where
  "NilIfBlank s = (if IsBlank s then None else Some (TrimSpace s))"

definition Fallback :: "string \<Rightarrow> string \<Rightarrow> string" where
  "Fallback s d = (if IsBlank s then d else s)"

definition isUTF8Start :: "byte \<Rightarrow> bool" where
  "isUTF8Start b \<longleftrightarrow> b AND 0xC0 \<noteq> 0x80"

fun truncate_cut :: "bytes \<Rightarrow> nat \<Rightarrow> nat" where
  "truncate_cut s 0 = 0"
| "truncate_cut s (Suc c) = (if isUTF8Start (s ! Suc c) then Suc c else truncate_cut s c)"

definition Truncate :: "bytes \<Rightarrow> int \<Rightarrow> bytes" where
  "Truncate s n = (if n \<le> 0 \<or> int (length s) \<le> n then s
     else take (truncate_cut s (nat n)) s)"

lemma truncate_cut_le: "truncate_cut s c \<le> c"
  by (induction s c rule: truncate_cut.induct) auto

lemma truncate_cut_start: "truncate_cut s c = 0 \<or> isUTF8Start (s ! truncate_cut s c)"
  by (induction s c rule: truncate_cut.induct) auto

lemma truncate_cut_maximal:
  "truncate_cut s c < k \<Longrightarrow> k \<le> c \<Longrightarrow> \<not> isUTF8Start (s ! k)"
  by (induction s c rule: truncate_cut.induct) (auto simp: le_Suc_eq split: if_splits)

lemma IsBlank_empty [simp]: "IsBlank []"
  by (simp add: IsBlank_def TrimSpace_def trim_left.simps trim_right.simps)

lemma NilIfBlank_not_empty: "NilIfBlank s = Some t \<Longrightarrow> t \<noteq> []"
  by (auto simp: NilIfBlank_def IsBlank_def split: if_splits)

lemma Fallback_not_blank [simp]: "\<not> IsBlank s \<Longrightarrow> Fallback s d = s"
  by (simp add: Fallback_def)

lemma Fallback_blank [simp]: "IsBlank s \<Longrightarrow> Fallback s d = d"
  by (simp add: Fallback_def)

section \<open>strings\<close>

text \<open>
  \<^verbatim>\<open>strings.ToLower\<close>: byte by byte on ASCII; for other strings the Unicode mapping is the
  parameter \<open>lowerUnicode\<close>.
\<close>

definition lower_char :: "char \<Rightarrow> char" where
  "lower_char c = (let n = (of_char c :: nat) in if 65 \<le> n \<and> n \<le> 90 then char_of (n + 32) else c)"

definition ToLower :: "(string \<Rightarrow> string) \<Rightarrow> string \<Rightarrow> string" where
  "ToLower lowerUnicode s = (if list_all (\<lambda>c. (of_char c :: nat) < 128) s then map lower_char s else lowerUnicode s)"

end
