(* ===== verification/Entities.thy ===== *)
theory Entities
  imports Utils
begin

text \<open>
  The domain structs of \<^verbatim>\<open>internal/domain/entities\<close> and their methods: endpoints with their
  filters and secrets, queue tasks and the routing of an id to its partition (CRC-32 of the id,
  modulo the fixed partition count), delivery attempts, leases and idempotency records.
  \<^verbatim>\<open>json.RawMessage\<close> fields are byte lists; enumerations persisted as \<^verbatim>\<open>int16\<close> are datatypes with
  one extra constructor for a number outside the declared constants.
\<close>

section \<open>delivery_attempt.go\<close>

datatype AttemptStatus = AttemptSucceeded | AttemptPendingRetry | AttemptFailed

datatype TriggerType = TriggerScheduled | TriggerManual | TriggerBulkReplay | TriggerOther int

definition Retryable :: "TriggerType \<Rightarrow> bool" where
  "Retryable t \<longleftrightarrow> t = TriggerScheduled"

record DeliveryAttempt =
  att_ID :: string
  att_CreatedAt :: time
  att_OrgID :: string
  att_AppID :: string
  att_MsgID :: string
  att_EndpointID :: string
  att_URL :: string
  att_Status :: AttemptStatus
  att_ResponseStatusCode :: int
  att_ResponseBody :: bytes
  att_ResponseDurationMS :: int
  att_AttemptNumber :: int
  att_TriggerType :: TriggerType
  att_NextAttemptAt :: "time option"
  att_DeletedAt :: "time option"

section \<open>delivery_task.go\<close>

datatype TaskKind = TaskFanout | TaskDeliver | TaskKindOther int

definition QueuePartitions :: int where
  "QueuePartitions = 256"

record DeliveryTask =
  task_ID :: int
  task_PartitionKey :: int
  task_Pool :: string
  task_Kind :: TaskKind
  task_OrgID :: string
  task_AppID :: string
  task_MsgID :: string
  task_MsgCreatedAt :: time
  task_EndpointID :: "string option"
  task_Attempt :: int
  task_TriggerType :: TriggerType
  task_VisibleAt :: time
  task_LockedBy :: "string option"
  task_LockedUntil :: "time option"
  task_CreatedAt :: time

text \<open>
  \<^verbatim>\<open>hash/crc32\<close> with the IEEE polynomial, bit by bit: the reflected polynomial is
  \<^verbatim>\<open>0xEDB88320\<close>, the register starts and ends complemented.
\<close>

fun crc32_bits :: "nat \<Rightarrow> 32 word \<Rightarrow> 32 word" where
  "crc32_bits 0 crc = crc"
| "crc32_bits (Suc n) crc =
     crc32_bits n (if bit crc 0 then drop_bit 1 crc XOR 0xEDB88320 else drop_bit 1 crc)"

definition crc32_byte :: "32 word \<Rightarrow> byte \<Rightarrow> 32 word" where
  "crc32_byte crc b = crc32_bits 8 (crc XOR ucast b)"

definition ChecksumIEEE :: "bytes \<Rightarrow> 32 word" where
  "ChecksumIEEE data = NOT (foldl crc32_byte (NOT 0) data)"

definition PartitionKeyFor :: "string \<Rightarrow> int" where
  "PartitionKeyFor i = wrap16 (uint (ChecksumIEEE (bytes_of i) mod 256))"

lemma PartitionKeyFor_eq: "PartitionKeyFor i = uint (ChecksumIEEE (bytes_of i)) mod 256"
proof -
  have "0 \<le> uint (ChecksumIEEE (bytes_of i)) mod 256 \<and> uint (ChecksumIEEE (bytes_of i)) mod 256 < 2 ^ 15"
    using pos_mod_bound [of 256 "uint (ChecksumIEEE (bytes_of i))"]
    by (auto simp del: pos_mod_bound)
  then show ?thesis by (simp add: PartitionKeyFor_def uint_mod_distrib wrap16_def)
qed

lemma PartitionKeyFor_range: "0 \<le> PartitionKeyFor i \<and> PartitionKeyFor i < QueuePartitions"
  by (simp add: PartitionKeyFor_eq QueuePartitions_def)

section \<open>endpoint.go\<close>

datatype SecretType = SecretTypeHMAC256 | SecretTypeEd25519 | SecretTypeOther string

definition SecretType_Valid :: "SecretType \<Rightarrow> bool" where
  "SecretType_Valid s \<longleftrightarrow> s = SecretTypeHMAC256 \<or> s = SecretTypeEd25519"

record SealedSecret =
  sealed_Sealed :: bytes
  sealed_ExpiresAt :: "time option"

definition SealedSecret_Expired :: "SealedSecret \<Rightarrow> time \<Rightarrow> bool" where
  "SealedSecret_Expired s now =
     (case sealed_ExpiresAt s of None \<Rightarrow> False | Some e \<Rightarrow> now > e)"

record Endpoint =
  ep_ID :: string
  ep_AppID :: string
  ep_OrgID :: string
  ep_UID :: "string option"
  ep_URL :: string
  ep_Description :: string
  ep_Version :: int
  ep_RateLimit :: "int option"
  ep_EventTypes :: "string list"
  ep_Channels :: "string list"
  ep_Headers :: bytes
  ep_Secret :: SealedSecret
  ep_SecretType :: SecretType
  ep_OldSecrets :: "SealedSecret list"
  ep_Pool :: string
  ep_FirstFailureAt :: "time option"
  ep_DisabledAt :: "time option"
  ep_CreatedAt :: time
  ep_UpdatedAt :: time
  ep_DeletedAt :: "time option"

definition Disabled :: "('a) Endpoint_scheme \<Rightarrow> bool" where
  "Disabled e \<longleftrightarrow> ep_DisabledAt e \<noteq> None"

definition Deleted :: "('a) Endpoint_scheme \<Rightarrow> bool" where
  "Deleted e \<longleftrightarrow> ep_DeletedAt e \<noteq> None"

definition Deliverable :: "('a) Endpoint_scheme \<Rightarrow> bool" where
  "Deliverable e \<longleftrightarrow> \<not> Disabled e \<and> \<not> Deleted e"

definition WantsEventType :: "('a) Endpoint_scheme \<Rightarrow> string \<Rightarrow> bool" where
  "WantsEventType e name =
     (if ep_EventTypes e = [] then True else list_ex (\<lambda>t. t = name) (ep_EventTypes e))"

definition WantsChannels :: "('a) Endpoint_scheme \<Rightarrow> string list \<Rightarrow> bool" where
  "WantsChannels e channels =
     (if ep_Channels e = [] then True
      else if channels = [] then False
      else list_ex (\<lambda>c. c \<in> set (ep_Channels e)) channels)"

definition ActiveSecrets :: "('a) Endpoint_scheme \<Rightarrow> time \<Rightarrow> SealedSecret list" where
  "ActiveSecrets e now = ep_Secret e # filter (\<lambda>s. \<not> SealedSecret_Expired s now) (ep_OldSecrets e)"

lemma WantsEventType_iff: "WantsEventType e n \<longleftrightarrow> ep_EventTypes e = [] \<or> n \<in> set (ep_EventTypes e)"
  by (auto simp: WantsEventType_def list_ex_iff)

lemma WantsChannels_iff:
  "WantsChannels e cs \<longleftrightarrow> ep_Channels e = [] \<or> set (ep_Channels e) \<inter> set cs \<noteq> {}"
  by (auto simp: WantsChannels_def list_ex_iff)

section \<open>message.go, application.go, event_type.go, organization.go\<close>

record Message =
  msg_ID :: string
  msg_CreatedAt :: time
  msg_OrgID :: string
  msg_AppID :: string
  msg_EventType :: string
  msg_UID :: "string option"
  msg_Channels :: "string list"
  msg_Payload :: bytes
  msg_PayloadSize :: int
  msg_ExpiresAt :: time
  msg_DeletedAt :: "time option"

record Application =
  app_ID :: string
  app_OrgID :: string
  app_UID :: "string option"
  app_Name :: string
  app_RateLimit :: "int option"
  app_Metadata :: bytes
  app_CreatedAt :: time
  app_UpdatedAt :: time
  app_DeletedAt :: "time option"

record EventType =
  et_OrgID :: string
  et_Name :: string
  et_Description :: string
  et_Schemas :: bytes
  et_CreatedAt :: time
  et_UpdatedAt :: time
  et_DeletedAt :: "time option"

definition Archived :: "EventType \<Rightarrow> bool" where
  "Archived e \<longleftrightarrow> et_DeletedAt e \<noteq> None"

record Organization =
  org_ID :: string
  org_Name :: string
  org_CreatedAt :: time
  org_UpdatedAt :: time
  org_DeletedAt :: "time option"

section \<open>coordination.go\<close>

record PartitionLease =
  pl_PartitionKey :: int
  pl_Pool :: string
  pl_OwnerID :: "string option"
  pl_HeartbeatAt :: "time option"
  pl_CreatedAt :: time

definition PartitionLease_Expired :: "PartitionLease \<Rightarrow> time \<Rightarrow> duration \<Rightarrow> bool" where
  "PartitionLease_Expired l now ttl = (case pl_OwnerID l of
      None \<Rightarrow> True
    | Some ow \<Rightarrow> if ow = [] then True
        else (case pl_HeartbeatAt l of None \<Rightarrow> True | Some h \<Rightarrow> time_Sub now h > ttl))"

record NamedLease =
  nl_Name :: string
  nl_OwnerID :: string
  nl_HeartbeatAt :: time
  nl_CreatedAt :: time

record Worker =
  wk_ID :: string
  wk_Pools :: "string list"
  wk_Version :: string
  wk_HeartbeatAt :: time
  wk_CreatedAt :: time

section \<open>idempotency.go\<close>

datatype IdempotencyStatus = IdempotencyInProgress | IdempotencyComplete

record IdempotencyRecord =
  idem_Key :: string
  idem_Status :: IdempotencyStatus
  idem_Response :: bytes
  idem_StatusCode :: "int option"
  idem_ExpiresAt :: time
  idem_CreatedAt :: time

end
