(* ===== verification/Ports.thy ===== *)
theory Ports
  imports Entities
begin

text \<open>
  \<^verbatim>\<open>internal/application/dispatch/ports.go\<close> and the queue types of
  \<^verbatim>\<open>internal/domain/repositories/queue_repository.go\<close>: the values that cross the engine's ports,
  and the ports themselves. A Go interface is a record of its methods over a state \<open>'q\<close>; a
  method that can fail returns the error, if any, with the new state. What the engine relies on
  is the locale \<open>queue_contract\<close>.
\<close>

section \<open>Values\<close>

record DeliveryRequest =
  req_URL :: string
  req_Body :: bytes
  req_Headers :: "string \<rightharpoonup> string"
  req_Timeout :: duration

record DeliveryResult =
  res_StatusCode :: int
  res_Body :: bytes
  res_Duration :: duration
  res_Err :: "string option"
  res_Timeout :: bool
  res_Refused :: bool
  res_ConnectionReused :: bool
  res_RetryAfter :: "duration option"

definition Succeeded :: "DeliveryResult \<Rightarrow> bool" where
  "Succeeded r \<longleftrightarrow> res_Err r = None \<and> res_StatusCode r \<ge> 200 \<and> res_StatusCode r < 300"

datatype TaskAction = TaskComplete | TaskRetry

record TaskOutcome =
  to_TaskID :: int
  to_Action :: TaskAction
  to_Delay :: duration

record AttemptRecord =
  ar_Attempt :: DeliveryAttempt
  ar_Task :: "TaskOutcome option"

text \<open>The operational event types, and the event; the detail map is kept as its typed entries.\<close>

datatype OperationalType =
  EventAttemptFailing | EventAttemptRecovered | EventAttemptExhausted | EventEndpointDisabled

datatype OperationalDetail =
    AttemptDetail int int string
  | DisabledDetail string duration

record OperationalEvent =
  oe_OrgID :: string
  oe_Type :: OperationalType
  oe_AppID :: string
  oe_EndpointID :: string
  oe_MsgID :: string
  oe_Detail :: OperationalDetail

record EnqueueTask =
  et_PartitionKey :: int
  et_Pool :: string
  et_Kind :: TaskKind
  et_TaskOrgID :: string
  et_AppID :: string
  et_MsgID :: string
  et_MsgCreatedAt :: time
  et_EndpointID :: "string option"
  et_Attempt :: int
  et_TriggerType :: TriggerType
  et_VisibleAt :: time

record ClaimRequest =
  cr_Pool :: string
  cr_Partitions :: "int list"
  cr_OwnerID :: string
  cr_LockTTL :: duration
  cr_Limit :: int

section \<open>The queue port\<close>

type_synonym 'q action = "'q \<Rightarrow> repo_error option \<times> 'q"

record 'q Queue =
  q_Claim :: "ClaimRequest \<Rightarrow> 'q \<Rightarrow> (repo_error + DeliveryTask list) \<times> 'q"
  q_Complete :: "int \<Rightarrow> 'q action"
  q_CompleteMany :: "int list \<Rightarrow> 'q action"
  q_Retry :: "int \<Rightarrow> duration \<Rightarrow> 'q action"
  q_Defer :: "int \<Rightarrow> duration \<Rightarrow> 'q action"
  q_Release :: "int list \<Rightarrow> 'q action"
  q_Enqueue :: "time \<Rightarrow> EnqueueTask list \<Rightarrow> 'q action"
  q_Notify :: "int \<Rightarrow> 'q action"
  q_WithinTransaction :: "'q action \<Rightarrow> 'q action"

text \<open>What a retry, a deferral and a release do to one row.\<close>

definition unlocked :: "DeliveryTask \<Rightarrow> DeliveryTask" where
  "unlocked t = t\<lparr>task_LockedBy := None, task_LockedUntil := None\<rparr>"

definition retried :: "time \<Rightarrow> duration \<Rightarrow> DeliveryTask \<Rightarrow> DeliveryTask" where
  "retried now delay t = unlocked
     (t\<lparr>task_Attempt := task_Attempt t + 1, task_VisibleAt := now + Milliseconds delay * Millisecond\<rparr>)"

definition deferred :: "time \<Rightarrow> duration \<Rightarrow> DeliveryTask \<Rightarrow> DeliveryTask" where
  "deferred now delay t = unlocked (t\<lparr>task_VisibleAt := now + Milliseconds delay * Millisecond\<rparr>)"

text \<open>The request a stored row came from, its id, lock and creation time left out.\<close>

definition enqueued_as :: "DeliveryTask \<Rightarrow> EnqueueTask \<Rightarrow> bool" where
  "enqueued_as t e \<longleftrightarrow>
     task_PartitionKey t = et_PartitionKey e \<and> task_Pool t = et_Pool e \<and> task_Kind t = et_Kind e \<and>
     task_OrgID t = et_TaskOrgID e \<and> task_AppID t = et_AppID e \<and> task_MsgID t = et_MsgID e \<and>
     task_MsgCreatedAt t = et_MsgCreatedAt e \<and> task_EndpointID t = et_EndpointID e \<and>
     task_Attempt t = et_Attempt e \<and> task_TriggerType t = et_TriggerType e \<and>
     task_LockedBy t = None \<and> task_LockedUntil t = None"

text \<open>
  The contract: the queue is a finite map from ids to rows (\<open>look\<close>) with the database clock
  (\<open>clock\<close>). An operation that reports an error leaves the map as it was.
\<close>

locale queue_contract =
  fixes Q :: "'q Queue"
    and look :: "'q \<Rightarrow> int \<rightharpoonup> DeliveryTask"
    and clock :: "'q \<Rightarrow> time"
    and valid :: "'q \<Rightarrow> bool"
  assumes Complete_look: "valid q \<Longrightarrow> look (snd (q_Complete Q i q)) =
      (if fst (q_Complete Q i q) = None then (look q)(i := None) else look q)"
    and CompleteMany_look: "valid q \<Longrightarrow> look (snd (q_CompleteMany Q is q)) =
      (if fst (q_CompleteMany Q is q) = None then look q |` (- set is) else look q)"
    and Retry_look: "valid q \<Longrightarrow> look (snd (q_Retry Q i d q)) =
      (if fst (q_Retry Q i d q) = None
       then (look q)(i := map_option (retried (clock q) d) (look q i)) else look q)"
    and Defer_look: "valid q \<Longrightarrow> look (snd (q_Defer Q i d q)) =
      (if fst (q_Defer Q i d q) = None
       then (look q)(i := map_option (deferred (clock q) d) (look q i)) else look q)"
    and Release_look: "valid q \<Longrightarrow> look (snd (q_Release Q is q)) =
      (if fst (q_Release Q is q) = None
       then (\<lambda>i. if i \<in> set is then map_option unlocked (look q i) else look q i) else look q)"
    and Enqueue_ok: "valid q \<Longrightarrow> fst (q_Enqueue Q now ts q) = None \<Longrightarrow>
      \<exists>rows. list_all2 enqueued_as rows ts \<and> distinct (map task_ID rows) \<and>
        set (map task_ID rows) \<inter> dom (look q) = {} \<and>
        look (snd (q_Enqueue Q now ts q)) = look q ++ map_of (map (\<lambda>t. (task_ID t, t)) rows)"
    and Enqueue_err: "valid q \<Longrightarrow> fst (q_Enqueue Q now ts q) \<noteq> None \<Longrightarrow>
      look (snd (q_Enqueue Q now ts q)) = look q"
    and Notify_look: "valid q \<Longrightarrow> look (snd (q_Notify Q p q)) = look q"
    and Tx_ok: "valid q \<Longrightarrow> fst (q_WithinTransaction Q f q) = None \<Longrightarrow>
      \<exists>q0. look q0 = look q \<and> valid q0 \<and> fst (f q0) = None \<and>
        look (snd (q_WithinTransaction Q f q)) = look (snd (f q0))"
    and Tx_err: "valid q \<Longrightarrow> fst (q_WithinTransaction Q f q) \<noteq> None \<Longrightarrow>
      look (snd (q_WithinTransaction Q f q)) = look q"
    and Claim_dom: "valid q \<Longrightarrow> dom (look (snd (q_Claim Q req q))) = dom (look q)"
    and valid_ops [simp]:
      "valid q \<Longrightarrow> valid (snd (q_Complete Q i q))" "valid q \<Longrightarrow> valid (snd (q_CompleteMany Q is q))"
      "valid q \<Longrightarrow> valid (snd (q_Retry Q i d q))" "valid q \<Longrightarrow> valid (snd (q_Defer Q i d q))"
      "valid q \<Longrightarrow> valid (snd (q_Release Q is q))" "valid q \<Longrightarrow> valid (snd (q_Enqueue Q now ts q))"
      "valid q \<Longrightarrow> valid (snd (q_Notify Q p q))"
      "valid q \<Longrightarrow> valid (snd (q_Claim Q req q))"
    and valid_Tx: "valid q \<Longrightarrow> (\<And>p. valid p \<Longrightarrow> valid (snd (f p))) \<Longrightarrow>
      valid (snd (q_WithinTransaction Q f q))"
begin

text \<open>Only completion removes rows; every other operation keeps the set of ids or adds to it.\<close>

lemma ids_Complete: "valid q \<Longrightarrow> dom (look q) - {i} \<subseteq> dom (look (snd (q_Complete Q i q)))"
  by (auto simp: Complete_look)

lemma ids_Retry [simp]: "valid q \<Longrightarrow> dom (look (snd (q_Retry Q i d q))) = dom (look q)"
  by (auto simp: Retry_look split: if_splits)

lemma ids_Defer [simp]: "valid q \<Longrightarrow> dom (look (snd (q_Defer Q i d q))) = dom (look q)"
  by (auto simp: Defer_look split: if_splits)

lemma ids_Release [simp]: "valid q \<Longrightarrow> dom (look (snd (q_Release Q is q))) = dom (look q)"
  by (auto simp: Release_look split: if_splits)

lemma ids_Enqueue: "valid q \<Longrightarrow> dom (look q) \<subseteq> dom (look (snd (q_Enqueue Q now ts q)))"
  using Enqueue_ok [of q now ts] Enqueue_err [of q now ts] by fastforce

end

end
