(* ===== verification/Lane.thy ===== *)
theory Lane
  imports Breaker Ports "HOL-Library.Multiset"
begin

text \<open>
  \<^verbatim>\<open>internal/application/dispatch/lane.go\<close>: the per-endpoint lane, a resizable semaphore with a
  bounded waiting room, AIMD concurrency, a breaker and the health flags.

  Methods that run under one lock are functions on the lane. \<open>Acquire\<close> releases the lock while it
  waits, so it is cut at its lock regions (\<open>Acquire_enter\<close>, \<open>Acquire_try\<close>, \<open>cancelWaiter\<close>,
  \<open>Acquire_leave\<close>), composed in program order by \<open>Acquire\<close> with the interference of the other
  goroutines at each wait as an argument. The step relation at the end interleaves the same
  regions for any number of goroutines. A waiter channel is a number; \<open>ln_woken\<close> holds the
  channels that were closed and whose goroutine has not run yet. The \<^verbatim>\<open>x/time/rate\<close> limiter is
  third-party: its answers are arguments.
\<close>

record LaneOptions =
  lo_InitialConcurrency :: int
  lo_MaxConcurrency :: int
  lo_SuccessesPerIncrease :: int
  lo_RateLimit :: int
  lo_MaxWaiters :: int
  lo_Breaker :: BreakerOptions

record Lane =
  ln_endpointID :: string
  ln_opts :: LaneOptions
  ln_breaker :: Breaker
  ln_limiter :: "(int \<times> int) option"
  ln_concurrency :: int
  ln_inFlight :: int
  ln_waiting :: int
  ln_waiters :: "nat list"
  ln_woken :: "nat list"
  ln_nextChan :: nat
  ln_successes :: int
  ln_inflightGauge :: int
  ln_lastUsed :: time
  ln_failingNotice :: bool
  ln_failureStart :: "time option"
  ln_disabled :: bool
  ln_quarantined :: bool

definition lane_defaults :: "LaneOptions \<Rightarrow> LaneOptions" where
  "lane_defaults opts =
    (let opts = (if lo_MaxConcurrency opts \<le> 0 then opts\<lparr>lo_MaxConcurrency := 64\<rparr> else opts);
         opts = (if lo_InitialConcurrency opts \<le> 0 \<or> lo_InitialConcurrency opts > lo_MaxConcurrency opts
                 then opts\<lparr>lo_InitialConcurrency := min 8 (lo_MaxConcurrency opts)\<rparr> else opts);
         opts = (if lo_SuccessesPerIncrease opts \<le> 0 then opts\<lparr>lo_SuccessesPerIncrease := 10\<rparr> else opts);
         opts = (if lo_MaxWaiters opts \<le> 0 then opts\<lparr>lo_MaxWaiters := 4 * lo_MaxConcurrency opts\<rparr> else opts)
     in opts)"

definition touch :: "time \<Rightarrow> Lane \<Rightarrow> Lane" where
  "touch now l = l\<lparr>ln_lastUsed := now\<rparr>"

definition NewLane :: "time \<Rightarrow> string \<Rightarrow> LaneOptions \<Rightarrow> Lane" where
  "NewLane now endpointID opts = (let opts = lane_defaults opts in
     touch now
     \<lparr>ln_endpointID = endpointID, ln_opts = opts, ln_breaker = NewBreaker (lo_Breaker opts),
      ln_limiter = (if lo_RateLimit opts > 0 then Some (lo_RateLimit opts, max 1 (lo_RateLimit opts)) else None),
      ln_concurrency = lo_InitialConcurrency opts, ln_inFlight = 0, ln_waiting = 0,
      ln_waiters = [], ln_woken = [], ln_nextChan = 0, ln_successes = 0, ln_inflightGauge = 0,
      ln_lastUsed = 0, ln_failingNotice = False, ln_failureStart = None, ln_disabled = False,
      ln_quarantined = False\<rparr>)"

section \<open>The semaphore\<close>

definition take_slot :: "Lane \<Rightarrow> Lane" where
  "take_slot l = l\<lparr>ln_inFlight := ln_inFlight l + 1, ln_inflightGauge := wrap32 (ln_inFlight l + 1)\<rparr>"

definition Acquire_enter :: "time \<Rightarrow> Lane \<Rightarrow> bool \<times> Lane" where
  "Acquire_enter now l = (let l = touch now l in
     if ln_waiting l \<ge> lo_MaxWaiters (ln_opts l) then (False, l)
     else (True, l\<lparr>ln_waiting := ln_waiting l + 1\<rparr>))"

definition Acquire_leave :: "Lane \<Rightarrow> Lane" where
  "Acquire_leave l = l\<lparr>ln_waiting := ln_waiting l - 1\<rparr>"

text \<open>One pass of the loop: a slot (\<open>None\<close>), or a new waiter channel appended to the queue.\<close>

definition Acquire_try :: "Lane \<Rightarrow> nat option \<times> Lane" where
  "Acquire_try l =
     (if ln_inFlight l < ln_concurrency l then (None, take_slot l)
      else (Some (ln_nextChan l),
            l\<lparr>ln_waiters := ln_waiters l @ [ln_nextChan l], ln_nextChan := Suc (ln_nextChan l)\<rparr>))"

definition cancelWaiter :: "nat \<Rightarrow> Lane \<Rightarrow> Lane" where
  "cancelWaiter c l = l\<lparr>ln_waiters := remove1 c (ln_waiters l)\<rparr>"

text \<open>
  What happens while the goroutine waits: the others change the lane, then either its channel is
  closed (\<open>Woken\<close>) or the context ends first. When the script ends the context has ended.
\<close>

datatype wait_event = Woken "Lane \<Rightarrow> Lane" | CtxDone "Lane \<Rightarrow> Lane"

datatype acquire_error = ErrLaneSaturated | LimiterError | CtxError

text \<open>The goroutine resumes: its closed channel is no longer pending.\<close>

definition resume :: "nat \<Rightarrow> Lane \<Rightarrow> Lane" where
  "resume c l = l\<lparr>ln_woken := remove1 c (ln_woken l)\<rparr>"

fun Acquire_loop :: "wait_event list \<Rightarrow> Lane \<Rightarrow> acquire_error option \<times> Lane" where
  "Acquire_loop env l = (case Acquire_try l of
      (None, l1) \<Rightarrow> (None, l1)
    | (Some c, l1) \<Rightarrow>
       (case env of
          [] \<Rightarrow> (Some CtxError, cancelWaiter c l1)
        | CtxDone f # _ \<Rightarrow> (Some CtxError, cancelWaiter c (resume c (f l1)))
        | Woken f # env' \<Rightarrow> Acquire_loop env' (resume c (f l1))))"

declare Acquire_loop.simps [simp del]

definition Acquire :: "time \<Rightarrow> bool \<Rightarrow> wait_event list \<Rightarrow> Lane \<Rightarrow> acquire_error option \<times> Lane" where
  "Acquire now limiter_ok env l = (case Acquire_enter now l of
      (False, l1) \<Rightarrow> (Some ErrLaneSaturated, l1)
    | (True, l1) \<Rightarrow>
       if ln_limiter l1 \<noteq> None \<and> \<not> limiter_ok then (Some LimiterError, Acquire_leave l1)
       else case Acquire_loop env l1 of (e, l2) \<Rightarrow> (e, Acquire_leave l2))"

definition TryAcquire :: "time \<Rightarrow> bool \<Rightarrow> Lane \<Rightarrow> bool \<times> Lane" where
  "TryAcquire now limiter_allows l = (let l = touch now l in
     if ln_inFlight l \<ge> ln_concurrency l then (False, l)
     else if ln_limiter l \<noteq> None \<and> \<not> limiter_allows then (False, l)
     else (True, take_slot l))"

text \<open>Wakes as many waiters as there are free slots, from the head of the queue.\<close>

definition wakeWaitersLocked :: "Lane \<Rightarrow> Lane" where
  "wakeWaitersLocked l = (let free = nat (ln_concurrency l - ln_inFlight l) in
     l\<lparr>ln_waiters := drop free (ln_waiters l), ln_woken := ln_woken l @ take free (ln_waiters l)\<rparr>)"

definition Lane_Release :: "Lane \<Rightarrow> Lane" where
  "Lane_Release l =
    (let n = (if ln_inFlight l > 0 then ln_inFlight l - 1 else ln_inFlight l) in
     wakeWaitersLocked (l\<lparr>ln_inFlight := n, ln_inflightGauge := wrap32 n\<rparr>))"

section \<open>Breaker and AIMD\<close>

definition Lane_Allow :: "time \<Rightarrow> Lane \<Rightarrow> bool \<times> Lane" where
  "Lane_Allow now l = (case Breaker_Allow now (ln_breaker l) of (ok, b) \<Rightarrow> (ok, l\<lparr>ln_breaker := b\<rparr>))"

definition Lane_OnSuccess :: "Lane \<Rightarrow> Lane" where
  "Lane_OnSuccess l =
    (let l = l\<lparr>ln_breaker := Breaker_OnSuccess (ln_breaker l)\<rparr>;
         l = l\<lparr>ln_successes := ln_successes l + 1\<rparr> in
     if ln_successes l < lo_SuccessesPerIncrease (ln_opts l) then l
     else let l = l\<lparr>ln_successes := 0\<rparr> in
       if ln_concurrency l < lo_MaxConcurrency (ln_opts l)
       then wakeWaitersLocked (l\<lparr>ln_concurrency := ln_concurrency l + 1\<rparr>)
       else l)"

definition Lane_OnFailure :: "time \<Rightarrow> DeliveryResult \<Rightarrow> Lane \<Rightarrow> Lane" where
  "Lane_OnFailure now result l =
    (let l = l\<lparr>ln_breaker := Breaker_OnFailure now (ln_breaker l)\<rparr>;
         l = l\<lparr>ln_successes := 0\<rparr> in
     if res_Refused result then l\<lparr>ln_concurrency := 1\<rparr>
     else l\<lparr>ln_concurrency := max 1 (go_div (ln_concurrency l) 2)\<rparr>)"

definition Lane_InFlight :: "Lane \<Rightarrow> int" where
  "Lane_InFlight l = ln_inflightGauge l"

section \<open>Health flags\<close>

definition FailureRunStart :: "time option \<Rightarrow> Lane \<Rightarrow> time option \<times> Lane" where
  "FailureRunStart fromSnapshot l = (case ln_failureStart l of
      Some s \<Rightarrow> (Some s, l)
    | None \<Rightarrow> (case fromSnapshot of
        Some s \<Rightarrow> (Some s, l\<lparr>ln_failureStart := Some s\<rparr>)
      | None \<Rightarrow> (None, l)))"

definition BeginFailureRun :: "time \<Rightarrow> Lane \<Rightarrow> bool \<times> Lane" where
  "BeginFailureRun at l =
     (if ln_failureStart l \<noteq> None then (False, l) else (True, l\<lparr>ln_failureStart := Some at\<rparr>))"

definition EndFailureRun :: "Lane \<Rightarrow> bool \<times> Lane" where
  "EndFailureRun l =
     (ln_failureStart l \<noteq> None \<or> ln_disabled l \<or> ln_quarantined l,
      l\<lparr>ln_failureStart := None, ln_disabled := False, ln_quarantined := False\<rparr>)"

definition MarkDisabled :: "Lane \<Rightarrow> bool \<times> Lane" where
  "MarkDisabled l = (if ln_disabled l then (False, l) else (True, l\<lparr>ln_disabled := True\<rparr>))"

definition MarkQuarantined :: "Lane \<Rightarrow> bool \<times> Lane" where
  "MarkQuarantined l = (if ln_quarantined l then (False, l) else (True, l\<lparr>ln_quarantined := True\<rparr>))"

definition MarkFailingNotice :: "Lane \<Rightarrow> bool \<times> Lane" where
  "MarkFailingNotice l = (\<not> ln_failingNotice l, l\<lparr>ln_failingNotice := True\<rparr>)"

definition ClearFailingNotice :: "Lane \<Rightarrow> bool \<times> Lane" where
  "ClearFailingNotice l = (ln_failingNotice l, l\<lparr>ln_failingNotice := False\<rparr>)"

definition IdleFor :: "time \<Rightarrow> Lane \<Rightarrow> duration" where
  "IdleFor now l = time_Sub now (ln_lastUsed l)"

section \<open>Interleaved goroutines\<close>

text \<open>
  Any number of goroutines on one lane. A goroutine inside \<^verbatim>\<open>Acquire\<close> is either new (it has entered
  the waiting room and is at the limiter or before its first pass of the loop), on a channel, woken,
  resumed (its channel was closed and it is about to take the lock again), or leaving (the deferred
  decrement of \<^verbatim>\<open>waiting\<close> has yet to run); one that holds a slot is running. Each step is one lock
  region of one goroutine.
\<close>

record lane_sys =
  ls_lane :: Lane
  ls_new :: nat
  ls_resumed :: nat
  ls_leaving :: nat
  ls_running :: nat

datatype lane_label =
    LEnter time | LRefuse time | LLimiter | LTry | LRetry | LWake nat | LCancel nat | LLateCancel nat
  | LLeave | LTryAcquire time bool | LRelease | LSuccess | LFailure time DeliveryResult | LAllow time | LHealth

definition health_ops :: "Lane \<Rightarrow> Lane set" where
  "health_ops l = {snd (EndFailureRun l), snd (MarkDisabled l), snd (MarkQuarantined l),
     snd (MarkFailingNotice l), snd (ClearFailingNotice l)} \<union>
     range (\<lambda>at. snd (BeginFailureRun at l)) \<union> range (\<lambda>s. snd (FailureRunStart s l))"

inductive lane_step :: "lane_sys \<Rightarrow> lane_label \<Rightarrow> lane_sys \<Rightarrow> bool" where
  enter: "Acquire_enter now (ls_lane s) = (True, l) \<Longrightarrow>
    lane_step s (LEnter now) (s\<lparr>ls_lane := l, ls_new := Suc (ls_new s)\<rparr>)"
| refuse: "Acquire_enter now (ls_lane s) = (False, l) \<Longrightarrow> lane_step s (LRefuse now) (s\<lparr>ls_lane := l\<rparr>)"
| limiter: "ls_new s = Suc n \<Longrightarrow> ln_limiter (ls_lane s) \<noteq> None \<Longrightarrow>
    lane_step s LLimiter (s\<lparr>ls_new := n, ls_leaving := Suc (ls_leaving s)\<rparr>)"
| try_slot: "ls_new s = Suc n \<Longrightarrow> Acquire_try (ls_lane s) = (None, l) \<Longrightarrow>
    lane_step s LTry (s\<lparr>ls_lane := l, ls_new := n, ls_leaving := Suc (ls_leaving s), ls_running := Suc (ls_running s)\<rparr>)"
| try_wait: "ls_new s = Suc n \<Longrightarrow> Acquire_try (ls_lane s) = (Some c, l) \<Longrightarrow>
    lane_step s LTry (s\<lparr>ls_lane := l, ls_new := n\<rparr>)"
| retry_slot: "ls_resumed s = Suc n \<Longrightarrow> Acquire_try (ls_lane s) = (None, l) \<Longrightarrow>
    lane_step s LRetry (s\<lparr>ls_lane := l, ls_resumed := n, ls_leaving := Suc (ls_leaving s), ls_running := Suc (ls_running s)\<rparr>)"
| retry_wait: "ls_resumed s = Suc n \<Longrightarrow> Acquire_try (ls_lane s) = (Some c, l) \<Longrightarrow>
    lane_step s LRetry (s\<lparr>ls_lane := l, ls_resumed := n\<rparr>)"
| wake: "c \<in> set (ln_woken (ls_lane s)) \<Longrightarrow>
    lane_step s (LWake c) (s\<lparr>ls_lane := resume c (ls_lane s), ls_resumed := Suc (ls_resumed s)\<rparr>)"
| cancel: "c \<in> set (ln_waiters (ls_lane s)) \<Longrightarrow>
    lane_step s (LCancel c) (s\<lparr>ls_lane := cancelWaiter c (ls_lane s), ls_leaving := Suc (ls_leaving s)\<rparr>)"
| late_cancel: "c \<in> set (ln_woken (ls_lane s)) \<Longrightarrow>
    lane_step s (LLateCancel c)
      (s\<lparr>ls_lane := cancelWaiter c (resume c (ls_lane s)), ls_leaving := Suc (ls_leaving s)\<rparr>)"
| leave: "ls_leaving s = Suc n \<Longrightarrow>
    lane_step s LLeave (s\<lparr>ls_lane := Acquire_leave (ls_lane s), ls_leaving := n\<rparr>)"
| try_acquire: "TryAcquire now ok (ls_lane s) = (got, l) \<Longrightarrow>
    lane_step s (LTryAcquire now ok)
      (s\<lparr>ls_lane := l, ls_running := (if got then Suc (ls_running s) else ls_running s)\<rparr>)"
| release: "ls_running s = Suc n \<Longrightarrow>
    lane_step s LRelease (s\<lparr>ls_lane := Lane_Release (ls_lane s), ls_running := n\<rparr>)"
| success: "lane_step s LSuccess (s\<lparr>ls_lane := Lane_OnSuccess (ls_lane s)\<rparr>)"
| failure: "lane_step s (LFailure now r) (s\<lparr>ls_lane := Lane_OnFailure now r (ls_lane s)\<rparr>)"
| allow: "lane_step s (LAllow now) (s\<lparr>ls_lane := snd (Lane_Allow now (ls_lane s))\<rparr>)"
| health: "l \<in> health_ops (ls_lane s) \<Longrightarrow> lane_step s LHealth (s\<lparr>ls_lane := l\<rparr>)"

inductive lane_run :: "lane_sys \<Rightarrow> lane_label list \<Rightarrow> lane_sys \<Rightarrow> bool" where
  run_nil: "lane_run s [] s"
| run_snoc: "lane_run s ls s' \<Longrightarrow> lane_step s' a s'' \<Longrightarrow> lane_run s (ls @ [a]) s''"

inductive_cases lane_run_snocE: "lane_run s (ls @ [a]) s'"

definition new_lane_sys :: "time \<Rightarrow> string \<Rightarrow> LaneOptions \<Rightarrow> lane_sys" where
  "new_lane_sys now eid opts =
     \<lparr>ls_lane = NewLane now eid opts, ls_new = 0, ls_resumed = 0, ls_leaving = 0, ls_running = 0\<rparr>"

section \<open>The lane invariant\<close>

definition lane_opts_ok :: "LaneOptions \<Rightarrow> bool" where
  "lane_opts_ok opts \<longleftrightarrow> 1 \<le> lo_InitialConcurrency opts \<and> lo_InitialConcurrency opts \<le> lo_MaxConcurrency opts \<and>
     1 \<le> lo_SuccessesPerIncrease opts \<and> 1 \<le> lo_MaxWaiters opts"

definition sem_inv :: "Lane \<Rightarrow> bool" where
  "sem_inv l \<longleftrightarrow> lane_opts_ok (ln_opts l) \<and>
     1 \<le> ln_concurrency l \<and> ln_concurrency l \<le> lo_MaxConcurrency (ln_opts l) \<and>
     0 \<le> ln_successes l \<and> ln_successes l < lo_SuccessesPerIncrease (ln_opts l) \<and>
     0 \<le> ln_inFlight l \<and> ln_inFlight l \<le> lo_MaxConcurrency (ln_opts l) \<and>
     ln_inflightGauge l = wrap32 (ln_inFlight l) \<and>
     distinct (ln_waiters l @ ln_woken l) \<and> (\<forall>c\<in>set (ln_waiters l @ ln_woken l). c < ln_nextChan l)"

definition lane_inv :: "lane_sys \<Rightarrow> bool" where
  "lane_inv s \<longleftrightarrow> (let l = ls_lane s in sem_inv l \<and> ln_inFlight l = int (ls_running s) \<and>
     ln_waiting l = int (ls_new s + ls_resumed s + ls_leaving s + length (ln_waiters l) + length (ln_woken l)) \<and>
     ln_waiting l \<le> lo_MaxWaiters (ln_opts l))"

text \<open>No wake-up is lost: while someone is on a channel, every free slot has a goroutine on its way to it.\<close>

definition wake_inv :: "lane_sys \<Rightarrow> bool" where
  "wake_inv s \<longleftrightarrow> (let l = ls_lane s in ln_waiters l = [] \<or>
     ln_concurrency l \<le> ln_inFlight l + int (length (ln_woken l)) + int (ls_resumed s))"

lemma lane_defaults_ok: "lane_opts_ok (lane_defaults opts)"
  by (auto simp: lane_opts_ok_def lane_defaults_def Let_def)

lemma wake_frame [simp]:
  "ln_opts (wakeWaitersLocked l) = ln_opts l" "ln_concurrency (wakeWaitersLocked l) = ln_concurrency l"
  "ln_inFlight (wakeWaitersLocked l) = ln_inFlight l" "ln_waiting (wakeWaitersLocked l) = ln_waiting l"
  "ln_successes (wakeWaitersLocked l) = ln_successes l" "ln_inflightGauge (wakeWaitersLocked l) = ln_inflightGauge l"
  "ln_nextChan (wakeWaitersLocked l) = ln_nextChan l" "ln_breaker (wakeWaitersLocked l) = ln_breaker l"
  by (simp_all add: wakeWaitersLocked_def Let_def)

lemma wake_mset: "mset (ln_waiters (wakeWaitersLocked l) @ ln_woken (wakeWaitersLocked l)) = mset (ln_waiters l @ ln_woken l)"
proof -
  have "mset (drop n ws) + mset (take n ws) = mset ws" for n and ws :: "nat list"
    by (metis append_take_drop_id mset_append union_commute)
  then show ?thesis by (simp add: wakeWaitersLocked_def Let_def ac_simps)
qed

lemma wake_channels [simp]:
  "distinct (ln_waiters (wakeWaitersLocked l) @ ln_woken (wakeWaitersLocked l)) = distinct (ln_waiters l @ ln_woken l)"
  "set (ln_waiters (wakeWaitersLocked l) @ ln_woken (wakeWaitersLocked l)) = set (ln_waiters l @ ln_woken l)"
  "length (ln_waiters (wakeWaitersLocked l)) + length (ln_woken (wakeWaitersLocked l)) =
     length (ln_waiters l) + length (ln_woken l)"
  using wake_mset [of l] mset_eq_imp_distinct_iff mset_eq_setD mset_eq_length [OF wake_mset [of l]]
  by (blast, blast, simp)

lemma wake_sem [simp]: "sem_inv (wakeWaitersLocked l) = sem_inv l"
  unfolding sem_inv_def wake_channels wake_frame ..

text \<open>After \<open>wakeWaitersLocked\<close> either nobody is queued or every free slot has been announced.\<close>

lemma wake_enough:
  "ln_waiters (wakeWaitersLocked l) = [] \<or>
     ln_concurrency l \<le> ln_inFlight l + int (length (ln_woken (wakeWaitersLocked l)))"
  by (auto simp: wakeWaitersLocked_def Let_def)
section \<open>The invariant is inductive\<close>

lemma Acquire_enter_cases:
  "Acquire_enter now l = (if ln_waiting l \<ge> lo_MaxWaiters (ln_opts l) then (False, touch now l)
     else (True, (touch now l)\<lparr>ln_waiting := ln_waiting l + 1\<rparr>))"
  by (simp add: Acquire_enter_def touch_def Let_def)

lemma sem_frame [simp]:
  "sem_inv (l\<lparr>ln_lastUsed := t\<rparr>) = sem_inv l" "sem_inv (l\<lparr>ln_waiting := w\<rparr>) = sem_inv l"
  "sem_inv (l\<lparr>ln_breaker := b\<rparr>) = sem_inv l" "sem_inv (l\<lparr>ln_failureStart := fs\<rparr>) = sem_inv l"
  "sem_inv (l\<lparr>ln_disabled := d\<rparr>) = sem_inv l" "sem_inv (l\<lparr>ln_quarantined := d\<rparr>) = sem_inv l"
  "sem_inv (l\<lparr>ln_failingNotice := d\<rparr>) = sem_inv l"
  by (simp_all add: sem_inv_def)

lemma sem_take_slot: "sem_inv l \<Longrightarrow> ln_inFlight l < ln_concurrency l \<Longrightarrow> sem_inv (take_slot l)"
  by (auto simp: sem_inv_def take_slot_def)

lemma sem_new_waiter: "sem_inv l \<Longrightarrow>
    sem_inv (l\<lparr>ln_waiters := ln_waiters l @ [ln_nextChan l], ln_nextChan := Suc (ln_nextChan l)\<rparr>)"
  by (auto simp: sem_inv_def less_Suc_eq)

lemma sem_resume: "sem_inv l \<Longrightarrow> sem_inv (resume c l)"
  by (auto simp: sem_inv_def resume_def dest: notin_set_remove1)

lemma sem_cancel: "sem_inv l \<Longrightarrow> sem_inv (cancelWaiter c l)"
  by (auto simp: sem_inv_def cancelWaiter_def dest: notin_set_remove1)

lemma sem_Release: "sem_inv l \<Longrightarrow> sem_inv (Lane_Release l)"
  unfolding Lane_Release_def Let_def wake_sem by (simp add: sem_inv_def)

lemma sem_OnSuccess: "sem_inv l \<Longrightarrow> sem_inv (Lane_OnSuccess l)"
proof -
  assume inv: "sem_inv l"
  let ?l = "l\<lparr>ln_breaker := Breaker_OnSuccess (ln_breaker l), ln_successes := 0\<rparr>"
  have "sem_inv (l\<lparr>ln_breaker := Breaker_OnSuccess (ln_breaker l), ln_successes := ln_successes l + 1\<rparr>)"
    if "ln_successes l + 1 < lo_SuccessesPerIncrease (ln_opts l)" using inv that by (auto simp: sem_inv_def)
  moreover have "sem_inv ?l" using inv by (auto simp: sem_inv_def lane_opts_ok_def)
  moreover from this have "sem_inv (?l\<lparr>ln_concurrency := ln_concurrency l + 1\<rparr>)"
    if "ln_concurrency l < lo_MaxConcurrency (ln_opts l)" using that by (auto simp: sem_inv_def)
  ultimately show ?thesis by (auto simp: Lane_OnSuccess_def Let_def)
qed

lemma half_bounds: "1 \<le> c \<Longrightarrow> 1 \<le> max 1 (go_div c 2) \<and> max 1 (go_div c 2) \<le> (c::int)"
  by (auto simp: go_div_def)

lemma sem_OnFailure: "sem_inv l \<Longrightarrow> sem_inv (Lane_OnFailure now r l)"
  using half_bounds [of "ln_concurrency l"]
  by (auto simp: sem_inv_def lane_opts_ok_def Lane_OnFailure_def Let_def)

lemma lane_inv_new: "lane_inv (new_lane_sys now eid opts)"
  using lane_defaults_ok [of opts]
  by (auto simp: lane_inv_def new_lane_sys_def NewLane_def touch_def Let_def sem_inv_def lane_opts_ok_def wrap32_def)

lemma Release_frame:
  "ln_opts (Lane_Release l) = ln_opts l" "ln_concurrency (Lane_Release l) = ln_concurrency l"
  "ln_waiting (Lane_Release l) = ln_waiting l"
  "ln_inFlight (Lane_Release l) = (if ln_inFlight l > 0 then ln_inFlight l - 1 else ln_inFlight l)"
  "length (ln_waiters (Lane_Release l)) + length (ln_woken (Lane_Release l)) =
     length (ln_waiters l) + length (ln_woken l)"
  by (simp_all add: Lane_Release_def Let_def)

lemma OnSuccess_frame:
  "ln_opts (Lane_OnSuccess l) = ln_opts l" "ln_waiting (Lane_OnSuccess l) = ln_waiting l"
  "ln_inFlight (Lane_OnSuccess l) = ln_inFlight l"
  "length (ln_waiters (Lane_OnSuccess l)) + length (ln_woken (Lane_OnSuccess l)) =
     length (ln_waiters l) + length (ln_woken l)"
  by (simp_all add: Lane_OnSuccess_def Let_def)

lemma health_frame:
  assumes "l' \<in> health_ops l"
  shows "sem_inv l' = sem_inv l" "ln_opts l' = ln_opts l" "ln_waiting l' = ln_waiting l" "ln_inFlight l' = ln_inFlight l"
    "ln_waiters l' = ln_waiters l" "ln_woken l' = ln_woken l" "ln_concurrency l' = ln_concurrency l"
  using assms by (auto simp: health_ops_def EndFailureRun_def MarkDisabled_def MarkQuarantined_def
      MarkFailingNotice_def ClearFailingNotice_def BeginFailureRun_def FailureRunStart_def split: option.splits if_splits)

lemmas lane_op_defs = Acquire_try_def take_slot_def resume_def cancelWaiter_def Acquire_leave_def
  touch_def Lane_OnFailure_def Lane_Allow_def

lemma length_remove1_int: "c \<in> set cs \<Longrightarrow> int (length (remove1 c cs)) = int (length cs) - 1"
  by (induction cs) auto

lemma Acquire_try_sem: "sem_inv l \<Longrightarrow> sem_inv (snd (Acquire_try l))"
  using sem_take_slot sem_new_waiter by (simp add: Acquire_try_def)

lemma lane_step_sem: "lane_step s a s' \<Longrightarrow> sem_inv (ls_lane s) \<Longrightarrow> sem_inv (ls_lane s')"
proof (induction rule: lane_step.induct)
  case (try_slot s n l) then show ?case using Acquire_try_sem [of "ls_lane s"] by simp
next
  case (try_wait s n c l) then show ?case using Acquire_try_sem [of "ls_lane s"] by simp
next
  case (retry_slot s n l) then show ?case using Acquire_try_sem [of "ls_lane s"] by simp
next
  case (retry_wait s n c l) then show ?case using Acquire_try_sem [of "ls_lane s"] by simp
next
  case (try_acquire now ok s got l)
  then show ?case using sem_take_slot [of "touch now (ls_lane s)"]
    by (auto simp: TryAcquire_def touch_def Let_def split: if_splits)
qed (auto simp: Acquire_enter_cases touch_def Acquire_leave_def Lane_Allow_def sem_resume sem_cancel sem_Release
    sem_OnSuccess sem_OnFailure health_frame(1) split: if_splits prod.splits)

lemma woken_not_waiting: "sem_inv l \<Longrightarrow> c \<in> set (ln_woken l) \<Longrightarrow> remove1 c (ln_waiters l) = ln_waiters l"
  by (auto simp: sem_inv_def intro!: remove1_idem)

lemma lane_step_inv: "lane_step s a s' \<Longrightarrow> lane_inv s \<Longrightarrow> lane_inv s'"
proof -
  assume st: "lane_step s a s'" and inv: "lane_inv s"
  have "sem_inv (ls_lane s')" using lane_step_sem [OF st] inv by (simp add: lane_inv_def Let_def)
  with st inv show ?thesis
  proof (induction rule: lane_step.induct)
    case (release s n)
    then show ?case using Release_frame [of "ls_lane s"] by (simp add: lane_inv_def Let_def flip: of_nat_add)
  next
    case (success s)
    then show ?case using OnSuccess_frame [of "ls_lane s"] by (simp add: lane_inv_def Let_def flip: of_nat_add)
  next
    case (late_cancel c s)
    then show ?case using woken_not_waiting [of "ls_lane s" c]
      by (simp add: lane_inv_def Let_def resume_def cancelWaiter_def length_remove1_int)
  next
    case (health l s)
    then show ?case by (simp add: lane_inv_def Let_def health_frame)
  qed (auto simp: lane_inv_def Let_def Acquire_enter_cases TryAcquire_def lane_op_defs length_remove1_int
      split: if_splits prod.splits)
qed

lemma lane_run_inv: "lane_run s ls s' \<Longrightarrow> lane_inv s \<Longrightarrow> lane_inv s'"
  by (induction rule: lane_run.induct) (auto dest: lane_step_inv)

lemma lane_step_opts: "lane_step s a s' \<Longrightarrow> ln_opts (ls_lane s') = ln_opts (ls_lane s)"
  by (induction rule: lane_step.induct)
    (auto simp: Acquire_enter_cases TryAcquire_def Let_def lane_op_defs health_frame Release_frame OnSuccess_frame split: if_splits prod.splits)

lemma lane_run_opts: "lane_run s ls s' \<Longrightarrow> ln_opts (ls_lane s') = ln_opts (ls_lane s)"
  by (induction rule: lane_run.induct) (auto dest: lane_step_opts)
section \<open>Wake-ups\<close>

definition late :: "lane_label \<Rightarrow> bool" where
  "late a = (case a of LLateCancel c \<Rightarrow> True | _ \<Rightarrow> False)"

lemma Release_wakes: "ln_waiters (Lane_Release l) = [] \<or>
    ln_concurrency (Lane_Release l) \<le> ln_inFlight (Lane_Release l) + int (length (ln_woken (Lane_Release l)))"
  unfolding Lane_Release_def Let_def wake_frame by (rule wake_enough)

lemma OnSuccess_wakes:
  "ln_waiters (Lane_OnSuccess l) = [] \<or>
   ln_concurrency (Lane_OnSuccess l) \<le> ln_inFlight (Lane_OnSuccess l) + int (length (ln_woken (Lane_OnSuccess l))) \<or>
   (ln_waiters (Lane_OnSuccess l) = ln_waiters l \<and> ln_woken (Lane_OnSuccess l) = ln_woken l \<and>
    ln_concurrency (Lane_OnSuccess l) = ln_concurrency l)"
  using wake_enough [of "l\<lparr>ln_breaker := Breaker_OnSuccess (ln_breaker l), ln_successes := 0,
      ln_concurrency := ln_concurrency l + 1\<rparr>"]
  by (auto simp: Lane_OnSuccess_def Let_def)

lemma lane_step_wake: "lane_step s a s' \<Longrightarrow> lane_inv s \<Longrightarrow> wake_inv s \<Longrightarrow> \<not> late a \<Longrightarrow> wake_inv s'"
proof (induction rule: lane_step.induct)
  case (release s n)
  then show ?case using Release_wakes [of "ls_lane s"] by (auto simp: wake_inv_def Let_def)
next
  case (success s)
  then show ?case using OnSuccess_wakes [of "ls_lane s"] by (auto simp: wake_inv_def Let_def OnSuccess_frame)
next
  case (failure s now r)
  then show ?case using half_bounds [of "ln_concurrency (ls_lane s)"]
    by (auto simp: wake_inv_def lane_inv_def sem_inv_def Let_def Lane_OnFailure_def)
next
  case (health l s)
  then show ?case by (simp add: wake_inv_def Let_def health_frame)
qed (auto simp: wake_inv_def Let_def Acquire_enter_cases TryAcquire_def lane_op_defs length_remove1_int late_def
    split: if_splits prod.splits dest: notin_set_remove1)

lemma lane_run_wake:
  "lane_run s ls s' \<Longrightarrow> lane_inv s \<Longrightarrow> wake_inv s \<Longrightarrow> \<forall>a\<in>set ls. \<not> late a \<Longrightarrow> wake_inv s'"
  by (induction rule: lane_run.induct) (auto intro: lane_step_wake lane_run_inv)

lemma wake_inv_new: "wake_inv (new_lane_sys now eid opts)"
  by (simp add: wake_inv_def new_lane_sys_def NewLane_def touch_def Let_def)

section \<open>Properties\<close>

text \<open>
  C9: isolation. However many goroutines share a lane and whatever they do, the deliveries that
  hold a slot are exactly \<open>inFlight\<close> and never more than \<open>MaxConcurrency\<close>, the waiting room never
  holds more than \<open>MaxWaiters\<close>, and the concurrency stays between one and the maximum.
\<close>
theorem lane_isolation:
  assumes "lane_run (new_lane_sys now eid opts) ls s"
  shows "ln_inFlight (ls_lane s) = int (ls_running s) \<and>
    int (ls_running s) \<le> lo_MaxConcurrency (lane_defaults opts) \<and>
    int (ls_new s + ls_resumed s + length (ln_waiters (ls_lane s)) + length (ln_woken (ls_lane s)))
      \<le> lo_MaxWaiters (lane_defaults opts) \<and>
    1 \<le> ln_concurrency (ls_lane s) \<and> ln_concurrency (ls_lane s) \<le> lo_MaxConcurrency (lane_defaults opts)"
proof -
  have "lane_inv s" using lane_run_inv [OF assms lane_inv_new] .
  moreover have "ln_opts (ls_lane s) = lane_defaults opts"
    using lane_run_opts [OF assms] by (simp add: new_lane_sys_def NewLane_def touch_def Let_def)
  ultimately show ?thesis by (auto simp: lane_inv_def sem_inv_def Let_def)
qed

text \<open>
  C35: no free slot goes unannounced. As long as no goroutine gives up between being woken and taking
  the lock, a lane with somebody on a channel has at least as many slots taken or announced as its
  concurrency; so when nobody is on the way to a slot, every slot is busy.
\<close>
theorem lane_no_lost_wakeup:
  assumes "lane_run (new_lane_sys now eid opts) ls s" and "\<forall>a\<in>set ls. \<not> late a"
    and "ln_waiters (ls_lane s) \<noteq> []"
  shows "ln_concurrency (ls_lane s) \<le> int (ls_running s) + int (length (ln_woken (ls_lane s))) + int (ls_resumed s)"
  using lane_run_wake [OF assms(1) lane_inv_new wake_inv_new assms(2)] lane_run_inv [OF assms(1) lane_inv_new] assms(3)
  by (simp add: wake_inv_def lane_inv_def Let_def)

text \<open>The steps as an executable function, to run concrete traces.\<close>

fun lane_exec :: "lane_label \<Rightarrow> lane_sys \<Rightarrow> lane_sys option" where
  "lane_exec (LEnter now) s = (case Acquire_enter now (ls_lane s) of
      (True, l) \<Rightarrow> Some (s\<lparr>ls_lane := l, ls_new := Suc (ls_new s)\<rparr>) | _ \<Rightarrow> None)"
| "lane_exec LTry s = (case (ls_new s, Acquire_try (ls_lane s)) of
      (Suc n, None, l) \<Rightarrow> Some (s\<lparr>ls_lane := l, ls_new := n, ls_leaving := Suc (ls_leaving s), ls_running := Suc (ls_running s)\<rparr>)
    | (Suc n, Some c, l) \<Rightarrow> Some (s\<lparr>ls_lane := l, ls_new := n\<rparr>) | _ \<Rightarrow> None)"
| "lane_exec LRelease s = (case ls_running s of
      Suc n \<Rightarrow> Some (s\<lparr>ls_lane := Lane_Release (ls_lane s), ls_running := n\<rparr>) | _ \<Rightarrow> None)"
| "lane_exec (LLateCancel c) s = (if c \<in> set (ln_woken (ls_lane s))
      then Some (s\<lparr>ls_lane := cancelWaiter c (resume c (ls_lane s)), ls_leaving := Suc (ls_leaving s)\<rparr>) else None)"
| "lane_exec LLeave s = (case ls_leaving s of
      Suc n \<Rightarrow> Some (s\<lparr>ls_lane := Acquire_leave (ls_lane s), ls_leaving := n\<rparr>) | _ \<Rightarrow> None)"
| "lane_exec _ s = None"

fun lane_execs :: "lane_label list \<Rightarrow> lane_sys \<Rightarrow> lane_sys option" where
  "lane_execs [] s = Some s"
| "lane_execs (a # as) s = (case lane_exec a s of None \<Rightarrow> None | Some s' \<Rightarrow> lane_execs as s')"

lemma lane_exec_step: "lane_exec a s = Some s' \<Longrightarrow> lane_step s a s'"
  by (induction a s rule: lane_exec.induct)
    (auto split: prod.splits bool.splits nat.splits option.splits if_splits intro: lane_step.intros)

lemma run_Cons: "lane_run s' ls s'' \<Longrightarrow> lane_step s a s' \<Longrightarrow> lane_run s (a # ls) s''"
proof (induction rule: lane_run.induct)
  case (run_nil s')
  then show ?case using lane_run.run_snoc [OF lane_run.run_nil, of s a s'] by simp
next
  case (run_snoc s' ls t a' u)
  then show ?case using lane_run.run_snoc [of s "a # ls" t a' u] by simp
qed

lemma lane_execs_run: "lane_execs as s = Some s' \<Longrightarrow> lane_run s as s'"
  by (induction as arbitrary: s) (auto intro: run_nil run_Cons lane_exec_step split: option.splits)

definition demo_lane_opts :: LaneOptions where
  "demo_lane_opts = \<lparr>lo_InitialConcurrency = 1, lo_MaxConcurrency = 1, lo_SuccessesPerIncrease = 10,
     lo_RateLimit = 0, lo_MaxWaiters = 4,
     lo_Breaker = \<lparr>bo_FailureThreshold = 5, bo_Cooldown = Second, bo_MaxCooldown = Minute\<rparr>\<rparr>"

text \<open>One goroutine runs, two wait behind it.\<close>

definition queued_trace :: "lane_label list" where
  "queued_trace = [LEnter 1, LTry, LLeave, LEnter 2, LTry, LEnter 3, LTry]"

definition queued_sys :: lane_sys where
  "queued_sys = the (lane_execs queued_trace (new_lane_sys 0 ''ep'' demo_lane_opts))"

lemmas demo_lane_defs = new_lane_sys_def NewLane_def demo_lane_opts_def lane_defaults_def Let_def touch_def
  Acquire_enter_def Acquire_try_def take_slot_def Acquire_leave_def Lane_Release_def wakeWaitersLocked_def
  resume_def cancelWaiter_def

lemma queued_execs: "lane_execs queued_trace (new_lane_sys 0 ''ep'' demo_lane_opts) = Some queued_sys"
  by (simp add: queued_sys_def queued_trace_def demo_lane_defs)

lemma queued_state: "ls_running queued_sys = 1" "ln_waiters (ls_lane queued_sys) = [0, 1]"
  "ls_resumed queued_sys = 0" "ln_woken (ls_lane queued_sys) = []" "ln_concurrency (ls_lane queued_sys) = 1"
  by (simp_all add: queued_sys_def queued_trace_def demo_lane_defs)

theorem lane_isolation_witness:
  "int (ls_running queued_sys) \<le> lo_MaxConcurrency (lane_defaults demo_lane_opts) \<and> ls_running queued_sys = 1"
  using lane_isolation [OF lane_execs_run [OF queued_execs]] queued_state(1) by simp

theorem lane_no_lost_wakeup_witness:
  "ln_concurrency (ls_lane queued_sys) \<le> 1 \<and> ln_waiters (ls_lane queued_sys) = [0, 1]"
  using lane_no_lost_wakeup [OF lane_execs_run [OF queued_execs]] queued_state
  by (simp add: queued_trace_def late_def)

text \<open>
  The exception is real. When a woken waiter's context ends before it takes the lock,
  \<^verbatim>\<open>cancelWaiter\<close> does not find its channel and nobody passes the wake-up on: the lane is left with
  a free slot, nobody running or on the way to a slot, and a goroutine still queued.
\<close>
theorem lane_lost_wakeup:
  "\<exists>ls s. lane_run (new_lane_sys 0 ''ep'' demo_lane_opts) ls s \<and> ls_running s = 0 \<and> ls_new s = 0 \<and>
     ls_resumed s = 0 \<and> ln_woken (ls_lane s) = [] \<and> ln_waiters (ls_lane s) = [1] \<and>
     ln_inFlight (ls_lane s) = 0 \<and> ln_concurrency (ls_lane s) = 1"
proof -
  let ?as = "queued_trace @ [LRelease, LLateCancel 0, LLeave]"
  let ?s = "the (lane_execs ?as (new_lane_sys 0 ''ep'' demo_lane_opts))"
  have "lane_execs ?as (new_lane_sys 0 ''ep'' demo_lane_opts) = Some ?s"
    by (simp add: queued_trace_def demo_lane_defs)
  from lane_execs_run [OF this] show ?thesis
    by (intro exI [of _ ?as] exI [of _ ?s]) (simp add: queued_trace_def demo_lane_defs)
qed

section \<open>AIMD\<close>

definition failures :: "nat \<Rightarrow> time \<Rightarrow> DeliveryResult \<Rightarrow> Lane \<Rightarrow> Lane" where
  "failures k now r = Lane_OnFailure now r ^^ k"

definition successes :: "nat \<Rightarrow> Lane \<Rightarrow> Lane" where
  "successes k = Lane_OnSuccess ^^ k"

lemma max_half: "max 1 (go_div (max 1 (c div 2 ^ k)) 2) = max (1::int) (c div 2 ^ Suc k)" if "0 \<le> c"
proof (cases "c div 2 ^ k \<le> 1")
  case True
  then have "c div 2 ^ Suc k \<le> 0" using that zdiv_zmult2_eq [of 2 c "2 ^ k"] by (simp add: mult.commute)
  with True show ?thesis by (simp add: go_div_def)
next
  case False
  then show ?thesis using that by (simp add: go_div_def zdiv_zmult2_eq mult.commute [of 2])
qed

text \<open>
  Multiplicative decrease. After \<open>k\<close> failures in a row that are not refusals, the concurrency is
  the old one halved \<open>k\<close> times and never below one; a refusal sets it to one at once.
\<close>
theorem lane_decrease:
  assumes "sem_inv l"
  shows "ln_concurrency (failures k now r l) =
    (if k = 0 then ln_concurrency l
     else if res_Refused r then 1 else max 1 (ln_concurrency l div 2 ^ k))"
proof (induction k)
  case (Suc k)
  have "ln_concurrency l \<ge> 1" using assms by (simp add: sem_inv_def)
  with Suc max_half [of "ln_concurrency l" k] show ?case
    by (cases "k = 0") (auto simp: failures_def Lane_OnFailure_def Let_def go_div_def max_def)
qed (simp add: failures_def)

lemma succ_div_mod_cases:
  fixes a n :: int
  assumes "1 \<le> n"
  shows "(a + 1) div n = a div n + (if a mod n + 1 < n then 0 else 1)"
    and "(a + 1) mod n = (if a mod n + 1 < n then a mod n + 1 else 0)"
proof -
  define q r where qr: "q = a div n" "r = a mod n"
  have r: "0 \<le> r" "r < n" "a = n * q + r" using assms by (simp_all add: qr)
  have "(a + 1) div n = q + (if r + 1 < n then 0 else 1)"
    using r by (intro int_div_pos_eq [where r = "if r + 1 < n then r + 1 else 0"]) (auto simp: algebra_simps)
  then show "(a + 1) div n = a div n + (if a mod n + 1 < n then 0 else 1)" by (simp add: qr)
  have "(a + 1) mod n = (if r + 1 < n then r + 1 else 0)"
    using r by (intro int_mod_pos_eq [where q = "q + (if r + 1 < n then 0 else 1)"]) (auto simp: algebra_simps)
  then show "(a + 1) mod n = (if a mod n + 1 < n then a mod n + 1 else 0)" by (simp add: qr)
qed

lemma OnSuccess_successes:
  assumes "sem_inv l"
  shows "ln_successes (Lane_OnSuccess l) =
      (if ln_successes l + 1 < lo_SuccessesPerIncrease (ln_opts l) then ln_successes l + 1 else 0)"
    and "ln_concurrency (Lane_OnSuccess l) =
      (if ln_successes l + 1 < lo_SuccessesPerIncrease (ln_opts l) then ln_concurrency l
       else min (ln_concurrency l + 1) (lo_MaxConcurrency (ln_opts l)))"
  using assms by (auto simp: Lane_OnSuccess_def Let_def sem_inv_def)

lemma successes_sem: "sem_inv l \<Longrightarrow> sem_inv (successes k l) \<and> ln_opts (successes k l) = ln_opts l"
  by (induction k) (auto simp: successes_def sem_OnSuccess OnSuccess_frame)

text \<open>
  Additive increase. From a lane with no success counted yet, \<open>k\<close> successes in a row raise the
  concurrency by one for every \<open>SuccessesPerIncrease\<close> of them, up to \<open>MaxConcurrency\<close>, and the
  remainder stays counted.
\<close>
theorem lane_increase:
  assumes "sem_inv l" and "ln_successes l = 0"
  shows "ln_concurrency (successes k l) =
      min (ln_concurrency l + int k div lo_SuccessesPerIncrease (ln_opts l)) (lo_MaxConcurrency (ln_opts l)) \<and>
    ln_successes (successes k l) = int k mod lo_SuccessesPerIncrease (ln_opts l)"
proof (induction k)
  case 0
  then show ?case using assms by (simp add: successes_def sem_inv_def)
next
  case (Suc k)
  let ?N = "lo_SuccessesPerIncrease (ln_opts l)"
  have N: "1 \<le> ?N" using assms by (simp add: sem_inv_def lane_opts_ok_def)
  note s = OnSuccess_successes [of "successes k l"] successes_sem [OF assms(1), of k]
  have "successes (Suc k) l = Lane_OnSuccess (successes k l)" by (simp add: successes_def)
  moreover have "int (Suc k) div ?N = int k div ?N + (if int k mod ?N + 1 < ?N then 0 else 1)"
    and "int (Suc k) mod ?N = (if int k mod ?N + 1 < ?N then int k mod ?N + 1 else 0)"
    using succ_div_mod_cases [OF N, of "int k"] by (simp_all add: ac_simps)
  ultimately show ?case using Suc s by (auto simp: min_def)
qed

definition wide_lane :: Lane where
  "wide_lane = NewLane 0 ''ep'' (demo_lane_opts\<lparr>lo_InitialConcurrency := 40, lo_MaxConcurrency := 64\<rparr>)"

definition timeout_result :: DeliveryResult where
  "timeout_result = \<lparr>res_StatusCode = 0, res_Body = [], res_Duration = 15 * Second, res_Err = Some ''timeout'',
     res_Timeout = True, res_Refused = False, res_ConnectionReused = False, res_RetryAfter = None\<rparr>"

lemma wide_lane_sem: "sem_inv wide_lane"
  by (simp add: wide_lane_def sem_inv_def lane_opts_ok_def wrap32_def demo_lane_defs)

theorem lane_decrease_witness: "ln_concurrency (failures 3 5 timeout_result wide_lane) = 5"
  using lane_decrease [OF wide_lane_sem, of 3 5 timeout_result]
  by (simp add: wide_lane_def timeout_result_def demo_lane_defs)

theorem lane_increase_witness:
  "ln_concurrency (successes 25 wide_lane) = 42 \<and> ln_successes (successes 25 wide_lane) = 5"
  using lane_increase [OF wide_lane_sem, of 25] by (simp add: wide_lane_def demo_lane_defs)

end
