(* ===== verification/Base64.thy ===== *)
theory Base64
  imports Huxio_Prelude
begin

text \<open>
  The parts of Go's \<^verbatim>\<open>encoding/base64\<close> the program uses: the standard and URL alphabets, with and
  without padding. The decoder skips carriage returns and line feeds, rejects every other foreign
  character, and (not being strict) ignores the unused bits of the last quantum.
\<close>

definition std_alphabet :: string where
  "std_alphabet = ''ABCDEFGHIJKLMNOPQRSTUVWXYZabcdefghijklmnopqrstuvwxyz0123456789+/''"

definition url_alphabet :: string where
  "url_alphabet = ''ABCDEFGHIJKLMNOPQRSTUVWXYZabcdefghijklmnopqrstuvwxyz0123456789-_''"

record Encoding =
  enc_alphabet :: string
  enc_padded :: bool

definition StdEncoding :: Encoding where
  "StdEncoding = \<lparr>enc_alphabet = std_alphabet, enc_padded = True\<rparr>"

definition RawStdEncoding :: Encoding where
  "RawStdEncoding = \<lparr>enc_alphabet = std_alphabet, enc_padded = False\<rparr>"

definition URLEncoding :: Encoding where
  "URLEncoding = \<lparr>enc_alphabet = url_alphabet, enc_padded = True\<rparr>"

definition RawURLEncoding :: Encoding where
  "RawURLEncoding = \<lparr>enc_alphabet = url_alphabet, enc_padded = False\<rparr>"

section \<open>Encoding\<close>

definition enc_digit :: "Encoding \<Rightarrow> nat \<Rightarrow> char" where
  "enc_digit e v = enc_alphabet e ! v"

definition enc_pad :: "Encoding \<Rightarrow> nat \<Rightarrow> string" where
  "enc_pad e n = (if enc_padded e then replicate n (CHR ''='') else [])"

fun EncodeToString :: "Encoding \<Rightarrow> bytes \<Rightarrow> string" where
  "EncodeToString e [] = []"
| "EncodeToString e [a] =
     [enc_digit e (unat a div 4), enc_digit e (unat a mod 4 * 16)] @ enc_pad e 2"
| "EncodeToString e [a, b] =
     [enc_digit e (unat a div 4), enc_digit e (unat a mod 4 * 16 + unat b div 16), enc_digit e (unat b mod 16 * 4)] @ enc_pad e 1"
| "EncodeToString e (a # b # c # r) =
     [enc_digit e (unat a div 4), enc_digit e (unat a mod 4 * 16 + unat b div 16),
      enc_digit e (unat b mod 16 * 4 + unat c div 64), enc_digit e (unat c mod 64)] @ EncodeToString e r"

section \<open>Decoding\<close>

fun index_of :: "char \<Rightarrow> string \<Rightarrow> nat option" where
  "index_of c [] = None"
| "index_of c (d # ds) = (if c = d then Some 0 else map_option Suc (index_of c ds))"

definition dec_digit :: "Encoding \<Rightarrow> char \<Rightarrow> nat option" where
  "dec_digit e c = index_of c (enc_alphabet e)"

definition byte1 :: "nat \<Rightarrow> nat \<Rightarrow> byte" where "byte1 u v = word_of_nat (u * 4 + v div 16)"
definition byte2 :: "nat \<Rightarrow> nat \<Rightarrow> byte" where "byte2 v w = word_of_nat (v mod 16 * 16 + w div 4)"
definition byte3 :: "nat \<Rightarrow> nat \<Rightarrow> byte" where "byte3 w x = word_of_nat (w mod 4 * 64 + x)"

fun dec_quanta :: "Encoding \<Rightarrow> string \<Rightarrow> bytes option" where
  "dec_quanta e [] = Some []"
| "dec_quanta e [p] = None"
| "dec_quanta e [p, q] = (case (enc_padded e, dec_digit e p, dec_digit e q) of
     (False, Some u, Some v) \<Rightarrow> Some [byte1 u v] | _ \<Rightarrow> None)"
| "dec_quanta e [p, q, r] = (case (enc_padded e, dec_digit e p, dec_digit e q, dec_digit e r) of
     (False, Some u, Some v, Some w) \<Rightarrow> Some [byte1 u v, byte2 v w] | _ \<Rightarrow> None)"
| "dec_quanta e (p # q # r # s # rest) =
     (case (dec_digit e p, dec_digit e q) of
        (Some u, Some v) \<Rightarrow>
          if enc_padded e \<and> r = CHR ''='' then (if s = CHR ''='' \<and> rest = [] then Some [byte1 u v] else None)
          else (case dec_digit e r of
            None \<Rightarrow> None
          | Some w \<Rightarrow>
              if enc_padded e \<and> s = CHR ''='' then (if rest = [] then Some [byte1 u v, byte2 v w] else None)
              else (case (dec_digit e s, dec_quanta e rest) of
                (Some x, Some bs) \<Rightarrow> Some (byte1 u v # byte2 v w # byte3 w x # bs)
              | _ \<Rightarrow> None))
      | _ \<Rightarrow> None)"

definition DecodeString :: "Encoding \<Rightarrow> string \<Rightarrow> bytes option" where
  "DecodeString e s = dec_quanta e (filter (\<lambda>c. c \<noteq> CHR 0x0A \<and> c \<noteq> CHR 0x0D) s)"

section \<open>Round trip\<close>

text \<open>An alphabet of 64 different characters without the padding character and line breaks.\<close>

definition enc_ok :: "Encoding \<Rightarrow> bool" where
  "enc_ok e \<longleftrightarrow> length (enc_alphabet e) = 64 \<and> distinct (enc_alphabet e) \<and>
     list_all (\<lambda>c. c \<noteq> CHR ''='' \<and> c \<noteq> CHR 0x0A \<and> c \<noteq> CHR 0x0D) (enc_alphabet e)"

lemma enc_ok_std [simp]: "enc_ok StdEncoding" "enc_ok RawStdEncoding" "enc_ok URLEncoding" "enc_ok RawURLEncoding"
  by code_simp+

lemma index_of_nth: "distinct s \<Longrightarrow> i < length s \<Longrightarrow> index_of (s ! i) s = Some i"
  by (induction s arbitrary: i) (auto simp: nth_Cons split: nat.splits)

lemma dec_enc_digit [simp]: "enc_ok e \<Longrightarrow> v < 64 \<Longrightarrow> dec_digit e (enc_digit e v) = Some v"
  by (simp add: enc_ok_def dec_digit_def enc_digit_def index_of_nth)

lemma enc_digit_plain [simp]:
  "enc_ok e \<Longrightarrow> v < 64 \<Longrightarrow> enc_digit e v \<noteq> CHR ''=''"
  "enc_ok e \<Longrightarrow> v < 64 \<Longrightarrow> enc_digit e v \<noteq> CHR 0x0A"
  "enc_ok e \<Longrightarrow> v < 64 \<Longrightarrow> enc_digit e v \<noteq> CHR 0x0D"
  by (auto simp: enc_ok_def enc_digit_def list_all_length)

lemma byte_lt: "unat (a :: byte) < 256"
proof -
  have "unat a < 2 ^ LENGTH(8)" by (rule unsigned_less)
  then show ?thesis by simp
qed

lemma digit_bounds [simp]:
  "unat (a :: byte) div 4 < 64" "unat (a :: byte) mod 4 * 16 < 64" "unat (a :: byte) mod 16 * 4 < 64"
  "unat (a :: byte) mod 4 * 16 + unat (b :: byte) div 16 < 64" "unat (b :: byte) mod 16 * 4 + unat (c :: byte) div 64 < 64"
  "unat (c :: byte) mod 64 < 64"
  using byte_lt [of a] byte_lt [of b] byte_lt [of c] by linarith+

lemma byte1_enc [simp]: "byte1 (unat a div 4) (unat a mod 4 * 16 + unat (b :: byte) div 16) = a"
  "byte1 (unat a div 4) (unat a mod 4 * 16) = a"
proof -
  have "(unat a mod 4 * 16 + unat b div 16) div 16 = unat a mod 4" using byte_lt [of b] by linarith
  then show "byte1 (unat a div 4) (unat a mod 4 * 16 + unat b div 16) = a" by (simp add: byte1_def)
  show "byte1 (unat a div 4) (unat a mod 4 * 16) = a" by (simp add: byte1_def)
qed

lemma byte2_enc [simp]:
  "byte2 (unat (a :: byte) mod 4 * 16 + unat b div 16) (unat b mod 16 * 4 + unat (c :: byte) div 64) = b"
  "byte2 (unat (a :: byte) mod 4 * 16 + unat b div 16) (unat b mod 16 * 4) = b"
proof -
  have "(unat a mod 4 * 16 + unat b div 16) mod 16 = unat b div 16" "(unat b mod 16 * 4 + unat c div 64) div 4 = unat b mod 16"
    using mod_less [of "unat b div 16" 16] byte_lt [of b] byte_lt [of c] by (simp, linarith)
  then show "byte2 (unat a mod 4 * 16 + unat b div 16) (unat b mod 16 * 4 + unat c div 64) = b"
    "byte2 (unat a mod 4 * 16 + unat b div 16) (unat b mod 16 * 4) = b"
    by (simp_all add: byte2_def)
qed

lemma byte3_enc [simp]: "byte3 (unat (b :: byte) mod 16 * 4 + unat c div 64) (unat c mod 64) = c"
proof -
  have "(unat b mod 16 * 4 + unat c div 64) mod 4 = unat c div 64" 
    using mod_less [of "unat c div 64" 4] byte_lt [of c] mod_mult_self3 [of "unat b mod 16" 4 "unat c div 64"] by simp
  then show ?thesis by (simp add: byte3_def)
qed

lemma dec_quanta_encode: "enc_ok e \<Longrightarrow> dec_quanta e (EncodeToString e bs) = Some bs"
  by (induction e bs rule: EncodeToString.induct) (auto simp: enc_pad_def numeral_2_eq_2)

lemma encode_no_newline: "enc_ok e \<Longrightarrow> c \<in> set (EncodeToString e bs) \<Longrightarrow> c \<noteq> CHR 0x0A \<and> c \<noteq> CHR 0x0D"
  by (induction e bs rule: EncodeToString.induct) (auto simp: enc_pad_def split: if_splits)

lemma Base64_roundtrip: "enc_ok e \<Longrightarrow> DecodeString e (EncodeToString e bs) = Some bs"
  by (simp add: DecodeString_def filter_id_conv encode_no_newline dec_quanta_encode)

lemma length_EncodeToString: "enc_padded e \<Longrightarrow> length (EncodeToString e bs) = 4 * ((length bs + 2) div 3)"
proof (induction e bs rule: EncodeToString.induct)
  case (4 e a b c r)
  have "(length (a # b # c # r) + 2) div 3 = Suc ((length r + 2) div 3)" by simp
  with 4 show ?case by simp
qed (simp_all add: enc_pad_def)

end
