(* ===== verification/Sealer.thy ===== *)
theory Sealer
  imports Base64 Utils
begin

text \<open>
  \<^verbatim>\<open>internal/infrastructure/secrets/sealer.go\<close>: sealing of endpoint secrets under a list of keys. The
  cipher, \<^verbatim>\<open>golang.org/x/crypto/chacha20poly1305\<close>, is third-party: its \<^verbatim>\<open>Seal\<close> and \<^verbatim>\<open>Open\<close> are the
  parameters \<open>aead_seal\<close> and \<open>aead_open\<close> (key, nonce, text), and \<^verbatim>\<open>NewX\<close> fails exactly when the key
  is not 32 bytes. The random nonce is an argument, \<open>None\<close> when the generator fails.
\<close>

definition KeySize :: nat where "KeySize = 32"
definition NonceSizeX :: nat where "NonceSizeX = 24"

datatype seal_error = ErrNoKeys | ErrOpen | ErrKeySize nat | ErrKeyEncoding | ErrBuildAEAD | ErrNonce | IndexPanic

record Sealer =
  sl_keys :: "bytes list"

fun decodeKey_loop :: "Encoding list \<Rightarrow> string \<Rightarrow> seal_error + bytes" where
  "decodeKey_loop [] encoded = Inl ErrKeyEncoding"
| "decodeKey_loop (enc # encs) encoded = (case DecodeString enc encoded of
     Some key \<Rightarrow> if length key \<noteq> KeySize then Inl (ErrKeySize (length key)) else Inr key
   | None \<Rightarrow> decodeKey_loop encs encoded)"

definition decodeKey :: "string \<Rightarrow> seal_error + bytes" where
  "decodeKey = decodeKey_loop [StdEncoding, RawStdEncoding, URLEncoding, RawURLEncoding]"

fun NewSealer_loop :: "string list \<Rightarrow> bytes list \<Rightarrow> seal_error + bytes list" where
  "NewSealer_loop [] keys = Inr keys"
| "NewSealer_loop (encoded # rest) keys = (let encoded = TrimSpace encoded in
     if encoded = [] then NewSealer_loop rest keys
     else case decodeKey encoded of
       Inl e \<Rightarrow> Inl e
     | Inr key \<Rightarrow> NewSealer_loop rest (keys @ [key]))"

definition NewSealer :: "string list \<Rightarrow> seal_error + Sealer" where
  "NewSealer encodedKeys = (case NewSealer_loop encodedKeys [] of
      Inl e \<Rightarrow> Inl e
    | Inr keys \<Rightarrow> if keys = [] then Inl ErrNoKeys else Inr \<lparr>sl_keys = keys\<rparr>)"

definition GenerateKey :: "bytes option \<Rightarrow> string option" where
  "GenerateKey random = map_option (EncodeToString StdEncoding) random"

definition Seal ::
  "(bytes \<Rightarrow> bytes \<Rightarrow> bytes \<Rightarrow> bytes) \<Rightarrow> Sealer \<Rightarrow> bytes option \<Rightarrow> bytes \<Rightarrow> seal_error + bytes" where
  "Seal aead_seal s random plaintext = (case sl_keys s of
      [] \<Rightarrow> Inl IndexPanic
    | key # _ \<Rightarrow>
       if length key \<noteq> KeySize then Inl ErrBuildAEAD
       else case random of
         None \<Rightarrow> Inl ErrNonce
       | Some nonce \<Rightarrow> Inr (nonce @ aead_seal key nonce plaintext))"

fun Open_loop :: "(bytes \<Rightarrow> bytes \<Rightarrow> bytes \<Rightarrow> bytes option) \<Rightarrow> bytes list \<Rightarrow> bytes \<Rightarrow> seal_error + bytes" where
  "Open_loop aead_open [] sealed = Inl ErrOpen"
| "Open_loop aead_open (key # keys) sealed =
     (if length key \<noteq> KeySize then Inl ErrBuildAEAD
      else if length sealed < NonceSizeX then Inl ErrOpen
      else case aead_open key (take NonceSizeX sealed) (drop NonceSizeX sealed) of
        Some plaintext \<Rightarrow> Inr plaintext
      | None \<Rightarrow> Open_loop aead_open keys sealed)"

definition Open :: "(bytes \<Rightarrow> bytes \<Rightarrow> bytes \<Rightarrow> bytes option) \<Rightarrow> Sealer \<Rightarrow> bytes \<Rightarrow> seal_error + bytes" where
  "Open aead_open s sealed = Open_loop aead_open (sl_keys s) sealed"

section \<open>Keys\<close>

lemma decodeKey_loop_size: "decodeKey_loop encs s = Inr k \<Longrightarrow> length k = KeySize"
  by (induction encs) (auto split: option.splits if_splits)

lemma decodeKey_size: "decodeKey s = Inr k \<Longrightarrow> length k = KeySize"
  unfolding decodeKey_def by (rule decodeKey_loop_size)

lemma NewSealer_loop_size:
  "NewSealer_loop ss ks = Inr ks' \<Longrightarrow> \<forall>k\<in>set ks. length k = KeySize \<Longrightarrow> \<forall>k\<in>set ks'. length k = KeySize"
  by (induction ss ks rule: NewSealer_loop.induct)
    (auto simp: Let_def dest: decodeKey_size split: if_splits sum.splits)

text \<open>Every sealer that was built has a sealing key, and all its keys have the cipher's size.\<close>

lemma NewSealer_ok: "NewSealer ss = Inr s \<Longrightarrow> sl_keys s \<noteq> [] \<and> (\<forall>k\<in>set (sl_keys s). length k = KeySize)"
  using NewSealer_loop_size [of ss "[]"] by (auto simp: NewSealer_def split: sum.splits if_splits)

section \<open>Round trip across rotation\<close>

lemma Open_loop_first:
  assumes "\<forall>k\<in>set ks. length k = KeySize" and "length key = KeySize" and "NonceSizeX \<le> length sealed"
    and "\<forall>k\<in>set ks. k \<noteq> key \<longrightarrow> aead_open k (take NonceSizeX sealed) (drop NonceSizeX sealed) = None"
    and "aead_open key (take NonceSizeX sealed) (drop NonceSizeX sealed) = Some p"
  shows "Open_loop aead_open (ks @ key # ks') sealed = Inr p"
  using assms by (induction ks) (auto split: option.splits)

text \<open>
  C33: secrets survive a key rotation. A value sealed under the primary key of one sealer is opened, to
  the same bytes, by every sealer whose list still holds that key, at any position. The cipher opens
  what it sealed under the same key and nonce, and rejects it under another key.
\<close>
theorem sealer_rotation:
  assumes "NewSealer keys = Inr s" and "NewSealer keys' = Inr s'"
    and "hd (sl_keys s) \<in> set (sl_keys s')"
    and "Seal aead_seal s (Some nonce) p = Inr sealed" and "length nonce = NonceSizeX"
    and "\<And>k n m. aead_open k n (aead_seal k n m) = Some m"
    and "\<And>k k' n m. k \<noteq> k' \<Longrightarrow> aead_open k' n (aead_seal k n m) = None"
  shows "Open aead_open s' sealed = Inr p"
proof -
  let ?k = "hd (sl_keys s)"
  have sz: "\<forall>k\<in>set (sl_keys s'). length k = KeySize" "length ?k = KeySize"
    using NewSealer_ok [OF assms(1)] NewSealer_ok [OF assms(2)] by auto
  have sealed: "sealed = nonce @ aead_seal ?k nonce p"
    using assms(4) by (auto simp: Seal_def split: list.splits if_splits)
  obtain ks ks' where k: "sl_keys s' = ks @ ?k # ks'" "?k \<notin> set ks" using assms(3) split_list_first by metis
  have "Open_loop aead_open (ks @ ?k # ks') sealed = Inr p"
    using k sz assms(5-7) sealed by (intro Open_loop_first) auto
  then show ?thesis by (simp add: Open_def k(1))
qed

text \<open>A cipher with these two laws, for the witness: the key itself, in a prefix-free form, before the text.\<close>

fun toy_strip :: "bytes \<Rightarrow> bytes \<Rightarrow> bytes option" where
  "toy_strip [] (x # r) = (if x = 0 then Some r else None)"
| "toy_strip (b # k) (x # b' # r) = (if x = 1 \<and> b = b' then toy_strip k r else None)"
| "toy_strip k r = None"

definition toy_seal :: "bytes \<Rightarrow> bytes \<Rightarrow> bytes \<Rightarrow> bytes" where
  "toy_seal k n p = concat (map (\<lambda>b. [1, b]) k) @ 0 # p"

definition toy_open :: "bytes \<Rightarrow> bytes \<Rightarrow> bytes \<Rightarrow> bytes option" where
  "toy_open k n c = toy_strip k c"

lemma toy_open_seal: "toy_open k' n (toy_seal k n m) = (if k' = k then Some m else None)"
  unfolding toy_open_def toy_seal_def
proof (induction k arbitrary: k')
  case Nil
  show ?case by (cases k'; cases m) auto
next
  case (Cons b k)
  then show ?case by (cases k') auto
qed

definition key_text :: "byte \<Rightarrow> string" where
  "key_text b = EncodeToString StdEncoding (replicate 32 b)"

lemma demo_sealers:
  "NewSealer [key_text 7] = Inr \<lparr>sl_keys = [replicate 32 7]\<rparr>"
  "NewSealer [key_text 9, ''  '', key_text 7] = Inr \<lparr>sl_keys = [replicate 32 9, replicate 32 7]\<rparr>"
  by code_simp+

theorem sealer_rotation_witness:
  "\<exists>sealed. Seal toy_seal \<lparr>sl_keys = [replicate 32 7]\<rparr> (Some (replicate 24 1)) (bytes_of ''hello'') = Inr sealed \<and>
     Open toy_open \<lparr>sl_keys = [replicate 32 9, replicate 32 7]\<rparr> sealed = Inr (bytes_of ''hello'')"
proof -
  let ?sealed = "replicate 24 1 @ toy_seal (replicate 32 7) (replicate 24 1) (bytes_of ''hello'')"
  have "Seal toy_seal \<lparr>sl_keys = [replicate 32 7]\<rparr> (Some (replicate 24 1)) (bytes_of ''hello'') = Inr ?sealed"
    by (simp add: Seal_def KeySize_def)
  then show ?thesis
    using sealer_rotation [OF demo_sealers, of toy_seal "replicate 24 1" "bytes_of ''hello''" ?sealed toy_open]
    by (simp add: toy_open_seal NonceSizeX_def)
qed

end
