(* ===== verification/Snapshot.thy ===== *)
theory Snapshot
  imports Entities Sealer
begin

text \<open>
  \<^verbatim>\<open>internal/application/config/snapshot.go\<close>: the in-memory configuration snapshot, its construction
  from the database rows and its lookups. The application entries are shared by two maps of pointers
  and are filled in after they are stored, so they live in a heap (\<open>sn_heap\<close>) and the maps hold
  addresses. \<^verbatim>\<open>json.Unmarshal\<close> into a map of strings is the parameter \<open>unmarshal\<close>, whose result lists
  the entries in the order a later range over the map visits them; the cipher of the sealer is the
  parameter \<open>aead_open\<close>.
\<close>

record Secret =
  sec_Key :: bytes
  sec_Type :: SecretType
  sec_ExpiresAt :: "time option"

record ConfigEndpoint = Endpoint +
  cep_Secrets :: "Secret list"
  cep_CustomHeaders :: "(string \<times> string) list"

record ConfigApplication =
  ca_App :: Application
  ca_Endpoints :: "ConfigEndpoint list"
  ca_byEventType :: "string \<Rightarrow> ConfigEndpoint list"
  ca_allEventTypes :: "ConfigEndpoint list"

record Snapshot =
  sn_builtAt :: time
  sn_orgs :: "string \<rightharpoonup> Organization"
  sn_heap :: "ConfigApplication list"
  sn_apps :: "string \<rightharpoonup> nat"
  sn_appsByUID :: "string \<rightharpoonup> nat"
  sn_endpoints :: "string \<rightharpoonup> ConfigEndpoint"
  sn_eventTypes :: "string \<rightharpoonup> EventType"

record SnapshotData =
  sd_Organizations :: "Organization list"
  sd_Applications :: "Application list"
  sd_Endpoints :: "Endpoint list"
  sd_EventTypes :: "EventType list"

section \<open>Building\<close>

definition appUIDKey :: "string \<Rightarrow> string \<Rightarrow> string" where
  "appUIDKey orgID uid = orgID @ [CHR 0x00] @ uid"

definition eventTypeKey :: "string \<Rightarrow> string \<Rightarrow> string" where
  "eventTypeKey orgID name = orgID @ [CHR 0x00] @ name"

datatype build_error = OpenSecret string seal_error | ParseHeaders string

fun open_secrets ::
  "(bytes \<Rightarrow> seal_error + bytes) \<Rightarrow> Endpoint \<Rightarrow> SealedSecret list \<Rightarrow> Secret list \<Rightarrow> build_error + Secret list" where
  "open_secrets opn ep [] acc = Inr acc"
| "open_secrets opn ep (s # ss) acc = (case opn (sealed_Sealed s) of
     Inl e \<Rightarrow> Inl (OpenSecret (ep_ID ep) e)
   | Inr key \<Rightarrow> open_secrets opn ep ss (acc @ [\<lparr>sec_Key = key, sec_Type = ep_SecretType ep, sec_ExpiresAt = sealed_ExpiresAt s\<rparr>]))"

definition buildEndpoint ::
  "(bytes \<Rightarrow> seal_error + bytes) \<Rightarrow> (bytes \<Rightarrow> (string \<times> string) list option) \<Rightarrow> time \<Rightarrow> Endpoint \<Rightarrow> build_error + ConfigEndpoint" where
  "buildEndpoint opn unmarshal now ep =
    (case open_secrets opn ep (ActiveSecrets ep now) [] of
       Inl e \<Rightarrow> Inl e
     | Inr secrets \<Rightarrow>
         if ep_Headers ep \<noteq> [] then
           (case unmarshal (ep_Headers ep) of
              None \<Rightarrow> Inl (ParseHeaders (ep_ID ep))
            | Some h \<Rightarrow> Inr (Endpoint.extend ep \<lparr>cep_Secrets = secrets, cep_CustomHeaders = h\<rparr>))
         else Inr (Endpoint.extend ep \<lparr>cep_Secrets = secrets, cep_CustomHeaders = []\<rparr>))"

definition add_app :: "Application \<Rightarrow> Snapshot \<Rightarrow> Snapshot" where
  "add_app app s =
    (let addr = length (sn_heap s);
         s = s\<lparr>sn_heap := sn_heap s @ [\<lparr>ca_App = app, ca_Endpoints = [], ca_byEventType = (\<lambda>_. []), ca_allEventTypes = []\<rparr>],
               sn_apps := (sn_apps s)(app_ID app \<mapsto> addr)\<rparr> in
     case app_UID app of
       Some uid \<Rightarrow> if uid \<noteq> [] then s\<lparr>sn_appsByUID := (sn_appsByUID s)(appUIDKey (app_OrgID app) uid \<mapsto> addr)\<rparr> else s
     | None \<Rightarrow> s)"

definition add_name :: "ConfigEndpoint \<Rightarrow> string \<Rightarrow> ConfigApplication \<Rightarrow> ConfigApplication" where
  "add_name entry name a = a\<lparr>ca_byEventType := (ca_byEventType a)(name := ca_byEventType a name @ [entry])\<rparr>"

definition index_endpoint :: "ConfigEndpoint \<Rightarrow> ConfigApplication \<Rightarrow> ConfigApplication" where
  "index_endpoint entry a =
    (let a = a\<lparr>ca_Endpoints := ca_Endpoints a @ [entry]\<rparr> in
     if ep_EventTypes entry = [] then a\<lparr>ca_allEventTypes := ca_allEventTypes a @ [entry]\<rparr>
     else fold (add_name entry) (ep_EventTypes entry) a)"

definition add_endpoint :: "ConfigEndpoint \<Rightarrow> Snapshot \<Rightarrow> Snapshot" where
  "add_endpoint entry s =
    (let s = s\<lparr>sn_endpoints := (sn_endpoints s)(ep_ID entry \<mapsto> entry)\<rparr> in
     case sn_apps s (ep_AppID entry) of
       None \<Rightarrow> s
     | Some addr \<Rightarrow> s\<lparr>sn_heap := (sn_heap s)[addr := index_endpoint entry (sn_heap s ! addr)]\<rparr>)"

fun build_endpoints ::
  "(Endpoint \<Rightarrow> build_error + ConfigEndpoint) \<Rightarrow> Endpoint list \<Rightarrow> Snapshot \<Rightarrow> build_error list \<Rightarrow> Snapshot \<times> build_error list" where
  "build_endpoints build [] s problems = (s, problems)"
| "build_endpoints build (ep # eps) s problems = (case build ep of
     Inl e \<Rightarrow> build_endpoints build eps s (problems @ [e])
   | Inr entry \<Rightarrow> build_endpoints build eps (add_endpoint entry s) problems)"

definition base_snapshot :: "time \<Rightarrow> SnapshotData \<Rightarrow> Snapshot" where
  "base_snapshot builtAt data =
    (let s = \<lparr>sn_builtAt = builtAt, sn_orgs = Map.empty, sn_heap = [], sn_apps = Map.empty,
              sn_appsByUID = Map.empty, sn_endpoints = Map.empty, sn_eventTypes = Map.empty\<rparr>;
         s = fold (\<lambda>o' s. s\<lparr>sn_orgs := (sn_orgs s)(org_ID o' \<mapsto> o')\<rparr>) (sd_Organizations data) s;
         s = fold (\<lambda>e s. s\<lparr>sn_eventTypes := (sn_eventTypes s)(eventTypeKey (et_OrgID e) (et_Name e) \<mapsto> e)\<rparr>) (sd_EventTypes data) s
     in fold add_app (sd_Applications data) s)"

definition BuildSnapshot ::
  "(bytes \<Rightarrow> bytes \<Rightarrow> bytes \<Rightarrow> bytes option) \<Rightarrow> (bytes \<Rightarrow> (string \<times> string) list option) \<Rightarrow> Sealer \<Rightarrow>
   time \<Rightarrow> time \<Rightarrow> SnapshotData \<Rightarrow> Snapshot \<times> build_error list" where
  "BuildSnapshot aead_open unmarshal sealer builtAt now data =
     build_endpoints (buildEndpoint (Open aead_open sealer) unmarshal now) (sd_Endpoints data)
       (base_snapshot builtAt data) []"

section \<open>Lookups\<close>

definition Snapshot_Age :: "time \<Rightarrow> Snapshot \<Rightarrow> duration" where
  "Snapshot_Age now s = time_Sub now (sn_builtAt s)"

definition Snapshot_Org :: "Snapshot \<Rightarrow> string \<Rightarrow> Organization option" where
  "Snapshot_Org s i = sn_orgs s i"

definition Snapshot_App :: "Snapshot \<Rightarrow> string \<Rightarrow> ConfigApplication option" where
  "Snapshot_App s i = map_option (\<lambda>a. sn_heap s ! a) (sn_apps s i)"

definition AppByUID :: "Snapshot \<Rightarrow> string \<Rightarrow> string \<Rightarrow> ConfigApplication option" where
  "AppByUID s orgID uid = map_option (\<lambda>a. sn_heap s ! a) (sn_appsByUID s (appUIDKey orgID uid))"

definition ResolveApp :: "Snapshot \<Rightarrow> string \<Rightarrow> string \<Rightarrow> ConfigApplication option" where
  "ResolveApp s orgID idOrUID = (case Snapshot_App s idOrUID of
      Some app \<Rightarrow> if app_OrgID (ca_App app) = orgID then Some app else AppByUID s orgID idOrUID
    | None \<Rightarrow> AppByUID s orgID idOrUID)"

definition Snapshot_Endpoint :: "Snapshot \<Rightarrow> string \<Rightarrow> ConfigEndpoint option" where
  "Snapshot_Endpoint s i = sn_endpoints s i"

definition Snapshot_EventType :: "Snapshot \<Rightarrow> string \<Rightarrow> string \<Rightarrow> EventType option" where
  "Snapshot_EventType s orgID name = sn_eventTypes s (eventTypeKey orgID name)"

definition deliverableTo :: "string list \<Rightarrow> ConfigEndpoint \<Rightarrow> bool" where
  "deliverableTo channels ep \<longleftrightarrow> Deliverable ep \<and> WantsChannels ep channels"

definition MatchingEndpoints :: "Snapshot \<Rightarrow> string \<Rightarrow> string \<Rightarrow> string list \<Rightarrow> ConfigEndpoint list" where
  "MatchingEndpoints s appID eventType channels = (case Snapshot_App s appID of
      None \<Rightarrow> []
    | Some app \<Rightarrow>
        filter (deliverableTo channels) (ca_byEventType app eventType) @
        filter (deliverableTo channels) (ca_allEventTypes app))"

section \<open>The index\<close>

lemma add_name_fold:
  "ca_byEventType (fold (add_name e) names a) name = ca_byEventType a name @ replicate (count_list names name) e"
  "ca_allEventTypes (fold (add_name e) names a) = ca_allEventTypes a"
  "ca_App (fold (add_name e) names a) = ca_App a"
  "ca_Endpoints (fold (add_name e) names a) = ca_Endpoints a"
  by (induction names arbitrary: a) (auto simp: add_name_def replicate_append_same)

lemma index_fold:
  "ca_byEventType (fold index_endpoint es a) name =
     ca_byEventType a name @ concat (map (\<lambda>e. replicate (count_list (ep_EventTypes e) name) e) es)"
  "ca_allEventTypes (fold index_endpoint es a) = ca_allEventTypes a @ filter (\<lambda>e. ep_EventTypes e = []) es"
  "ca_Endpoints (fold index_endpoint es a) = ca_Endpoints a @ es"
  "ca_App (fold index_endpoint es a) = ca_App a"
  by (induction es arbitrary: a) (auto simp: index_endpoint_def add_name_fold Let_def)

lemma concat_replicate_count:
  assumes "\<forall>e\<in>set es. distinct (f e)"
  shows "concat (map (\<lambda>e. replicate (count_list (f e) name) e) es) = filter (\<lambda>e. name \<in> set (f e)) es"
proof -
  have "count_list xs name = (if name \<in> set xs then 1 else 0)" if "distinct xs" for xs
    using that by (induction xs) auto
  with assms show ?thesis by (induction es) auto
qed

section \<open>Well-formed snapshots\<close>

text \<open>Every address is allocated and holds the application its key names.\<close>

definition snap_ok :: "Snapshot \<Rightarrow> bool" where
  "snap_ok s \<longleftrightarrow>
     (\<forall>i a. sn_apps s i = Some a \<longrightarrow> a < length (sn_heap s) \<and> app_ID (ca_App (sn_heap s ! a)) = i) \<and>
     (\<forall>k a. sn_appsByUID s k = Some a \<longrightarrow> a < length (sn_heap s) \<and>
        (\<exists>uid. app_UID (ca_App (sn_heap s ! a)) = Some uid \<and> k = appUIDKey (app_OrgID (ca_App (sn_heap s ! a))) uid))"

definition fresh_heap :: "Snapshot \<Rightarrow> bool" where
  "fresh_heap s \<longleftrightarrow> (\<forall>a\<in>set (sn_heap s). ca_Endpoints a = [] \<and> ca_byEventType a = (\<lambda>_. []) \<and> ca_allEventTypes a = [])"

lemma nth_append_last: "n < length xs \<Longrightarrow> (xs @ [x]) ! n = xs ! n"
  by (simp add: nth_append)

lemma add_app_heap [simp]: "sn_heap (add_app app s) =
    sn_heap s @ [\<lparr>ca_App = app, ca_Endpoints = [], ca_byEventType = (\<lambda>_. []), ca_allEventTypes = []\<rparr>]"
  by (simp add: add_app_def Let_def split: option.split)

lemma add_app_ok: "snap_ok s \<Longrightarrow> snap_ok (add_app app s)"
  unfolding snap_ok_def
  by (auto simp: add_app_def Let_def nth_append less_Suc_eq split: option.splits if_splits)

lemma add_apps_ok: "snap_ok s \<Longrightarrow> snap_ok (fold add_app apps s)"
  by (induction apps arbitrary: s) (auto simp: add_app_ok)

lemma add_app_fresh: "fresh_heap s \<Longrightarrow> fresh_heap (add_app app s)"
  by (simp add: fresh_heap_def)

lemma add_apps_fresh: "fresh_heap s \<Longrightarrow> fresh_heap (fold add_app apps s)"
  by (induction apps arbitrary: s) (simp_all add: add_app_fresh)

lemma add_app_dom: "dom (sn_apps (add_app app s)) = insert (app_ID app) (dom (sn_apps s))"
  by (auto simp: add_app_def Let_def split: option.splits if_splits)

lemma add_apps_dom: "dom (sn_apps (fold add_app apps s)) = dom (sn_apps s) \<union> app_ID ` set apps"
  by (induction apps arbitrary: s) (auto simp: add_app_dom)

lemma add_app_rows: "ca_App ` set (sn_heap (fold add_app apps s)) = ca_App ` set (sn_heap s) \<union> set apps"
  by (induction apps arbitrary: s) auto

lemma fold_frame: "(\<And>x s. f (g x s) = f s) \<Longrightarrow> f (fold g xs s) = f s"
  by (induction xs arbitrary: s) auto

lemma base_snapshot_props:
  "snap_ok (base_snapshot t data)" "fresh_heap (base_snapshot t data)"
  "dom (sn_apps (base_snapshot t data)) = app_ID ` set (sd_Applications data)"
  "ca_App ` set (sn_heap (base_snapshot t data)) = set (sd_Applications data)"
proof -
  define s1 where "s1 = fold (\<lambda>e s. s\<lparr>sn_eventTypes := (sn_eventTypes s)(eventTypeKey (et_OrgID e) (et_Name e) \<mapsto> e)\<rparr>) (sd_EventTypes data)
    (fold (\<lambda>o' s. s\<lparr>sn_orgs := (sn_orgs s)(org_ID o' \<mapsto> o')\<rparr>) (sd_Organizations data)
      \<lparr>sn_builtAt = t, sn_orgs = Map.empty, sn_heap = [], sn_apps = Map.empty,
       sn_appsByUID = Map.empty, sn_endpoints = Map.empty, sn_eventTypes = Map.empty\<rparr>)"
  have b: "base_snapshot t data = fold add_app (sd_Applications data) s1"
    by (simp add: base_snapshot_def s1_def Let_def)
  have e: "sn_heap s1 = []" "sn_apps s1 = Map.empty" "sn_appsByUID s1 = Map.empty"
    unfolding s1_def by (simp_all add: fold_frame [where f = sn_heap] fold_frame [where f = sn_apps] fold_frame [where f = sn_appsByUID])
  have "snap_ok s1" "fresh_heap s1" by (simp_all add: snap_ok_def fresh_heap_def e)
  then show "snap_ok (base_snapshot t data)" "fresh_heap (base_snapshot t data)"
    "dom (sn_apps (base_snapshot t data)) = app_ID ` set (sd_Applications data)"
    "ca_App ` set (sn_heap (base_snapshot t data)) = set (sd_Applications data)"
    by (simp_all add: b add_apps_ok add_apps_fresh add_apps_dom add_app_rows e)
qed

section \<open>Adding endpoints\<close>

lemma index_App [simp]: "ca_App (index_endpoint e a) = ca_App a"
  by (simp add: index_endpoint_def Let_def add_name_fold)

lemma add_endpoint_frame [simp]:
  "sn_apps (add_endpoint e s) = sn_apps s" "sn_appsByUID (add_endpoint e s) = sn_appsByUID s"
  "length (sn_heap (add_endpoint e s)) = length (sn_heap s)"
  by (auto simp: add_endpoint_def Let_def split: option.splits)

lemma add_endpoint_App [simp]: "a < length (sn_heap s) \<Longrightarrow> ca_App (sn_heap (add_endpoint e s) ! a) = ca_App (sn_heap s ! a)"
proof (cases "sn_apps s (ep_AppID e)")
  case (Some b)
  then show "a < length (sn_heap s) \<Longrightarrow> ?thesis" by (cases "b = a") (simp_all add: add_endpoint_def Let_def)
qed (simp add: add_endpoint_def Let_def)

lemma add_endpoint_ok: "snap_ok s \<Longrightarrow> snap_ok (add_endpoint e s)"
  unfolding snap_ok_def by simp

lemma add_endpoint_heap:
  assumes "snap_ok s" and "sn_apps s i = Some a"
  shows "sn_heap (add_endpoint e s) ! a = (if ep_AppID e = i then index_endpoint e (sn_heap s ! a) else sn_heap s ! a)"
proof (cases "sn_apps s (ep_AppID e)")
  case (Some b)
  have "a < length (sn_heap s)" "b = a \<longleftrightarrow> ep_AppID e = i" using assms Some unfolding snap_ok_def by (auto, metis)
  with Some show ?thesis by (auto simp: add_endpoint_def Let_def)
qed (use assms in \<open>auto simp: add_endpoint_def Let_def\<close>)

lemma add_endpoints_heap:
  assumes "snap_ok s" and "sn_apps s i = Some a"
  shows "sn_heap (fold add_endpoint es s) ! a = fold index_endpoint (filter (\<lambda>e. ep_AppID e = i) es) (sn_heap s ! a)"
  using assms by (induction es arbitrary: s) (auto simp: add_endpoint_ok add_endpoint_heap)

lemma add_endpoints_frame:
  "sn_apps (fold add_endpoint es s) = sn_apps s" "sn_appsByUID (fold add_endpoint es s) = sn_appsByUID s"
  "snap_ok s \<Longrightarrow> snap_ok (fold add_endpoint es s)"
  "a < length (sn_heap s) \<Longrightarrow> ca_App (sn_heap (fold add_endpoint es s) ! a) = ca_App (sn_heap s ! a)"
  by (induction es arbitrary: s) (auto simp: add_endpoint_ok)

text \<open>The endpoints that could be built, in the order of their rows.\<close>

fun built :: "(Endpoint \<Rightarrow> build_error + ConfigEndpoint) \<Rightarrow> Endpoint list \<Rightarrow> ConfigEndpoint list" where
  "built build [] = []"
| "built build (ep # eps) = (case build ep of Inl e \<Rightarrow> built build eps | Inr entry \<Rightarrow> entry # built build eps)"

lemma build_endpoints_eq: "fst (build_endpoints build eps s problems) = fold add_endpoint (built build eps) s"
  by (induction build eps s problems rule: build_endpoints.induct) (auto split: sum.splits)

lemma build_problems: "length (snd (build_endpoints build eps s problems)) + length (built build eps) = length problems + length eps"
  by (induction build eps s problems rule: build_endpoints.induct) (auto split: sum.splits)

lemma buildEndpoint_row: "buildEndpoint opn um now ep = Inr e \<Longrightarrow> Endpoint.truncate e = ep"
  by (auto simp: buildEndpoint_def Endpoint.extend_def Endpoint.truncate_def split: sum.splits if_splits option.splits)

lemma buildEndpoint_EventTypes: "buildEndpoint opn um now ep = Inr e \<Longrightarrow> ep_EventTypes e = ep_EventTypes ep"
  by (auto simp: buildEndpoint_def Endpoint.extend_def split: sum.splits if_splits option.splits)

lemma built_distinct:
  assumes "\<forall>ep\<in>set eps. distinct (ep_EventTypes ep)"
  shows "\<forall>e\<in>set (built (buildEndpoint opn um now) eps). distinct (ep_EventTypes e)"
  using assms by (induction eps) (auto split: sum.splits dest: buildEndpoint_EventTypes)

section \<open>Properties\<close>

text \<open>
  C31: fan-out by index is fan-out by scan. For every application, event type and channel list, the
  endpoints the precomputed index gives are exactly those a scan of the application's endpoint rows
  gives: deliverable, matching the channels, and subscribed to the event type or to all; none is
  listed twice, in the order of the rows within each of the two groups. The rows' event type lists
  have no duplicates, which the endpoint use case ensures with \<^verbatim>\<open>utils.Unique\<close>.
\<close>
theorem MatchingEndpoints_scan:
  assumes "\<forall>ep\<in>set (sd_Endpoints data). distinct (ep_EventTypes ep)"
    and "BuildSnapshot aead_open um sealer t now data = (s, problems)"
  shows "MatchingEndpoints s appID et channels =
    (if appID \<in> app_ID ` set (sd_Applications data) then
       (let es = filter (\<lambda>e. ep_AppID e = appID \<and> deliverableTo channels e)
                   (built (buildEndpoint (Open aead_open sealer) um now) (sd_Endpoints data))
        in filter (\<lambda>e. et \<in> set (ep_EventTypes e)) es @ filter (\<lambda>e. ep_EventTypes e = []) es)
     else [])"
proof -
  let ?b = "built (buildEndpoint (Open aead_open sealer) um now) (sd_Endpoints data)"
  let ?s0 = "base_snapshot t data"
  have s: "s = fold add_endpoint ?b ?s0"
    using assms(2) build_endpoints_eq by (metis BuildSnapshot_def fst_conv)
  note ok = base_snapshot_props(1) [of t data]
  show ?thesis
  proof (cases "sn_apps ?s0 appID")
    case None
    then have "appID \<notin> app_ID ` set (sd_Applications data)" using base_snapshot_props(3) [of t data] by blast
    with None show ?thesis by (simp add: MatchingEndpoints_def Snapshot_App_def s add_endpoints_frame)
  next
    case (Some a)
    then have i: "appID \<in> app_ID ` set (sd_Applications data)" using base_snapshot_props(3) [of t data] by blast
    have al: "a < length (sn_heap ?s0)" using ok Some by (simp add: snap_ok_def)
    then have e: "ca_byEventType (sn_heap ?s0 ! a) = (\<lambda>_. [])" "ca_allEventTypes (sn_heap ?s0 ! a) = []"
      using base_snapshot_props(2) [of t data] by (simp_all add: fresh_heap_def)
    have "\<forall>e\<in>set (filter (\<lambda>e. ep_AppID e = appID) ?b). distinct (ep_EventTypes e)" using built_distinct [OF assms(1)] by auto
    from concat_replicate_count [OF this, of et]
    have "Snapshot_App s appID = Some (fold index_endpoint (filter (\<lambda>e. ep_AppID e = appID) ?b) (sn_heap ?s0 ! a))"
      and "ca_byEventType (fold index_endpoint (filter (\<lambda>e. ep_AppID e = appID) ?b) (sn_heap ?s0 ! a)) et =
        filter (\<lambda>e. et \<in> set (ep_EventTypes e)) (filter (\<lambda>e. ep_AppID e = appID) ?b)"
      using add_endpoints_heap [OF ok Some] by (simp_all add: Snapshot_App_def s add_endpoints_frame Some index_fold e)
    then show ?thesis using i e
      by (simp add: MatchingEndpoints_def index_fold Let_def conj_ac)
  qed
qed

lemma sep_unique:
  assumes "a @ c # b = a' @ c # b'" and "c \<notin> set a" and "c \<notin> set b"
  shows "a' = a \<and> b' = b"
proof (cases "c \<in> set a'")
  case True
  then obtain x y where a': "a' = x @ c # y" "c \<notin> set x" using split_list_first by metis
  then have "a @ c # b = x @ c # (y @ c # b')" using assms(1) by simp
  with split_at_first_sep [OF this assms(2) a'(2)] assms(3) show ?thesis by auto
next
  case False
  from split_at_first_sep [OF assms(1,2) False] show ?thesis by simp
qed

text \<open>
  Whatever identifier a tenant passes, an application it resolves to belongs to that tenant, is one of
  the loaded rows, and has that identifier as its id or its uid. PostgreSQL text holds no NUL
  character, so the separator of the uid keys is unambiguous for the stored rows.
\<close>
lemma ResolveApp_in_tenant:
  assumes "\<forall>app\<in>set (sd_Applications data). CHR 0x00 \<notin> set (app_OrgID app) \<and>
      (\<forall>uid. app_UID app = Some uid \<longrightarrow> CHR 0x00 \<notin> set uid)"
    and "BuildSnapshot aead_open um sealer t now data = (s, problems)"
    and "ResolveApp s orgID x = Some app"
  shows "app_OrgID (ca_App app) = orgID \<and> ca_App app \<in> set (sd_Applications data) \<and>
    (app_ID (ca_App app) = x \<or> app_UID (ca_App app) = Some x)"
proof -
  let ?b = "built (buildEndpoint (Open aead_open sealer) um now) (sd_Endpoints data)"
  let ?s0 = "base_snapshot t data"
  have s: "s = fold add_endpoint ?b ?s0"
    using assms(2) build_endpoints_eq by (metis BuildSnapshot_def fst_conv)
  have ok: "snap_ok s" using base_snapshot_props(1) by (simp add: s add_endpoints_frame)
  have row: "ca_App (sn_heap s ! a) \<in> set (sd_Applications data)" if "a < length (sn_heap ?s0)" for a
    using base_snapshot_props(4) [of t data] that nth_mem [OF that] by (auto simp: s add_endpoints_frame)
  have mem: "ca_App (sn_heap s ! a) \<in> set (sd_Applications data)"
    if "sn_apps s i = Some a \<or> sn_appsByUID s k = Some a" for i k a
    using that base_snapshot_props(1) [of t data] row by (auto simp: s add_endpoints_frame snap_ok_def)
  consider (id) a where "sn_apps s x = Some a" "app = sn_heap s ! a" "app_OrgID (ca_App app) = orgID"
    | (uid) a where "sn_appsByUID s (appUIDKey orgID x) = Some a" "app = sn_heap s ! a"
    using assms(3) by (auto simp: ResolveApp_def Snapshot_App_def AppByUID_def split: option.splits if_splits)
  then show ?thesis
  proof cases
    case id
    then show ?thesis using ok mem [of x a] by (auto simp: snap_ok_def)
  next
    case uid
    then obtain u where u: "app_UID (ca_App app) = Some u" "appUIDKey orgID x = appUIDKey (app_OrgID (ca_App app)) u"
      using ok unfolding snap_ok_def by blast
    have r: "ca_App app \<in> set (sd_Applications data)" using uid mem by blast
    with assms(1) u(1) have "CHR 0x00 \<notin> set (app_OrgID (ca_App app))" "CHR 0x00 \<notin> set u" by auto
    with sep_unique [of "app_OrgID (ca_App app)" "CHR 0x00" u orgID x] u(2)
    have "orgID = app_OrgID (ca_App app)" "x = u" by (auto simp: appUIDKey_def)
    with u(1) r show ?thesis by simp
  qed
qed

section \<open>Witnesses\<close>

definition demo_app :: Application where
  "demo_app = \<lparr>app_ID = ''app_1'', app_OrgID = ''org_1'', app_UID = Some ''billing'', app_Name = ''Billing'',
     app_RateLimit = None, app_Metadata = [], app_CreatedAt = 0, app_UpdatedAt = 0, app_DeletedAt = None\<rparr>"

definition demo_endpoint :: "string \<Rightarrow> string list \<Rightarrow> Endpoint" where
  "demo_endpoint i types = \<lparr>ep_ID = i, ep_AppID = ''app_1'', ep_OrgID = ''org_1'', ep_UID = None,
     ep_URL = ''https://example.com/hook'', ep_Description = [], ep_Version = 1, ep_RateLimit = None,
     ep_EventTypes = types, ep_Channels = [], ep_Headers = [],
     ep_Secret = \<lparr>sealed_Sealed = replicate 24 0 @ [1, 2, 3], sealed_ExpiresAt = None\<rparr>,
     ep_SecretType = SecretTypeHMAC256, ep_OldSecrets = [], ep_Pool = ''default'', ep_FirstFailureAt = None,
     ep_DisabledAt = None, ep_CreatedAt = 0, ep_UpdatedAt = 0, ep_DeletedAt = None\<rparr>"

definition demo_data :: SnapshotData where
  "demo_data = \<lparr>sd_Organizations = [], sd_Applications = [demo_app],
     sd_Endpoints = [demo_endpoint ''ep_1'' [], demo_endpoint ''ep_2'' [''invoice.paid''], demo_endpoint ''ep_3'' [''user.created'']],
     sd_EventTypes = []\<rparr>"

definition demo_snapshot :: Snapshot where
  "demo_snapshot = fst (BuildSnapshot (\<lambda>k n c. Some c) (\<lambda>_. None) \<lparr>sl_keys = [replicate 32 7]\<rparr> 5 5 demo_data)"

lemma demo_build: "BuildSnapshot (\<lambda>k n c. Some c) (\<lambda>_. None) \<lparr>sl_keys = [replicate 32 7]\<rparr> 5 5 demo_data =
    (demo_snapshot, snd (BuildSnapshot (\<lambda>k n c. Some c) (\<lambda>_. None) \<lparr>sl_keys = [replicate 32 7]\<rparr> 5 5 demo_data))"
  by (simp add: demo_snapshot_def)

lemma demo_built: "map ep_ID (built (buildEndpoint (Open (\<lambda>k n c. Some c) \<lparr>sl_keys = [replicate 32 7]\<rparr>) (\<lambda>_. None) 5)
    (sd_Endpoints demo_data)) = [''ep_1'', ''ep_2'', ''ep_3'']"
  by (simp add: demo_data_def demo_endpoint_def buildEndpoint_def ActiveSecrets_def Open_def KeySize_def NonceSizeX_def
      Endpoint.extend_def)

theorem MatchingEndpoints_scan_witness:
  "map ep_ID (MatchingEndpoints demo_snapshot ''app_1'' ''invoice.paid'' []) = [''ep_2'', ''ep_1'']"
proof -
  have "\<forall>ep\<in>set (sd_Endpoints demo_data). distinct (ep_EventTypes ep)" by (simp add: demo_data_def demo_endpoint_def)
  from MatchingEndpoints_scan [OF this demo_build, of "''app_1''" "''invoice.paid''" "[]"] show ?thesis
    by (simp add: demo_data_def demo_app_def demo_endpoint_def buildEndpoint_def ActiveSecrets_def Open_def KeySize_def
        NonceSizeX_def Endpoint.extend_def deliverableTo_def Deliverable_def Disabled_def Deleted_def WantsChannels_def)
qed

lemma demo_maps: "sn_apps demo_snapshot = sn_apps (base_snapshot 5 demo_data)"
  "sn_appsByUID demo_snapshot = sn_appsByUID (base_snapshot 5 demo_data)"
  by (simp_all add: demo_snapshot_def BuildSnapshot_def build_endpoints_eq add_endpoints_frame)

lemma demo_resolve: "ResolveApp demo_snapshot ''org_1'' ''billing'' \<noteq> None"
  by (simp add: ResolveApp_def Snapshot_App_def AppByUID_def demo_maps
      base_snapshot_def demo_data_def add_app_def demo_app_def appUIDKey_def Let_def)

end
