(* ===== verification/Lanes.thy ===== *)
theory Lanes
  imports Lane Snapshot
begin

text \<open>
  \<^verbatim>\<open>internal/application/dispatch/lanes.go\<close>: the worker's map from endpoint ids to lanes. The map is an
  association list with distinct keys; a lane that is looked up is updated in place with
  \<open>set_lane\<close>, which stands for a method call through the pointer. The clock is an argument.
\<close>

record LaneManagerOptions =
  mo_Defaults :: LaneOptions
  mo_IdleEviction :: duration

record LaneManager =
  mg_opts :: LaneManagerOptions
  mg_lanes :: "(string \<times> Lane) list"

definition NewLaneManager :: "LaneManagerOptions \<Rightarrow> LaneManager" where
  "NewLaneManager opts =
     \<lparr>mg_opts = (if mo_IdleEviction opts \<le> 0 then opts\<lparr>mo_IdleEviction := 10 * Minute\<rparr> else opts), mg_lanes = []\<rparr>"

definition lane_at :: "LaneManager \<Rightarrow> string \<Rightarrow> Lane option" where
  "lane_at m i = map_of (mg_lanes m) i"

definition set_lane :: "string \<Rightarrow> Lane \<Rightarrow> LaneManager \<Rightarrow> LaneManager" where
  "set_lane i l m = m\<lparr>mg_lanes := map (\<lambda>(j, k). (j, if j = i then l else k)) (mg_lanes m)\<rparr>"

definition lane_opts_for :: "LaneManager \<Rightarrow> ConfigEndpoint \<Rightarrow> LaneOptions" where
  "lane_opts_for m ep = (case ep_RateLimit ep of
      Some r \<Rightarrow> if r > 0 then (mo_Defaults (mg_opts m))\<lparr>lo_RateLimit := r\<rparr> else mo_Defaults (mg_opts m)
    | None \<Rightarrow> mo_Defaults (mg_opts m))"

definition For :: "time \<Rightarrow> ConfigEndpoint \<Rightarrow> LaneManager \<Rightarrow> Lane \<times> LaneManager" where
  "For now ep m = (case lane_at m (ep_ID ep) of
      Some lane \<Rightarrow> (lane, m)
    | None \<Rightarrow> (let lane = NewLane now (ep_ID ep) (lane_opts_for m ep) in
        (lane, m\<lparr>mg_lanes := mg_lanes m @ [(ep_ID ep, lane)]\<rparr>)))"

definition evictable :: "time \<Rightarrow> LaneManager \<Rightarrow> Lane \<Rightarrow> bool" where
  "evictable now m lane \<longleftrightarrow> \<not> Lane_InFlight lane > 0 \<and> br_state (ln_breaker lane) = BreakerClosed \<and>
     \<not> IdleFor now lane < mo_IdleEviction (mg_opts m)"

definition EvictIdle :: "time \<Rightarrow> LaneManager \<Rightarrow> nat \<times> LaneManager" where
  "EvictIdle now m =
     (length (filter (\<lambda>(i, l). evictable now m l) (mg_lanes m)),
      m\<lparr>mg_lanes := filter (\<lambda>(i, l). \<not> evictable now m l) (mg_lanes m)\<rparr>)"

record LaneStats =
  lst_EndpointID :: string
  lst_Concurrency :: int
  lst_InFlight :: int
  lst_BreakerState :: BreakerState
  lst_OpenFor :: duration

definition Lanes_Stats :: "time \<Rightarrow> LaneManager \<Rightarrow> LaneStats list" where
  "Lanes_Stats now m = map (\<lambda>(i, l).
     \<lparr>lst_EndpointID = ln_endpointID l, lst_Concurrency = ln_concurrency l, lst_InFlight = Lane_InFlight l,
      lst_BreakerState = br_state (ln_breaker l), lst_OpenFor = OpenFor now (ln_breaker l)\<rparr>) (mg_lanes m)"

definition BreakerCounts :: "LaneManager \<Rightarrow> BreakerState \<Rightarrow> nat" where
  "BreakerCounts m st = length (filter (\<lambda>(i, l). br_state (ln_breaker l) = st) (mg_lanes m))"

section \<open>The map\<close>

definition mg_inv :: "LaneManager \<Rightarrow> bool" where
  "mg_inv m \<longleftrightarrow> distinct (map fst (mg_lanes m)) \<and> (\<forall>(i, l)\<in>set (mg_lanes m). ln_endpointID l = i)"

lemma NewLane_id [simp]: "ln_endpointID (NewLane now i opts) = i"
  by (simp add: NewLane_def touch_def Let_def)

lemma NewLaneManager_inv: "mg_inv (NewLaneManager opts)"
  by (simp add: mg_inv_def NewLaneManager_def)

lemma For_inv: "mg_inv m \<Longrightarrow> mg_inv (snd (For now ep m))"
  by (auto simp: mg_inv_def For_def lane_at_def Let_def map_of_eq_None_iff split: option.splits)

lemma For_lookup: "lane_at (snd (For now ep m)) (ep_ID ep) = Some (fst (For now ep m))"
  by (auto simp: For_def lane_at_def Let_def map_add_def split: option.splits)

lemma For_other: "i \<noteq> ep_ID ep \<Longrightarrow> lane_at (snd (For now ep m)) i = lane_at m i"
  by (auto simp: For_def lane_at_def Let_def map_add_def split: option.splits)

lemma lane_at_set: "lane_at (set_lane i l m) j = (if j = i \<and> lane_at m i \<noteq> None then Some l else lane_at m j)"
proof -
  have "map_of (map (\<lambda>(j, k). (j, if j = i then l else k)) xs) j =
      (if j = i \<and> map_of xs i \<noteq> None then Some l else map_of xs j)" for xs
    by (induction xs) auto
  then show ?thesis by (simp add: lane_at_def set_lane_def)
qed

lemma set_lane_inv: "mg_inv m \<Longrightarrow> ln_endpointID l = i \<Longrightarrow> mg_inv (set_lane i l m)"
  by (auto simp: mg_inv_def set_lane_def comp_def case_prod_unfold)

lemma EvictIdle_inv: "mg_inv m \<Longrightarrow> mg_inv (snd (EvictIdle now m))"
  by (auto simp: mg_inv_def EvictIdle_def distinct_map_filter)

lemma evict_lookup:
  assumes "mg_inv m"
  shows "lane_at (snd (EvictIdle now m)) i = (case lane_at m i of
      Some l \<Rightarrow> if evictable now m l then None else Some l | None \<Rightarrow> None)"
proof -
  have "map_of (filter (\<lambda>(i, l). \<not> P l) xs) i = (case map_of xs i of Some l \<Rightarrow> if P l then None else Some l | None \<Rightarrow> None)"
    if "distinct (map fst xs)" for xs :: "(string \<times> Lane) list" and P
    using that by (induction xs) (auto split: option.splits if_splits simp: map_of_eq_None_iff)
  then show ?thesis using assms by (simp add: lane_at_def EvictIdle_def mg_inv_def)
qed

text \<open>
  Eviction forgets nothing that matters. A lane with a delivery in flight, with a breaker that is
  open or half-open, or used within the idle period is still in the map after an eviction pass,
  unchanged; what is evicted is idle, has a closed breaker and nothing in flight.
\<close>
theorem EvictIdle_safe:
  assumes "mg_inv m" and "lane_at m i = Some l"
  shows "lane_at (snd (EvictIdle now m)) i =
    (if Lane_InFlight l \<le> 0 \<and> br_state (ln_breaker l) = BreakerClosed \<and> mo_IdleEviction (mg_opts m) \<le> IdleFor now l
     then None else Some l)"
  using evict_lookup [OF assms(1)] assms(2) by (auto simp: evictable_def)

definition demo_lanes :: LaneManager where
  "demo_lanes = \<lparr>mg_opts = \<lparr>mo_Defaults = demo_lane_opts, mo_IdleEviction = Minute\<rparr>,
     mg_lanes = [(''ep'', NewLane 0 ''ep'' demo_lane_opts)]\<rparr>"

theorem EvictIdle_safe_witness:
  "lane_at (snd (EvictIdle Second demo_lanes)) ''ep'' = Some (NewLane 0 ''ep'' demo_lane_opts) \<and>
   lane_at (snd (EvictIdle Hour demo_lanes)) ''ep'' = None"
proof -
  have "mg_inv demo_lanes" "lane_at demo_lanes ''ep'' = Some (NewLane 0 ''ep'' demo_lane_opts)"
    by (simp_all add: demo_lanes_def mg_inv_def lane_at_def)
  from EvictIdle_safe [OF this] show ?thesis
    by (simp add: demo_lanes_def demo_lane_defs NewBreaker_def breaker_defaults_def Lane_InFlight_def IdleFor_def time_Sub_def)
qed

end
