(* ===== verification/Retry_Policy.thy ===== *)
theory Retry_Policy
  imports Utils
begin

text \<open>
  \<^verbatim>\<open>internal/domain/retry/policy.go\<close>: the delay before the retry that follows an attempt. The
  jitter function is a field of the policy, as in the code. Indexing the schedule with a negative
  attempt panics in Go; \<open>Delay\<close> returns \<open>None\<close> there. \<^verbatim>\<open>time.Parse\<close> is an argument of
  \<open>ParseRetryAfter\<close>: layout, text, and the instant when the text matches the layout.
\<close>

definition DefaultSchedule :: "duration list" where
  "DefaultSchedule =
     [5 * Second, 5 * Minute, 30 * Minute, 2 * Hour, 5 * Hour, 10 * Hour, 10 * Hour]"

definition OverloadFloor :: duration where
  "OverloadFloor = 30 * Second"

record Outcome =
  out_StatusCode :: int
  out_Timeout :: bool
  out_RetryAfter :: "duration option"

record Policy =
  pol_schedule :: "duration list"
  pol_jitter :: "duration \<Rightarrow> duration"

text \<open>The policy's options, applied in order by \<open>NewPolicy\<close>.\<close>

datatype PolicyOption =
    WithSchedule "duration list"
  | WithJitter "(duration \<Rightarrow> duration) option"

fun apply_option :: "Policy \<Rightarrow> PolicyOption \<Rightarrow> Policy" where
  "apply_option p (WithSchedule s) = (if length s > 0 then p\<lparr>pol_schedule := s\<rparr> else p)"
| "apply_option p (WithJitter j) = (case j of Some f \<Rightarrow> p\<lparr>pol_jitter := f\<rparr> | None \<Rightarrow> p)"

definition NewPolicy :: "(duration \<Rightarrow> duration) \<Rightarrow> PolicyOption list \<Rightarrow> Policy" where
  "NewPolicy randomJitter opts =
     foldl apply_option \<lparr>pol_schedule = DefaultSchedule, pol_jitter = randomJitter\<rparr> opts"

definition NoJitter :: "duration \<Rightarrow> duration" where
  "NoJitter d = d"

definition MaxAttempts :: "Policy \<Rightarrow> int" where
  "MaxAttempts p = int (length (pol_schedule p)) + 1"

definition Exhausted :: "Policy \<Rightarrow> int \<Rightarrow> bool" where
  "Exhausted p attempt \<longleftrightarrow> attempt \<ge> int (length (pol_schedule p))"

definition clamp :: "duration \<Rightarrow> duration \<Rightarrow> duration \<Rightarrow> duration" where
  "clamp d lo hi = (if d < lo then lo else if d > hi then hi else d)"

definition StatusTooManyRequests :: int where
  "StatusTooManyRequests = 429"

definition base_delay :: "Policy \<Rightarrow> nat \<Rightarrow> Outcome \<Rightarrow> duration" where
  "base_delay p n out =
     (let delay = pol_schedule p ! n in
      if out_Timeout out \<or> out_StatusCode out = StatusTooManyRequests
      then max delay OverloadFloor else delay)"

definition Delay :: "Policy \<Rightarrow> int \<Rightarrow> Outcome \<Rightarrow> (duration \<times> bool) option" where
  "Delay p attempt out =
     (if Exhausted p attempt then Some (0, False)
      else if attempt < 0 then None
      else let delay = base_delay p (nat attempt) out;
               delay' = (case out_RetryAfter out of
                           None \<Rightarrow> delay
                         | Some r \<Rightarrow> clamp r delay (wrap64 (2 * delay)))
           in Some (pol_jitter p delay', True))"

section \<open>Retry-After\<close>

text \<open>
  \<^verbatim>\<open>strconv.Atoi\<close>: an optional sign and one or more decimal digits whose value fits in 64 bits.
\<close>

definition digit_value :: "char \<Rightarrow> int option" where
  "digit_value c = (let n = (of_char c :: int) in if 48 \<le> n \<and> n \<le> 57 then Some (n - 48) else None)"

fun digits_value :: "int \<Rightarrow> string \<Rightarrow> int option" where
  "digits_value acc [] = Some acc"
| "digits_value acc (c # cs) =
     (case digit_value c of None \<Rightarrow> None | Some d \<Rightarrow> digits_value (10 * acc + d) cs)"

definition Atoi :: "string \<Rightarrow> int option" where
  "Atoi s = (case s of
      [] \<Rightarrow> None
    | c # cs \<Rightarrow>
       (let neg = (c = CHR ''-''); body = (if c = CHR ''-'' \<or> c = CHR ''+'' then cs else s) in
        if body = [] then None
        else case digits_value 0 body of
               None \<Rightarrow> None
             | Some v \<Rightarrow> let w = (if neg then - v else v) in
                         if - (2 ^ 63) \<le> w \<and> w < 2 ^ 63 then Some w else None))"

definition retry_after_layouts :: "string list" where
  "retry_after_layouts =
     [''Mon, 02 Jan 2006 15:04:05 GMT'', ''Mon, 02 Jan 2006 15:04:05 MST'',
      ''Mon, 02 Jan 2006 15:04:05 -0700'', ''Monday, 02-Jan-06 15:04:05 MST'',
      ''Mon Jan _2 15:04:05 2006'']"

fun parse_retry_date :: "(string \<Rightarrow> string \<Rightarrow> time option) \<Rightarrow> string list \<Rightarrow> string \<Rightarrow> time \<Rightarrow> duration option" where
  "parse_retry_date parse [] header now = None"
| "parse_retry_date parse (l # ls) header now =
     (case parse l header of
        None \<Rightarrow> parse_retry_date parse ls header now
      | Some t \<Rightarrow> (let delay = time_Sub t now in if delay \<le> 0 then None else Some delay))"

definition ParseRetryAfter ::
    "(string \<Rightarrow> string \<Rightarrow> time option) \<Rightarrow> string \<Rightarrow> time \<Rightarrow> duration option" where
  "ParseRetryAfter parse header now =
     (if header = [] then None
      else case Atoi header of
        Some seconds \<Rightarrow> (if seconds < 0 then None else Some (wrap64 (seconds * Second)))
      | None \<Rightarrow> parse_retry_date parse retry_after_layouts header now)"

section \<open>Properties\<close>

lemma clamp_range: "lo \<le> hi \<Longrightarrow> lo \<le> clamp d lo hi \<and> clamp d lo hi \<le> hi"
  by (simp add: clamp_def)

lemma apply_option_nonempty:
  "pol_schedule p \<noteq> [] \<Longrightarrow> pol_schedule (apply_option p opt) \<noteq> []"
  by (cases opt) (auto split: option.splits)

lemma NewPolicy_nonempty: "pol_schedule (NewPolicy rj opts) \<noteq> []"
proof -
  have "pol_schedule p \<noteq> [] \<Longrightarrow> pol_schedule (foldl apply_option p opts) \<noteq> []" for p
    by (induction opts arbitrary: p) (auto simp: apply_option_nonempty)
  then show ?thesis by (simp add: NewPolicy_def DefaultSchedule_def)
qed

lemma base_delay_ge: "pol_schedule p ! n \<le> base_delay p n out"
  by (simp add: base_delay_def Let_def)

text \<open>Whether a retry is due depends on the attempt number alone, never on the outcome.\<close>

lemma Delay_retry_iff:
  assumes "0 \<le> attempt"
  shows "\<exists>d r. Delay p attempt out = Some (d, r) \<and> (r \<longleftrightarrow> attempt < int (length (pol_schedule p)))"
  using assms by (auto simp: Delay_def Exhausted_def Let_def)

lemma Delay_window:
  assumes "0 \<le> attempt" and "attempt < int (length (pol_schedule p))"
    and "0 \<le> pol_schedule p ! nat attempt" and "base_delay p (nat attempt) out < 2 ^ 62"
  shows "\<exists>d. Delay p attempt out = Some (pol_jitter p d, True) \<and>
    base_delay p (nat attempt) out \<le> d \<and> d \<le> 2 * base_delay p (nat attempt) out"
proof -
  let ?b = "base_delay p (nat attempt) out"
  have b: "0 \<le> ?b" using assms(3) base_delay_ge [of p "nat attempt" out] by linarith
  have w: "wrap64 (2 * ?b) = 2 * ?b" using b assms(4) by (intro wrap64_id) auto
  have "?b \<le> 2 * ?b" using b by simp
  then show ?thesis using assms(1,2) b w clamp_range [of ?b "2 * ?b"]
    by (auto simp: Delay_def Exhausted_def Let_def split: option.splits)
qed

lemma base_delay_overload:
  "out_Timeout out \<or> out_StatusCode out = 429 \<Longrightarrow> OverloadFloor \<le> base_delay p n out"
  by (auto simp: base_delay_def Let_def StatusTooManyRequests_def)

text \<open>
  C34: for a schedule of non-negative delays below 146 years, a retry that is due waits, before
  jitter, at least the scheduled delay (and at least 30 seconds after a timeout or a 429) and at
  most twice that, whatever Retry-After the endpoint sent; the attempt after the last scheduled
  delay is never retried.
\<close>
theorem Delay_bounds:
  assumes "0 \<le> attempt" and "\<forall>d\<in>set (pol_schedule p). 0 \<le> d \<and> d < 2 ^ 62"
  shows "if attempt < int (length (pol_schedule p))
    then \<exists>d. Delay p attempt out = Some (pol_jitter p d, True) \<and>
      pol_schedule p ! nat attempt \<le> d \<and>
      (out_Timeout out \<or> out_StatusCode out = 429 \<longrightarrow> 30 * Second \<le> d) \<and>
      d \<le> 2 * max (pol_schedule p ! nat attempt) (30 * Second) \<and>
      (\<not> out_Timeout out \<and> out_StatusCode out \<noteq> 429 \<longrightarrow> d \<le> 2 * pol_schedule p ! nat attempt)
    else Delay p attempt out = Some (0, False)"
proof (cases "attempt < int (length (pol_schedule p))")
  case True
  have mem: "pol_schedule p ! nat attempt \<in> set (pol_schedule p)" using True assms(1) by simp
  have "base_delay p (nat attempt) out < 2 ^ 62"
    using mem assms(2) by (auto simp: base_delay_def Let_def OverloadFloor_def)
  with Delay_window [OF assms(1) True] mem assms(2)
  obtain d where "Delay p attempt out = Some (pol_jitter p d, True)"
    "base_delay p (nat attempt) out \<le> d" "d \<le> 2 * base_delay p (nat attempt) out" by auto
  then show ?thesis using True
    by (auto simp: base_delay_def Let_def OverloadFloor_def StatusTooManyRequests_def intro!: exI [of _ d] split: if_splits)
next
  case False
  then show ?thesis by (simp add: Delay_def Exhausted_def)
qed

theorem Delay_bounds_witness:
  "Delay (NewPolicy NoJitter []) 0 \<lparr>out_StatusCode = 429, out_Timeout = False, out_RetryAfter = Some (7 * Hour)\<rparr>
     = Some (60 * Second, True) \<and>
   (\<exists>d. Delay (NewPolicy NoJitter []) 0 \<lparr>out_StatusCode = 429, out_Timeout = False, out_RetryAfter = Some (7 * Hour)\<rparr>
     = Some (d, True) \<and> 30 * Second \<le> d \<and> d \<le> 60 * Second)"
  using Delay_bounds [of 0 "NewPolicy NoJitter []"
      "\<lparr>out_StatusCode = 429, out_Timeout = False, out_RetryAfter = Some (7 * Hour)\<rparr>"]
  by (auto simp: NewPolicy_def DefaultSchedule_def NoJitter_def Delay_def Exhausted_def Let_def
      base_delay_def StatusTooManyRequests_def OverloadFloor_def clamp_def wrap64_def)

text \<open>
  A Retry-After of \<^verbatim>\<open>9223372037\<close> seconds overflows the 64-bit duration: the parser returns a
  negative delay instead of nothing or a long delay.
\<close>
theorem ParseRetryAfter_overflow:
  "ParseRetryAfter parse ''9223372037'' now = Some (- 9223372036709551616)"
  by (simp add: ParseRetryAfter_def Atoi_def digit_value_def Let_def wrap64_def)

lemma DefaultSchedule_total: "sum_list DefaultSchedule = 27 * Hour + 35 * Minute + 5 * Second"
  by (simp add: DefaultSchedule_def)

end
