(* ===== verification/Sha256.thy ===== *)
theory Sha256
  imports Huxio_Prelude
begin

text \<open>
  SHA-256 (FIPS 180-4), the part of Go's \<^verbatim>\<open>crypto/sha256\<close> the signer uses, on 32-bit words.
\<close>

unbundle bit_operations_syntax

type_synonym w32 = "32 word"

definition rotr :: "nat \<Rightarrow> w32 \<Rightarrow> w32" where
  "rotr n x = drop_bit n x OR push_bit (32 - n) x"

definition Ch :: "w32 \<Rightarrow> w32 \<Rightarrow> w32 \<Rightarrow> w32" where
  "Ch x y z = (x AND y) XOR (NOT x AND z)"

definition Maj :: "w32 \<Rightarrow> w32 \<Rightarrow> w32 \<Rightarrow> w32" where
  "Maj x y z = (x AND y) XOR (x AND z) XOR (y AND z)"

definition Sigma0 :: "w32 \<Rightarrow> w32" where "Sigma0 x = rotr 2 x XOR rotr 13 x XOR rotr 22 x"
definition Sigma1 :: "w32 \<Rightarrow> w32" where "Sigma1 x = rotr 6 x XOR rotr 11 x XOR rotr 25 x"
definition sigma0 :: "w32 \<Rightarrow> w32" where "sigma0 x = rotr 7 x XOR rotr 18 x XOR drop_bit 3 x"
definition sigma1 :: "w32 \<Rightarrow> w32" where "sigma1 x = rotr 17 x XOR rotr 19 x XOR drop_bit 10 x"

text \<open>
  The round constants are the first 32 bits of the fractional parts of the cube roots of the first 64
  primes: the integer part of the cube root of \<open>p * 2 ^ 96\<close>, modulo \<open>2 ^ 32\<close>.
\<close>

definition cube_root :: "int \<Rightarrow> int" where
  "cube_root n = fold (\<lambda>b r. if (r + 2 ^ b) ^ 3 \<le> n then r + 2 ^ b else r) (rev [0..<36]) 0"

definition first_primes :: "int list" where
  "first_primes = filter (\<lambda>p. list_all (\<lambda>d. p mod d \<noteq> 0) [2..p - 1]) [2..311]"

definition K256 :: "w32 list" where
  "K256 = map (\<lambda>p. of_int (cube_root (p * 2 ^ 96))) first_primes"

record hash_state =
  h_a :: w32
  h_b :: w32
  h_c :: w32
  h_d :: w32
  h_e :: w32
  h_f :: w32
  h_g :: w32
  h_h :: w32

definition H256 :: hash_state where
  "H256 = \<lparr>h_a = 0x6a09e667, h_b = 0xbb67ae85, h_c = 0x3c6ef372, h_d = 0xa54ff53a,
           h_e = 0x510e527f, h_f = 0x9b05688c, h_g = 0x1f83d9ab, h_h = 0x5be0cd19\<rparr>"

definition word_be :: "byte \<Rightarrow> byte \<Rightarrow> byte \<Rightarrow> byte \<Rightarrow> w32" where
  "word_be a b c d = push_bit 24 (ucast a) OR push_bit 16 (ucast b) OR push_bit 8 (ucast c) OR ucast d"

fun words_be :: "bytes \<Rightarrow> w32 list" where
  "words_be (a # b # c # d # r) = word_be a b c d # words_be r"
| "words_be _ = []"

definition bytes_be :: "w32 \<Rightarrow> bytes" where
  "bytes_be w = [ucast (drop_bit 24 w), ucast (drop_bit 16 w), ucast (drop_bit 8 w), ucast w]"

text \<open>The message schedule, latest word first.\<close>

fun schedule :: "nat \<Rightarrow> w32 list \<Rightarrow> w32 list" where
  "schedule 0 ws = ws"
| "schedule (Suc n) ws = schedule n ((sigma1 (ws ! 1) + ws ! 6 + sigma0 (ws ! 14) + ws ! 15) # ws)"

definition round256 :: "w32 \<times> w32 \<Rightarrow> hash_state \<Rightarrow> hash_state" where
  "round256 kw s = (case kw of (k, w) \<Rightarrow>
    (let t1 = h_h s + Sigma1 (h_e s) + Ch (h_e s) (h_f s) (h_g s) + k + w;
         t2 = Sigma0 (h_a s) + Maj (h_a s) (h_b s) (h_c s) in
     \<lparr>h_a = t1 + t2, h_b = h_a s, h_c = h_b s, h_d = h_c s, h_e = h_d s + t1, h_f = h_e s, h_g = h_f s, h_h = h_g s\<rparr>))"

definition block256 :: "bytes \<Rightarrow> hash_state \<Rightarrow> hash_state" where
  "block256 block s =
    (let ws = rev (schedule 48 (rev (words_be block)));
         t = fold round256 (zip K256 ws) s in
     \<lparr>h_a = h_a s + h_a t, h_b = h_b s + h_b t, h_c = h_c s + h_c t, h_d = h_d s + h_d t,
      h_e = h_e s + h_e t, h_f = h_f s + h_f t, h_g = h_g s + h_g t, h_h = h_h s + h_h t\<rparr>)"

definition length_be :: "nat \<Rightarrow> bytes" where
  "length_be n = map (\<lambda>i. of_nat (n div 256 ^ (7 - i))) [0 ..< 8]"

definition pad256 :: "bytes \<Rightarrow> bytes" where
  "pad256 m = m @ [0x80] @ replicate ((119 - length m mod 64) mod 64) 0 @ length_be (8 * length m)"

fun blocks :: "nat \<Rightarrow> bytes \<Rightarrow> hash_state \<Rightarrow> hash_state" where
  "blocks 0 m s = s"
| "blocks (Suc n) m s = blocks n (drop 64 m) (block256 (take 64 m) s)"

definition digest :: "hash_state \<Rightarrow> bytes" where
  "digest s = bytes_be (h_a s) @ bytes_be (h_b s) @ bytes_be (h_c s) @ bytes_be (h_d s) @
     bytes_be (h_e s) @ bytes_be (h_f s) @ bytes_be (h_g s) @ bytes_be (h_h s)"

definition Sum256 :: "bytes \<Rightarrow> bytes" where
  "Sum256 m = digest (blocks (length (pad256 m) div 64) (pad256 m) H256)"

text \<open>A digest has 32 bytes, and the padded message is a whole number of blocks.\<close>

lemma length_Sum256 [simp]: "length (Sum256 m) = 32"
  by (simp add: Sum256_def digest_def bytes_be_def)

lemma length_pad256: "64 dvd length (pad256 m)"
proof -
  define k r where kr: "k = length m div 64" "r = length m mod 64"
  have l: "length m = 64 * k + r" "r < 64" by (simp_all add: kr)
  have "length (pad256 m) = 64 * k + r + 9 + (119 - r) mod 64" using l(2) by (simp add: pad256_def length_be_def l(1))
  also have "\<dots> = 64 * k + (if r \<le> 55 then 64 else 128)"
    using l(2) by (cases "r \<le> 55") (auto simp: mod_if)
  finally show ?thesis by simp
qed

end
