(* ===== verification/Signing.thy ===== *)
theory Signing
  imports Base64 Sha256 Entities Retry_Policy
begin

text \<open>
  \<^verbatim>\<open>internal/domain/signing/hmac.go\<close> and \<^verbatim>\<open>signer.go\<close>: HMAC-SHA256 with the padding written out, and
  the Standard Webhooks signature header. Ed25519 is the pair of parameters \<open>ed_sign\<close> (private key,
  message) and \<open>ed_newkey\<close> (seed); everything else is computed.
\<close>

unbundle bit_operations_syntax

section \<open>hmac.go\<close>

definition sha256BlockSize :: nat where "sha256BlockSize = 64"

text \<open>\<^verbatim>\<open>copy\<close> into a zeroed array of one block, then every byte is xored with the pad.\<close>

definition pad_key :: "byte \<Rightarrow> bytes \<Rightarrow> bytes" where
  "pad_key x key = map (\<lambda>b. b XOR x) (take sha256BlockSize (key @ replicate sha256BlockSize 0))"

definition hmacSHA256 :: "bytes \<Rightarrow> bytes \<Rightarrow> bytes" where
  "hmacSHA256 key message =
    (let key = (if length key > sha256BlockSize then Sum256 key else key);
         innerSum = Sum256 (pad_key 0x36 key @ message) in
     Sum256 (pad_key 0x5c key @ innerSum))"

section \<open>signer.go\<close>

datatype HeaderScheme = SchemeStandard | SchemeHuxio

definition VersionHMAC256 :: string where "VersionHMAC256 = ''v1''"
definition VersionEd25519 :: string where "VersionEd25519 = ''v1a''"
definition SecretPrefix :: string where "SecretPrefix = ''whsec_''"

record Key =
  key_Secret :: bytes
  key_Type :: SecretType

record Signer =
  sg_scheme :: HeaderScheme

definition NewSigner :: "string \<Rightarrow> Signer" where
  "NewSigner scheme = \<lparr>sg_scheme = (if scheme \<noteq> ''huxio'' then SchemeStandard else SchemeHuxio)\<rparr>"

text \<open>\<^verbatim>\<open>strconv.FormatInt\<close> in base 10.\<close>

definition digit_char :: "nat \<Rightarrow> char" where "digit_char d = char_of (48 + d)"

fun nat_digits :: "nat \<Rightarrow> string" where
  "nat_digits n = (if n < 10 then [digit_char n] else nat_digits (n div 10) @ [digit_char (n mod 10)])"

declare nat_digits.simps [simp del]

definition FormatInt :: "int \<Rightarrow> string" where
  "FormatInt i = (if i < 0 then CHR ''-'' # nat_digits (nat (- i)) else nat_digits (nat i))"

definition SignedPayload :: "string \<Rightarrow> time \<Rightarrow> bytes \<Rightarrow> bytes" where
  "SignedPayload msgID timestamp payload =
     bytes_of msgID @ bytes_of ''.'' @ bytes_of (FormatInt (time_Unix timestamp)) @ bytes_of ''.'' @ payload"

definition normalizeSecret :: "bytes \<Rightarrow> bytes" where
  "normalizeSecret secret =
     (if take (length SecretPrefix) secret = bytes_of SecretPrefix then drop (length SecretPrefix) secret else secret)"

definition PrivateKeySize :: nat where "PrivateKeySize = 64"
definition SeedSize :: nat where "SeedSize = 32"

datatype sign_error = NoKeysSupplied | UnsupportedSecretType SecretType | BadEd25519Key nat

definition ed25519PrivateKey :: "(bytes \<Rightarrow> bytes) \<Rightarrow> bytes \<Rightarrow> sign_error + bytes" where
  "ed25519PrivateKey ed_newkey secret =
    (let decoded = (case DecodeString StdEncoding (string_of secret) of None \<Rightarrow> secret | Some d \<Rightarrow> d) in
     if length decoded = PrivateKeySize then Inr decoded
     else if length decoded = SeedSize then Inr (ed_newkey decoded)
     else Inl (BadEd25519Key (length decoded)))"

definition signOne :: "(bytes \<Rightarrow> bytes) \<Rightarrow> (bytes \<Rightarrow> bytes \<Rightarrow> bytes) \<Rightarrow> bytes \<Rightarrow> Key \<Rightarrow> sign_error + string" where
  "signOne ed_newkey ed_sign msg key =
    (let secret = normalizeSecret (key_Secret key) in
     case key_Type key of
       SecretTypeEd25519 \<Rightarrow> (case ed25519PrivateKey ed_newkey secret of
           Inl e \<Rightarrow> Inl e
         | Inr private \<Rightarrow> Inr (VersionEd25519 @ '','' @ EncodeToString StdEncoding (ed_sign private msg)))
     | SecretTypeHMAC256 \<Rightarrow> Inr (VersionHMAC256 @ '','' @ EncodeToString StdEncoding (hmacSHA256 secret msg))
     | SecretTypeOther t \<Rightarrow>
         if t = [] then Inr (VersionHMAC256 @ '','' @ EncodeToString StdEncoding (hmacSHA256 secret msg))
         else Inl (UnsupportedSecretType (key_Type key)))"

fun join :: "string \<Rightarrow> string list \<Rightarrow> string" where
  "join sep [] = []"
| "join sep [x] = x"
| "join sep (x # y # ys) = x @ sep @ join sep (y # ys)"

fun sign_all :: "(bytes \<Rightarrow> bytes) \<Rightarrow> (bytes \<Rightarrow> bytes \<Rightarrow> bytes) \<Rightarrow> bytes \<Rightarrow> Key list \<Rightarrow> string list \<Rightarrow> sign_error + string list" where
  "sign_all ed_newkey ed_sign msg [] sigs = Inr sigs"
| "sign_all ed_newkey ed_sign msg (k # ks) sigs = (case signOne ed_newkey ed_sign msg k of
     Inl e \<Rightarrow> Inl e | Inr s \<Rightarrow> sign_all ed_newkey ed_sign msg ks (sigs @ [s]))"

definition Sign ::
  "(bytes \<Rightarrow> bytes) \<Rightarrow> (bytes \<Rightarrow> bytes \<Rightarrow> bytes) \<Rightarrow> string \<Rightarrow> time \<Rightarrow> bytes \<Rightarrow> Key list \<Rightarrow> sign_error + string" where
  "Sign ed_newkey ed_sign msgID timestamp payload keys =
     (if keys = [] then Inl NoKeysSupplied
      else case sign_all ed_newkey ed_sign (SignedPayload msgID timestamp payload) keys [] of
        Inl e \<Rightarrow> Inl e | Inr sigs \<Rightarrow> Inr (join '' '' sigs))"

definition HeaderNames :: "Signer \<Rightarrow> string \<times> string \<times> string" where
  "HeaderNames s = (case sg_scheme s of
      SchemeHuxio \<Rightarrow> (''huxio-id'', ''huxio-timestamp'', ''huxio-signature'')
    | SchemeStandard \<Rightarrow> (''webhook-id'', ''webhook-timestamp'', ''webhook-signature''))"

definition Headers ::
  "(bytes \<Rightarrow> bytes) \<Rightarrow> (bytes \<Rightarrow> bytes \<Rightarrow> bytes) \<Rightarrow> Signer \<Rightarrow> string \<Rightarrow> time \<Rightarrow> bytes \<Rightarrow> Key list \<Rightarrow> sign_error + (string \<rightharpoonup> string)" where
  "Headers ed_newkey ed_sign s msgID timestamp payload keys = (case Sign ed_newkey ed_sign msgID timestamp payload keys of
      Inl e \<Rightarrow> Inl e
    | Inr signature \<Rightarrow> (case HeaderNames s of (idHeader, timestampHeader, signatureHeader) \<Rightarrow>
        Inr [idHeader \<mapsto> msgID, timestampHeader \<mapsto> FormatInt (time_Unix timestamp), signatureHeader \<mapsto> signature]))"

section \<open>HMAC\<close>

text \<open>RFC 2104 for a hash with blocks of \<open>n\<close> bytes.\<close>

definition HMAC :: "(bytes \<Rightarrow> bytes) \<Rightarrow> nat \<Rightarrow> bytes \<Rightarrow> bytes \<Rightarrow> bytes" where
  "HMAC hash n key m =
    (let k = (if length key > n then hash key else key); k0 = k @ replicate (n - length k) 0 in
     hash (map2 (XOR) k0 (replicate n 0x5c) @ hash (map2 (XOR) k0 (replicate n 0x36) @ m)))"

lemma map2_replicate: "length k = n \<Longrightarrow> map2 f k (replicate n x) = map (\<lambda>b. f b x) k"
  by (induction k arbitrary: n) auto

lemma pad_key_eq: "length key \<le> sha256BlockSize \<Longrightarrow>
    pad_key x key = map2 (XOR) (key @ replicate (sha256BlockSize - length key) 0) (replicate sha256BlockSize x)"
  by (simp add: pad_key_def map2_replicate min_def)

lemma hmacSHA256_spec: "hmacSHA256 key m = HMAC Sum256 sha256BlockSize key m"
proof -
  have "length (if length key > sha256BlockSize then Sum256 key else key) \<le> sha256BlockSize"
    by (simp add: sha256BlockSize_def)
  then show ?thesis unfolding hmacSHA256_def HMAC_def Let_def by (simp add: pad_key_eq)
qed

text \<open>
  C32: the hand-written HMAC is HMAC-SHA256 of RFC 2104, for keys of every length, and its result is
  always 32 bytes.
\<close>
theorem hmacSHA256_correct: "hmacSHA256 key m = HMAC Sum256 64 key m \<and> length (hmacSHA256 key m) = 32"
  by (simp add: hmacSHA256_spec sha256BlockSize_def) (simp add: HMAC_def Let_def)

section \<open>Decimal numbers\<close>

lemma digit_char_of: "d < 10 \<Longrightarrow> of_char (digit_char d) = (48 + d :: nat)"
  by (simp add: digit_char_def)

lemma digit_value_char: "d < 10 \<Longrightarrow> digit_value (digit_char d) = Some (int d)"
proof -
  assume d: "d < 10"
  have "(of_char (digit_char d) :: int) = int (of_char (digit_char d))" by (simp add: of_char_def split: char.splits)
  with digit_char_of [OF d] have "(of_char (digit_char d) :: int) = 48 + int d" by simp
  with d show ?thesis by (simp add: digit_value_def Let_def)
qed

lemma digits_value_append: "digits_value acc (xs @ ys) = (case digits_value acc xs of None \<Rightarrow> None | Some v \<Rightarrow> digits_value v ys)"
  by (induction xs arbitrary: acc) (auto split: option.splits)

lemma digits_value_nat: "digits_value 0 (nat_digits n) = Some (int n)"
proof (induction n rule: nat_digits.induct)
  case (1 n)
  show ?case
  proof (cases "n < 10")
    case True
    then show ?thesis by (simp add: nat_digits.simps digit_value_char)
  next
    case False
    have "10 * int (n div 10) + int (n mod 10) = int n" by presburger
    with False 1 show ?thesis by (subst nat_digits.simps) (simp add: digits_value_append digit_value_char)
  qed
qed

lemma nat_digits_chars: "c \<in> set (nat_digits n) \<Longrightarrow> \<exists>d<10. c = digit_char d"
proof (induction n rule: nat_digits.induct)
  case (1 n)
  show ?case
  proof (cases "n < 10")
    case True
    with "1.prems" show ?thesis by (auto simp: nat_digits.simps [of n])
  next
    case False
    with "1.prems" consider "c \<in> set (nat_digits (n div 10))" | "c = digit_char (n mod 10)" by (auto simp: nat_digits.simps [of n])
    then show ?thesis
    proof cases
      case 1
      with "1.IH" [OF False] show ?thesis by blast
    next
      case 2
      then show ?thesis by (intro exI [of _ "n mod 10"]) simp
    qed
  qed
qed

lemma digit_char_not: "d < 10 \<Longrightarrow> of_char c < (48 :: nat) \<Longrightarrow> digit_char d \<noteq> c"
  using digit_char_of by fastforce

lemma nat_digits_not: "of_char c < (48 :: nat) \<Longrightarrow> c \<notin> set (nat_digits n)"
  using nat_digits_chars digit_char_not by blast

lemma FormatInt_no_dot: "CHR ''.'' \<notin> set (FormatInt i)"
  by (auto simp: FormatInt_def nat_digits_not)

lemma nat_digits_nonempty: "nat_digits n \<noteq> []"
  by (subst nat_digits.simps) simp

lemma FormatInt_inject: "FormatInt i = FormatInt j \<Longrightarrow> i = j"
proof -
  assume e: "FormatInt i = FormatInt j"
  have n: "hd (nat_digits n) \<noteq> CHR ''-''" for n using nat_digits_not [of "CHR ''-''" n] nat_digits_nonempty [of n] hd_in_set by force
  have m: "CHR ''-'' # xs \<noteq> nat_digits n" "nat_digits n \<noteq> CHR ''-'' # xs" for xs n using n by (metis list.sel(1))+
  have "nat_digits (nat (- i)) = nat_digits (nat (- j)) \<and> i < 0 \<and> j < 0 \<or> nat_digits (nat i) = nat_digits (nat j) \<and> 0 \<le> i \<and> 0 \<le> j"
    using e by (cases "i < 0"; cases "j < 0") (simp_all add: FormatInt_def m)
  moreover have "a = b" if "nat_digits a = nat_digits b" for a b
    by (metis digits_value_nat of_nat_eq_iff option.inject that)
  ultimately have "nat (- i) = nat (- j) \<and> i < 0 \<and> j < 0 \<or> nat i = nat j \<and> 0 \<le> i \<and> 0 \<le> j" by blast
  then show "i = j" by linarith
qed

section \<open>The signed bytes\<close>

lemma dot_not_in: "c \<notin> set s \<Longrightarrow> (of_nat (of_char c) :: byte) \<notin> set (bytes_of s)"
proof
  assume "c \<notin> set s" "(of_nat (of_char c) :: byte) \<in> set (bytes_of s)"
  then obtain d where d: "d \<in> set s" "(of_nat (of_char c) :: byte) = of_nat (of_char d)" by (auto simp: bytes_of_def)
  then have "(of_char c :: nat) = of_char d" using unat_of_char_byte by metis
  with d(1) \<open>c \<notin> set s\<close> show False by simp
qed

text \<open>
  The signed bytes determine what was signed. For message ids without a dot, two equal signed
  payloads have the same message id, the same second and the same body, so a signature cannot be
  moved to another message or another time.
\<close>
theorem SignedPayload_injective:
  assumes "CHR ''.'' \<notin> set m1" and "CHR ''.'' \<notin> set m2"
    and "SignedPayload m1 t1 p1 = SignedPayload m2 t2 p2"
  shows "m1 = m2 \<and> time_Unix t1 = time_Unix t2 \<and> p1 = p2"
proof -
  let ?dot = "of_nat (of_char (CHR ''.'')) :: byte"
  have "bytes_of m1 @ ?dot # (bytes_of (FormatInt (time_Unix t1)) @ ?dot # p1) =
      bytes_of m2 @ ?dot # (bytes_of (FormatInt (time_Unix t2)) @ ?dot # p2)"
    using assms(3) by (simp add: SignedPayload_def bytes_of_def)
  from split_at_first_sep [OF this dot_not_in dot_not_in, OF assms(1,2)]
  have "bytes_of m1 = bytes_of m2" and r: "bytes_of (FormatInt (time_Unix t1)) @ ?dot # p1 =
      bytes_of (FormatInt (time_Unix t2)) @ ?dot # p2" by auto
  moreover from split_at_first_sep [OF r dot_not_in dot_not_in, OF FormatInt_no_dot FormatInt_no_dot]
  have "bytes_of (FormatInt (time_Unix t1)) = bytes_of (FormatInt (time_Unix t2))" "p1 = p2" by auto
  ultimately show ?thesis by (auto simp: bytes_of_inject dest: FormatInt_inject)
qed

theorem SignedPayload_injective_witness:
  "SignedPayload ''msg_1'' 0 [] \<noteq> SignedPayload ''msg_2'' 0 []"
  using SignedPayload_injective [of "''msg_1''" "''msg_2''" 0 "[]" 0 "[]"] by auto

section \<open>The receiver's check\<close>

text \<open>
  A receiver that holds one key splits the header at the spaces and looks for the signature it
  computes itself.
\<close>

fun split_spaces :: "string \<Rightarrow> string \<Rightarrow> string list" where
  "split_spaces acc [] = [acc]"
| "split_spaces acc (c # cs) = (if c = CHR '' '' then acc # split_spaces [] cs else split_spaces (acc @ [c]) cs)"

definition accepts :: "bytes \<Rightarrow> string \<Rightarrow> time \<Rightarrow> bytes \<Rightarrow> string \<Rightarrow> bool" where
  "accepts secret msgID timestamp payload header \<longleftrightarrow>
     (''v1,'' @ EncodeToString StdEncoding (HMAC Sum256 64 (normalizeSecret secret) (SignedPayload msgID timestamp payload)))
       \<in> set (split_spaces [] header)"

lemma split_spaces_plain: "CHR '' '' \<notin> set x \<Longrightarrow> split_spaces acc (x @ CHR '' '' # r) = (acc @ x) # split_spaces [] r"
  by (induction x arbitrary: acc) auto

lemma split_spaces_last: "CHR '' '' \<notin> set x \<Longrightarrow> split_spaces acc x = [acc @ x]"
  by (induction x arbitrary: acc) auto

lemma split_join: "\<forall>x\<in>set xs. CHR '' '' \<notin> set x \<Longrightarrow> xs \<noteq> [] \<Longrightarrow> split_spaces [] (join '' '' xs) = xs"
  by (induction "'' ''" xs rule: join.induct) (auto simp: split_spaces_plain split_spaces_last)

lemma alphabet_no_space: "v < 64 \<Longrightarrow> enc_digit StdEncoding v \<noteq> CHR '' ''"
proof -
  assume v: "v < 64"
  have "list_all (\<lambda>c. c \<noteq> CHR '' '') (enc_alphabet StdEncoding)" "length (enc_alphabet StdEncoding) = 64" by code_simp+
  with v show ?thesis by (auto simp: enc_digit_def list_all_length)
qed

lemma alphabet_no_space': "v < 64 \<Longrightarrow> CHR '' '' \<noteq> enc_digit StdEncoding v"
  using alphabet_no_space by metis

lemma encode_no_space: "CHR '' '' \<notin> set (EncodeToString StdEncoding bs)"
  by (induction StdEncoding bs rule: EncodeToString.induct) (simp_all add: enc_pad_def alphabet_no_space')

lemma signOne_no_space: "signOne nk sg msg k = Inr s \<Longrightarrow> CHR '' '' \<notin> set s"
  by (auto simp: signOne_def Let_def VersionHMAC256_def VersionEd25519_def encode_no_space
      split: SecretType.splits sum.splits if_splits)

lemma sign_all_map: "sign_all nk sg msg ks sigs = Inr out \<Longrightarrow>
    \<exists>ss. out = sigs @ ss \<and> list_all2 (\<lambda>k s. signOne nk sg msg k = Inr s) ks ss"
proof (induction ks arbitrary: sigs)
  case (Cons k ks)
  then obtain s where s: "signOne nk sg msg k = Inr s" "sign_all nk sg msg ks (sigs @ [s]) = Inr out"
    by (auto split: sum.splits)
  from Cons.IH [OF s(2)] obtain ss where "out = (sigs @ [s]) @ ss" "list_all2 (\<lambda>k s. signOne nk sg msg k = Inr s) ks ss" by blast
  with s(1) show ?case by (intro exI [of _ "s # ss"]) simp
qed simp

text \<open>Every key signs: a receiver that holds any one of the symmetric keys finds its own signature.\<close>

lemma Sign_accepted:
  assumes "Sign nk sg msgID timestamp payload keys = Inr header"
    and "k \<in> set keys" and "key_Type k = SecretTypeHMAC256"
  shows "accepts (key_Secret k) msgID timestamp payload header"
proof -
  let ?msg = "SignedPayload msgID timestamp payload"
  obtain ss where ss: "sign_all nk sg ?msg keys [] = Inr ss" "header = join '' '' ss" and ne: "keys \<noteq> []"
    using assms(1) by (auto simp: Sign_def split: if_splits sum.splits)
  from sign_all_map [OF ss(1)] have l: "list_all2 (\<lambda>k s. signOne nk sg ?msg k = Inr s) keys ss" by auto
  have len: "length keys = length ss" and nth: "\<And>j. j < length ss \<Longrightarrow> signOne nk sg ?msg (keys ! j) = Inr (ss ! j)"
    using l by (simp_all add: list_all2_conv_all_nth)
  have "CHR '' '' \<notin> set s" if m: "s \<in> set ss" for s
  proof -
    obtain j where "j < length ss" "s = ss ! j" using m by (auto simp: in_set_conv_nth)
    with signOne_no_space [OF nth] show ?thesis by blast
  qed
  moreover have "ss \<noteq> []" using len ne by auto
  ultimately have "\<forall>s\<in>set ss. CHR '' '' \<notin> set s" "ss \<noteq> []" by auto
  then have sp: "split_spaces [] header = ss" using split_join ss(2) by simp
  obtain j where "j < length ss" "k = keys ! j" using assms(2) len by (auto simp: in_set_conv_nth)
  then obtain s where s: "s \<in> set ss" "signOne nk sg ?msg k = Inr s" using nth nth_mem by blast
  then have "s = ''v1,'' @ EncodeToString StdEncoding (HMAC Sum256 64 (normalizeSecret (key_Secret k)) ?msg)"
    using assms(3) hmacSHA256_spec by (simp add: signOne_def Let_def VersionHMAC256_def sha256BlockSize_def)
  with s(1) sp show ?thesis by (simp add: accepts_def)
qed

definition demo_keys :: "Key list" where
  "demo_keys = [\<lparr>key_Secret = bytes_of ''whsec_new'', key_Type = SecretTypeHMAC256\<rparr>,
     \<lparr>key_Secret = bytes_of ''old'', key_Type = SecretTypeHMAC256\<rparr>]"

lemma demo_sign: "\<exists>h. Sign nk sg ''msg_1'' 5 [] demo_keys = Inr h"
  by (simp add: Sign_def demo_keys_def signOne_def Let_def)

end
