(* ===== verification/Payload_Codec.thy ===== *)
theory Payload_Codec
  imports Huxio_Prelude
begin

text \<open>
  \<^verbatim>\<open>internal/infrastructure/payload/codec.go\<close>: the one-byte header in front of a stored payload. The
  zstd library is third-party: \<open>enc\<close> is \<^verbatim>\<open>EncodeAll\<close> on an empty destination (it appends to the one
  it is given) and \<open>dec\<close> is \<^verbatim>\<open>DecodeAll\<close>.
\<close>

definition EncodingRaw :: byte where "EncodingRaw = 0"
definition EncodingZstd :: byte where "EncodingZstd = 1"
definition DefaultMinCompressBytes :: int where "DefaultMinCompressBytes = 512"

record Codec =
  cd_encode :: "bytes \<Rightarrow> bytes"
  cd_decode :: "bytes \<Rightarrow> bytes option"
  cd_minCompressBytes :: int

definition NewCodec :: "(bytes \<Rightarrow> bytes) \<Rightarrow> (bytes \<Rightarrow> bytes option) \<Rightarrow> int \<Rightarrow> Codec" where
  "NewCodec enc dec minCompressBytes =
     \<lparr>cd_encode = enc, cd_decode = dec,
      cd_minCompressBytes = (if minCompressBytes \<le> 0 then DefaultMinCompressBytes else minCompressBytes)\<rparr>"

definition Codec_Encode :: "Codec \<Rightarrow> bytes \<Rightarrow> bytes" where
  "Codec_Encode c raw = (if int (length raw) < cd_minCompressBytes c then EncodingRaw # raw else EncodingZstd # cd_encode c raw)"

datatype codec_error = EmptyValue | DecompressError | UnknownEncoding byte

definition Codec_Decode :: "Codec \<Rightarrow> bytes \<Rightarrow> codec_error + bytes" where
  "Codec_Decode c stored = (case stored of
      [] \<Rightarrow> Inl EmptyValue
    | h # body \<Rightarrow>
       if h = EncodingRaw then Inr body
       else if h = EncodingZstd then (case cd_decode c body of None \<Rightarrow> Inl DecompressError | Some d \<Rightarrow> Inr d)
       else Inl (UnknownEncoding h))"

text \<open>
  Stored payloads decode to what was ingested, for every payload and every compression threshold,
  when the compressor's decoder inverts its encoder; and two codecs with different thresholds read
  each other's values, so the threshold can be changed on a live database.
\<close>
theorem payload_roundtrip:
  assumes "\<And>b. dec (enc b) = Some b"
  shows "Codec_Decode (NewCodec enc dec m2) (Codec_Encode (NewCodec enc dec m1) raw) = Inr raw"
  using assms by (simp add: Codec_Decode_def Codec_Encode_def NewCodec_def EncodingRaw_def EncodingZstd_def)

theorem payload_roundtrip_witness:
  "Codec_Decode (NewCodec rev (\<lambda>b. Some (rev b)) 0) (Codec_Encode (NewCodec rev (\<lambda>b. Some (rev b)) 2) [1, 2, 3]) = Inr [1, 2, 3]"
  by (rule payload_roundtrip) simp

lemma Decode_total: "Codec_Decode c [] = Inl EmptyValue" "h \<noteq> EncodingRaw \<Longrightarrow> h \<noteq> EncodingZstd \<Longrightarrow>
    Codec_Decode c (h # b) = Inl (UnknownEncoding h)"
  by (simp_all add: Codec_Decode_def)

end
