(* ===== verification/Queue_Repo.thy ===== *)
theory Queue_Repo
  imports Ports "HOL-Library.Product_Lexorder" "HOL-Library.Multiset"
begin

text \<open>
  \<^verbatim>\<open>internal/adapters/outbound/persistence/postgres/queue_repo.go\<close> and \<^verbatim>\<open>WithinTransaction\<close> of
  \<^verbatim>\<open>store.go\<close>: the SQL statements on the \<^verbatim>\<open>delivery_task\<close> table as functions on the list of its
  rows. The state also has the identity sequence, the database clock \<^verbatim>\<open>now()\<close>, the rows other open
  transactions have locked (\<^verbatim>\<open>SKIP LOCKED\<close> passes over them), the notifications sent, and a script
  of driver faults: each statement takes the next entry, and \<open>True\<close> makes it fail with no effect.
  Quantifying over the script covers every pattern of database errors. The column \<^verbatim>\<open>deleted_at\<close>
  is never written, so its tests are left out; timestamps keep nanoseconds where PostgreSQL rounds
  to microseconds.
\<close>

record pg =
  pg_rows :: "DeliveryTask list"
  pg_seq :: int
  pg_now :: time
  pg_busy :: "int list"
  pg_faults :: "bool list"
  pg_notified :: "int list"

definition pg_exec :: "pg \<Rightarrow> bool \<times> pg" where
  "pg_exec q = (case pg_faults q of [] \<Rightarrow> (True, q) | f # fs \<Rightarrow> (\<not> f, q\<lparr>pg_faults := fs\<rparr>))"

definition statement :: "string \<Rightarrow> (pg \<Rightarrow> pg) \<Rightarrow> pg action" where
  "statement what upd q =
     (case pg_exec q of (ok, q') \<Rightarrow> if ok then (None, upd q') else (Some (DriverError what), q'))"

text \<open>\<^verbatim>\<open>UPDATE ... SET ... WHERE\<close> on every row that satisfies a condition.\<close>

definition update_rows :: "(DeliveryTask \<Rightarrow> bool) \<Rightarrow> (DeliveryTask \<Rightarrow> DeliveryTask) \<Rightarrow> pg \<Rightarrow> pg" where
  "update_rows P f q = q\<lparr>pg_rows := map (\<lambda>t. if P t then f t else t) (pg_rows q)\<rparr>"

section \<open>Claim\<close>

definition claimable :: "ClaimRequest \<Rightarrow> pg \<Rightarrow> DeliveryTask \<Rightarrow> bool" where
  "claimable req q t \<longleftrightarrow>
     task_Pool t = cr_Pool req \<and> task_PartitionKey t \<in> set (cr_Partitions req) \<and>
     task_VisibleAt t \<le> pg_now q \<and> task_LockedUntil t = None \<and> task_ID t \<notin> set (pg_busy q)"

definition claim_ids :: "ClaimRequest \<Rightarrow> pg \<Rightarrow> int list" where
  "claim_ids req q = map task_ID (take (nat (cr_Limit req))
     (sort_key (\<lambda>t. (task_VisibleAt t, task_ID t)) (filter (claimable req q) (pg_rows q))))"

definition lock_row :: "ClaimRequest \<Rightarrow> time \<Rightarrow> DeliveryTask \<Rightarrow> DeliveryTask" where
  "lock_row req now t = t\<lparr>task_LockedBy := Some (cr_OwnerID req), task_LockedUntil := Some (now + cr_LockTTL req)\<rparr>"

definition Claim :: "ClaimRequest \<Rightarrow> pg \<Rightarrow> (repo_error + DeliveryTask list) \<times> pg" where
  "Claim req q =
     (if cr_Partitions req = [] \<or> cr_Limit req \<le> 0 then (Inr [], q)
      else case pg_exec q of
        (False, q1) \<Rightarrow> (Inl (DriverError ''claim tasks''), q1)
      | (True, q1) \<Rightarrow>
         (let ids = claim_ids req q1;
              q2 = update_rows (\<lambda>t. task_ID t \<in> set ids) (lock_row req (pg_now q1)) q1
          in (Inr (filter (\<lambda>t. task_ID t \<in> set ids) (pg_rows q2)), q2)))"

section \<open>The other statements\<close>

definition Complete :: "int \<Rightarrow> pg action" where
  "Complete i = statement ''complete task''
     (\<lambda>q. q\<lparr>pg_rows := filter (\<lambda>t. task_ID t \<noteq> i) (pg_rows q)\<rparr>)"

definition CompleteMany :: "int list \<Rightarrow> pg action" where
  "CompleteMany is q = (if is = [] then (None, q)
     else statement ''complete tasks''
       (\<lambda>q. q\<lparr>pg_rows := filter (\<lambda>t. task_ID t \<notin> set is) (pg_rows q)\<rparr>) q)"

text \<open>\<^verbatim>\<open>attempt + 1\<close> on a \<^verbatim>\<open>smallint\<close> at its maximum makes the statement fail.\<close>

definition Retry :: "int \<Rightarrow> duration \<Rightarrow> pg action" where
  "Retry i delay q =
     (if list_ex (\<lambda>t. task_ID t = i \<and> task_Attempt t + 1 \<ge> 2 ^ 15) (pg_rows q)
      then (Some (DriverError ''retry task''), snd (pg_exec q))
      else statement ''retry task''
        (update_rows (\<lambda>t. task_ID t = i) (retried (pg_now q) delay)) q)"

definition Defer :: "int \<Rightarrow> duration \<Rightarrow> pg action" where
  "Defer i delay q = statement ''defer task''
     (update_rows (\<lambda>t. task_ID t = i) (deferred (pg_now q) delay)) q"

definition Release :: "int list \<Rightarrow> pg action" where
  "Release is q = (if is = [] then (None, q)
     else statement ''release tasks'' (update_rows (\<lambda>t. task_ID t \<in> set is) unlocked) q)"

definition row_of :: "time \<Rightarrow> time \<Rightarrow> int \<Rightarrow> EnqueueTask \<Rightarrow> DeliveryTask" where
  "row_of now dbnow i e =
     \<lparr>task_ID = i, task_PartitionKey = et_PartitionKey e, task_Pool = et_Pool e,
      task_Kind = et_Kind e, task_OrgID = et_TaskOrgID e, task_AppID = et_AppID e,
      task_MsgID = et_MsgID e, task_MsgCreatedAt = et_MsgCreatedAt e,
      task_EndpointID = et_EndpointID e, task_Attempt = et_Attempt e,
      task_TriggerType = et_TriggerType e,
      task_VisibleAt = (if time_IsZero (et_VisibleAt e) then now else et_VisibleAt e),
      task_LockedBy = None, task_LockedUntil = None, task_CreatedAt = dbnow\<rparr>"

fun new_rows :: "time \<Rightarrow> time \<Rightarrow> int \<Rightarrow> EnqueueTask list \<Rightarrow> DeliveryTask list" where
  "new_rows now dbnow i [] = []"
| "new_rows now dbnow i (e # es) = row_of now dbnow i e # new_rows now dbnow (i + 1) es"

definition Enqueue :: "time \<Rightarrow> EnqueueTask list \<Rightarrow> pg action" where
  "Enqueue now ts q = (if ts = [] then (None, q)
     else statement ''enqueue tasks''
       (\<lambda>q. q\<lparr>pg_rows := pg_rows q @ new_rows now (pg_now q) (pg_seq q) ts,
              pg_seq := pg_seq q + int (length ts)\<rparr>) q)"

definition Notify :: "int \<Rightarrow> pg action" where
  "Notify p = statement ''notify task'' (\<lambda>q. q\<lparr>pg_notified := pg_notified q @ [p]\<rparr>)"

definition stuck :: "time \<Rightarrow> DeliveryTask \<Rightarrow> bool" where
  "stuck now t = (case task_LockedUntil t of None \<Rightarrow> False | Some u \<Rightarrow> u < now)"

definition RescueStuck :: "pg \<Rightarrow> (repo_error + nat) \<times> pg" where
  "RescueStuck q = (case pg_exec q of
      (False, q1) \<Rightarrow> (Inl (DriverError ''rescue stuck tasks''), q1)
    | (True, q1) \<Rightarrow> (Inr (length (filter (stuck (pg_now q1)) (pg_rows q1))),
                    update_rows (stuck (pg_now q1)) unlocked q1))"

record QueueStats =
  qs_Pool :: string
  qs_Ready :: nat
  qs_Delayed :: nat
  qs_Locked :: nat
  qs_OldestAge :: duration

definition ready_row :: "time \<Rightarrow> DeliveryTask \<Rightarrow> bool" where
  "ready_row now t \<longleftrightarrow> task_LockedUntil t = None \<and> task_VisibleAt t \<le> now"

definition pool_stats :: "time \<Rightarrow> DeliveryTask list \<Rightarrow> string \<Rightarrow> QueueStats" where
  "pool_stats now rows pool = (let rs = filter (\<lambda>t. task_Pool t = pool) rows;
       ready = filter (ready_row now) rs in
     \<lparr>qs_Pool = pool, qs_Ready = length ready,
      qs_Delayed = length (filter (\<lambda>t. task_LockedUntil t = None \<and> task_VisibleAt t > now) rs),
      qs_Locked = length (filter (\<lambda>t. task_LockedUntil t \<noteq> None) rs),
      qs_OldestAge = (case ready of [] \<Rightarrow> 0 | t # ts \<Rightarrow> now - foldl min (task_VisibleAt t) (map task_VisibleAt ts))\<rparr>)"

definition Stats :: "string list \<Rightarrow> pg \<Rightarrow> (repo_error + QueueStats list) \<times> pg" where
  "Stats pools q = (case pg_exec q of
      (False, q1) \<Rightarrow> (Inl (DriverError ''queue stats''), q1)
    | (True, q1) \<Rightarrow>
       (let rows = filter (\<lambda>t. pools = [] \<or> task_Pool t \<in> set pools) (pg_rows q1) in
        (Inr (map (pool_stats (pg_now q1) rows) (remdups (map task_Pool rows))), q1)))"

section \<open>Transactions\<close>

text \<open>
  \<^verbatim>\<open>Begin\<close> and \<^verbatim>\<open>Commit\<close> are statements that can fail; a rollback restores the table and drops the
  notifications, but the sequence never goes back.
\<close>

definition rollback :: "pg \<Rightarrow> pg \<Rightarrow> pg" where
  "rollback q q' = q\<lparr>pg_faults := pg_faults q', pg_seq := max (pg_seq q) (pg_seq q')\<rparr>"

definition WithinTransaction :: "pg action \<Rightarrow> pg action" where
  "WithinTransaction f q = (case pg_exec q of
      (False, q1) \<Rightarrow> (Some (DriverError ''begin transaction''), q1)
    | (True, q1) \<Rightarrow> (case f q1 of
        (Some e, q2) \<Rightarrow> (Some e, rollback q q2)
      | (None, q2) \<Rightarrow> (case pg_exec q2 of
          (True, q3) \<Rightarrow> (None, q3)
        | (False, q3) \<Rightarrow> (Some (DriverError ''commit transaction''), rollback q q3))))"

definition QueueRepo :: "pg Queue" where
  "QueueRepo =
     \<lparr>q_Claim = Claim, q_Complete = Complete, q_CompleteMany = CompleteMany, q_Retry = Retry,
      q_Defer = Defer, q_Release = Release, q_Enqueue = Enqueue, q_Notify = Notify,
      q_WithinTransaction = WithinTransaction\<rparr>"

lemmas queue_defs = Claim_def Complete_def CompleteMany_def Retry_def Defer_def Release_def
  Enqueue_def Notify_def RescueStuck_def WithinTransaction_def rollback_def statement_def

section \<open>The table invariant\<close>

definition pg_inv :: "pg \<Rightarrow> bool" where
  "pg_inv q \<longleftrightarrow> distinct (map task_ID (pg_rows q)) \<and> (\<forall>i\<in>set (map task_ID (pg_rows q)). i < pg_seq q)"

definition pg_look :: "pg \<Rightarrow> int \<rightharpoonup> DeliveryTask" where
  "pg_look q = map_of (map (\<lambda>t. (task_ID t, t)) (pg_rows q))"

lemma pg_exec_cases:
  obtains "pg_exec q = (True, q)" | fs b where "pg_exec q = (b, q\<lparr>pg_faults := fs\<rparr>)"
  by (cases "pg_faults q") (auto simp: pg_exec_def)

lemma pg_exec_frame [simp]:
  "pg_rows (snd (pg_exec q)) = pg_rows q" "pg_seq (snd (pg_exec q)) = pg_seq q"
  "pg_now (snd (pg_exec q)) = pg_now q" "pg_busy (snd (pg_exec q)) = pg_busy q"
  "pg_notified (snd (pg_exec q)) = pg_notified q"
  by (auto simp: pg_exec_def split: list.splits)

lemma pg_execD:
  "pg_exec q = (b, q1) \<Longrightarrow> pg_rows q1 = pg_rows q \<and> pg_seq q1 = pg_seq q \<and> pg_now q1 = pg_now q \<and>
    pg_busy q1 = pg_busy q \<and> pg_notified q1 = pg_notified q"
  by (auto simp: pg_exec_def split: list.splits)

lemma pg_look_exec [simp]: "pg_look (snd (pg_exec q)) = pg_look q"
  by (simp add: pg_look_def)

lemma pg_inv_exec [simp]: "pg_inv (snd (pg_exec q)) = pg_inv q"
  by (simp add: pg_inv_def)

lemma statement_eq:
  "statement what upd q = (if fst (pg_exec q) then (None, upd (snd (pg_exec q)))
     else (Some (DriverError what), snd (pg_exec q)))"
  by (simp add: statement_def split: prod.splits)

lemma pg_look_filter:
  "map_of (map (\<lambda>t. (task_ID t, t)) (filter (\<lambda>t. P (task_ID t)) rows)) =
     map_of (map (\<lambda>t. (task_ID t, t)) rows) |` {i. P i}"
  by (induction rows) (auto simp: restrict_map_def fun_eq_iff)

lemma pg_look_map:
  assumes "\<And>t. task_ID (f t) = task_ID t"
  shows "map_of (map (\<lambda>t. (task_ID t, t)) (map f rows)) i =
    map_option f (map_of (map (\<lambda>t. (task_ID t, t)) rows) i)"
  using assms by (induction rows) auto

lemma keeps_id [simp]:
  "task_ID (unlocked t) = task_ID t" "task_ID (retried n d t) = task_ID t"
  "task_ID (deferred n d t) = task_ID t" "task_ID (lock_row req n t) = task_ID t"
  by (simp_all add: unlocked_def retried_def deferred_def lock_row_def)

lemma look_update_rows:
  assumes "\<And>t. task_ID (f t) = task_ID t"
  shows "pg_look (update_rows P f q) i = map_option (\<lambda>t. if P t then f t else t) (pg_look q i)"
  unfolding pg_look_def update_rows_def using assms by (simp add: pg_look_map del: map_map)

lemma look_ID: "pg_look q i = Some t \<Longrightarrow> task_ID t = i"
  by (auto simp: pg_look_def dest: map_of_SomeD)

lemma look_mem: "pg_look q i = Some t \<Longrightarrow> t \<in> set (pg_rows q)"
  by (auto simp: pg_look_def dest: map_of_SomeD)

lemma look_iff: "pg_inv q \<Longrightarrow> pg_look q i = Some t \<longleftrightarrow> t \<in> set (pg_rows q) \<and> task_ID t = i"
  by (auto simp: pg_look_def pg_inv_def comp_def intro!: map_of_is_SomeI dest: map_of_SomeD)

lemma look_update_id:
  assumes "\<And>t. task_ID (f t) = task_ID t"
  shows "pg_look (update_rows (\<lambda>t. Q (task_ID t)) f q) =
    (\<lambda>i. if Q i then map_option f (pg_look q i) else pg_look q i)"
  using assms by (auto simp: fun_eq_iff look_update_rows map_option_case look_ID split: option.splits)

lemma ids_update_rows:
  assumes "\<And>t. task_ID (f t) = task_ID t"
  shows "map task_ID (pg_rows (update_rows P f q)) = map task_ID (pg_rows q)"
  using assms by (simp add: update_rows_def)

lemma frame_update_rows [simp]:
  "pg_seq (update_rows P f q) = pg_seq q" "pg_now (update_rows P f q) = pg_now q"
  "pg_busy (update_rows P f q) = pg_busy q" "pg_notified (update_rows P f q) = pg_notified q"
  by (simp_all add: update_rows_def)

lemma inv_update_rows [simp]:
  assumes "\<And>t. task_ID (f t) = task_ID t"
  shows "pg_inv (update_rows P f q) = pg_inv q"
  unfolding pg_inv_def ids_update_rows [of f, OF assms] by simp

lemma map_ID_new_rows: "map task_ID (new_rows now dbnow i ts) = [i .. i + int (length ts) - 1]"
  by (induction ts arbitrary: i) (auto simp: row_of_def upto_rec1 algebra_simps)

lemma new_rows_enqueued_as: "list_all2 enqueued_as (new_rows now dbnow i ts) ts"
  by (induction ts arbitrary: i) (auto simp: row_of_def enqueued_as_def)

section \<open>The statements on the map of rows\<close>

lemma look_Complete: "pg_look (snd (Complete i q)) =
    (if fst (Complete i q) = None then (pg_look q)(i := None) else pg_look q)"
  by (simp add: Complete_def statement_eq pg_look_def pg_look_filter [where P = "\<lambda>j. j \<noteq> i"] restrict_map_def fun_eq_iff)

lemma look_CompleteMany: "pg_look (snd (CompleteMany js q)) =
    (if fst (CompleteMany js q) = None then pg_look q |` (- set js) else pg_look q)"
  by (auto simp: CompleteMany_def statement_eq pg_look_def pg_look_filter [where P = "\<lambda>j. j \<notin> set js"]
      restrict_map_def fun_eq_iff)

lemma look_Retry: "pg_look (snd (Retry i d q)) =
    (if fst (Retry i d q) = None then (pg_look q)(i := map_option (retried (pg_now q) d) (pg_look q i))
     else pg_look q)"
  by (auto simp: Retry_def statement_eq look_update_id [where Q = "\<lambda>j. j = i"] fun_eq_iff)

lemma look_Defer: "pg_look (snd (Defer i d q)) =
    (if fst (Defer i d q) = None then (pg_look q)(i := map_option (deferred (pg_now q) d) (pg_look q i))
     else pg_look q)"
  by (auto simp: Defer_def statement_eq look_update_id [where Q = "\<lambda>j. j = i"] fun_eq_iff)

lemma look_Release: "pg_look (snd (Release js q)) =
    (if fst (Release js q) = None
     then (\<lambda>i. if i \<in> set js then map_option unlocked (pg_look q i) else pg_look q i) else pg_look q)"
  by (auto simp: Release_def statement_eq look_update_id [where Q = "\<lambda>j. j \<in> set js"] fun_eq_iff)

lemma dom_pg_look: "dom (pg_look q) = set (map task_ID (pg_rows q))"
  by (simp add: pg_look_def dom_map_of_conv_image_fst image_image comp_def)

lemma fresh_ids: "pg_inv q \<Longrightarrow> set (map task_ID (new_rows now dbnow (pg_seq q) ts)) \<inter> dom (pg_look q) = {}"
  unfolding dom_pg_look map_ID_new_rows by (force simp: pg_inv_def simp del: set_map)

lemma look_Enqueue:
  "fst (Enqueue now ts q) = None \<Longrightarrow>
    pg_look (snd (Enqueue now ts q)) = pg_look q ++
      map_of (map (\<lambda>t. (task_ID t, t)) (new_rows now (pg_now q) (pg_seq q) ts))"
  if "pg_inv q"
  using fresh_ids [OF that, of now "pg_now q" ts]
  by (auto simp: Enqueue_def statement_eq pg_look_def dom_map_of_conv_image_fst image_image map_add_comm split: if_splits)

lemma look_Enqueue_err: "fst (Enqueue now ts q) \<noteq> None \<Longrightarrow> pg_look (snd (Enqueue now ts q)) = pg_look q"
  by (auto simp: Enqueue_def statement_eq split: if_splits)

lemma look_Notify: "pg_look (snd (Notify p q)) = pg_look q"
  by (simp add: Notify_def statement_eq pg_look_def)

lemma Tx_cases:
  "WithinTransaction f q =
    (let q1 = snd (pg_exec q); q2 = snd (f q1) in
     if \<not> fst (pg_exec q) then (Some (DriverError ''begin transaction''), q1)
     else case fst (f q1) of
       Some e \<Rightarrow> (Some e, rollback q q2)
     | None \<Rightarrow> if fst (pg_exec q2) then (None, snd (pg_exec q2))
              else (Some (DriverError ''commit transaction''), rollback q (snd (pg_exec q2))))"
  by (auto simp: WithinTransaction_def Let_def split: prod.splits bool.splits option.splits)

lemma look_rollback [simp]: "pg_look (rollback q q') = pg_look q"
  by (simp add: rollback_def pg_look_def)

lemma Tx_ok: "pg_inv q \<Longrightarrow> fst (WithinTransaction f q) = None \<Longrightarrow>
    \<exists>q0. pg_look q0 = pg_look q \<and> pg_inv q0 \<and> fst (f q0) = None \<and>
      pg_look (snd (WithinTransaction f q)) = pg_look (snd (f q0))"
  by (intro exI [of _ "snd (pg_exec q)"]) (auto simp: Tx_cases Let_def split: if_splits option.splits)

lemma Tx_err: "fst (WithinTransaction f q) \<noteq> None \<Longrightarrow> pg_look (snd (WithinTransaction f q)) = pg_look q"
  by (auto simp: Tx_cases Let_def split: if_splits option.splits)

lemma Claim_cases:
  "Claim req q =
    (if cr_Partitions req = [] \<or> cr_Limit req \<le> 0 then (Inr [], q)
     else let q1 = snd (pg_exec q);
              q2 = update_rows (\<lambda>t. task_ID t \<in> set (claim_ids req q1)) (lock_row req (pg_now q1)) q1 in
       if fst (pg_exec q) then (Inr (filter (\<lambda>t. task_ID t \<in> set (claim_ids req q1)) (pg_rows q2)), q2)
       else (Inl (DriverError ''claim tasks''), q1))"
  by (cases "pg_exec q"; cases "fst (pg_exec q)") (auto simp: Claim_def Let_def)

lemma RescueStuck_cases:
  "RescueStuck q = (let q1 = snd (pg_exec q) in
     if fst (pg_exec q) then (Inr (length (filter (stuck (pg_now q1)) (pg_rows q1))),
       update_rows (stuck (pg_now q1)) unlocked q1)
     else (Inl (DriverError ''rescue stuck tasks''), q1))"
  by (cases "pg_exec q"; cases "fst (pg_exec q)") (auto simp: RescueStuck_def Let_def)

lemma dom_Claim: "dom (pg_look (snd (Claim req q))) = dom (pg_look q)"
  by (auto simp: Claim_cases Let_def dom_pg_look ids_update_rows simp del: set_map)

section \<open>The statements keep the invariant\<close>

lemma inv_filter_rows: "pg_inv q \<Longrightarrow> pg_inv (q\<lparr>pg_rows := filter P (pg_rows q)\<rparr>)"
  by (auto simp: pg_inv_def distinct_map_filter)

lemma pg_inv_ops:
  assumes "pg_inv q"
  shows "pg_inv (snd (Complete i q))" "pg_inv (snd (CompleteMany js q))" "pg_inv (snd (Retry i d q))"
    "pg_inv (snd (Defer i d q))" "pg_inv (snd (Release js q))" "pg_inv (snd (Notify p q))"
    "pg_inv (snd (Claim req q))" "pg_inv (snd (RescueStuck q))"
  using assms inv_filter_rows [of "snd (pg_exec q)"]
  by (auto simp: Complete_def CompleteMany_def Retry_def Defer_def Release_def Notify_def
      Claim_cases RescueStuck_cases statement_eq Let_def)
     (simp_all add: pg_inv_def)

lemma pg_inv_append:
  assumes "pg_inv q"
  shows "pg_inv (q\<lparr>pg_rows := pg_rows q @ new_rows now dbnow (pg_seq q) ts,
    pg_seq := pg_seq q + int (length ts)\<rparr>)"
proof -
  have "set (map task_ID (pg_rows q)) \<inter> {pg_seq q .. pg_seq q + int (length ts) - 1} = {}"
    using assms by (force simp: pg_inv_def simp del: set_map)
  with assms show ?thesis
    unfolding pg_inv_def by (auto simp: map_ID_new_rows simp del: set_map)
qed

lemma pg_inv_Enqueue: "pg_inv q \<Longrightarrow> pg_inv (snd (Enqueue now ts q))"
  using pg_inv_append [of "snd (pg_exec q)"] by (auto simp: Enqueue_def statement_eq)

lemma pg_inv_rollback: "pg_inv q \<Longrightarrow> pg_inv (rollback q q')"
  by (auto simp: pg_inv_def rollback_def)

lemma pg_inv_Tx:
  assumes "pg_inv q" and "\<And>p. pg_inv p \<Longrightarrow> pg_inv (snd (f p))"
  shows "pg_inv (snd (WithinTransaction f q))"
  using assms by (auto simp: Tx_cases Let_def pg_inv_rollback split: option.splits)

lemma Enqueue_contract: "pg_inv q \<Longrightarrow> fst (Enqueue now ts q) = None \<Longrightarrow>
    \<exists>rows. list_all2 enqueued_as rows ts \<and> distinct (map task_ID rows) \<and>
      set (map task_ID rows) \<inter> dom (pg_look q) = {} \<and>
      pg_look (snd (Enqueue now ts q)) = pg_look q ++ map_of (map (\<lambda>t. (task_ID t, t)) rows)"
proof (intro exI [of _ "new_rows now (pg_now q) (pg_seq q) ts"] conjI)
  assume inv: "pg_inv q" and ok: "fst (Enqueue now ts q) = None"
  show "list_all2 enqueued_as (new_rows now (pg_now q) (pg_seq q) ts) ts" by (rule new_rows_enqueued_as)
  show "distinct (map task_ID (new_rows now (pg_now q) (pg_seq q) ts))" by (simp add: map_ID_new_rows)
  show "set (map task_ID (new_rows now (pg_now q) (pg_seq q) ts)) \<inter> dom (pg_look q) = {}"
    by (rule fresh_ids [OF inv])
  show "pg_look (snd (Enqueue now ts q)) =
      pg_look q ++ map_of (map (\<lambda>t. (task_ID t, t)) (new_rows now (pg_now q) (pg_seq q) ts))"
    by (rule look_Enqueue [OF inv ok])
qed

interpretation pgq: queue_contract QueueRepo pg_look pg_now pg_inv
  by unfold_locales
    (simp_all add: QueueRepo_def look_Complete look_CompleteMany look_Retry look_Defer look_Release
      Enqueue_contract look_Enqueue_err look_Notify Tx_ok Tx_err dom_Claim pg_inv_ops pg_inv_Enqueue pg_inv_Tx
      del: set_map)
section \<open>Runs of the queue\<close>

text \<open>
  Any interleaving of statements from any number of workers: claims, completions, retries,
  deferrals, releases, inserts, rescues, with the clock advancing and other transactions locking
  rows in between.
\<close>

datatype queue_op =
    OpClaim ClaimRequest
  | OpComplete int
  | OpCompleteMany "int list"
  | OpRetry int duration
  | OpDefer int duration
  | OpRelease "int list"
  | OpEnqueue time "EnqueueTask list"
  | OpRescue
  | OpTick nat
  | OpBusy "int list"

fun queue_step :: "pg \<Rightarrow> queue_op \<Rightarrow> pg" where
  "queue_step q (OpClaim req) = snd (Claim req q)"
| "queue_step q (OpComplete i) = snd (Complete i q)"
| "queue_step q (OpCompleteMany js) = snd (CompleteMany js q)"
| "queue_step q (OpRetry i d) = snd (Retry i d q)"
| "queue_step q (OpDefer i d) = snd (Defer i d q)"
| "queue_step q (OpRelease js) = snd (Release js q)"
| "queue_step q (OpEnqueue now ts) = snd (Enqueue now ts q)"
| "queue_step q OpRescue = snd (RescueStuck q)"
| "queue_step q (OpTick n) = q\<lparr>pg_now := pg_now q + int n\<rparr>"
| "queue_step q (OpBusy js) = q\<lparr>pg_busy := js\<rparr>"

fun queue_run :: "pg \<Rightarrow> queue_op list \<Rightarrow> pg" where
  "queue_run q [] = q"
| "queue_run q (op # ops) = queue_run (queue_step q op) ops"

text \<open>The tasks the claims of a run returned.\<close>

fun claimed_by_step :: "pg \<Rightarrow> queue_op \<Rightarrow> DeliveryTask list" where
  "claimed_by_step q (OpClaim req) = (case fst (Claim req q) of Inl _ \<Rightarrow> [] | Inr ts \<Rightarrow> ts)"
| "claimed_by_step q _ = []"

fun claims_of :: "pg \<Rightarrow> queue_op list \<Rightarrow> DeliveryTask list" where
  "claims_of q [] = []"
| "claims_of q (op # ops) = claimed_by_step q op @ claims_of (queue_step q op) ops"

fun finalizes :: "int \<Rightarrow> queue_op \<Rightarrow> bool" where
  "finalizes i (OpComplete j) = (i = j)"
| "finalizes i (OpCompleteMany js) = (i \<in> set js)"
| "finalizes i (OpRetry j d) = (i = j)"
| "finalizes i (OpDefer j d) = (i = j)"
| "finalizes i (OpRelease js) = (i \<in> set js)"
| "finalizes i _ = False"

fun completes :: "int \<Rightarrow> queue_op \<Rightarrow> bool" where
  "completes i (OpComplete j) = (i = j)"
| "completes i (OpCompleteMany js) = (i \<in> set js)"
| "completes i _ = False"

lemma queue_step_inv: "pg_inv q \<Longrightarrow> pg_inv (queue_step q op)"
  by (cases op) (auto simp: pg_inv_ops pg_inv_Enqueue, auto simp: pg_inv_def)

lemma pg_now_ops [simp]:
  "pg_now (snd (Complete i q)) = pg_now q" "pg_now (snd (CompleteMany js q)) = pg_now q"
  "pg_now (snd (Retry i d q)) = pg_now q" "pg_now (snd (Defer i d q)) = pg_now q"
  "pg_now (snd (Release js q)) = pg_now q" "pg_now (snd (Enqueue now ts q)) = pg_now q"
  "pg_now (snd (RescueStuck q)) = pg_now q" "pg_now (snd (Claim req q)) = pg_now q"
  by (auto simp: Complete_def CompleteMany_def Retry_def Defer_def Release_def Enqueue_def
      RescueStuck_cases Claim_cases statement_eq Let_def)

lemma pg_now_step: "pg_now q \<le> pg_now (queue_step q op)"
  by (cases op) auto

lemma pg_now_run: "pg_now q \<le> pg_now (queue_run q ops)"
proof (induction ops arbitrary: q)
  case (Cons op ops)
  then show ?case using pg_now_step [of q op] order_trans by fastforce
qed simp

lemma claim_ids_claimable:
  assumes "i \<in> set (claim_ids req q)"
  shows "\<exists>t\<in>set (pg_rows q). task_ID t = i \<and> claimable req q t"
  using assms by (auto simp: claim_ids_def dest!: in_set_takeD)

lemma look_Claim:
  "pg_look (snd (Claim req q)) i =
    (if cr_Partitions req \<noteq> [] \<and> 0 < cr_Limit req \<and> fst (pg_exec q) \<and> i \<in> set (claim_ids req (snd (pg_exec q)))
     then map_option (lock_row req (pg_now q)) (pg_look q i) else pg_look q i)"
  by (auto simp: Claim_cases Let_def
      look_update_id [where Q = "\<lambda>j. j \<in> set (claim_ids req (snd (pg_exec q)))"])

lemma claim_ids_unlocked:
  assumes "pg_inv q" and "pg_look q i = Some t" and "task_LockedUntil t \<noteq> None"
  shows "i \<notin> set (claim_ids req q)"
proof
  assume "i \<in> set (claim_ids req q)"
  then obtain t' where "t' \<in> set (pg_rows q)" "task_ID t' = i" "claimable req q t'"
    using claim_ids_claimable by blast
  moreover from this have "pg_look q i = Some t'" using look_iff [OF assms(1)] by simp
  ultimately show False using assms(2,3) by (simp add: claimable_def)
qed

lemma look_Enqueue_old:
  assumes "pg_inv q" and "pg_look q i = Some t"
  shows "pg_look (snd (Enqueue now ts q)) i = Some t"
proof -
  have "i \<notin> set (map task_ID (new_rows now (pg_now q) (pg_seq q) ts))"
    using fresh_ids [OF assms(1), of now "pg_now q" ts] assms(2) by blast
  then have "map_of (map (\<lambda>t. (task_ID t, t)) (new_rows now (pg_now q) (pg_seq q) ts)) i = None"
    by (auto simp: map_of_eq_None_iff)
  with assms(2) show ?thesis
    by (cases "fst (Enqueue now ts q)") (auto simp: look_Enqueue [OF assms(1)] look_Enqueue_err map_add_def)
qed

lemma locked_step:
  assumes "pg_inv q" and "pg_look q i = Some t" and "task_LockedUntil t = Some u"
    and "\<not> finalizes i op" and "pg_now (queue_step q op) \<le> u"
  shows "pg_look (queue_step q op) i = Some t" and "i \<notin> task_ID ` set (claimed_by_step q op)"
proof -
  have nc: "i \<notin> set (claim_ids req (snd (pg_exec q)))" for req
    using assms by (intro claim_ids_unlocked) auto
  have ns: "\<not> stuck (pg_now q) t" using assms(3,5) pg_now_step [of q op] by (simp add: stuck_def)
  show "pg_look (queue_step q op) i = Some t"
  proof (cases op)
    case (OpEnqueue now ts)
    with assms(1,2) show ?thesis by (simp add: look_Enqueue_old)
  next
    case (OpTick n)
    then show ?thesis using assms(2) by (simp add: pg_look_def)
  next
    case (OpBusy js)
    then show ?thesis using assms(2) by (simp add: pg_look_def)
  qed (use assms nc ns in \<open>auto simp: look_Complete look_CompleteMany look_Retry look_Defer look_Release
      look_Claim RescueStuck_cases Let_def look_update_rows\<close>)
  show "i \<notin> task_ID ` set (claimed_by_step q op)"
    using nc by (cases op) (auto simp: Claim_cases Let_def split: sum.splits if_splits)
qed

lemma locked_run:
  assumes "pg_inv q" and "pg_look q i = Some t" and "task_LockedUntil t = Some u"
    and "\<forall>op\<in>set ops. \<not> finalizes i op" and "pg_now (queue_run q ops) \<le> u"
  shows "pg_look (queue_run q ops) i = Some t \<and> i \<notin> task_ID ` set (claims_of q ops)"
  using assms
proof (induction ops arbitrary: q)
  case (Cons op ops)
  have le: "pg_now (queue_step q op) \<le> u"
    using Cons.prems(5) pg_now_run [of "queue_step q op" ops] by simp
  note st = locked_step [OF Cons.prems(1-3) _ le]
  from Cons.IH [OF queue_step_inv [OF Cons.prems(1)]] st Cons.prems show ?case by auto
qed simp

lemma Claim_result:
  assumes "pg_inv q" and "fst (Claim req q) = Inr ts" and "t \<in> set ts"
  shows "pg_look (snd (Claim req q)) (task_ID t) = Some t" and "task_LockedBy t = Some (cr_OwnerID req)"
    and "task_LockedUntil t = Some (pg_now q + cr_LockTTL req)"
    and "\<exists>t0. pg_look q (task_ID t) = Some t0 \<and> claimable req q t0 \<and> t = lock_row req (pg_now q) t0"
proof -
  let ?q1 = "snd (pg_exec q)"
  have ne: "cr_Partitions req \<noteq> []" "0 < cr_Limit req" "fst (pg_exec q)"
    and t: "task_ID t \<in> set (claim_ids req ?q1)"
      "t \<in> set (pg_rows (update_rows (\<lambda>t. task_ID t \<in> set (claim_ids req ?q1)) (lock_row req (pg_now q)) ?q1))"
    using assms(2,3) by (auto simp: Claim_cases Let_def split: if_splits)
  then obtain t0 where t0: "t0 \<in> set (pg_rows q)" "t = lock_row req (pg_now q) t0"
    by (auto simp: update_rows_def split: if_splits)
  with t(1) look_iff [OF assms(1)] have l: "pg_look q (task_ID t) = Some t0" by simp
  obtain t1 where "t1 \<in> set (pg_rows ?q1)" "task_ID t1 = task_ID t" "claimable req ?q1 t1"
    using claim_ids_claimable [OF t(1)] by blast
  moreover from this have "pg_look q (task_ID t) = Some t1" using look_iff [OF assms(1)] by simp
  ultimately have "claimable req q t0" using l by (simp add: claimable_def)
  with l t0(2) show "\<exists>t0. pg_look q (task_ID t) = Some t0 \<and> claimable req q t0 \<and> t = lock_row req (pg_now q) t0"
    by blast
  from l t0(2) ne t(1) show "pg_look (snd (Claim req q)) (task_ID t) = Some t" by (simp add: look_Claim)
  from t0(2) show "task_LockedBy t = Some (cr_OwnerID req)"
    "task_LockedUntil t = Some (pg_now q + cr_LockTTL req)" by (simp_all add: lock_row_def)
qed

text \<open>
  C3: a claimed task belongs to its claimer alone for the whole lock window. Whatever statements
  any workers run afterwards, in any order, with any database failures, as long as none of them
  completes, retries, defers or releases that task and the clock has not passed the lock's
  deadline, no claim returns it again and its row is untouched.
\<close>
theorem claim_exclusive:
  assumes "pg_inv q" and "Claim req q = (Inr ts, q')" and "t \<in> set ts"
    and "\<forall>op\<in>set ops. \<not> finalizes (task_ID t) op"
    and "pg_now (queue_run q' ops) \<le> pg_now q + cr_LockTTL req"
  shows "task_ID t \<notin> task_ID ` set (claims_of q' ops) \<and>
    pg_look (queue_run q' ops) (task_ID t) = Some t \<and> task_LockedBy t = Some (cr_OwnerID req)"
proof -
  have c: "fst (Claim req q) = Inr ts" "q' = snd (Claim req q)" using assms(2) by simp_all
  note r = Claim_result [OF assms(1) c(1) assms(3)]
  have "pg_inv q'" using assms(1) c(2) by (simp add: pg_inv_ops)
  from locked_run [OF this _ r(3) assms(4,5)] r show ?thesis by (simp add: c(2))
qed

definition demo_task :: "int \<Rightarrow> DeliveryTask" where
  "demo_task i = row_of 0 0 i \<lparr>et_PartitionKey = 7, et_Pool = ''default'', et_Kind = TaskDeliver,
     et_TaskOrgID = ''org_1'', et_AppID = ''app_1'', et_MsgID = ''msg_1'', et_MsgCreatedAt = 0,
     et_EndpointID = Some ''ep_1'', et_Attempt = 0, et_TriggerType = TriggerScheduled, et_VisibleAt = 5\<rparr>"

definition demo_pg :: pg where
  "demo_pg = \<lparr>pg_rows = [demo_task 1, demo_task 2], pg_seq = 3, pg_now = 10, pg_busy = [],
     pg_faults = [], pg_notified = []\<rparr>"

definition demo_claim :: "string \<Rightarrow> int \<Rightarrow> ClaimRequest" where
  "demo_claim w n = \<lparr>cr_Pool = ''default'', cr_Partitions = [7], cr_OwnerID = w, cr_LockTTL = 90, cr_Limit = n\<rparr>"

lemmas demo_defs = demo_pg_def demo_task_def demo_claim_def row_of_def zero_time_def time_IsZero_def

lemma demo_Claim:
  "Claim (demo_claim ''w1'' 1) demo_pg =
     (Inr [lock_row (demo_claim ''w1'' 1) 10 (demo_task 1)],
      demo_pg\<lparr>pg_rows := [lock_row (demo_claim ''w1'' 1) 10 (demo_task 1), demo_task 2]\<rparr>)"
  by (simp add: Claim_def pg_exec_def Let_def claim_ids_def claimable_def update_rows_def demo_defs lock_row_def)

theorem claim_exclusive_witness:
  "1 \<notin> task_ID ` set (claims_of (snd (Claim (demo_claim ''w1'' 1) demo_pg))
     [OpTick 50, OpRescue, OpClaim (demo_claim ''w2'' 10)])"
proof -
  have "pg_inv demo_pg" by (simp add: pg_inv_def demo_defs)
  moreover have "pg_now (queue_run (demo_pg\<lparr>pg_rows := [lock_row (demo_claim ''w1'' 1) 10 (demo_task 1), demo_task 2]\<rparr>)
      [OpTick 50, OpRescue, OpClaim (demo_claim ''w2'' 10)]) \<le> 100"
    by (simp add: demo_pg_def)
  ultimately show ?thesis
    using claim_exclusive [OF _ demo_Claim, of "lock_row (demo_claim ''w1'' 1) 10 (demo_task 1)"
        "[OpTick 50, OpRescue, OpClaim (demo_claim ''w2'' 10)]"]
    unfolding demo_Claim by (simp add: demo_task_def row_of_def demo_pg_def demo_claim_def)
qed

section \<open>What a claim selects\<close>

definition claim_key :: "DeliveryTask \<Rightarrow> time \<times> int" where
  "claim_key t = (task_VisibleAt t, task_ID t)"

definition ready_tasks :: "ClaimRequest \<Rightarrow> pg \<Rightarrow> DeliveryTask list" where
  "ready_tasks req q = filter (claimable req q) (pg_rows q)"

definition claim_order :: "ClaimRequest \<Rightarrow> pg \<Rightarrow> DeliveryTask list" where
  "claim_order req q = sort_key claim_key (ready_tasks req q)"

lemma claim_ids_eq: "claim_ids req q = map task_ID (take (nat (cr_Limit req)) (claim_order req q))"
  by (simp add: claim_ids_def claim_order_def ready_tasks_def claim_key_def [abs_def])

lemma distinct_order: "pg_inv q \<Longrightarrow> distinct (map task_ID (claim_order req q))"
  by (simp add: pg_inv_def claim_order_def ready_tasks_def distinct_map distinct_filter inj_on_def)

lemma distinct_claim_ids: "pg_inv q \<Longrightarrow> distinct (claim_ids req q)"
  using distinct_take [OF distinct_order, of q "nat (cr_Limit req)" req] by (simp add: claim_ids_eq take_map)

lemma length_filter_ids:
  assumes "distinct (map f xs)" and "distinct is" and "set is \<subseteq> f ` set xs"
  shows "length (filter (\<lambda>t. f t \<in> set is) xs) = length is"
proof -
  have "length (filter (\<lambda>t. f t \<in> set is) xs) = card (f ` set (filter (\<lambda>t. f t \<in> set is) xs))"
    using assms(1) by (simp add: card_image distinct_map distinct_card [symmetric] inj_on_def)
  also have "f ` set (filter (\<lambda>t. f t \<in> set is) xs) = set is" using assms(3) by auto
  finally show ?thesis using assms(2) by (simp add: distinct_card)
qed

lemma set_take_drop: "set (take n xs) \<union> set (drop n xs) = set xs"
  by (metis append_take_drop_id set_append)

lemma Claim_ids:
  assumes "pg_inv q" and "Claim req q = (Inr ts, q')" and "cr_Partitions req \<noteq> []" and "0 < cr_Limit req"
  shows "task_ID ` set ts = set (claim_ids req q)" and "length ts = length (claim_ids req q)"
proof -
  let ?q1 = "snd (pg_exec q)"
  have ids: "claim_ids req ?q1 = claim_ids req q" by (simp add: claim_ids_def claimable_def [abs_def])
  let ?rows = "pg_rows (update_rows (\<lambda>t. task_ID t \<in> set (claim_ids req q)) (lock_row req (pg_now q)) ?q1)"
  have ts: "ts = filter (\<lambda>t. task_ID t \<in> set (claim_ids req q)) ?rows"
    using assms(2-4) by (auto simp: Claim_cases Let_def ids split: if_splits)
  have m: "map task_ID ?rows = map task_ID (pg_rows q)" by (simp add: ids_update_rows)
  have sub: "set (claim_ids req q) \<subseteq> task_ID ` set ?rows"
    using m [THEN arg_cong [where f = set]] by (auto dest!: claim_ids_claimable)
  then show "task_ID ` set ts = set (claim_ids req q)" by (auto simp: ts)
  show "length ts = length (claim_ids req q)"
    unfolding ts using assms(1) m sub by (intro length_filter_ids) (simp_all add: pg_inv_def distinct_claim_ids)
qed

text \<open>
  A claim takes the oldest ready work and no more than asked. It returns
  \<open>min limit (number of ready tasks)\<close> tasks, all of them ready before the claim, and every ready
  task it leaves behind comes after every task it took in the order (visible_at, id).
\<close>
theorem claim_takes_oldest:
  assumes "pg_inv q" and "Claim req q = (Inr ts, q')" and "cr_Partitions req \<noteq> []" and "0 < cr_Limit req"
  shows "length ts = min (nat (cr_Limit req)) (length (ready_tasks req q)) \<and>
    task_ID ` set ts \<subseteq> task_ID ` set (ready_tasks req q) \<and>
    (\<forall>t\<in>set (ready_tasks req q). \<forall>t'\<in>set (ready_tasks req q).
       task_ID t \<in> task_ID ` set ts \<longrightarrow> task_ID t' \<notin> task_ID ` set ts \<longrightarrow> claim_key t < claim_key t')"
proof -
  let ?n = "nat (cr_Limit req)" and ?o = "claim_order req q"
  note c = Claim_ids [OF assms]
  have so: "set ?o = set (ready_tasks req q)" and lo: "length ?o = length (ready_tasks req q)"
    by (simp_all add: claim_order_def)
  have srt: "sorted (map claim_key (take ?n ?o @ drop ?n ?o))" by (simp add: claim_order_def)
  have "claim_key t < claim_key t'"
    if t: "t \<in> set (ready_tasks req q)" "task_ID t \<in> task_ID ` set ts"
      and t': "t' \<in> set (ready_tasks req q)" "task_ID t' \<notin> task_ID ` set ts" for t t'
  proof -
    have "t \<in> set (take ?n ?o)"
      using t c(1) distinct_order [OF assms(1), of req]
      by (auto simp: claim_ids_eq so [symmetric] distinct_map inj_on_def dest: in_set_takeD)
    moreover have "t' \<in> set (drop ?n ?o)"
      using t' c(1) set_take_drop [of ?n ?o] by (auto simp: claim_ids_eq so [symmetric])
    ultimately have "claim_key t \<le> claim_key t'" using srt unfolding map_append sorted_append by auto
    moreover have "task_ID t \<noteq> task_ID t'" using t t' by auto
    ultimately show ?thesis by (auto simp: claim_key_def)
  qed
  moreover have "task_ID ` set ts \<subseteq> task_ID ` set (ready_tasks req q)"
    using c(1) so by (auto simp: claim_ids_eq dest: in_set_takeD)
  ultimately show ?thesis using c(2) lo by (auto simp: claim_ids_eq)
qed

theorem claim_takes_oldest_witness:
  "length (ready_tasks (demo_claim ''w1'' 1) demo_pg) = 2 \<and>
   task_ID ` set [lock_row (demo_claim ''w1'' 1) 10 (demo_task 1)] \<subseteq> task_ID ` set (ready_tasks (demo_claim ''w1'' 1) demo_pg)"
proof -
  have "pg_inv demo_pg" by (simp add: pg_inv_def demo_defs)
  moreover have "length (ready_tasks (demo_claim ''w1'' 1) demo_pg) = 2"
    by (simp add: ready_tasks_def claimable_def demo_defs)
  ultimately show ?thesis using claim_takes_oldest [OF _ demo_Claim] by (simp add: demo_claim_def)
qed

section \<open>No task is lost\<close>

text \<open>The job a row stands for is unchanged; its attempt number never goes down.\<close>

definition same_job :: "DeliveryTask \<Rightarrow> DeliveryTask \<Rightarrow> bool" where
  "same_job t t' \<longleftrightarrow> task_Attempt t \<le> task_Attempt t' \<and>
     t' = t\<lparr>task_Attempt := task_Attempt t', task_VisibleAt := task_VisibleAt t',
            task_LockedBy := task_LockedBy t', task_LockedUntil := task_LockedUntil t'\<rparr>"

lemma same_job_refl [simp]: "same_job t t"
  by (simp add: same_job_def)

lemma same_job_trans: "same_job t u \<Longrightarrow> same_job u v \<Longrightarrow> same_job t v"
  by (cases t; cases u; cases v) (auto simp: same_job_def)

lemma same_job_ops [simp]:
  "same_job t (unlocked t)" "same_job t (retried n d t)" "same_job t (deferred n d t)" "same_job t (lock_row req n t)"
  by (simp_all add: same_job_def unlocked_def retried_def deferred_def lock_row_def)

lemma kept_step:
  assumes "pg_inv q" and "pg_look q i = Some t" and "\<not> completes i op"
  shows "\<exists>t'. pg_look (queue_step q op) i = Some t' \<and> same_job t t'"
proof (cases op)
  case (OpEnqueue now ts)
  then show ?thesis using assms by (simp add: look_Enqueue_old)
next
  case (OpTick n) then show ?thesis using assms by (simp add: pg_look_def)
next
  case (OpBusy n) then show ?thesis using assms by (simp add: pg_look_def)
qed (use assms in \<open>auto simp: look_Complete look_CompleteMany look_Retry look_Defer look_Release
      look_Claim RescueStuck_cases Let_def look_update_rows\<close>)

text \<open>
  C29: at-least-once. A stored task survives every run of statements in which none completes it: its
  row is still there, for the same message, endpoint and partition, with an attempt number that has
  not gone down.
\<close>
theorem task_never_lost:
  assumes "pg_inv q" and "pg_look q i = Some t" and "\<forall>op\<in>set ops. \<not> completes i op"
  shows "\<exists>t'. pg_look (queue_run q ops) i = Some t' \<and> same_job t t'"
  using assms
proof (induction ops arbitrary: q t)
  case (Cons op ops)
  then obtain t1 where "pg_look (queue_step q op) i = Some t1" "same_job t t1" using kept_step by fastforce
  with Cons.IH [OF queue_step_inv [OF Cons.prems(1)]] Cons.prems(3) show ?case
    by (fastforce intro: same_job_trans)
qed simp

theorem task_never_lost_witness:
  "\<exists>t'. pg_look (queue_run demo_pg [OpClaim (demo_claim ''w1'' 1), OpRetry 1 Second, OpComplete 2]) 1 = Some t' \<and>
     same_job (demo_task 1) t'"
  by (rule task_never_lost) (simp_all add: pg_inv_def pg_look_def demo_defs)

text \<open>
  Recovery of a crashed worker's work. A task whose lock has expired, in a pool and partition the
  caller claims, is returned by the first claim after a rescue, when the limit covers the ready work
  and no statement fails.
\<close>
theorem rescued_then_claimed:
  assumes "pg_inv q" and "pg_faults q = []" and "pg_look q i = Some t"
    and "task_LockedUntil t = Some u" and "u < pg_now q" and "task_VisibleAt t \<le> pg_now q"
    and "task_Pool t = cr_Pool req" and "task_PartitionKey t \<in> set (cr_Partitions req)"
    and "i \<notin> set (pg_busy q)" and "int (length (pg_rows q)) < cr_Limit req"
  shows "\<exists>ts. fst (Claim req (snd (RescueStuck q))) = Inr ts \<and> i \<in> task_ID ` set ts"
proof -
  define q1 where "q1 = snd (RescueStuck q)"
  have e: "pg_exec q = (True, q)" "pg_exec q1 = (True, q1)"
    using assms(2) by (simp_all add: q1_def pg_exec_def RescueStuck_cases Let_def update_rows_def)
  have inv1: "pg_inv q1" using assms(1) by (simp add: q1_def pg_inv_ops)
  have l1: "pg_look q1 i = Some (unlocked t)"
    using assms(3-5) e(1) by (simp add: q1_def RescueStuck_cases Let_def look_update_rows stuck_def)
  have now1: "pg_now q1 = pg_now q" "pg_busy q1 = pg_busy q" "length (pg_rows q1) = length (pg_rows q)"
    using e(1) by (simp_all add: q1_def RescueStuck_cases Let_def update_rows_def)
  have "claimable req q1 (unlocked t)"
    using assms now1 look_ID [OF assms(3)] by (simp add: claimable_def unlocked_def)
  then have r: "unlocked t \<in> set (ready_tasks req q1)" using look_mem [OF l1] by (simp add: ready_tasks_def)
  have "length (ready_tasks req q1) \<le> nat (cr_Limit req)"
    using assms(10) now1(3) length_filter_le [of "claimable req q1" "pg_rows q1"] by (simp add: ready_tasks_def)
  then have "take (nat (cr_Limit req)) (claim_order req q1) = claim_order req q1" by (simp add: claim_order_def)
  with r have i: "i \<in> set (claim_ids req q1)"
    using look_ID [OF l1] imageI [OF r, of task_ID] by (simp add: claim_ids_eq) (simp add: claim_order_def)
  have ne: "cr_Partitions req \<noteq> []" "0 < cr_Limit req" using assms(8,10) by auto
  then obtain ts q2 where c: "Claim req q1 = (Inr ts, q2)" using e(2) by (simp add: Claim_cases Let_def)
  from Claim_ids(1) [OF inv1 c ne] i c show ?thesis by (simp add: q1_def)
qed

definition crashed_pg :: pg where
  "crashed_pg = demo_pg\<lparr>pg_rows := [lock_row (demo_claim ''w1'' 1) 10 (demo_task 1)], pg_now := 200\<rparr>"

theorem rescued_then_claimed_witness:
  "\<exists>ts. fst (Claim (demo_claim ''w2'' 10) (snd (RescueStuck crashed_pg))) = Inr ts \<and> 1 \<in> task_ID ` set ts"
  by (rule rescued_then_claimed [where t = "lock_row (demo_claim ''w1'' 1) 10 (demo_task 1)" and u = 100])
    (simp_all add: crashed_pg_def pg_inv_def pg_look_def lock_row_def demo_defs)

end
