(* ===== verification/Attempt_Writer.thy ===== *)
theory Attempt_Writer
  imports Queue_Repo
begin

text \<open>
  \<^verbatim>\<open>internal/application/dispatch/attempt_writer.go\<close> with \<^verbatim>\<open>CopyAttempts\<close> of
  \<^verbatim>\<open>internal/adapters/outbound/persistence/postgres/attempt_repo.go\<close>: attempts are written in
  batches, and the queue rows they finalize are touched only after the batch is durable.

  The channel is a list (bounded by \<open>BufferSize\<close>), the select loop of \<^verbatim>\<open>Run\<close> is one step per ready
  case, chosen by the event, and the two stores it writes to are the attempt table and the queue.
\<close>

section \<open>The attempt table\<close>

record adb =
  ad_rows :: "DeliveryAttempt list"
  ad_faults :: "bool list"

text \<open>COPY is one statement: all rows or none.\<close>

definition CopyAttempts :: "DeliveryAttempt list \<Rightarrow> adb \<Rightarrow> repo_error option \<times> adb" where
  "CopyAttempts atts d = (if atts = [] then (None, d)
     else case ad_faults d of
       [] \<Rightarrow> (None, d\<lparr>ad_rows := ad_rows d @ atts\<rparr>)
     | f # fs \<Rightarrow> if f then (Some (DriverError ''copy delivery attempts''), d\<lparr>ad_faults := fs\<rparr>)
                else (None, d\<lparr>ad_rows := ad_rows d @ atts, ad_faults := fs\<rparr>))"

locale attempt_contract =
  fixes copy :: "DeliveryAttempt list \<Rightarrow> 'a \<Rightarrow> repo_error option \<times> 'a"
    and stored :: "'a \<Rightarrow> DeliveryAttempt list"
  assumes copy_ok: "copy atts a = (None, a') \<Longrightarrow> stored a' = stored a @ atts"
    and copy_err: "copy atts a = (Some e, a') \<Longrightarrow> stored a' = stored a"

interpretation pga: attempt_contract CopyAttempts ad_rows
  by unfold_locales (auto simp: CopyAttempts_def split: if_splits list.splits)

section \<open>The writer\<close>

record AttemptWriterOptions =
  awo_BufferSize :: int
  awo_BatchSize :: int
  awo_FlushInterval :: duration

record AttemptWriter =
  aw_opts :: AttemptWriterOptions
  aw_records :: "AttemptRecord list"
  aw_batch :: "AttemptRecord list"
  aw_timerRunning :: bool
  aw_depth :: "int option"
  aw_done :: bool

definition writer_defaults :: "AttemptWriterOptions \<Rightarrow> AttemptWriterOptions" where
  "writer_defaults opts =
    (let opts = (if awo_BatchSize opts \<le> 0 then opts\<lparr>awo_BatchSize := 500\<rparr> else opts);
         opts = (if awo_BufferSize opts < awo_BatchSize opts then opts\<lparr>awo_BufferSize := max (awo_BatchSize opts) 8192\<rparr> else opts);
         opts = (if awo_FlushInterval opts \<le> 0 then opts\<lparr>awo_FlushInterval := 5 * Millisecond\<rparr> else opts)
     in opts)"

definition NewAttemptWriter :: "AttemptWriterOptions \<Rightarrow> int option \<Rightarrow> AttemptWriter" where
  "NewAttemptWriter opts depth = \<lparr>aw_opts = writer_defaults opts, aw_records = [], aw_batch = [],
     aw_timerRunning = False, aw_depth = depth, aw_done = False\<rparr>"

definition set_depth :: "AttemptWriter \<Rightarrow> AttemptWriter" where
  "set_depth w = w\<lparr>aw_depth := map_option (\<lambda>_. int (length (aw_records w))) (aw_depth w)\<rparr>"

datatype enqueue_result = Buffered | EnqueueCtxDone | WriterClosed

text \<open>
  \<^verbatim>\<open>Enqueue\<close>: a select over three cases. When several are ready Go picks one; \<open>prefer\<close> is that
  choice among the ready ones, and the call blocks (\<open>None\<close>) when none is ready.
\<close>

definition Writer_Enqueue ::
  "enqueue_result \<Rightarrow> bool \<Rightarrow> AttemptRecord \<Rightarrow> AttemptWriter \<Rightarrow> (enqueue_result \<times> AttemptWriter) option" where
  "Writer_Enqueue prefer ctxDone r w =
    (let space = int (length (aw_records w)) < awo_BufferSize (aw_opts w);
         buffered = (Buffered, set_depth (w\<lparr>aw_records := aw_records w @ [r]\<rparr>)) in
     if prefer = Buffered \<and> space then Some buffered
     else if prefer = EnqueueCtxDone \<and> ctxDone then Some (EnqueueCtxDone, w)
     else if prefer = WriterClosed \<and> aw_done w then Some (WriterClosed, w)
     else if space then Some buffered
     else if ctxDone then Some (EnqueueCtxDone, w)
     else if aw_done w then Some (WriterClosed, w)
     else None)"

section \<open>Flushing\<close>

fun complete_each :: "'q Queue \<Rightarrow> int list \<Rightarrow> 'q action" where
  "complete_each Q [] q = (None, q)"
| "complete_each Q (i # is) q = (case q_Complete Q i q of (Some e, q1) \<Rightarrow> (Some e, q1) | (None, q1) \<Rightarrow> complete_each Q is q1)"

text \<open>\<open>batched\<close> says whether the queue has the batched form.\<close>

definition completeMany :: "bool \<Rightarrow> 'q Queue \<Rightarrow> int list \<Rightarrow> 'q action" where
  "completeMany batched Q is q = (if batched then q_CompleteMany Q is q else complete_each Q is q)"

fun finalize_loop :: "'q Queue \<Rightarrow> AttemptRecord list \<Rightarrow> int list \<Rightarrow> 'q \<Rightarrow> int list \<times> 'q" where
  "finalize_loop Q [] completed q = (completed, q)"
| "finalize_loop Q (r # rs) completed q = (case ar_Task r of
     None \<Rightarrow> finalize_loop Q rs completed q
   | Some t \<Rightarrow> (case to_Action t of
       TaskComplete \<Rightarrow> finalize_loop Q rs (completed @ [to_TaskID t]) q
     | TaskRetry \<Rightarrow> finalize_loop Q rs completed (snd (q_Retry Q (to_TaskID t) (to_Delay t) q))))"

definition finalize :: "bool \<Rightarrow> 'q Queue \<Rightarrow> AttemptRecord list \<Rightarrow> 'q \<Rightarrow> 'q" where
  "finalize batched Q batch q = (case finalize_loop Q batch [] q of (completed, q1) \<Rightarrow>
     if completed = [] then q1 else snd (completeMany batched Q completed q1))"

definition flush ::
  "(DeliveryAttempt list \<Rightarrow> 'a \<Rightarrow> repo_error option \<times> 'a) \<Rightarrow> bool \<Rightarrow> 'q Queue \<Rightarrow> AttemptRecord list \<Rightarrow> 'a \<times> 'q \<Rightarrow> 'a \<times> 'q" where
  "flush copy batched Q batch s = (case s of (a, q) \<Rightarrow>
     if batch = [] then (a, q)
     else case copy (map ar_Attempt batch) a of
       (Some e, a1) \<Rightarrow> (a1, q)
     | (None, a1) \<Rightarrow> (a1, finalize batched Q batch q))"

section \<open>The loop\<close>

text \<open>
  The ready case of the select: a record received, the timer, or the end of the context. Between two
  of them the producers may enqueue and the rest of the system may use the queue (\<open>Others\<close>).
\<close>

datatype ('a, 'q) writer_event = Received | TimerFired | Produced AttemptRecord | Others "'a \<times> 'q \<Rightarrow> 'a \<times> 'q"

definition receive ::
  "(DeliveryAttempt list \<Rightarrow> 'a \<Rightarrow> repo_error option \<times> 'a) \<Rightarrow> bool \<Rightarrow> 'q Queue \<Rightarrow> AttemptWriter \<times> 'a \<times> 'q \<Rightarrow> AttemptWriter \<times> 'a \<times> 'q" where
  "receive copy batched Q s = (case s of (w, st) \<Rightarrow> (case aw_records w of
      [] \<Rightarrow> (w, st)
    | r # rs \<Rightarrow>
       (let w = set_depth (w\<lparr>aw_batch := aw_batch w @ [r], aw_records := rs\<rparr>);
            w = (if length (aw_batch w) = 1 then w\<lparr>aw_timerRunning := True\<rparr> else w) in
        if int (length (aw_batch w)) \<ge> awo_BatchSize (aw_opts w)
        then (w\<lparr>aw_batch := [], aw_timerRunning := False\<rparr>, flush copy batched Q (aw_batch w) st)
        else (w, st))))"

definition timer_fires ::
  "(DeliveryAttempt list \<Rightarrow> 'a \<Rightarrow> repo_error option \<times> 'a) \<Rightarrow> bool \<Rightarrow> 'q Queue \<Rightarrow> AttemptWriter \<times> 'a \<times> 'q \<Rightarrow> AttemptWriter \<times> 'a \<times> 'q" where
  "timer_fires copy batched Q s = (case s of (w, st) \<Rightarrow>
     if aw_timerRunning w then (w\<lparr>aw_timerRunning := False, aw_batch := []\<rparr>, flush copy batched Q (aw_batch w) st) else (w, st))"

text \<open>The final drain: everything buffered goes into batches, and the last one is flushed whatever its size.\<close>

fun drain_loop ::
  "(DeliveryAttempt list \<Rightarrow> 'a \<Rightarrow> repo_error option \<times> 'a) \<Rightarrow> bool \<Rightarrow> 'q Queue \<Rightarrow> int \<Rightarrow>
   AttemptRecord list \<Rightarrow> AttemptRecord list \<Rightarrow> 'a \<times> 'q \<Rightarrow> 'a \<times> 'q" where
  "drain_loop copy batched Q n batch [] st = flush copy batched Q batch st"
| "drain_loop copy batched Q n batch (r # rs) st =
     (if int (length (batch @ [r])) \<ge> n then drain_loop copy batched Q n [] rs (flush copy batched Q (batch @ [r]) st)
      else drain_loop copy batched Q n (batch @ [r]) rs st)"

definition writer_stop ::
  "(DeliveryAttempt list \<Rightarrow> 'a \<Rightarrow> repo_error option \<times> 'a) \<Rightarrow> bool \<Rightarrow> 'q Queue \<Rightarrow> AttemptWriter \<times> 'a \<times> 'q \<Rightarrow> AttemptWriter \<times> 'a \<times> 'q" where
  "writer_stop copy batched Q s = (case s of (w, st) \<Rightarrow>
     (w\<lparr>aw_timerRunning := False, aw_batch := [], aw_records := [], aw_done := True, aw_depth := map_option (\<lambda>_. 0) (aw_depth w)\<rparr>,
      drain_loop copy batched Q (awo_BatchSize (aw_opts w)) (aw_batch w) (aw_records w) st))"

fun writer_step ::
  "(DeliveryAttempt list \<Rightarrow> 'a \<Rightarrow> repo_error option \<times> 'a) \<Rightarrow> bool \<Rightarrow> 'q Queue \<Rightarrow> ('a, 'q) writer_event \<Rightarrow>
   AttemptWriter \<times> 'a \<times> 'q \<Rightarrow> AttemptWriter \<times> 'a \<times> 'q" where
  "writer_step copy batched Q Received s = receive copy batched Q s"
| "writer_step copy batched Q TimerFired s = timer_fires copy batched Q s"
| "writer_step copy batched Q (Produced r) (w, st) = (case Writer_Enqueue Buffered False r w of
     Some (Buffered, w') \<Rightarrow> (w', st) | _ \<Rightarrow> (w, st))"
| "writer_step copy batched Q (Others f) (w, st) = (w, f st)"

definition Writer_Run ::
  "(DeliveryAttempt list \<Rightarrow> 'a \<Rightarrow> repo_error option \<times> 'a) \<Rightarrow> bool \<Rightarrow> 'q Queue \<Rightarrow> ('a, 'q) writer_event list \<Rightarrow>
   AttemptWriter \<times> 'a \<times> 'q \<Rightarrow> AttemptWriter \<times> 'a \<times> 'q" where
  "Writer_Run copy batched Q evs s = writer_stop copy batched Q (fold (writer_step copy batched Q) evs s)"

section \<open>Durable before finalized\<close>

definition completes_task :: "int \<Rightarrow> AttemptRecord \<Rightarrow> bool" where
  "completes_task i r = (case ar_Task r of None \<Rightarrow> False | Some t \<Rightarrow> to_Action t = TaskComplete \<and> to_TaskID t = i)"

locale writer_contract = queue_contract Q look clock valid + attempt_contract copy stored
  for Q :: "'q Queue" and look clock valid and copy :: "DeliveryAttempt list \<Rightarrow> 'a \<Rightarrow> repo_error option \<times> 'a" and stored
begin

lemma finalize_loop_ids:
  assumes "valid q" and "finalize_loop Q rs done q = (ids, q')"
  shows "valid q' \<and> dom (look q') = dom (look q) \<and> set ids \<subseteq> set done \<union> {i. \<exists>r\<in>set rs. completes_task i r}"
  using assms
proof (induction rs arbitrary: "done" q)
  case (Cons r rs)
  consider (none) "ar_Task r = None"
    | (complete) t where "ar_Task r = Some t" "to_Action t = TaskComplete"
    | (retry) t where "ar_Task r = Some t" "to_Action t = TaskRetry"
    by (cases "ar_Task r") (auto intro: TaskAction.exhaust)
  then show ?case
  proof cases
    case none
    then show ?thesis using Cons.IH [OF Cons.prems(1), of "done"] Cons.prems(2) by auto
  next
    case complete
    then show ?thesis using Cons.IH [OF Cons.prems(1), of "done @ [to_TaskID t]"] Cons.prems(2)
      by (auto simp: completes_task_def)
  next
    case retry
    then show ?thesis using Cons.IH [of "snd (q_Retry Q (to_TaskID t) (to_Delay t) q)" "done"] Cons.prems by auto
  qed
qed simp

lemma complete_each_ids: "valid q \<Longrightarrow> valid (snd (complete_each Q ids q)) \<and>
    dom (look q) - set ids \<subseteq> dom (look (snd (complete_each Q ids q)))"
proof (induction ids arbitrary: q)
  case (Cons i ids)
  obtain e q1 where c: "q_Complete Q i q = (e, q1)" by fastforce
  have v: "valid q1" and d: "dom (look q) - {i} \<subseteq> dom (look q1)"
    using valid_ops(1) [OF Cons.prems, of i] ids_Complete [OF Cons.prems, of i] c by simp_all
  from Cons.IH [OF v] v d c show ?case by (cases e) auto
qed simp

lemma completeMany_ids: "valid q \<Longrightarrow> valid (snd (completeMany batched Q ids q)) \<and>
    dom (look q) - set ids \<subseteq> dom (look (snd (completeMany batched Q ids q)))"
  using complete_each_ids [of q ids] CompleteMany_look [of q ids] valid_ops(2) [of q ids]
  by (auto simp: completeMany_def split: if_splits)

lemma finalize_ids:
  assumes "valid q"
  shows "valid (finalize batched Q batch q)"
    and "i \<in> dom (look q) \<Longrightarrow> i \<notin> dom (look (finalize batched Q batch q)) \<Longrightarrow> \<exists>r\<in>set batch. completes_task i r"
proof -
  obtain ids q1 where f: "finalize_loop Q batch [] q = (ids, q1)" by fastforce
  note l = finalize_loop_ids [OF assms f]
  then show "valid (finalize batched Q batch q)" using completeMany_ids [of q1 batched ids] by (simp add: finalize_def f)
  show "\<exists>r\<in>set batch. completes_task i r" if "i \<in> dom (look q)" "i \<notin> dom (look (finalize batched Q batch q))"
    using that l completeMany_ids [of q1 batched ids] by (auto simp: finalize_def f split: if_splits)
qed

text \<open>The invariant of a run: a row that is gone was completed by a record whose attempt is stored.\<close>

definition durable :: "AttemptRecord set \<Rightarrow> 'q \<Rightarrow> 'a \<times> 'q \<Rightarrow> bool" where
  "durable recs q0 st \<longleftrightarrow> valid (snd st) \<and>
     (\<forall>i\<in>dom (look q0). i \<in> dom (look (snd st)) \<or> (\<exists>r\<in>recs. completes_task i r \<and> ar_Attempt r \<in> set (stored (fst st))))"

lemma flush_durable:
  assumes "durable recs q0 st" and "set batch \<subseteq> recs"
  shows "durable recs q0 (flush copy batched Q batch st)"
proof -
  obtain a q where st: "st = (a, q)" by fastforce
  obtain e a1 where c: "copy (map ar_Attempt batch) a = (e, a1)" by fastforce
  have v: "valid q" using assms(1) by (simp add: durable_def st)
  show ?thesis
  proof (cases "batch = [] \<or> e \<noteq> None")
    case True
    then have "flush copy batched Q batch st = st \<or> (\<exists>x. e = Some x) \<and> flush copy batched Q batch st = (a1, q)"
      using c by (auto simp: flush_def st)
    moreover have "stored a1 = stored a" if "e = Some x" for x using copy_err c that by simp
    ultimately show ?thesis using assms(1) unfolding durable_def st by (metis fst_conv snd_conv)
  next
    case False
    then have s: "stored a1 = stored a @ map ar_Attempt batch" using copy_ok c by simp
    have "durable recs q0 (a1, finalize batched Q batch q)"
      using assms finalize_ids [OF v, where batched = batched and batch = batch] s unfolding durable_def st by fastforce
    with False c show ?thesis by (auto simp: flush_def st)
  qed
qed

lemma drain_durable:
  "durable recs q0 st \<Longrightarrow> set batch \<subseteq> recs \<Longrightarrow> set rs \<subseteq> recs \<Longrightarrow> durable recs q0 (drain_loop copy batched Q n batch rs st)"
proof (induction rs arbitrary: batch st)
  case Nil
  then show ?case by (cases st) (simp add: flush_durable)
next
  case (Cons r rs)
  then show ?case by (cases st) (simp add: flush_durable)
qed

text \<open>What the rest of the system may do meanwhile: keep the rows it does not own, add rows and attempts.\<close>

definition harmless :: "('a \<times> 'q \<Rightarrow> 'a \<times> 'q) \<Rightarrow> bool" where
  "harmless f \<longleftrightarrow> (\<forall>a q. valid q \<longrightarrow> valid (snd (f (a, q))) \<and> dom (look q) \<subseteq> dom (look (snd (f (a, q)))) \<and>
     set (stored a) \<subseteq> set (stored (fst (f (a, q)))))"

lemma step_durable:
  assumes "durable recs q0 st" and "set (aw_batch w) \<subseteq> recs" and "set (aw_records w) \<subseteq> recs"
    and "\<And>r. ev = Produced r \<Longrightarrow> r \<in> recs" and "\<And>f. ev = Others f \<Longrightarrow> harmless f"
    and "writer_step copy batched Q ev (w, st) = (w', st')"
  shows "durable recs q0 st' \<and> set (aw_batch w') \<subseteq> recs \<and> set (aw_records w') \<subseteq> recs"
proof (cases ev)
  case Received
  then show ?thesis using assms
    by (auto simp: receive_def set_depth_def Let_def split: list.splits if_splits intro!: flush_durable)
next
  case TimerFired
  then show ?thesis using assms by (auto simp: timer_fires_def split: if_splits intro!: flush_durable)
next
  case (Produced r)
  then show ?thesis using assms
    by (auto simp: Writer_Enqueue_def set_depth_def Let_def split: if_splits)
next
  case (Others f)
  obtain a q where st: "st = (a, q)" by fastforce
  have h: "valid q \<Longrightarrow> valid (snd (f (a, q))) \<and> dom (look q) \<subseteq> dom (look (snd (f (a, q)))) \<and>
     set (stored a) \<subseteq> set (stored (fst (f (a, q))))" using assms(5) [OF Others] by (simp add: harmless_def)
  from Others assms(6) have "w' = w" "st' = f (a, q)" by (simp_all add: st)
  with h assms(1-3) show ?thesis unfolding durable_def st by (simp, blast)
qed

lemma run_durable:
  assumes "durable recs q0 st" and "set (aw_batch w) \<subseteq> recs" and "set (aw_records w) \<subseteq> recs"
    and "\<forall>r. Produced r \<in> set evs \<longrightarrow> r \<in> recs" and "\<forall>f. Others f \<in> set evs \<longrightarrow> harmless f"
  shows "durable recs q0 (snd (Writer_Run copy batched Q evs (w, st)))"
  using assms
proof (induction evs arbitrary: w st)
  case Nil
  then show ?case by (auto simp: Writer_Run_def writer_stop_def intro!: drain_durable)
next
  case (Cons ev evs)
  obtain w' st' where s: "writer_step copy batched Q ev (w, st) = (w', st')" by (meson surj_pair)
  from step_durable [OF Cons.prems(1-3) _ _ s] Cons.prems(4,5)
  have "durable recs q0 st' \<and> set (aw_batch w') \<subseteq> recs \<and> set (aw_records w') \<subseteq> recs" by auto
  with Cons.IH [of st' w'] Cons.prems(4,5) s show ?case by (simp add: Writer_Run_def)
qed

end

interpretation pgw: writer_contract QueueRepo pg_look pg_now pg_inv CopyAttempts ad_rows ..

text \<open>The records a run can see: those in the writer and those produced during it.\<close>

definition run_records :: "AttemptWriter \<Rightarrow> ('a, 'q) writer_event list \<Rightarrow> AttemptRecord set" where
  "run_records w evs = set (aw_batch w) \<union> set (aw_records w) \<union> {r. Produced r \<in> set evs}"

text \<open>
  C7: no task is dropped before its attempt is durable. Over a whole run of the writer, shutdown drain
  included, with any pattern of failures of the attempt table and of the queue, every task row of
  the start is still there at the end, or a record of the run completed it and that record's attempt
  is in the attempt table.
\<close>
theorem attempt_durable_before_complete:
  assumes "pg_inv q" and "\<forall>f. Others f \<notin> set evs" and "Writer_Run CopyAttempts batched QueueRepo evs (w, d, q) = (w', d', q')"
    and "i \<in> dom (pg_look q)"
  shows "i \<in> dom (pg_look q') \<or>
    (\<exists>r\<in>run_records w evs. completes_task i r \<and> ar_Attempt r \<in> set (ad_rows d'))"
proof -
  have "pgw.durable (run_records w evs) q (d, q)" using assms(1) by (auto simp: pgw.durable_def)
  then have "pgw.durable (run_records w evs) q (snd (Writer_Run CopyAttempts batched QueueRepo evs (w, d, q)))"
    using assms(2) by (intro pgw.run_durable) (auto simp: run_records_def)
  with assms(3,4) show ?thesis by (simp add: pgw.durable_def)
qed

section \<open>Nothing recorded is lost\<close>

definition produced :: "('a, 'q) writer_event list \<Rightarrow> AttemptRecord list" where
  "produced evs = concat (map (\<lambda>ev. case ev of Produced r \<Rightarrow> [r] | _ \<Rightarrow> []) evs)"

definition pending :: "AttemptWriter \<Rightarrow> AttemptRecord list" where
  "pending w = aw_batch w @ aw_records w"

lemma flush_rows: "ad_faults d = [] \<Longrightarrow> flush CopyAttempts b Q batch (d, q) = (d', q') \<Longrightarrow>
    ad_rows d' = ad_rows d @ map ar_Attempt batch \<and> ad_faults d' = []"
  by (auto simp: flush_def CopyAttempts_def split: if_splits)

lemma drain_rows: "ad_faults d = [] \<Longrightarrow> drain_loop CopyAttempts b Q n batch rs (d, q) = (d', q') \<Longrightarrow>
    ad_rows d' = ad_rows d @ map ar_Attempt (batch @ rs)"
proof (induction rs arbitrary: batch d q)
  case Nil
  then show ?case by (simp add: flush_rows)
next
  case (Cons r rs)
  obtain d1 q1 where f: "flush CopyAttempts b Q (batch @ [r]) (d, q) = (d1, q1)" by fastforce
  from flush_rows [OF Cons.prems(1) f] Cons.IH [of d1 "[]" q1] Cons.IH [of d "batch @ [r]" q] Cons.prems f
  show ?case by (auto split: if_splits)
qed

lemma step_rows:
  assumes "ad_faults d = []" and "\<forall>f. ev \<noteq> Others f"
    and "int (length (aw_records w)) + int (length (produced [ev])) \<le> awo_BufferSize (aw_opts w)"
    and "writer_step CopyAttempts b Q ev (w, d, q) = (w', d', q')"
  shows "ad_faults d' = [] \<and> aw_opts w' = aw_opts w \<and>
    ad_rows d' @ map ar_Attempt (pending w') = ad_rows d @ map ar_Attempt (pending w @ produced [ev]) \<and>
    length (aw_records w') \<le> length (aw_records w) + length (produced [ev])"
proof (cases ev)
  case Received
  obtain d1 q1 where f: "flush CopyAttempts b Q (aw_batch w @ [hd (aw_records w)]) (d, q) = (d1, q1)" by fastforce
  from Received assms f flush_rows [OF assms(1) f] show ?thesis
    by (auto simp: receive_def set_depth_def pending_def produced_def Let_def split: list.splits if_splits)
next
  case TimerFired
  obtain d1 q1 where f: "flush CopyAttempts b Q (aw_batch w) (d, q) = (d1, q1)" by fastforce
  from TimerFired assms f flush_rows [OF assms(1) f] show ?thesis
    by (auto simp: timer_fires_def pending_def produced_def split: if_splits)
next
  case (Produced r)
  with assms show ?thesis by (auto simp: Writer_Enqueue_def set_depth_def pending_def produced_def Let_def split: if_splits)
qed (use assms(2) in simp)

lemma produced_Cons: "produced (ev # evs) = produced [ev] @ produced evs"
  by (simp add: produced_def)

text \<open>
  Every buffered record is written once, in order. When the attempt table accepts its batches and
  the buffer has room for what is produced, a run of the writer ends with exactly the pending and the
  produced attempts appended to the table, however the batches were cut and whenever the timer
  fired; nothing that was buffered is lost at shutdown.
\<close>
theorem writer_conserves_records:
  assumes "ad_faults d = []" and "\<forall>f. Others f \<notin> set evs"
    and "int (length (aw_records w)) + int (length (produced evs)) \<le> awo_BufferSize (aw_opts w)"
    and "Writer_Run CopyAttempts b Q evs (w, d, q) = (w', d', q')"
  shows "ad_rows d' = ad_rows d @ map ar_Attempt (pending w @ produced evs) \<and> pending w' = []"
  using assms
proof (induction evs arbitrary: w d q)
  case Nil
  then show ?case using drain_rows [of d b Q _ "aw_batch w" "aw_records w" q d' q']
    by (auto simp: Writer_Run_def writer_stop_def produced_def pending_def)
next
  case (Cons ev evs)
  obtain w1 d1 q1 where s: "writer_step CopyAttempts b Q ev (w, d, q) = (w1, d1, q1)" by (metis prod.exhaust)
  have e: "\<forall>f. ev \<noteq> Others f" "int (length (aw_records w)) + int (length (produced [ev])) \<le> awo_BufferSize (aw_opts w)"
    using Cons.prems(2,3) produced_Cons [of ev evs] by auto
  note st = step_rows [OF Cons.prems(1) e s]
  have "ad_rows d' = ad_rows d1 @ map ar_Attempt (pending w1 @ produced evs) \<and> pending w' = []"
    using Cons.IH [of d1 w1 q1] Cons.prems st s produced_Cons [of ev evs] by (auto simp: Writer_Run_def)
  moreover have "ad_rows d1 @ map ar_Attempt (pending w1 @ produced evs) =
      (ad_rows d1 @ map ar_Attempt (pending w1)) @ map ar_Attempt (produced evs)" by simp
  ultimately show ?case using st produced_Cons [of ev evs] by simp
qed

section \<open>Witnesses\<close>

definition demo_attempt :: "string \<Rightarrow> AttemptStatus \<Rightarrow> DeliveryAttempt" where
  "demo_attempt i st = \<lparr>att_ID = i, att_CreatedAt = 20, att_OrgID = ''org_1'', att_AppID = ''app_1'', att_MsgID = ''msg_1'',
     att_EndpointID = ''ep_1'', att_URL = ''https://example.com'', att_Status = st, att_ResponseStatusCode = 200,
     att_ResponseBody = [], att_ResponseDurationMS = 3, att_AttemptNumber = 1, att_TriggerType = TriggerScheduled,
     att_NextAttemptAt = None, att_DeletedAt = None\<rparr>"

definition demo_record :: AttemptRecord where
  "demo_record = \<lparr>ar_Attempt = demo_attempt ''atmpt_1'' AttemptSucceeded,
     ar_Task = Some \<lparr>to_TaskID = 1, to_Action = TaskComplete, to_Delay = 0\<rparr>\<rparr>"

definition demo_writer :: AttemptWriter where
  "demo_writer = NewAttemptWriter \<lparr>awo_BufferSize = 4, awo_BatchSize = 2, awo_FlushInterval = Second\<rparr> None"

definition demo_adb :: adb where
  "demo_adb = \<lparr>ad_rows = [], ad_faults = []\<rparr>"

definition demo_run :: "AttemptWriter \<times> adb \<times> pg" where
  "demo_run = Writer_Run CopyAttempts True QueueRepo [Produced demo_record, Received] (demo_writer, demo_adb, demo_pg)"

lemmas demo_run_eval = demo_run_def Writer_Run_def writer_stop_def demo_writer_def NewAttemptWriter_def writer_defaults_def
  Writer_Enqueue_def receive_def set_depth_def Let_def flush_def CopyAttempts_def demo_adb_def demo_record_def finalize_def
  completeMany_def QueueRepo_def CompleteMany_def statement_def pg_exec_def

theorem attempt_durable_before_complete_witness:
  "1 \<notin> dom (pg_look (snd (snd demo_run))) \<and>
   (\<exists>r\<in>run_records demo_writer [Produced demo_record, Received :: (adb, pg) writer_event].
      completes_task 1 r \<and> ar_Attempt r \<in> set (ad_rows (fst (snd demo_run))))"
proof -
  have gone: "1 \<notin> dom (pg_look (snd (snd demo_run)))" by (simp add: demo_run_eval pg_look_def demo_defs)
  have "pg_inv demo_pg" "1 \<in> dom (pg_look demo_pg)" by (auto simp: pg_inv_def pg_look_def demo_defs)
  then show ?thesis
    using attempt_durable_before_complete [of demo_pg "[Produced demo_record, Received]" True demo_writer demo_adb
        "fst demo_run" "fst (snd demo_run)" "snd (snd demo_run)" 1] gone
    by (simp add: demo_run_def)
qed

theorem writer_conserves_records_witness: "ad_rows (fst (snd demo_run)) = [demo_attempt ''atmpt_1'' AttemptSucceeded]"
  using writer_conserves_records [of demo_adb "[Produced demo_record, Received]" demo_writer True QueueRepo demo_pg
      "fst demo_run" "fst (snd demo_run)" "snd (snd demo_run)"]
  by (simp add: demo_run_def demo_adb_def produced_def pending_def demo_writer_def NewAttemptWriter_def
      writer_defaults_def Let_def demo_record_def)

end
