(* ===== verification/Engine.thy ===== *)
theory Engine
  imports Lanes Retry_Policy Signing Payload_Codec Attempt_Writer
begin

text \<open>
  \<^verbatim>\<open>internal/application/dispatch/engine.go\<close>: claiming, fan-out, delivery, health transitions and
  attempt records.

  The state (\<open>world\<close>) is what one worker's handlers change: the queue behind its port, the lanes, the
  attempt sink, the endpoint columns written through \<^verbatim>\<open>EndpointStateWriter\<close>, the operational events
  emitted, the in-flight budget and the requests sent. What a handler reads from its surroundings
  (clock, snapshot, message store, the endpoint's answer, which calls fail) is the record \<open>env\<close>, one
  field per read, so that a statement over all environments covers every failure. A Go panic sets
  \<open>wd_panicked\<close>.
\<close>

section \<open>Options\<close>

record EngineOptions =
  eo_WorkerID :: string
  eo_Pool :: string
  eo_ClaimBatchSize :: int
  eo_MaxInflight :: int
  eo_LockTTL :: duration
  eo_PollInterval :: duration
  eo_RequestTimeout :: duration
  eo_ResponseBodyLimit :: int
  eo_CompatHeaders :: string
  eo_StaleSnapshotDelay :: duration
  eo_LaneWaitTimeout :: duration
  eo_LaneRequeueDelay :: duration
  eo_QuarantinePool :: string
  eo_QuarantineAfter :: duration
  eo_DisableAfter :: duration
  eo_FailingNotifyAttempt :: int

text \<open>The optional dependencies are flags; the lane manager is in the world.\<close>

record Engine =
  en_signer :: Signer
  en_policy :: Policy
  en_opts :: EngineOptions
  en_codec :: Codec
  en_edNewKey :: "bytes \<Rightarrow> bytes"
  en_edSign :: "bytes \<Rightarrow> bytes \<Rightarrow> bytes"
  en_lowerUnicode :: "string \<Rightarrow> string"
  en_invalidator :: bool
  en_endpointState :: bool
  en_operational :: bool

definition engine_defaults :: "string \<Rightarrow> EngineOptions \<Rightarrow> EngineOptions" where
  "engine_defaults newWorkerID opts =
    (let opts = (if eo_WorkerID opts = [] then opts\<lparr>eo_WorkerID := newWorkerID\<rparr> else opts);
         opts = (if eo_Pool opts = [] then opts\<lparr>eo_Pool := ''default''\<rparr> else opts);
         opts = (if eo_ClaimBatchSize opts \<le> 0 then opts\<lparr>eo_ClaimBatchSize := 100\<rparr> else opts);
         opts = (if eo_MaxInflight opts \<le> 0 then opts\<lparr>eo_MaxInflight := 2000\<rparr> else opts);
         opts = (if eo_PollInterval opts \<le> 0 then opts\<lparr>eo_PollInterval := 250 * Millisecond\<rparr> else opts);
         opts = (if eo_RequestTimeout opts \<le> 0 then opts\<lparr>eo_RequestTimeout := 30 * Second\<rparr> else opts);
         opts = (if eo_LockTTL opts \<le> eo_RequestTimeout opts then opts\<lparr>eo_LockTTL := wrap64 (eo_RequestTimeout opts + Minute)\<rparr> else opts);
         opts = (if eo_ResponseBodyLimit opts \<le> 0 then opts\<lparr>eo_ResponseBodyLimit := 8192\<rparr> else opts);
         opts = (if eo_StaleSnapshotDelay opts \<le> 0 then opts\<lparr>eo_StaleSnapshotDelay := 250 * Millisecond\<rparr> else opts);
         opts = (if eo_LaneWaitTimeout opts \<le> 0 then opts\<lparr>eo_LaneWaitTimeout := 2 * Second\<rparr> else opts);
         opts = (if eo_LaneRequeueDelay opts \<le> 0 then opts\<lparr>eo_LaneRequeueDelay := Second\<rparr> else opts);
         opts = (if eo_QuarantinePool opts = [] then opts\<lparr>eo_QuarantinePool := ''quarantine''\<rparr> else opts);
         opts = (if eo_FailingNotifyAttempt opts = 0 then opts\<lparr>eo_FailingNotifyAttempt := 4\<rparr> else opts)
     in opts)"

record EngineDeps =
  dp_required :: bool
  dp_Policy :: "Policy option"
  dp_Codec :: Codec
  dp_edNewKey :: "bytes \<Rightarrow> bytes"
  dp_edSign :: "bytes \<Rightarrow> bytes \<Rightarrow> bytes"
  dp_lowerUnicode :: "string \<Rightarrow> string"
  dp_SnapshotInvalidator :: bool
  dp_EndpointState :: bool
  dp_Operational :: bool

definition NewEngine :: "(duration \<Rightarrow> duration) \<Rightarrow> string \<Rightarrow> EngineDeps \<Rightarrow> EngineOptions \<Rightarrow> string + Engine" where
  "NewEngine randomJitter newWorkerID deps opts =
     (if \<not> dp_required deps then Inl ''dispatch: engine is missing a dependency''
      else let opts = engine_defaults newWorkerID opts in
        Inr \<lparr>en_signer = NewSigner (eo_CompatHeaders opts),
             en_policy = (case dp_Policy deps of Some p \<Rightarrow> p | None \<Rightarrow> NewPolicy randomJitter []),
             en_opts = opts, en_codec = dp_Codec deps, en_edNewKey = dp_edNewKey deps, en_edSign = dp_edSign deps,
             en_lowerUnicode = dp_lowerUnicode deps, en_invalidator = dp_SnapshotInvalidator deps, en_endpointState = dp_EndpointState deps,
             en_operational = dp_Operational deps\<rparr>)"

section \<open>World and environment\<close>

datatype state_write = SetFirstFailure string "time option" | SetDisabled string time | SetPool string string

record 'q world =
  wd_queue :: 'q
  wd_lanes :: "LaneManager option"
  wd_sink :: "AttemptRecord list"
  wd_writes :: "state_write list"
  wd_events :: "OperationalEvent list"
  wd_invalidations :: nat
  wd_inflight :: int
  wd_sent :: "DeliveryRequest list"
  wd_panicked :: bool

record env =
  ev_snapshot :: "Snapshot option"
  ev_loadMessage :: "repo_error + Message"
  ev_loadPayload :: "repo_error + bytes"
  ev_result :: DeliveryResult
  ev_nowFanout :: time
  ev_nowLane :: time
  ev_nowSign :: time
  ev_nowHealth :: time
  ev_nowAttempt :: time
  ev_limiterAllows :: bool
  ev_limiterWait :: bool
  ev_waits :: "wait_event list"
  ev_slotOK :: bool
  ev_attemptID :: "string option"
  ev_sinkOK :: bool
  ev_nowResult :: time
  ev_nowOpen :: time
  ev_firstOK :: bool
  ev_disableOK :: bool
  ev_poolOK :: bool
  ev_emitOK :: bool

type_synonym 'q handler = "'q world \<Rightarrow> 'q world"

section \<open>Queue helpers\<close>

definition complete :: "'q Queue \<Rightarrow> int \<Rightarrow> 'q handler" where
  "complete Q i w = w\<lparr>wd_queue := snd (q_Complete Q i (wd_queue w))\<rparr>"

definition invalidate :: "Engine \<Rightarrow> 'q handler" where
  "invalidate e w = (if en_invalidator e then w\<lparr>wd_invalidations := wd_invalidations w + 1\<rparr> else w)"

definition deferTask :: "'q Queue \<Rightarrow> Engine \<Rightarrow> int \<Rightarrow> 'q handler" where
  "deferTask Q e i w = (let w = invalidate e w in
     w\<lparr>wd_queue := snd (q_Defer Q i (eo_StaleSnapshotDelay (en_opts e)) (wd_queue w))\<rparr>)"

definition deferForSaturation :: "'q Queue \<Rightarrow> Engine \<Rightarrow> int \<Rightarrow> 'q handler" where
  "deferForSaturation Q e i w = w\<lparr>wd_queue := snd (q_Defer Q i (eo_LaneRequeueDelay (en_opts e)) (wd_queue w))\<rparr>"

definition engine_release :: "'q Queue \<Rightarrow> DeliveryTask list \<Rightarrow> 'q handler" where
  "engine_release Q tasks w = w\<lparr>wd_queue := snd (q_Release Q (map task_ID tasks) (wd_queue w))\<rparr>"

section \<open>The in-flight budget\<close>

text \<open>A slot is the flag \<open>held\<close>; the budget is the count of the channel.\<close>

definition slot_acquire :: "bool \<Rightarrow> bool \<times> 'q world \<Rightarrow> bool \<times> bool \<times> 'q world" where
  "slot_acquire ok s = (case s of (held, w) \<Rightarrow>
     if held then (True, held, w)
     else if ok then (True, True, w\<lparr>wd_inflight := wd_inflight w + 1\<rparr>)
     else (False, held, w))"

definition slot_release :: "bool \<times> 'q world \<Rightarrow> bool \<times> 'q world" where
  "slot_release s = (case s of (held, w) \<Rightarrow>
     if \<not> held then (held, w) else (False, w\<lparr>wd_inflight := wd_inflight w - 1\<rparr>))"

section \<open>Claiming\<close>

definition owns :: "int list \<Rightarrow> int \<Rightarrow> bool" where
  "owns partitions p \<longleftrightarrow> p \<in> set partitions"

text \<open>
  Each task of a batch takes a slot and is started on a goroutine of its own; \<open>oks\<close> says for each
  slot whether it was got or the context ended first. The result is the started tasks.
\<close>

fun start_tasks :: "'q Queue \<Rightarrow> DeliveryTask list \<Rightarrow> bool list \<Rightarrow> DeliveryTask list \<Rightarrow> DeliveryTask list \<Rightarrow> 'q world \<Rightarrow>
   bool \<times> DeliveryTask list \<times> 'q world" where
  "start_tasks Q tasks oks started [] w = (True, started, w)"
| "start_tasks Q tasks oks started (t # ts) w =
     (case slot_acquire (case oks of [] \<Rightarrow> True | ok # _ \<Rightarrow> ok) (False, w) of
        (False, _, w1) \<Rightarrow> (False, started, engine_release Q tasks w1)
      | (True, _, w1) \<Rightarrow> start_tasks Q tasks (tl oks) (started @ [t]) ts w1)"

datatype claim_error = ClaimFailed repo_error | ClaimCtxDone

definition claimAndDispatch ::
  "'q Queue \<Rightarrow> Engine \<Rightarrow> int list \<Rightarrow> bool list \<Rightarrow> 'q world \<Rightarrow> (claim_error option \<times> int \<times> DeliveryTask list) \<times> 'q world" where
  "claimAndDispatch Q e partitions oks w =
    (if partitions = [] then ((None, 0, []), w)
     else let capacity = eo_MaxInflight (en_opts e) - wd_inflight w in
     if capacity \<le> 0 then ((None, 0, []), w)
     else let req = \<lparr>cr_Pool = eo_Pool (en_opts e), cr_Partitions = partitions, cr_OwnerID = eo_WorkerID (en_opts e),
            cr_LockTTL = eo_LockTTL (en_opts e), cr_Limit = min (eo_ClaimBatchSize (en_opts e)) capacity\<rparr> in
     case q_Claim Q req (wd_queue w) of
       (Inl err, q) \<Rightarrow> ((Some (ClaimFailed err), 0, []), w\<lparr>wd_queue := q\<rparr>)
     | (Inr tasks, q) \<Rightarrow> (case start_tasks Q tasks oks [] tasks (w\<lparr>wd_queue := q\<rparr>) of
         (ok, started, w1) \<Rightarrow> ((if ok then None else Some ClaimCtxDone, int (length tasks), started), w1)))"

section \<open>Fan-out\<close>

definition fanout_task :: "Engine \<Rightarrow> time \<Rightarrow> DeliveryTask \<Rightarrow> ConfigEndpoint \<Rightarrow> EnqueueTask" where
  "fanout_task e now task ep =
     \<lparr>et_PartitionKey = PartitionKeyFor (ep_ID ep), et_Pool = Fallback (ep_Pool ep) (eo_Pool (en_opts e)), et_Kind = TaskDeliver,
      et_TaskOrgID = task_OrgID task, et_AppID = task_AppID task, et_MsgID = task_MsgID task,
      et_MsgCreatedAt = task_MsgCreatedAt task, et_EndpointID = Some (ep_ID ep), et_Attempt = 0,
      et_TriggerType = task_TriggerType task, et_VisibleAt = now\<rparr>"

definition fanout_tx :: "'q Queue \<Rightarrow> time \<Rightarrow> EnqueueTask list \<Rightarrow> int \<Rightarrow> 'q action" where
  "fanout_tx Q now tasks i = q_WithinTransaction Q (\<lambda>q. case q_Enqueue Q now tasks q of
     (Some err, q1) \<Rightarrow> (Some err, q1)
   | (None, q1) \<Rightarrow> q_Complete Q i q1)"

text \<open>The partitions are the keys of a Go map, notified in an unspecified order; here, in order of first use.\<close>

definition handleFanout :: "'q Queue \<Rightarrow> Engine \<Rightarrow> env \<Rightarrow> DeliveryTask \<Rightarrow> 'q handler" where
  "handleFanout Q e v task w = (case ev_snapshot v of
      None \<Rightarrow> w
    | Some snapshot \<Rightarrow> (case ev_loadMessage v of
        Inl ErrNotFound \<Rightarrow> complete Q (task_ID task) w
      | Inl _ \<Rightarrow> w
      | Inr msg \<Rightarrow>
         (let endpoints = MatchingEndpoints snapshot (task_AppID task) (msg_EventType msg) (msg_Channels msg) in
          if endpoints = [] then
            (if sn_builtAt snapshot < task_CreatedAt task then deferTask Q e (task_ID task) w
             else complete Q (task_ID task) w)
          else
            (let tasks = map (fanout_task e (ev_nowFanout v) task) endpoints in
             case fanout_tx Q (ev_nowFanout v) tasks (task_ID task) (wd_queue w) of
               (Some err, q) \<Rightarrow> w\<lparr>wd_queue := q\<rparr>
             | (None, q) \<Rightarrow> w\<lparr>wd_queue := fold (\<lambda>p q. snd (q_Notify Q p q)) (Unique (map et_PartitionKey tasks)) q\<rparr>))))"

section \<open>Lanes in the world\<close>

definition laneFor :: "time \<Rightarrow> ConfigEndpoint \<Rightarrow> 'q world \<Rightarrow> Lane option \<times> 'q world" where
  "laneFor now ep w = (case wd_lanes w of
      None \<Rightarrow> (None, w)
    | Some m \<Rightarrow> (case For now ep m of (l, m1) \<Rightarrow> (Some l, w\<lparr>wd_lanes := Some m1\<rparr>)))"

definition get_lane :: "ConfigEndpoint \<Rightarrow> 'q world \<Rightarrow> Lane option" where
  "get_lane ep w = Option.bind (wd_lanes w) (\<lambda>m. lane_at m (ep_ID ep))"

definition put_lane :: "ConfigEndpoint \<Rightarrow> Lane \<Rightarrow> 'q handler" where
  "put_lane ep l w = w\<lparr>wd_lanes := map_option (set_lane (ep_ID ep) l) (wd_lanes w)\<rparr>"

definition on_lane :: "ConfigEndpoint \<Rightarrow> (Lane \<Rightarrow> Lane) \<Rightarrow> 'q handler" where
  "on_lane ep f w = (case get_lane ep w of None \<Rightarrow> w | Some l \<Rightarrow> put_lane ep (f l) w)"

section \<open>Breaker requeue\<close>

definition requeueForBreaker :: "'q Queue \<Rightarrow> Engine \<Rightarrow> DeliveryTask \<Rightarrow> 'q handler" where
  "requeueForBreaker Q e task w =
    (case Delay (en_policy e) (task_Attempt task) \<lparr>out_StatusCode = 0, out_Timeout = False, out_RetryAfter = None\<rparr> of
       None \<Rightarrow> w\<lparr>wd_panicked := True\<rparr>
     | Some (delay, retryable) \<Rightarrow>
         if \<not> retryable then complete Q (task_ID task) w
         else w\<lparr>wd_queue := snd (q_Retry Q (task_ID task) delay (wd_queue w))\<rparr>)"

section \<open>Operational events\<close>

definition emit :: "env \<Rightarrow> OperationalEvent \<Rightarrow> 'q handler" where
  "emit v ev w = (if ev_emitOK v then w\<lparr>wd_events := wd_events w @ [ev]\<rparr> else w)"

definition emitEndpointDisabled :: "Engine \<Rightarrow> env \<Rightarrow> ConfigEndpoint \<Rightarrow> duration \<Rightarrow> 'q handler" where
  "emitEndpointDisabled e v ep failingFor w =
    (if \<not> en_operational e then w
     else emit v \<lparr>oe_OrgID = ep_OrgID ep, oe_Type = EventEndpointDisabled, oe_AppID = ep_AppID ep, oe_EndpointID = ep_ID ep,
                  oe_MsgID = [], oe_Detail = DisabledDetail (ep_URL ep) failingFor\<rparr> w)"

definition emitAttemptEvents :: "Engine \<Rightarrow> env \<Rightarrow> DeliveryTask \<Rightarrow> ConfigEndpoint \<Rightarrow> DeliveryAttempt \<Rightarrow> 'q handler" where
  "emitAttemptEvents e v task ep attempt w =
    (if \<not> en_operational e then w
     else case laneFor (ev_nowAttempt v) ep w of (lane, w) \<Rightarrow>
       (let event = (\<lambda>t. \<lparr>oe_OrgID = task_OrgID task, oe_Type = t, oe_AppID = task_AppID task, oe_EndpointID = ep_ID ep,
              oe_MsgID = task_MsgID task,
              oe_Detail = AttemptDetail (att_AttemptNumber attempt) (att_ResponseStatusCode attempt) (ep_URL ep)\<rparr>) in
        case att_Status attempt of
          AttemptSucceeded \<Rightarrow> (case lane of
              None \<Rightarrow> w
            | Some l \<Rightarrow> (case ClearFailingNotice l of (had, l1) \<Rightarrow>
                let w = put_lane ep l1 w in if had then emit v (event EventAttemptRecovered) w else w))
        | AttemptFailed \<Rightarrow>
            emit v (event EventAttemptExhausted)
              (case lane of None \<Rightarrow> w | Some l \<Rightarrow> put_lane ep (snd (ClearFailingNotice l)) w)
        | AttemptPendingRetry \<Rightarrow>
            if att_AttemptNumber attempt = eo_FailingNotifyAttempt (en_opts e) then
              (case lane of
                 None \<Rightarrow> emit v (event EventAttemptFailing) w
               | Some l \<Rightarrow> (case MarkFailingNotice l of (first, l1) \<Rightarrow>
                   let w = put_lane ep l1 w in if first then emit v (event EventAttemptFailing) w else w))
            else w))"

section \<open>Health transitions\<close>

definition state_write :: "Engine \<Rightarrow> bool \<Rightarrow> state_write \<Rightarrow> 'q handler" where
  "state_write e ok sw w = (if ok then invalidate e (w\<lparr>wd_writes := wd_writes w @ [sw]\<rparr>) else w)"

definition health_success :: "Engine \<Rightarrow> env \<Rightarrow> ConfigEndpoint \<Rightarrow> Lane \<Rightarrow> 'q handler" where
  "health_success e v ep lane w = (case EndFailureRun lane of (ended, l1) \<Rightarrow>
     let w = put_lane ep l1 w in
     if ended \<or> ep_FirstFailureAt ep \<noteq> None then state_write e (ev_firstOK v) (SetFirstFailure (ep_ID ep) None) w else w)"

text \<open>The start of the failure run, which a first failure begins and records.\<close>

definition health_start :: "Engine \<Rightarrow> env \<Rightarrow> ConfigEndpoint \<Rightarrow> Lane \<Rightarrow> 'q world \<Rightarrow> time \<times> Lane \<times> 'q world" where
  "health_start e v ep lane w = (case FailureRunStart (ep_FirstFailureAt ep) lane of
      (Some start, l1) \<Rightarrow> (start, l1, put_lane ep l1 w)
    | (None, l1) \<Rightarrow> (case BeginFailureRun (ev_nowHealth v) l1 of (began, l2) \<Rightarrow>
        (ev_nowHealth v, l2,
         (let w = put_lane ep l2 w in
          if began then state_write e (ev_firstOK v) (SetFirstFailure (ep_ID ep) (Some (ev_nowHealth v))) w else w))))"

definition health_quarantine :: "Engine \<Rightarrow> env \<Rightarrow> ConfigEndpoint \<Rightarrow> Lane \<Rightarrow> 'q handler" where
  "health_quarantine e v ep lane w =
    (if eo_QuarantineAfter (en_opts e) > 0 \<and> ep_Pool ep \<noteq> eo_QuarantinePool (en_opts e) \<and>
        OpenFor (ev_nowOpen v) (ln_breaker lane) \<ge> eo_QuarantineAfter (en_opts e)
     then (case MarkQuarantined lane of (marked, l1) \<Rightarrow>
       let w = put_lane ep l1 w in
       if \<not> marked then w
       else state_write e (ev_poolOK v) (SetPool (ep_ID ep) (eo_QuarantinePool (en_opts e))) w)
     else w)"

definition health_failure :: "Engine \<Rightarrow> env \<Rightarrow> ConfigEndpoint \<Rightarrow> Lane \<Rightarrow> 'q handler" where
  "health_failure e v ep lane w = (case health_start e v ep lane w of (start, l1, w) \<Rightarrow>
    (let failingFor = time_Sub (ev_nowHealth v) start in
     if eo_DisableAfter (en_opts e) > 0 \<and> failingFor \<ge> eo_DisableAfter (en_opts e) \<and> ep_DisabledAt ep = None
     then (case MarkDisabled l1 of (marked, l2) \<Rightarrow>
       let w = put_lane ep l2 w in
       if \<not> marked then w
       else if \<not> ev_disableOK v then w
       else emitEndpointDisabled e v ep failingFor
              (state_write e True (SetDisabled (ep_ID ep) (ev_nowHealth v)) w))
     else health_quarantine e v ep l1 w))"

definition applyHealthTransitions :: "Engine \<Rightarrow> env \<Rightarrow> ConfigEndpoint \<Rightarrow> bool \<Rightarrow> 'q handler" where
  "applyHealthTransitions e v ep succeeded w =
    (if \<not> en_endpointState e then w
     else case get_lane ep w of
       None \<Rightarrow> w
     | Some lane \<Rightarrow> if succeeded then health_success e v ep lane w else health_failure e v ep lane w)"

section \<open>Headers\<close>

definition buildHeaders :: "Engine \<Rightarrow> env \<Rightarrow> string \<Rightarrow> bytes \<Rightarrow> ConfigEndpoint \<Rightarrow> sign_error + (string \<rightharpoonup> string)" where
  "buildHeaders e v msgID payload ep =
    (let keys = map (\<lambda>s. \<lparr>key_Secret = sec_Key s, key_Type = sec_Type s\<rparr>) (cep_Secrets ep) in
     case Headers (en_edNewKey e) (en_edSign e) (en_signer e) msgID (ev_nowSign v) payload keys of
       Inl err \<Rightarrow> Inl err
     | Inr sigHeaders \<Rightarrow>
         Inr (fold (\<lambda>(name, value) h. h(ToLower (en_lowerUnicode e) name \<mapsto> value)) (cep_CustomHeaders ep) Map.empty ++ sigHeaders))"

section \<open>Recording an attempt\<close>

definition responseBody :: "DeliveryResult \<Rightarrow> bytes" where
  "responseBody r = (if res_Body r \<noteq> [] then res_Body r else case res_Err r of Some err \<Rightarrow> bytes_of err | None \<Rightarrow> [])"

definition statusClass :: "int \<Rightarrow> string" where
  "statusClass code =
     (if code = 0 then ''none'' else if code < 200 then ''1xx'' else if code < 300 then ''2xx''
      else if code < 400 then ''3xx'' else if code < 500 then ''4xx'' else ''5xx'')"

text \<open>The label of the delivery metrics.\<close>

definition outcome_label :: "AttemptStatus \<Rightarrow> DeliveryResult \<Rightarrow> string" where
  "outcome_label st r = (if st = AttemptSucceeded then ''success'' else if res_Err r \<noteq> None then ''error'' else ''failure'')"

text \<open>
  The decision of \<^verbatim>\<open>recordAttempt\<close>: the attempt's status, its next time, and what happens to the row.
  \<open>None\<close> is the panic of an out of range schedule index.
\<close>

definition attempt_decision ::
  "Engine \<Rightarrow> time \<Rightarrow> DeliveryTask \<Rightarrow> DeliveryResult \<Rightarrow> (AttemptStatus \<times> time option \<times> TaskOutcome) option" where
  "attempt_decision e now task result =
    (let done = \<lparr>to_TaskID = task_ID task, to_Action = TaskComplete, to_Delay = 0\<rparr> in
     if Succeeded result then Some (AttemptSucceeded, None, done)
     else if \<not> Retryable (task_TriggerType task) then Some (AttemptFailed, None, done)
     else case Delay (en_policy e) (task_Attempt task)
            \<lparr>out_StatusCode = res_StatusCode result, out_Timeout = res_Timeout result, out_RetryAfter = res_RetryAfter result\<rparr> of
       None \<Rightarrow> None
     | Some (delay, retryable) \<Rightarrow>
         if retryable
         then Some (AttemptPendingRetry, Some (now + delay), \<lparr>to_TaskID = task_ID task, to_Action = TaskRetry, to_Delay = delay\<rparr>)
         else Some (AttemptFailed, None, done))"

definition new_attempt ::
  "Engine \<Rightarrow> time \<Rightarrow> string \<Rightarrow> DeliveryTask \<Rightarrow> ConfigEndpoint \<Rightarrow> DeliveryResult \<Rightarrow> AttemptStatus \<Rightarrow> time option \<Rightarrow> DeliveryAttempt" where
  "new_attempt e now i task ep result st next =
     \<lparr>att_ID = i, att_CreatedAt = now, att_OrgID = task_OrgID task, att_AppID = task_AppID task, att_MsgID = task_MsgID task,
      att_EndpointID = ep_ID ep, att_URL = ep_URL ep, att_Status = st,
      att_ResponseStatusCode = wrap16 (res_StatusCode result),
      att_ResponseBody = Truncate (responseBody result) (eo_ResponseBodyLimit (en_opts e)),
      att_ResponseDurationMS = wrap32 (Milliseconds (res_Duration result)),
      att_AttemptNumber = wrap16 (task_Attempt task + 1), att_TriggerType = task_TriggerType task, att_NextAttemptAt = next, att_DeletedAt = None\<rparr>"

definition recordAttempt :: "Engine \<Rightarrow> env \<Rightarrow> DeliveryTask \<Rightarrow> ConfigEndpoint \<Rightarrow> DeliveryResult \<Rightarrow> 'q handler" where
  "recordAttempt e v task ep result w = (case ev_attemptID v of
      None \<Rightarrow> w
    | Some i \<Rightarrow> (case attempt_decision e (ev_nowAttempt v) task result of
        None \<Rightarrow> w\<lparr>wd_panicked := True\<rparr>
      | Some (st, next, outcome) \<Rightarrow>
         (let attempt = new_attempt e (ev_nowAttempt v) i task ep result st next;
              w = emitAttemptEvents e v task ep attempt w in
          if ev_sinkOK v then w\<lparr>wd_sink := wd_sink w @ [\<lparr>ar_Attempt = attempt, ar_Task = Some outcome\<rparr>]\<rparr> else w)))"

section \<open>Delivery\<close>

text \<open>From the payload to the record, with the lane slot held.\<close>

definition deliver_body :: "'q Queue \<Rightarrow> Engine \<Rightarrow> env \<Rightarrow> DeliveryTask \<Rightarrow> ConfigEndpoint \<Rightarrow> 'q handler" where
  "deliver_body Q e v task ep w = (case ev_loadPayload v of
      Inl ErrNotFound \<Rightarrow> complete Q (task_ID task) w
    | Inl _ \<Rightarrow> w
    | Inr stored \<Rightarrow> (case Codec_Decode (en_codec e) stored of
        Inl _ \<Rightarrow> complete Q (task_ID task) w
      | Inr payload \<Rightarrow> (case buildHeaders e v (task_MsgID task) payload ep of
          Inl _ \<Rightarrow> complete Q (task_ID task) w
        | Inr headers \<Rightarrow>
           (let result = ev_result v;
                w = w\<lparr>wd_sent := wd_sent w @ [\<lparr>req_URL = ep_URL ep, req_Body = payload, req_Headers = headers,
                                               req_Timeout = eo_RequestTimeout (en_opts e)\<rparr>]\<rparr>;
                w = on_lane ep (if Succeeded result then Lane_OnSuccess else Lane_OnFailure (ev_nowResult v) result) w;
                w = applyHealthTransitions e v ep (Succeeded result) w in
            recordAttempt e v task ep result w))))"

text \<open>Taking a lane slot, waiting without the in-flight slot when the lane is full.\<close>

definition deliver_in_lane ::
  "'q Queue \<Rightarrow> Engine \<Rightarrow> env \<Rightarrow> DeliveryTask \<Rightarrow> ConfigEndpoint \<Rightarrow> Lane \<Rightarrow> bool \<times> 'q world \<Rightarrow> bool \<times> 'q world" where
  "deliver_in_lane Q e v task ep lane s = (case s of (held, w) \<Rightarrow>
    (case TryAcquire (ev_nowLane v) (ev_limiterAllows v) lane of
       (True, l1) \<Rightarrow> (held, on_lane ep Lane_Release (deliver_body Q e v task ep (put_lane ep l1 w)))
     | (False, l1) \<Rightarrow>
        (case slot_release (held, put_lane ep l1 w) of (held, w) \<Rightarrow>
          (case Acquire (ev_nowLane v) (ev_limiterWait v) (ev_waits v) l1 of
             (Some err, l2) \<Rightarrow> (held, deferForSaturation Q e (task_ID task) (put_lane ep l2 w))
           | (None, l2) \<Rightarrow>
              (case slot_acquire (ev_slotOK v) (held, put_lane ep l2 w) of
                 (False, held, w) \<Rightarrow> (held, deferForSaturation Q e (task_ID task) (on_lane ep Lane_Release w))
               | (True, held, w) \<Rightarrow> (held, on_lane ep Lane_Release (deliver_body Q e v task ep w)))))))"

definition handleDeliver :: "'q Queue \<Rightarrow> Engine \<Rightarrow> env \<Rightarrow> DeliveryTask \<Rightarrow> bool \<times> 'q world \<Rightarrow> bool \<times> 'q world" where
  "handleDeliver Q e v task s = (case s of (held, w) \<Rightarrow> (case task_EndpointID task of
      None \<Rightarrow> (held, complete Q (task_ID task) w)
    | Some endpointID \<Rightarrow> (case ev_snapshot v of
        None \<Rightarrow> (held, w)
      | Some snapshot \<Rightarrow> (case Snapshot_Endpoint snapshot endpointID of
          None \<Rightarrow> (held, if sn_builtAt snapshot < task_CreatedAt task then deferTask Q e (task_ID task) w
                         else complete Q (task_ID task) w)
        | Some ep \<Rightarrow>
            if \<not> Deliverable ep then (held, complete Q (task_ID task) w)
            else (case laneFor (ev_nowLane v) ep w of
                (None, w) \<Rightarrow> (held, deliver_body Q e v task ep w)
              | (Some lane, w) \<Rightarrow> (case Lane_Allow (ev_nowLane v) lane of
                    (False, l1) \<Rightarrow> (held, requeueForBreaker Q e task (put_lane ep l1 w))
                  | (True, l1) \<Rightarrow> deliver_in_lane Q e v task ep l1 (held, put_lane ep l1 w)))))))"

definition handle :: "'q Queue \<Rightarrow> Engine \<Rightarrow> env \<Rightarrow> DeliveryTask \<Rightarrow> bool \<times> 'q world \<Rightarrow> bool \<times> 'q world" where
  "handle Q e v task s = (case s of (held, w) \<Rightarrow> (case task_Kind task of
      TaskFanout \<Rightarrow> (held, handleFanout Q e v task w)
    | TaskDeliver \<Rightarrow> handleDeliver Q e v task (held, w)
    | TaskKindOther k \<Rightarrow> (held, complete Q (task_ID task) w)))"

text \<open>The goroutine of one started task: it holds a slot, handles the task and gives the slot back.\<close>

definition run_task :: "'q Queue \<Rightarrow> Engine \<Rightarrow> env \<Rightarrow> DeliveryTask \<Rightarrow> 'q handler" where
  "run_task Q e v task w = snd (slot_release (handle Q e v task (True, w)))"

section \<open>Frames\<close>

text \<open>What a handler keeps: everything but the field it is about.\<close>

lemma put_lane_frame [simp]:
  "wd_queue (put_lane ep l w) = wd_queue w" "wd_sink (put_lane ep l w) = wd_sink w" "wd_sent (put_lane ep l w) = wd_sent w"
  "wd_inflight (put_lane ep l w) = wd_inflight w" "wd_panicked (put_lane ep l w) = wd_panicked w"
  "wd_writes (put_lane ep l w) = wd_writes w" "wd_events (put_lane ep l w) = wd_events w"
  by (simp_all add: put_lane_def)

lemma on_lane_frame [simp]:
  "wd_queue (on_lane ep f w) = wd_queue w" "wd_sink (on_lane ep f w) = wd_sink w" "wd_sent (on_lane ep f w) = wd_sent w"
  "wd_inflight (on_lane ep f w) = wd_inflight w" "wd_panicked (on_lane ep f w) = wd_panicked w"
  "wd_writes (on_lane ep f w) = wd_writes w" "wd_events (on_lane ep f w) = wd_events w"
  by (simp_all add: on_lane_def split: option.splits)

lemma laneFor_frame [simp]:
  "wd_queue (snd (laneFor now ep w)) = wd_queue w" "wd_sink (snd (laneFor now ep w)) = wd_sink w"
  "wd_sent (snd (laneFor now ep w)) = wd_sent w" "wd_inflight (snd (laneFor now ep w)) = wd_inflight w"
  "wd_panicked (snd (laneFor now ep w)) = wd_panicked w" "wd_writes (snd (laneFor now ep w)) = wd_writes w"
  "wd_events (snd (laneFor now ep w)) = wd_events w"
  by (simp_all add: laneFor_def split: option.splits prod.splits)

lemma emit_frame [simp]:
  "wd_queue (emit v ev w) = wd_queue w" "wd_sink (emit v ev w) = wd_sink w" "wd_sent (emit v ev w) = wd_sent w"
  "wd_inflight (emit v ev w) = wd_inflight w" "wd_panicked (emit v ev w) = wd_panicked w" "wd_writes (emit v ev w) = wd_writes w"
  by (simp_all add: emit_def)

lemma invalidate_frame [simp]:
  "wd_queue (invalidate e w) = wd_queue w" "wd_sink (invalidate e w) = wd_sink w" "wd_sent (invalidate e w) = wd_sent w"
  "wd_inflight (invalidate e w) = wd_inflight w" "wd_panicked (invalidate e w) = wd_panicked w"
  "wd_writes (invalidate e w) = wd_writes w" "wd_events (invalidate e w) = wd_events w"
  by (simp_all add: invalidate_def)

lemma state_write_frame [simp]:
  "wd_queue (state_write e ok sw w) = wd_queue w" "wd_sink (state_write e ok sw w) = wd_sink w"
  "wd_sent (state_write e ok sw w) = wd_sent w" "wd_inflight (state_write e ok sw w) = wd_inflight w"
  "wd_panicked (state_write e ok sw w) = wd_panicked w"
  by (simp_all add: state_write_def)

text \<open>The fields the lane and health bookkeeping never touches.\<close>

definition kept :: "'q world \<Rightarrow> 'q \<times> AttemptRecord list \<times> DeliveryRequest list \<times> int \<times> bool" where
  "kept w = (wd_queue w, wd_sink w, wd_sent w, wd_inflight w, wd_panicked w)"

lemma kept_simps [simp]:
  "kept (put_lane ep l w) = kept w" "kept (on_lane ep f w) = kept w" "kept (snd (laneFor now ep w)) = kept w"
  "kept (emit v ev w) = kept w" "kept (invalidate e w) = kept w" "kept (state_write e ok sw w) = kept w"
  by (simp_all add: kept_def)

lemma kept_laneFor: "laneFor now ep w = (l, w1) \<Longrightarrow> kept w1 = kept w"
  using kept_simps(3) [of now ep w] by simp

lemma kept_fields:
  "kept w1 = kept w \<longleftrightarrow> wd_queue w1 = wd_queue w \<and> wd_sink w1 = wd_sink w \<and> wd_sent w1 = wd_sent w \<and>
     wd_inflight w1 = wd_inflight w \<and> wd_panicked w1 = wd_panicked w"
  by (auto simp: kept_def)

lemma kept_health_success [simp]: "kept (health_success e v ep lane w) = kept w"
  by (simp add: health_success_def Let_def split: prod.splits)

lemma kept_health_start [simp]: "kept (snd (snd (health_start e v ep lane w))) = kept w"
  by (simp add: health_start_def Let_def split: prod.splits option.splits)

lemma kept_health_quarantine [simp]: "kept (health_quarantine e v ep lane w) = kept w"
  by (simp add: health_quarantine_def Let_def split: prod.splits)

lemma kept_emitEndpointDisabled [simp]: "kept (emitEndpointDisabled e v ep d w) = kept w"
  by (simp add: emitEndpointDisabled_def)

lemma kept_health_failure [simp]: "kept (health_failure e v ep lane w) = kept w"
proof -
  obtain start l1 w1 where s: "health_start e v ep lane w = (start, l1, w1)" by (cases "health_start e v ep lane w") auto
  moreover have "kept w1 = kept w" using kept_health_start [of e v ep lane w] s by simp
  ultimately show ?thesis by (simp add: health_failure_def Let_def split: prod.splits)
qed

lemma kept_applyHealthTransitions [simp]: "kept (applyHealthTransitions e v ep ok w) = kept w"
  by (simp add: applyHealthTransitions_def split: option.splits)

lemma kept_emitAttemptEvents [simp]: "kept (emitAttemptEvents e v t ep a w) = kept w"
proof -
  obtain l w1 where l: "laneFor (ev_nowAttempt v) ep w = (l, w1)" by fastforce
  then have "kept w1 = kept w" by (rule kept_laneFor)
  then show ?thesis using l
    by (simp add: emitAttemptEvents_def Let_def split: prod.splits option.splits AttemptStatus.splits)
qed

lemmas transitions_frame [simp] = kept_applyHealthTransitions [unfolded kept_fields, THEN conjunct1]
  kept_applyHealthTransitions [unfolded kept_fields, THEN conjunct2, THEN conjunct1]
  kept_applyHealthTransitions [unfolded kept_fields, THEN conjunct2, THEN conjunct2, THEN conjunct1]
  kept_applyHealthTransitions [unfolded kept_fields, THEN conjunct2, THEN conjunct2, THEN conjunct2, THEN conjunct1]

lemmas emitAttemptEvents_frame [simp] = kept_emitAttemptEvents [unfolded kept_fields, THEN conjunct1]
  kept_emitAttemptEvents [unfolded kept_fields, THEN conjunct2, THEN conjunct1]
  kept_emitAttemptEvents [unfolded kept_fields, THEN conjunct2, THEN conjunct2, THEN conjunct1]
  kept_emitAttemptEvents [unfolded kept_fields, THEN conjunct2, THEN conjunct2, THEN conjunct2, THEN conjunct1]

lemma recordAttempt_frame [simp]:
  "wd_queue (recordAttempt e v t ep r w) = wd_queue w" "wd_sent (recordAttempt e v t ep r w) = wd_sent w"
  "wd_inflight (recordAttempt e v t ep r w) = wd_inflight w"
  by (auto simp: recordAttempt_def Let_def split: prod.splits option.splits)

lemma complete_frame [simp]:
  "wd_sink (complete Q i w) = wd_sink w" "wd_sent (complete Q i w) = wd_sent w"
  "wd_inflight (complete Q i w) = wd_inflight w" "wd_panicked (complete Q i w) = wd_panicked w"
  "wd_queue (complete Q i w) = snd (q_Complete Q i (wd_queue w))"
  by (simp_all add: complete_def)

lemma defer_frame [simp]:
  "wd_sink (deferTask Q e i w) = wd_sink w" "wd_sent (deferTask Q e i w) = wd_sent w"
  "wd_inflight (deferTask Q e i w) = wd_inflight w" "wd_panicked (deferTask Q e i w) = wd_panicked w"
  "wd_queue (deferTask Q e i w) = snd (q_Defer Q i (eo_StaleSnapshotDelay (en_opts e)) (wd_queue w))"
  "wd_sink (deferForSaturation Q e i w) = wd_sink w" "wd_sent (deferForSaturation Q e i w) = wd_sent w"
  "wd_inflight (deferForSaturation Q e i w) = wd_inflight w" "wd_panicked (deferForSaturation Q e i w) = wd_panicked w"
  "wd_queue (deferForSaturation Q e i w) = snd (q_Defer Q i (eo_LaneRequeueDelay (en_opts e)) (wd_queue w))"
  by (simp_all add: deferTask_def deferForSaturation_def)

lemma requeue_frame [simp]:
  "wd_sink (requeueForBreaker Q e t w) = wd_sink w" "wd_sent (requeueForBreaker Q e t w) = wd_sent w"
  "wd_inflight (requeueForBreaker Q e t w) = wd_inflight w"
  by (auto simp: requeueForBreaker_def split: option.splits prod.splits)

lemma fanout_frame [simp]:
  "wd_sink (handleFanout Q e v t w) = wd_sink w" "wd_sent (handleFanout Q e v t w) = wd_sent w"
  "wd_inflight (handleFanout Q e v t w) = wd_inflight w"
  by (auto simp: handleFanout_def Let_def split: option.splits sum.splits repo_error.splits prod.splits)

section \<open>One delivery\<close>

text \<open>The request a delivery sends, when it gets that far.\<close>

definition request_of :: "Engine \<Rightarrow> env \<Rightarrow> DeliveryTask \<Rightarrow> ConfigEndpoint \<Rightarrow> DeliveryRequest option" where
  "request_of e v task ep = (case ev_loadPayload v of
      Inl _ \<Rightarrow> None
    | Inr stored \<Rightarrow> (case Codec_Decode (en_codec e) stored of
        Inl _ \<Rightarrow> None
      | Inr payload \<Rightarrow> (case buildHeaders e v (task_MsgID task) payload ep of
          Inl _ \<Rightarrow> None
        | Inr headers \<Rightarrow> Some \<lparr>req_URL = ep_URL ep, req_Body = payload, req_Headers = headers,
            req_Timeout = eo_RequestTimeout (en_opts e)\<rparr>)))"

definition record_of :: "Engine \<Rightarrow> env \<Rightarrow> DeliveryTask \<Rightarrow> ConfigEndpoint \<Rightarrow> AttemptRecord list" where
  "record_of e v task ep = (case ev_attemptID v of
      None \<Rightarrow> []
    | Some i \<Rightarrow> (case attempt_decision e (ev_nowAttempt v) task (ev_result v) of
        None \<Rightarrow> []
      | Some (st, next, outcome) \<Rightarrow> if ev_sinkOK v
          then [\<lparr>ar_Attempt = new_attempt e (ev_nowAttempt v) i task ep (ev_result v) st next, ar_Task = Some outcome\<rparr>] else []))"

lemma recordAttempt_sink: "wd_sink (recordAttempt e v task ep (ev_result v) w) = wd_sink w @ record_of e v task ep"
  by (auto simp: recordAttempt_def record_of_def Let_def split: option.splits prod.splits)

lemma deliver_body_sent:
  assumes "request_of e v task ep = Some req"
  shows "wd_sent (deliver_body Q e v task ep w) = wd_sent w @ [req]"
    "wd_sink (deliver_body Q e v task ep w) = wd_sink w @ record_of e v task ep"
    "wd_queue (deliver_body Q e v task ep w) = wd_queue w"
  using assms by (auto simp: deliver_body_def request_of_def Let_def recordAttempt_sink split: sum.splits)

text \<open>A request that can never be built: the payload is gone, does not decode or cannot be signed.\<close>

definition unsendable :: "Engine \<Rightarrow> env \<Rightarrow> DeliveryTask \<Rightarrow> ConfigEndpoint \<Rightarrow> bool" where
  "unsendable e v task ep \<longleftrightarrow> (case ev_loadPayload v of
      Inl err \<Rightarrow> err = ErrNotFound
    | Inr stored \<Rightarrow> request_of e v task ep = None)"

lemma deliver_body_not_sent:
  assumes "request_of e v task ep = None"
  shows "wd_sent (deliver_body Q e v task ep w) = wd_sent w" "wd_sink (deliver_body Q e v task ep w) = wd_sink w"
    "wd_queue (deliver_body Q e v task ep w) =
      (if unsendable e v task ep then snd (q_Complete Q (task_ID task) (wd_queue w)) else wd_queue w)"
  using assms by (auto simp: deliver_body_def request_of_def unsendable_def Let_def split: sum.splits repo_error.splits)

lemma deliver_body_inflight [simp]: "wd_inflight (deliver_body Q e v task ep w) = wd_inflight w"
  by (auto simp: deliver_body_def Let_def split: sum.splits repo_error.splits)

lemma slot_frame [simp]:
  "wd_queue (snd (slot_release s)) = wd_queue (snd s)" "wd_sink (snd (slot_release s)) = wd_sink (snd s)"
  "wd_sent (snd (slot_release s)) = wd_sent (snd s)"
  "wd_queue (snd (snd (slot_acquire ok s))) = wd_queue (snd s)" "wd_sink (snd (snd (slot_acquire ok s))) = wd_sink (snd s)"
  "wd_sent (snd (snd (slot_acquire ok s))) = wd_sent (snd s)"
  by (simp_all add: slot_release_def slot_acquire_def split: prod.splits)

text \<open>Whether the endpoint's breaker refuses the delivery, on the lane the task would use.\<close>

definition breaker_refuses :: "env \<Rightarrow> ConfigEndpoint \<Rightarrow> 'q world \<Rightarrow> bool" where
  "breaker_refuses v ep w = (case laneFor (ev_nowLane v) ep w of
      (None, _) \<Rightarrow> False
    | (Some lane, _) \<Rightarrow> \<not> fst (Lane_Allow (ev_nowLane v) lane))"

text \<open>Whether the schedule still has an attempt for a task the breaker refuses.\<close>

definition exhausted :: "Engine \<Rightarrow> DeliveryTask \<Rightarrow> bool" where
  "exhausted e task = (case Delay (en_policy e) (task_Attempt task)
      \<lparr>out_StatusCode = 0, out_Timeout = False, out_RetryAfter = None\<rparr> of
      None \<Rightarrow> False
    | Some (_, retryable) \<Rightarrow> \<not> retryable)"

text \<open>Why a deliver row may be removed without a request.\<close>

definition drop_reason :: "Engine \<Rightarrow> env \<Rightarrow> DeliveryTask \<Rightarrow> 'q world \<Rightarrow> bool" where
  "drop_reason e v task w = (case task_EndpointID task of
      None \<Rightarrow> True
    | Some i \<Rightarrow> (case ev_snapshot v of
        None \<Rightarrow> False
      | Some s \<Rightarrow> (case Snapshot_Endpoint s i of
          None \<Rightarrow> task_CreatedAt task \<le> sn_builtAt s
        | Some ep \<Rightarrow> \<not> Deliverable ep \<or> unsendable e v task ep \<or> breaker_refuses v ep w \<and> exhausted e task)))"

text \<open>
  The ways a deliver task ends: one request with its record and the row as it was; or no request and
  the row removed for a reason, put off, or left as it was.
\<close>

inductive deliver_end :: "'q Queue \<Rightarrow> Engine \<Rightarrow> env \<Rightarrow> DeliveryTask \<Rightarrow> 'q world \<Rightarrow> 'q world \<Rightarrow> bool"
  for Q e v task w where
  sent: "task_EndpointID task = Some i \<Longrightarrow> ev_snapshot v = Some s \<Longrightarrow> Snapshot_Endpoint s i = Some ep \<Longrightarrow>
    Deliverable ep \<Longrightarrow> \<not> breaker_refuses v ep w \<Longrightarrow> request_of e v task ep = Some req \<Longrightarrow>
    wd_sent w' = wd_sent w @ [req] \<Longrightarrow> wd_sink w' = wd_sink w @ record_of e v task ep \<Longrightarrow> wd_queue w' = wd_queue w \<Longrightarrow>
    deliver_end Q e v task w w'"
| dropped: "wd_sent w' = wd_sent w \<Longrightarrow> wd_sink w' = wd_sink w \<Longrightarrow> drop_reason e v task w \<Longrightarrow>
    wd_queue w' = snd (q_Complete Q (task_ID task) (wd_queue w)) \<Longrightarrow> deliver_end Q e v task w w'"
| retried: "wd_sent w' = wd_sent w \<Longrightarrow> wd_sink w' = wd_sink w \<Longrightarrow>
    wd_queue w' = snd (q_Retry Q (task_ID task) d (wd_queue w)) \<Longrightarrow> deliver_end Q e v task w w'"
| deferred: "wd_sent w' = wd_sent w \<Longrightarrow> wd_sink w' = wd_sink w \<Longrightarrow>
    wd_queue w' = snd (q_Defer Q (task_ID task) d (wd_queue w)) \<Longrightarrow> deliver_end Q e v task w w'"
| untouched: "wd_sent w' = wd_sent w \<Longrightarrow> wd_sink w' = wd_sink w \<Longrightarrow> wd_queue w' = wd_queue w \<Longrightarrow>
    deliver_end Q e v task w w'"

inductive_cases deliver_endE: "deliver_end Q e v task w w'"

text \<open>The fields an end is about.\<close>

definition same_tasks :: "'q world \<Rightarrow> 'q world \<Rightarrow> bool" where
  "same_tasks w w' \<longleftrightarrow> wd_sent w' = wd_sent w \<and> wd_sink w' = wd_sink w \<and> wd_queue w' = wd_queue w"

lemma same_tasks_kept: "kept w' = kept w \<Longrightarrow> same_tasks w w'"
  by (simp add: kept_fields same_tasks_def)

lemma deliver_body_end:
  assumes ep: "task_EndpointID task = Some i" "ev_snapshot v = Some s" "Snapshot_Endpoint s i = Some ep" "Deliverable ep"
      "\<not> breaker_refuses v ep w"
    and w1: "same_tasks w w1" and w2: "same_tasks (deliver_body Q e v task ep w1) w2"
  shows "deliver_end Q e v task w w2"
proof (cases "request_of e v task ep")
  case None
  show ?thesis
  proof (cases "unsendable e v task ep")
    case True
    then show ?thesis using deliver_body_not_sent [OF None, of Q w1] ep w1 w2
      by (intro dropped) (auto simp: drop_reason_def same_tasks_def)
  next
    case False
    then show ?thesis using deliver_body_not_sent [OF None, of Q w1] w1 w2
      by (intro untouched) (auto simp: same_tasks_def)
  qed
next
  case (Some req)
  then show ?thesis using deliver_body_sent [OF Some, of Q w1] ep w1 w2
    by (intro sent [OF ep Some]) (auto simp: same_tasks_def)
qed

lemma requeue_end:
  assumes "same_tasks w w1" "exhausted e task \<Longrightarrow> drop_reason e v task w"
  shows "deliver_end Q e v task w (requeueForBreaker Q e task w1)"
  using assms unfolding requeueForBreaker_def same_tasks_def exhausted_def
  by (auto split: option.splits prod.splits intro: dropped retried untouched)

lemma deliver_in_lane_end:
  assumes ep: "task_EndpointID task = Some i" "ev_snapshot v = Some s" "Snapshot_Endpoint s i = Some ep" "Deliverable ep"
      "\<not> breaker_refuses v ep w" and w1: "same_tasks w w1"
  shows "deliver_end Q e v task w (snd (deliver_in_lane Q e v task ep lane (held, w1)))"
proof -
  obtain ok l1 where t: "TryAcquire (ev_nowLane v) (ev_limiterAllows v) lane = (ok, l1)" by fastforce
  show ?thesis
  proof (cases ok)
    case True
    then show ?thesis using t w1 unfolding deliver_in_lane_def
      by (auto intro!: deliver_body_end [OF ep, of "put_lane ep l1 w1"] simp: same_tasks_def)
  next
    case False
    obtain h2 w2 where r: "slot_release (held, put_lane ep l1 w1) = (h2, w2)" by fastforce
    have w2: "same_tasks w w2" using slot_frame(1-3) [of "(held, put_lane ep l1 w1)"] r w1 by (simp add: same_tasks_def)
    obtain err l2 where a: "Acquire (ev_nowLane v) (ev_limiterWait v) (ev_waits v) l1 = (err, l2)" by fastforce
    obtain g h3 w3 where q: "slot_acquire (ev_slotOK v) (h2, put_lane ep l2 w2) = (g, h3, w3)"
      by (cases "slot_acquire (ev_slotOK v) (h2, put_lane ep l2 w2)") auto
    have w3: "same_tasks w w3" using slot_frame(4-6) [of "ev_slotOK v" "(h2, put_lane ep l2 w2)"] q w2
      by (simp add: same_tasks_def)
    have body: "deliver_end Q e v task w (on_lane ep Lane_Release (deliver_body Q e v task ep w3))"
      by (rule deliver_body_end [OF ep w3]) (simp add: same_tasks_def)
    show ?thesis
    proof (cases "err = None \<and> g")
      case True
      then show ?thesis using False t r a q body by (simp add: deliver_in_lane_def)
    next
      case no_slot: False
      show ?thesis using no_slot False t r a q w2 w3 unfolding deliver_in_lane_def
        by (cases err; cases g) (auto intro: deferred simp: same_tasks_def)
    qed
  qed
qed

lemma handleDeliver_live_end:
  assumes ep: "task_EndpointID task = Some i" "ev_snapshot v = Some s" "Snapshot_Endpoint s i = Some ep" "Deliverable ep"
  shows "deliver_end Q e v task w (snd (handleDeliver Q e v task (held, w)))"
proof -
  obtain lane w1 where l: "laneFor (ev_nowLane v) ep w = (lane, w1)" by fastforce
  then have w1: "same_tasks w w1" by (intro same_tasks_kept kept_laneFor)
  show ?thesis
  proof (cases "breaker_refuses v ep w")
    case True
    then show ?thesis using ep l w1 unfolding handleDeliver_def breaker_refuses_def
      by (auto split: option.splits prod.splits intro!: requeue_end simp: drop_reason_def same_tasks_def breaker_refuses_def)
  next
    case False
    show ?thesis
    proof (cases lane)
      case None
      then show ?thesis using ep l deliver_body_end [OF ep False w1] by (simp add: handleDeliver_def same_tasks_def)
    next
      case (Some ln)
      obtain l1 where "Lane_Allow (ev_nowLane v) ln = (True, l1)"
        using False l Some by (cases "Lane_Allow (ev_nowLane v) ln") (auto simp: breaker_refuses_def)
      moreover have "same_tasks w (put_lane ep l1 w1)" using w1 by (simp add: same_tasks_def)
      ultimately show ?thesis using ep l Some deliver_in_lane_end [OF ep False] by (simp add: handleDeliver_def)
    qed
  qed
qed

lemma handleDeliver_end: "deliver_end Q e v task w (snd (handleDeliver Q e v task (held, w)))"
proof (cases "task_EndpointID task")
  case None
  then show ?thesis by (intro dropped) (auto simp: handleDeliver_def drop_reason_def)
next
  case (Some i)
  note i = this
  show ?thesis
  proof (cases "ev_snapshot v")
    case None
    then show ?thesis using i by (intro untouched) (auto simp: handleDeliver_def)
  next
    case (Some s)
    note s = this
    consider "Snapshot_Endpoint s i = None" | ep where "Snapshot_Endpoint s i = Some ep" "\<not> Deliverable ep"
      | ep where "Snapshot_Endpoint s i = Some ep" "Deliverable ep" by (cases "Snapshot_Endpoint s i") auto
    then show ?thesis
    proof cases
      case 1
      then show ?thesis using i s
        by (cases "sn_builtAt s < task_CreatedAt task")
          (auto simp: handleDeliver_def drop_reason_def intro: deferred dropped)
    next
      case 2
      then show ?thesis using i s by (intro dropped) (auto simp: handleDeliver_def drop_reason_def)
    qed (use i s handleDeliver_live_end in blast)
  qed
qed

section \<open>The in-flight budget is kept\<close>

text \<open>The slots in use, less the one this task holds.\<close>

definition other_slots :: "bool \<times> 'q world \<Rightarrow> int" where
  "other_slots s = wd_inflight (snd s) - (if fst s then 1 else 0)"

lemma other_slots_simps [simp]:
  "other_slots (slot_release s) = other_slots s" "other_slots (snd (slot_acquire ok s)) = other_slots s"
  by (auto simp: other_slots_def slot_release_def slot_acquire_def split: prod.splits)

lemma other_slots_kept: "wd_inflight w' = wd_inflight w \<Longrightarrow> other_slots (h, w') = other_slots (h, w)"
  by (simp add: other_slots_def)

lemma deliver_in_lane_slots: "other_slots (deliver_in_lane Q e v task ep lane (held, w)) = other_slots (held, w)"
proof -
  obtain ok l1 where t: "TryAcquire (ev_nowLane v) (ev_limiterAllows v) lane = (ok, l1)" by fastforce
  obtain h2 w2 where r: "slot_release (held, put_lane ep l1 w) = (h2, w2)" by fastforce
  have 2: "other_slots (h2, w2) = other_slots (held, w)"
    using other_slots_simps(1) [of "(held, put_lane ep l1 w)"] r by (simp add: other_slots_def)
  obtain err l2 where a: "Acquire (ev_nowLane v) (ev_limiterWait v) (ev_waits v) l1 = (err, l2)" by fastforce
  obtain g h3 w3 where q: "slot_acquire (ev_slotOK v) (h2, put_lane ep l2 w2) = (g, h3, w3)"
    by (cases "slot_acquire (ev_slotOK v) (h2, put_lane ep l2 w2)") auto
  have 3: "other_slots (h3, w3) = other_slots (held, w)"
    using other_slots_simps(2) [of "ev_slotOK v" "(h2, put_lane ep l2 w2)"] q 2 by (simp add: other_slots_def)
  show ?thesis using t r a q 2 3 unfolding deliver_in_lane_def
    by (cases ok; cases err; cases g) (auto simp: other_slots_def)
qed

lemma laneFor_inflight: "laneFor now ep w = (l, w1) \<Longrightarrow> wd_inflight w1 = wd_inflight w"
  using kept_laneFor kept_fields by metis

lemma handleDeliver_slots: "other_slots (handleDeliver Q e v task (held, w)) = other_slots (held, w)"
proof (cases "\<exists>i s ep. task_EndpointID task = Some i \<and> ev_snapshot v = Some s \<and> Snapshot_Endpoint s i = Some ep \<and> Deliverable ep")
  case True
  then obtain i s ep where ep: "task_EndpointID task = Some i" "ev_snapshot v = Some s" "Snapshot_Endpoint s i = Some ep" "Deliverable ep"
    by blast
  obtain lane w1 where l: "laneFor (ev_nowLane v) ep w = (lane, w1)" by fastforce
  note f = laneFor_inflight [OF l]
  show ?thesis
  proof (cases lane)
    case None
    then show ?thesis using ep l f by (simp add: handleDeliver_def other_slots_def)
  next
    case (Some ln)
    obtain ok l1 where "Lane_Allow (ev_nowLane v) ln = (ok, l1)" by fastforce
    then show ?thesis using ep l f Some deliver_in_lane_slots [of Q e v task ep l1 held "put_lane ep l1 w1"]
      by (cases ok) (simp_all add: handleDeliver_def other_slots_def)
  qed
next
  case False
  then show ?thesis by (auto simp: handleDeliver_def other_slots_def split: option.splits)
qed

lemma handle_slots: "other_slots (handle Q e v task (held, w)) = other_slots (held, w)"
  using handleDeliver_slots [of Q e v task held w] by (cases "task_Kind task") (simp_all add: handle_def other_slots_def)

lemma slot_release_empty: "wd_inflight (snd (slot_release s)) = other_slots s"
  by (auto simp: other_slots_def slot_release_def split: prod.splits)

lemma run_task_slots: "wd_inflight (run_task Q e v task w) = wd_inflight w - 1"
  by (simp add: run_task_def slot_release_empty handle_slots) (simp add: other_slots_def)

lemma start_tasks_slots:
  "start_tasks Q tasks oks started ts w = (ok, started', w') \<Longrightarrow>
     wd_inflight w' - int (length started') = wd_inflight w - int (length started)"
  by (induction ts arbitrary: oks started w)
    (auto simp: slot_acquire_def engine_release_def split: if_splits list.splits)

lemma start_tasks_prefix:
  "start_tasks Q tasks oks started ts w = (ok, started', w') \<Longrightarrow> \<exists>us vs. started' = started @ us \<and> ts = us @ vs \<and> (ok \<longrightarrow> vs = [])"
proof (induction ts arbitrary: oks started w)
  case (Cons t ts)
  show ?case
  proof (cases "case oks of [] \<Rightarrow> True | ok # _ \<Rightarrow> ok")
    case True
    then have "start_tasks Q tasks (tl oks) (started @ [t]) ts (w\<lparr>wd_inflight := wd_inflight w + 1\<rparr>) = (ok, started', w')"
      using Cons.prems by (simp add: slot_acquire_def)
    from Cons.IH [OF this] show ?thesis by (auto simp: Cons_eq_append_conv)
  next
    case False
    then show ?thesis using Cons.prems by (auto simp: slot_acquire_def)
  qed
qed simp

end
