(* ===== verification/Engine_Correct.thy ===== *)
theory Engine_Correct
  imports Engine
begin

text \<open>
  What the handlers of \<^verbatim>\<open>engine.go\<close> guarantee, over every environment: proved once for every
  queue that keeps \<open>queue_contract\<close>, and stated for the PostgreSQL queue.
\<close>

section \<open>The queue under the handlers\<close>

context queue_contract
begin

lemma notify_fold: "valid q \<Longrightarrow> valid (fold (\<lambda>p q. snd (q_Notify Q p q)) ps q) \<and>
    look (fold (\<lambda>p q. snd (q_Notify Q p q)) ps q) = look q"
  by (induction ps arbitrary: q) (auto simp: Notify_look)

lemma fanout_body_valid: "valid q \<Longrightarrow> valid (snd (case q_Enqueue Q now ts q of
    (Some err, q1) \<Rightarrow> (Some err, q1) | (None, q1) \<Rightarrow> q_Complete Q i q1))"
  using valid_ops(6) [of q now ts] by (cases "q_Enqueue Q now ts q"; cases "fst (q_Enqueue Q now ts q)") auto

lemma fanout_tx_valid: "valid q \<Longrightarrow> valid (snd (fanout_tx Q now ts i q))"
  unfolding fanout_tx_def by (rule valid_Tx) (auto intro: fanout_body_valid)

text \<open>The fan-out transaction adds the children and removes the parent, or does nothing.\<close>

lemma fanout_tx_exact:
  assumes v: "valid q" and i: "i \<in> dom (look q)"
  shows "if fst (fanout_tx Q now ts i q) = None
    then \<exists>rows. list_all2 enqueued_as rows ts \<and> distinct (map task_ID rows) \<and>
        set (map task_ID rows) \<inter> dom (look q) = {} \<and>
        look (snd (fanout_tx Q now ts i q)) = (look q)(i := None) ++ map_of (map (\<lambda>t. (task_ID t, t)) rows)
    else look (snd (fanout_tx Q now ts i q)) = look q"
proof (cases "fst (fanout_tx Q now ts i q)")
  case (Some err)
  then show ?thesis using Tx_err [OF v] by (simp add: fanout_tx_def)
next
  case None
  let ?f = "\<lambda>q. case q_Enqueue Q now ts q of (Some err, q1) \<Rightarrow> (Some err, q1) | (None, q1) \<Rightarrow> q_Complete Q i q1"
  obtain q0 where q0: "look q0 = look q" "valid q0" "fst (?f q0) = None" "look (snd (fanout_tx Q now ts i q)) = look (snd (?f q0))"
    using Tx_ok [OF v, of ?f] None by (auto simp: fanout_tx_def)
  obtain e q1 where e: "q_Enqueue Q now ts q0 = (e, q1)" by fastforce
  have eN: "e = None" using q0(3) e by (cases e) auto
  then obtain rows where r: "list_all2 enqueued_as rows ts" "distinct (map task_ID rows)"
    "set (map task_ID rows) \<inter> dom (look q) = {}" "look q1 = look q ++ map_of (map (\<lambda>t. (task_ID t, t)) rows)"
    using Enqueue_ok [OF q0(2), of now ts] e q0(1) by auto
  have "valid q1" using valid_ops(6) [OF q0(2), of now ts] e by simp
  then have "look (snd (?f q0)) = (look q1)(i := None)" using q0(3) e eN Complete_look [of q1 i] by simp
  moreover have "map_of (map (\<lambda>t. (task_ID t, t)) rows) i = None" using r(3) i by (force simp: map_of_eq_None_iff)
  ultimately have "look (snd (?f q0)) = (look q)(i := None) ++ map_of (map (\<lambda>t. (task_ID t, t)) rows)"
    using r(4) by (auto simp: fun_eq_iff map_add_def split: option.splits)
  with None r q0(4) show ?thesis by auto
qed

lemma handleFanout_valid:
  assumes v: "valid (wd_queue w)"
  shows "valid (wd_queue (handleFanout Q e v task w))"
proof -
  have d: "valid (wd_queue (deferTask Q e (task_ID task) w))" "valid (wd_queue (complete Q (task_ID task) w))"
    using v by simp_all
  have "valid q1" if "fanout_tx Q now ts i (wd_queue w) = (err, q1)" for now ts i err q1
    using fanout_tx_valid [OF v, of now ts i] that by simp
  then show ?thesis using v d notify_fold
    by (auto simp: handleFanout_def Let_def split: option.splits sum.splits repo_error.splits prod.splits)
qed

lemma deliver_end_valid: "deliver_end Q e v task w w' \<Longrightarrow> valid (wd_queue w) \<Longrightarrow> valid (wd_queue w')"
  by (erule deliver_endE) simp_all


lemma run_task_deliver_end: "task_Kind task = TaskDeliver \<Longrightarrow> deliver_end Q e v task w (run_task Q e v task w)"
proof -
  assume k: "task_Kind task = TaskDeliver"
  have "deliver_end Q e v task w (snd (handleDeliver Q e v task (True, w)))" by (rule handleDeliver_end)
  then show ?thesis
    by (rule deliver_endE) (auto simp: run_task_def handle_def k intro: deliver_end.intros)
qed

lemma run_task_queue:
  "task_Kind task = TaskFanout \<Longrightarrow> wd_queue (run_task Q e v task w) = wd_queue (handleFanout Q e v task w)"
  "task_Kind task = TaskKindOther k \<Longrightarrow> wd_queue (run_task Q e v task w) = snd (q_Complete Q (task_ID task) (wd_queue w))"
  by (simp_all add: run_task_def handle_def)

lemma run_task_valid: "valid (wd_queue w) \<Longrightarrow> valid (wd_queue (run_task Q e v task w))"
  by (cases "task_Kind task")
    (auto simp: run_task_queue handleFanout_valid intro: deliver_end_valid [OF run_task_deliver_end])

text \<open>A handler touches the row of its own task only, and adds new rows.\<close>

lemma deliver_end_others:
  "deliver_end Q e v task w w' \<Longrightarrow> valid (wd_queue w) \<Longrightarrow> j \<noteq> task_ID task \<Longrightarrow> look (wd_queue w') j = look (wd_queue w) j"
  by (erule deliver_endE) (simp_all add: Complete_look Retry_look Defer_look)

lemma handleFanout_others:
  assumes v: "valid (wd_queue w)" and j: "j \<noteq> task_ID task" "j \<in> dom (look (wd_queue w))"
    and i: "task_ID task \<in> dom (look (wd_queue w))"
  shows "look (wd_queue (handleFanout Q e v task w)) j = look (wd_queue w) j"
proof -
  have tx: "look q1 j = look (wd_queue w) j \<and> valid q1" if f: "fanout_tx Q now ts (task_ID task) (wd_queue w) = (err, q1)" for now ts err q1
  proof (cases err)
    case None
    with fanout_tx_exact [OF v i, of now ts] f obtain rows where
      r: "set (map task_ID rows) \<inter> dom (look (wd_queue w)) = {}"
        "look q1 = (look (wd_queue w))(task_ID task := None) ++ map_of (map (\<lambda>t. (task_ID t, t)) rows)" by auto
    have "map_of (map (\<lambda>t. (task_ID t, t)) rows) j = None" using r(1) j(2) by (force simp: map_of_eq_None_iff)
    with r(2) j(1) fanout_tx_valid [OF v, of now ts "task_ID task"] f show ?thesis by (simp add: map_add_def)
  next
    case (Some err')
    then show ?thesis using fanout_tx_exact [OF v i, of now ts] fanout_tx_valid [OF v, of now ts "task_ID task"] f by simp
  qed
  then show ?thesis using v j notify_fold
    by (auto simp: handleFanout_def Let_def Complete_look Defer_look split: option.splits sum.splits repo_error.splits prod.splits)
qed

lemma run_task_others:
  assumes v: "valid (wd_queue w)" and "j \<noteq> task_ID task" "j \<in> dom (look (wd_queue w))" "task_ID task \<in> dom (look (wd_queue w))"
  shows "look (wd_queue (run_task Q e v task w)) j = look (wd_queue w) j"
  using assms deliver_end_others [OF run_task_deliver_end v]
  by (cases "task_Kind task") (simp_all add: run_task_queue handleFanout_others Complete_look)

end

text \<open>
  Why a task's row may be gone after its handler: a deliver row for the reasons above; a fan-out row
  because its message is gone, its endpoints have their own rows, or a fresh snapshot has none; a
  row of an unknown kind always.
\<close>

definition fanout_reason :: "env \<Rightarrow> DeliveryTask \<Rightarrow> bool" where
  "fanout_reason v task = (case ev_snapshot v of
      None \<Rightarrow> False
    | Some s \<Rightarrow> (case ev_loadMessage v of
        Inl err \<Rightarrow> err = ErrNotFound
      | Inr msg \<Rightarrow> MatchingEndpoints s (task_AppID task) (msg_EventType msg) (msg_Channels msg) \<noteq> [] \<or>
                  task_CreatedAt task \<le> sn_builtAt s))"

definition removal_reason :: "Engine \<Rightarrow> env \<Rightarrow> DeliveryTask \<Rightarrow> 'q world \<Rightarrow> bool" where
  "removal_reason e v task w = (case task_Kind task of
      TaskFanout \<Rightarrow> fanout_reason v task
    | TaskDeliver \<Rightarrow> drop_reason e v task w
    | TaskKindOther k \<Rightarrow> True)"

lemma run_task_sent_sink:
  "task_Kind task \<noteq> TaskDeliver \<Longrightarrow> wd_sent (run_task Q e v task w) = wd_sent w \<and> wd_sink (run_task Q e v task w) = wd_sink w"
  by (cases "task_Kind task") (simp_all add: run_task_def handle_def)

context queue_contract
begin

lemma handleFanout_removes:
  assumes "valid (wd_queue w)" "i \<in> dom (look (wd_queue w))" "i \<notin> dom (look (wd_queue (handleFanout Q e v task w)))"
  shows "fanout_reason v task"
proof -
  have "i \<in> dom (look (wd_queue (deferTask Q e (task_ID task) w)))" using assms(1,2) by simp
  then show ?thesis using assms(2,3)
    by (auto simp: handleFanout_def fanout_reason_def Let_def split: option.splits sum.splits repo_error.splits if_splits)
qed

lemma run_task_removes:
  assumes v: "valid (wd_queue w)" and i: "i \<in> dom (look (wd_queue w))" "i \<notin> dom (look (wd_queue (run_task Q e v task w)))"
    and t: "task_ID task \<in> dom (look (wd_queue w))"
  shows "task_ID task = i \<and> removal_reason e v task w \<and> wd_sent (run_task Q e v task w) = wd_sent w"
proof -
  have "task_ID task = i" using run_task_others [OF v _ i(1) t] i by (metis domIff)
  moreover have "removal_reason e v task w \<and> wd_sent (run_task Q e v task w) = wd_sent w"
  proof (cases "task_Kind task")
    case TaskDeliver
    have r: "i \<in> dom (look (snd (q_Retry Q j d (wd_queue w))))" "i \<in> dom (look (snd (q_Defer Q j d (wd_queue w))))" for j d
      using v i(1) by simp_all
    from run_task_deliver_end [OF TaskDeliver, of e v w] show ?thesis
      using i r by cases (auto simp: removal_reason_def TaskDeliver)
  next
    case TaskFanout
    then show ?thesis using i v handleFanout_removes run_task_queue(1) run_task_sent_sink [of task Q e v w]
      by (simp add: removal_reason_def)
  next
    case (TaskKindOther k)
    then show ?thesis using run_task_sent_sink [of task Q e v w] by (simp add: removal_reason_def)
  qed
  ultimately show ?thesis by simp
qed

lemma run_task_sends:
  assumes "wd_sent (run_task Q e v task w) = wd_sent w @ reqs" "reqs \<noteq> []"
  shows "\<exists>i s ep req. task_Kind task = TaskDeliver \<and> task_EndpointID task = Some i \<and> ev_snapshot v = Some s \<and>
    Snapshot_Endpoint s i = Some ep \<and> Deliverable ep \<and> \<not> breaker_refuses v ep w \<and> request_of e v task ep = Some req \<and>
    reqs = [req] \<and> wd_sink (run_task Q e v task w) = wd_sink w @ record_of e v task ep \<and>
    wd_queue (run_task Q e v task w) = wd_queue w"
proof -
  have k: "task_Kind task = TaskDeliver" using assms run_task_sent_sink [of task Q e v w] by auto
  from run_task_deliver_end [OF this, of e v w] show ?thesis using assms by cases (auto simp: k)
qed

end

lemma record_of_ok:
  assumes "ev_attemptID v = Some aid" "ev_sinkOK v" "0 \<le> task_Attempt task"
  shows "\<exists>st next outcome. attempt_decision e (ev_nowAttempt v) task (ev_result v) = Some (st, next, outcome) \<and>
    to_TaskID outcome = task_ID task \<and>
    to_Action outcome = (if \<not> Succeeded (ev_result v) \<and> Retryable (task_TriggerType task) \<and>
        task_Attempt task < int (length (pol_schedule (en_policy e))) then TaskRetry else TaskComplete) \<and>
    record_of e v task ep =
      [\<lparr>ar_Attempt = new_attempt e (ev_nowAttempt v) aid task ep (ev_result v) st next, ar_Task = Some outcome\<rparr>]"
proof -
  let ?out = "\<lparr>out_StatusCode = res_StatusCode (ev_result v), out_Timeout = res_Timeout (ev_result v),
    out_RetryAfter = res_RetryAfter (ev_result v)\<rparr>"
  obtain d r where "Delay (en_policy e) (task_Attempt task) ?out = Some (d, r)"
    "r \<longleftrightarrow> task_Attempt task < int (length (pol_schedule (en_policy e)))" using Delay_retry_iff [OF assms(3)] by blast
  with assms show ?thesis by (auto simp: record_of_def attempt_decision_def Let_def)
qed

section \<open>A worker for the witnesses\<close>

definition demo_cep :: ConfigEndpoint where
  "demo_cep = Endpoint.extend (demo_endpoint ''ep_1'' [])
     \<lparr>cep_Secrets = [\<lparr>sec_Key = bytes_of ''k1'', sec_Type = SecretTypeHMAC256, sec_ExpiresAt = None\<rparr>],
      cep_CustomHeaders = [(''Webhook-Signature'', ''forged'')]\<rparr>"

definition demo_app_entry :: ConfigApplication where
  "demo_app_entry = \<lparr>ca_App = demo_app, ca_Endpoints = [demo_cep], ca_byEventType = (\<lambda>_. []), ca_allEventTypes = [demo_cep]\<rparr>"

definition demo_snap :: Snapshot where
  "demo_snap = \<lparr>sn_builtAt = 1, sn_orgs = Map.empty, sn_heap = [demo_app_entry], sn_apps = [''app_1'' \<mapsto> 0],
     sn_appsByUID = Map.empty, sn_endpoints = [''ep_1'' \<mapsto> demo_cep], sn_eventTypes = Map.empty\<rparr>"

definition demo_opts :: EngineOptions where
  "demo_opts = engine_defaults ''w1'' \<lparr>eo_WorkerID = [], eo_Pool = [], eo_ClaimBatchSize = 2, eo_MaxInflight = 3, eo_LockTTL = 0,
     eo_PollInterval = 0, eo_RequestTimeout = 0, eo_ResponseBodyLimit = 0, eo_CompatHeaders = [], eo_StaleSnapshotDelay = 0,
     eo_LaneWaitTimeout = 0, eo_LaneRequeueDelay = 0, eo_QuarantinePool = [], eo_QuarantineAfter = 0, eo_DisableAfter = 0,
     eo_FailingNotifyAttempt = 0\<rparr>"

definition demo_engine :: Engine where
  "demo_engine = \<lparr>en_signer = NewSigner [], en_policy = NewPolicy NoJitter [], en_opts = demo_opts,
     en_codec = NewCodec (\<lambda>b. b) Some 0, en_edNewKey = (\<lambda>s. s), en_edSign = (\<lambda>k m. m), en_lowerUnicode = (\<lambda>s. s),
     en_invalidator = False, en_endpointState = False, en_operational = False\<rparr>"

definition demo_message :: Message where
  "demo_message = \<lparr>msg_ID = ''msg_1'', msg_CreatedAt = 0, msg_OrgID = ''org_1'', msg_AppID = ''app_1'', msg_EventType = ''user.created'',
     msg_UID = None, msg_Channels = [], msg_Payload = [0, 123, 125], msg_PayloadSize = 2, msg_ExpiresAt = 1000, msg_DeletedAt = None\<rparr>"

definition demo_env :: env where
  "demo_env = \<lparr>ev_snapshot = Some demo_snap, ev_loadMessage = Inr demo_message, ev_loadPayload = Inr [0, 123, 125],
     ev_result = \<lparr>res_StatusCode = 200, res_Body = [], res_Duration = Second, res_Err = None, res_Timeout = False,
       res_Refused = False, res_ConnectionReused = False, res_RetryAfter = None\<rparr>,
     ev_nowFanout = 20, ev_nowLane = 20, ev_nowSign = 20, ev_nowHealth = 20, ev_nowAttempt = 20, ev_limiterAllows = True,
     ev_limiterWait = True, ev_waits = [], ev_slotOK = True, ev_attemptID = Some ''atmpt_1'', ev_sinkOK = True,
     ev_nowResult = 20, ev_nowOpen = 20, ev_firstOK = True, ev_disableOK = True, ev_poolOK = True, ev_emitOK = True\<rparr>"

definition demo_world :: "pg world" where
  "demo_world = \<lparr>wd_queue = demo_pg, wd_lanes = None, wd_sink = [], wd_writes = [], wd_events = [], wd_invalidations = 0,
     wd_inflight = 1, wd_sent = [], wd_panicked = False\<rparr>"

lemmas demo_worker_defs = demo_cep_def demo_endpoint_def demo_snap_def demo_engine_def demo_env_def demo_world_def demo_defs
  Endpoint.defs Snapshot_Endpoint_def Deliverable_def Disabled_def Deleted_def

lemma demo_fields:
  "task_Kind (demo_task i) = TaskDeliver" "task_EndpointID (demo_task i) = Some ''ep_1''" "task_MsgID (demo_task i) = ''msg_1''"
  "task_ID (demo_task i) = i" "task_Attempt (demo_task i) = 0"
  "ev_snapshot demo_env = Some demo_snap" "Snapshot_Endpoint demo_snap ''ep_1'' = Some demo_cep" "Deliverable demo_cep"
  "wd_lanes demo_world = None" "wd_sent demo_world = []" "wd_sink demo_world = []" "wd_queue demo_world = demo_pg"
  by (simp_all add: demo_worker_defs)

lemma demo_pg_inv: "pg_inv demo_pg" "pg_inv (wd_queue demo_world)"
  by (auto simp: pg_inv_def demo_world_def demo_defs)

lemma demo_request: "\<exists>req. request_of demo_engine demo_env (demo_task 1) demo_cep = Some req"
  by (simp add: request_of_def demo_worker_defs Codec_Decode_def NewCodec_def EncodingRaw_def buildHeaders_def Headers_def
      Sign_def signOne_def Let_def split: prod.splits)

lemma demo_sends: "\<exists>req. wd_sent (run_task QueueRepo demo_engine demo_env (demo_task 1) demo_world) = wd_sent demo_world @ [req]"
proof -
  obtain req where r: "request_of demo_engine demo_env (demo_task 1) demo_cep = Some req" using demo_request by blast
  have "run_task QueueRepo demo_engine demo_env (demo_task 1) demo_world =
      snd (slot_release (True, deliver_body QueueRepo demo_engine demo_env (demo_task 1) demo_cep demo_world))"
    by (simp add: run_task_def handle_def handleDeliver_def laneFor_def demo_fields)
  with deliver_body_sent(1) [OF r, of QueueRepo demo_world] show ?thesis by simp
qed

section \<open>Requests and records\<close>



text \<open>
  C8: every request can be verified by its receiver. A request carries the message id, the send time
  and one signature header that a receiver holding any one of the endpoint's symmetric secrets, old
  or new, accepts for exactly the body sent; the endpoint's own custom headers, whatever they are,
  cannot replace these three.
\<close>
theorem request_verifies:
  assumes "wd_sent (run_task QueueRepo e v task w) = wd_sent w @ [req]"
  shows "\<exists>i s ep idH tsH sigH header. task_EndpointID task = Some i \<and> ev_snapshot v = Some s \<and> Snapshot_Endpoint s i = Some ep \<and>
    HeaderNames (en_signer e) = (idH, tsH, sigH) \<and> req_Headers req idH = Some (task_MsgID task) \<and>
    req_Headers req tsH = Some (FormatInt (time_Unix (ev_nowSign v))) \<and> req_Headers req sigH = Some header \<and>
    (\<forall>k\<in>set (cep_Secrets ep). sec_Type k = SecretTypeHMAC256 \<longrightarrow>
       accepts (sec_Key k) (task_MsgID task) (ev_nowSign v) (req_Body req) header)"
proof -
  from pgq.run_task_sends [OF assms] obtain i s ep where
    ep: "task_EndpointID task = Some i" "ev_snapshot v = Some s" "Snapshot_Endpoint s i = Some ep"
    and r: "request_of e v task ep = Some req" by auto
  then obtain payload where b: "buildHeaders e v (task_MsgID task) payload ep = Inr (req_Headers req)" "req_Body req = payload"
    by (auto simp: request_of_def split: sum.splits)
  obtain idH tsH sigH where n: "HeaderNames (en_signer e) = (idH, tsH, sigH)" by (cases "HeaderNames (en_signer e)") auto
  have d: "idH \<noteq> tsH" "idH \<noteq> sigH" "tsH \<noteq> sigH" using n by (auto simp: HeaderNames_def split: HeaderScheme.splits)
  let ?keys = "map (\<lambda>s. \<lparr>key_Secret = sec_Key s, key_Type = sec_Type s\<rparr>) (cep_Secrets ep)"
  from b(1) n obtain header where
    sign: "Sign (en_edNewKey e) (en_edSign e) (task_MsgID task) (ev_nowSign v) payload ?keys = Inr header"
    by (auto simp: buildHeaders_def Headers_def Let_def split: sum.splits)
  have "req_Headers req = (fold (\<lambda>(name, value) h. h(ToLower (en_lowerUnicode e) name \<mapsto> value)) (cep_CustomHeaders ep) Map.empty)
      (idH \<mapsto> task_MsgID task, tsH \<mapsto> FormatInt (time_Unix (ev_nowSign v)), sigH \<mapsto> header)"
    using b(1) n sign by (simp add: buildHeaders_def Headers_def Let_def)
  with d have "req_Headers req idH = Some (task_MsgID task)" "req_Headers req tsH = Some (FormatInt (time_Unix (ev_nowSign v)))"
    "req_Headers req sigH = Some header"
    by simp_all
  moreover have "accepts (sec_Key k) (task_MsgID task) (ev_nowSign v) payload header"
    if "k \<in> set (cep_Secrets ep)" "sec_Type k = SecretTypeHMAC256" for k
    using Sign_accepted [OF sign, of "\<lparr>key_Secret = sec_Key k, key_Type = sec_Type k\<rparr>"] that(2)
      imageI [OF that(1), of "\<lambda>s. \<lparr>key_Secret = sec_Key s, key_Type = sec_Type s\<rparr>"] by simp
  ultimately show ?thesis using ep n b(2) by blast
qed

theorem request_verifies_witness:
  "\<exists>req header. wd_sent (run_task QueueRepo demo_engine demo_env (demo_task 1) demo_world) = [req] \<and>
     req_Headers req ''webhook-signature'' = Some header \<and> accepts (bytes_of ''k1'') ''msg_1'' 20 (req_Body req) header"
proof -
  obtain req where s: "wd_sent (run_task QueueRepo demo_engine demo_env (demo_task 1) demo_world) = wd_sent demo_world @ [req]"
    using demo_sends by blast
  have "HeaderNames (en_signer demo_engine) = (''webhook-id'', ''webhook-timestamp'', ''webhook-signature'')"
    by (simp add: demo_engine_def NewSigner_def HeaderNames_def)
  with request_verifies [OF s] s show ?thesis by (auto simp: demo_worker_defs)
qed

section \<open>Rows\<close>

lemma fanout_tx_healthy: "pg_faults q = [] \<Longrightarrow> fst (fanout_tx QueueRepo now ts i q) = None"
  by (simp add: fanout_tx_def QueueRepo_def queue_defs pg_exec_def)

text \<open>
  C5: the fan-out of a message is atomic and exact. Where the snapshot has matching endpoints, the
  handler either leaves the queue's rows as they were, or removes the fan-out row and adds one new
  deliver row per matching endpoint and nothing else, each routed to its endpoint's partition and
  pool, for the same message, at attempt 0. No failure of any statement gives anything in between,
  and when the database does not fail the fan-out is done.
\<close>
theorem fanout_exact:
  assumes inv: "pg_inv (wd_queue w)" and k: "task_Kind task = TaskFanout" and i: "task_ID task \<in> dom (pg_look (wd_queue w))"
    and s: "ev_snapshot v = Some s" and m: "ev_loadMessage v = Inr msg"
    and eps: "MatchingEndpoints s (task_AppID task) (msg_EventType msg) (msg_Channels msg) = eps" "eps \<noteq> []"
  shows "(pg_look (wd_queue (run_task QueueRepo e v task w)) = pg_look (wd_queue w) \<or>
    (\<exists>rows. list_all2 (\<lambda>row ep. enqueued_as row (fanout_task e (ev_nowFanout v) task ep)) rows eps \<and>
       distinct (map task_ID rows) \<and> set (map task_ID rows) \<inter> dom (pg_look (wd_queue w)) = {} \<and>
       pg_look (wd_queue (run_task QueueRepo e v task w)) =
         (pg_look (wd_queue w))(task_ID task := None) ++ map_of (map (\<lambda>t. (task_ID t, t)) rows) \<and>
       task_ID task \<notin> dom (pg_look (wd_queue (run_task QueueRepo e v task w))))) \<and>
    (pg_faults (wd_queue w) = [] \<longrightarrow> task_ID task \<notin> dom (pg_look (wd_queue (run_task QueueRepo e v task w))))"
proof -
  let ?ts = "map (fanout_task e (ev_nowFanout v) task) eps"
  obtain err q1 where f: "fanout_tx QueueRepo (ev_nowFanout v) ?ts (task_ID task) (wd_queue w) = (err, q1)" by fastforce
  have q: "pg_inv q1" using pgq.fanout_tx_valid [OF inv, of "ev_nowFanout v" ?ts "task_ID task"] f by simp
  have "pg_look (wd_queue (run_task QueueRepo e v task w)) = pg_look q1"
    using s m eps f pgq.notify_fold [OF q] by (cases err) (simp_all add: pgq.run_task_queue k handleFanout_def Let_def)
  moreover have "map_of (map (\<lambda>t. (task_ID t, t)) rows) (task_ID task) = None"
    if "set (map task_ID rows) \<inter> dom (pg_look (wd_queue w)) = {}" for rows :: "DeliveryTask list"
    using that i by (force simp: map_of_eq_None_iff)
  ultimately show ?thesis
    using pgq.fanout_tx_exact [OF inv i, of "ev_nowFanout v" ?ts] f fanout_tx_healthy [of "wd_queue w" "ev_nowFanout v" ?ts "task_ID task"]
    by (auto simp: list.rel_map map_add_def domIff split: if_splits option.splits)
qed

definition demo_fanout :: DeliveryTask where
  "demo_fanout = (demo_task 1)\<lparr>task_Kind := TaskFanout, task_EndpointID := None\<rparr>"

definition demo_fanout_world :: "pg world" where
  "demo_fanout_world = demo_world\<lparr>wd_queue := demo_pg\<lparr>pg_rows := [demo_fanout]\<rparr>\<rparr>"

lemma demo_matching: "MatchingEndpoints demo_snap ''app_1'' ''user.created'' [] = [demo_cep]"
  by (simp add: MatchingEndpoints_def deliverableTo_def Snapshot_App_def demo_snap_def demo_app_entry_def demo_cep_def demo_endpoint_def Endpoint.defs
      Deliverable_def Disabled_def Deleted_def WantsChannels_def Let_def)

theorem fanout_exact_witness:
  "\<exists>row. task_EndpointID row = Some ''ep_1'' \<and> task_Kind row = TaskDeliver \<and>
      pg_look (wd_queue (run_task QueueRepo demo_engine demo_env demo_fanout demo_fanout_world)) = [task_ID row \<mapsto> row]"
proof -
  let ?q' = "pg_look (wd_queue (run_task QueueRepo demo_engine demo_env demo_fanout demo_fanout_world))"
  have d: "pg_faults (wd_queue demo_fanout_world) = []" "pg_inv (wd_queue demo_fanout_world)"
    "pg_look (wd_queue demo_fanout_world) = [1 \<mapsto> demo_fanout]" "task_ID demo_fanout = 1" "task_Kind demo_fanout = TaskFanout"
    "ev_snapshot demo_env = Some demo_snap" "ev_loadMessage demo_env = Inr demo_message"
    "MatchingEndpoints demo_snap (task_AppID demo_fanout) (msg_EventType demo_message) (msg_Channels demo_message) = [demo_cep]"
    using demo_matching by (auto simp: pg_inv_def pg_look_def demo_fanout_world_def demo_fanout_def demo_defs demo_env_def demo_message_def)
  have "\<exists>rows. list_all2 (\<lambda>row ep. enqueued_as row (fanout_task demo_engine (ev_nowFanout demo_env) demo_fanout ep)) rows [demo_cep] \<and>
      ?q' = map_of (map (\<lambda>t. (task_ID t, t)) rows)"
    using fanout_exact [OF d(2,5) _ d(6-8), of demo_engine] d by auto
  then obtain row where "enqueued_as row (fanout_task demo_engine (ev_nowFanout demo_env) demo_fanout demo_cep)"
    "?q' = [task_ID row \<mapsto> row]" by (auto simp: list_all2_Cons2)
  then show ?thesis by (intro exI [of _ row]) (simp add: enqueued_as_def fanout_task_def demo_cep_def demo_endpoint_def Endpoint.defs)
qed



section \<open>The breaker\<close>

text \<open>
  C30: a tripped endpoint gets no traffic. While an endpoint's breaker is open and its retry time has not
  come, a delivery to it sends nothing and records nothing, whatever the environment.
\<close>
theorem open_breaker_no_request:
  assumes "task_Kind task = TaskDeliver" and "task_EndpointID task = Some i" and "ev_snapshot v = Some s"
    and "Snapshot_Endpoint s i = Some ep" and "wd_lanes w = Some m" and "lane_at m (ep_ID ep) = Some l"
    and "br_state (ln_breaker l) = BreakerOpen" and "ev_nowLane v < br_retryAt (ln_breaker l)"
  shows "wd_sent (run_task QueueRepo e v task w) = wd_sent w \<and> wd_sink (run_task QueueRepo e v task w) = wd_sink w"
proof -
  have "breaker_refuses v ep w"
    using assms by (simp add: breaker_refuses_def laneFor_def For_def Lane_Allow_def Breaker_Allow_def)
  with pgq.run_task_deliver_end [OF assms(1), of e v w] assms(2-4) show ?thesis
    by (auto elim!: deliver_endE)
qed

definition tripped_lane :: Lane where
  "tripped_lane = (NewLane 0 ''ep_1'' demo_lane_opts)\<lparr>ln_breaker := Breaker_OnFailure 10
     (NewBreaker \<lparr>bo_FailureThreshold = 1, bo_Cooldown = 30 * Second, bo_MaxCooldown = 0\<rparr>)\<rparr>"

definition tripped_world :: "pg world" where
  "tripped_world = demo_world\<lparr>wd_lanes := Some \<lparr>mg_opts = \<lparr>mo_Defaults = demo_lane_opts, mo_IdleEviction = Minute\<rparr>,
     mg_lanes = [(''ep_1'', tripped_lane)]\<rparr>\<rparr>"

lemma tripped_breaker: "br_state (ln_breaker tripped_lane) = BreakerOpen" "br_retryAt (ln_breaker tripped_lane) = 30 * Second + 10"
  by (simp_all add: tripped_lane_def breaker_defs NewBreaker_def breaker_defaults_def time_IsZero_def zero_time_def)

theorem open_breaker_no_request_witness:
  "wd_sent (run_task QueueRepo demo_engine demo_env (demo_task 1) tripped_world) = []"
  using open_breaker_no_request [of "demo_task 1" "''ep_1''" demo_env demo_snap demo_cep tripped_world _ tripped_lane demo_engine]
  by (simp add: demo_fields tripped_breaker tripped_world_def lane_at_def demo_env_def demo_cep_def demo_endpoint_def
      Endpoint.defs demo_world_def)

text \<open>
  C38: a probe can be lost. When an open breaker's retry time has come and the probing delivery ends
  without a request (here: its payload cannot be loaded), the endpoint's breaker stays half-open with
  the probe marked in flight, so every later delivery to the endpoint is refused, at any time.
\<close>
theorem abandoned_probe:
  assumes "task_Kind task = TaskDeliver" and "task_EndpointID task = Some i" and "ev_snapshot v = Some s"
    and "Snapshot_Endpoint s i = Some ep" and "Deliverable ep" and "wd_lanes w = Some m" and "lane_at m (ep_ID ep) = Some l"
    and "br_state (ln_breaker l) = BreakerOpen" and "br_retryAt (ln_breaker l) \<le> ev_nowLane v"
    and "fst (TryAcquire (ev_nowLane v) (ev_limiterAllows v) l)" and "ev_loadPayload v = Inl err"
  shows "wd_sent (run_task QueueRepo e v task w) = wd_sent w \<and>
    (\<exists>m' l'. wd_lanes (run_task QueueRepo e v task w) = Some m' \<and> lane_at m' (ep_ID ep) = Some l' \<and>
       (\<forall>now. \<not> fst (Lane_Allow now l')))"
proof -
  let ?l1 = "l\<lparr>ln_breaker := (ln_breaker l)\<lparr>br_state := BreakerHalfOpen, br_probeInFlight := True\<rparr>\<rparr>"
  let ?l2 = "take_slot (touch (ev_nowLane v) ?l1)"
  have allow: "Lane_Allow (ev_nowLane v) l = (True, ?l1)" using assms(8,9) by (simp add: Lane_Allow_def Breaker_Allow_def)
  have tr: "TryAcquire (ev_nowLane v) (ev_limiterAllows v) ?l1 = (True, ?l2)"
    using assms(10) by (auto simp: TryAcquire_def Let_def touch_def split: if_splits)
  let ?w1 = "put_lane ep ?l2 (put_lane ep ?l1 w)"
  let ?w2 = "deliver_body QueueRepo e v task ep ?w1"
  have same: "w\<lparr>wd_lanes := Some m\<rparr> = w" by (simp flip: assms(6))
  have "handleDeliver QueueRepo e v task (True, w) = (True, on_lane ep Lane_Release ?w2)"
    using assms(2-7) allow tr by (simp add: handleDeliver_def laneFor_def For_def deliver_in_lane_def same)
  then have run: "run_task QueueRepo e v task w = (on_lane ep Lane_Release ?w2)\<lparr>wd_inflight := wd_inflight ?w2 - 1\<rparr>"
    by (simp add: run_task_def handle_def assms(1) slot_release_def)
  have lanes: "wd_lanes ?w2 = Some (set_lane (ep_ID ep) ?l2 (set_lane (ep_ID ep) ?l1 m))"
    using assms(6,11) by (cases err) (simp_all add: deliver_body_def complete_def put_lane_def)
  have at: "lane_at (set_lane (ep_ID ep) ?l2 (set_lane (ep_ID ep) ?l1 m)) (ep_ID ep) = Some ?l2"
    using assms(7) by (simp add: lane_at_set)
  have "wd_lanes (run_task QueueRepo e v task w) =
      Some (set_lane (ep_ID ep) (Lane_Release ?l2) (set_lane (ep_ID ep) ?l2 (set_lane (ep_ID ep) ?l1 m)))"
    using lanes at by (simp add: run on_lane_def get_lane_def put_lane_def)
  moreover have "lane_at (set_lane (ep_ID ep) (Lane_Release ?l2) (set_lane (ep_ID ep) ?l2 (set_lane (ep_ID ep) ?l1 m))) (ep_ID ep)
      = Some (Lane_Release ?l2)" using at by (simp add: lane_at_set)
  moreover have "\<not> fst (Lane_Allow now (Lane_Release ?l2))" for now
    by (simp add: Lane_Allow_def Breaker_Allow_def Lane_Release_def Let_def take_slot_def touch_def)
  moreover have "request_of e v task ep = None" using assms(11) by (simp add: request_of_def)
  then have "wd_sent (run_task QueueRepo e v task w) = wd_sent w" using deliver_body_not_sent(1) [of e v task ep QueueRepo ?w1] by (simp add: run)
  ultimately show ?thesis by blast
qed

theorem abandoned_probe_witness:
  "\<exists>m' l'. wd_lanes (run_task QueueRepo demo_engine (demo_env\<lparr>ev_nowLane := Minute, ev_loadPayload := Inl ErrNotFound\<rparr>)
     (demo_task 1) tripped_world) = Some m' \<and> lane_at m' ''ep_1'' = Some l' \<and> \<not> fst (Lane_Allow (1000 * Hour) l')"
proof -
  let ?v = "demo_env\<lparr>ev_nowLane := Minute, ev_loadPayload := Inl ErrNotFound\<rparr>"
  have "wd_lanes tripped_world = Some \<lparr>mg_opts = \<lparr>mo_Defaults = demo_lane_opts, mo_IdleEviction = Minute\<rparr>, mg_lanes = [(''ep_1'', tripped_lane)]\<rparr>"
    "ep_ID demo_cep = ''ep_1''" "fst (TryAcquire (ev_nowLane ?v) (ev_limiterAllows ?v) tripped_lane)"
    by (simp_all add: tripped_world_def demo_cep_def demo_endpoint_def Endpoint.defs TryAcquire_def tripped_lane_def demo_lane_defs)
  then show ?thesis
    using abandoned_probe [of "demo_task 1" "''ep_1''" ?v demo_snap demo_cep tripped_world _ tripped_lane ErrNotFound demo_engine]
    by (auto simp: demo_fields tripped_breaker lane_at_def)
qed

section \<open>Claiming\<close>

lemma Claim_limit:
  assumes "pg_inv q" "Claim req q = (Inr ts, q')"
  shows "int (length ts) \<le> max 0 (cr_Limit req)" "distinct (map task_ID ts)"
proof -
  show "int (length ts) \<le> max 0 (cr_Limit req)"
  proof (cases "cr_Partitions req = [] \<or> cr_Limit req \<le> 0")
    case True
    then show ?thesis using assms(2) by (auto simp: Claim_def)
  next
    case False
    then show ?thesis using Claim_ids(2) [OF assms] by (auto simp: claim_ids_eq min_def)
  qed
  have "distinct (map task_ID (filter P (pg_rows (update_rows R (lock_row req t) (snd (pg_exec q))))))" for P R t
    using assms(1) by (intro distinct_map_filter) (simp add: ids_update_rows pg_inv_def)
  then show "distinct (map task_ID ts)" using assms(2) by (auto simp: Claim_cases Let_def split: if_splits)
qed

lemma start_tasks_queue:
  "start_tasks Q tasks oks started ts w = (False, started', w') \<Longrightarrow> wd_queue w' = snd (q_Release Q (map task_ID tasks) (wd_queue w))"
proof (induction ts arbitrary: oks started w)
  case (Cons t ts)
  show ?case
  proof (cases "case oks of [] \<Rightarrow> True | ok # _ \<Rightarrow> ok")
    case True
    then show ?thesis using Cons.IH [of "tl oks" "started @ [t]" "w\<lparr>wd_inflight := wd_inflight w + 1\<rparr>"] Cons.prems
      by (simp add: slot_acquire_def)
  next
    case False
    then show ?thesis using Cons.prems by (auto simp: slot_acquire_def engine_release_def)
  qed
qed simp

definition run_tasks :: "'q Queue \<Rightarrow> Engine \<Rightarrow> (env \<times> DeliveryTask) list \<Rightarrow> 'q world \<Rightarrow> 'q world" where
  "run_tasks Q e = fold (\<lambda>(v, task). run_task Q e v task)"

lemma run_tasks_simps [simp]:
  "run_tasks Q e [] w = w" "run_tasks Q e ((v, t) # jobs) w = run_tasks Q e jobs (run_task Q e v t w)"
  "run_tasks Q e (jobs @ jobs') w = run_tasks Q e jobs' (run_tasks Q e jobs w)"
  by (simp_all add: run_tasks_def)

lemma run_tasks_slots: "wd_inflight (run_tasks Q e jobs w) = wd_inflight w - int (length jobs)"
  by (induction jobs arbitrary: w) (auto simp: run_task_slots)

text \<open>
  The in-flight budget holds and is given back. A claim never takes the worker past
  \<^verbatim>\<open>MaxInflight\<close>, even when the context ends in the middle of a batch: it takes one slot per task it
  starts, starts only tasks of its own claim and each at most once, and when all started tasks have
  been handled, in whatever environments, the worker has exactly the slots it had before.
\<close>
theorem claim_budget:
  assumes inv: "pg_inv (wd_queue w)" and b: "wd_inflight w \<le> eo_MaxInflight (en_opts e)"
    and c: "claimAndDispatch QueueRepo e partitions oks w = ((err, n, started), w')"
  shows "wd_inflight w' = wd_inflight w + int (length started) \<and> wd_inflight w' \<le> eo_MaxInflight (en_opts e) \<and>
    distinct (map task_ID started) \<and> (\<forall>t\<in>set started. task_LockedBy t = Some (eo_WorkerID (en_opts e))) \<and>
    (\<forall>jobs. map snd jobs = started \<longrightarrow> wd_inflight (run_tasks QueueRepo e jobs w') = wd_inflight w)"
proof -
  let ?cap = "eo_MaxInflight (en_opts e) - wd_inflight w"
  let ?req = "\<lparr>cr_Pool = eo_Pool (en_opts e), cr_Partitions = partitions, cr_OwnerID = eo_WorkerID (en_opts e),
    cr_LockTTL = eo_LockTTL (en_opts e), cr_Limit = min (eo_ClaimBatchSize (en_opts e)) ?cap\<rparr>"
  have "wd_inflight w' = wd_inflight w + int (length started) \<and> int (length started) \<le> ?cap \<and>
    distinct (map task_ID started) \<and> (\<forall>t\<in>set started. task_LockedBy t = Some (eo_WorkerID (en_opts e)))"
  proof (cases "partitions = [] \<or> ?cap \<le> 0")
    case True
    then show ?thesis using c b by (auto simp: claimAndDispatch_def Let_def split: if_splits)
  next
    case False
    obtain r q where cl: "Claim ?req (wd_queue w) = (r, q)" by fastforce
    show ?thesis
    proof (cases r)
      case (Inl x)
      then show ?thesis using c cl False by (auto simp: claimAndDispatch_def QueueRepo_def Let_def)
    next
      case (Inr ts)
      obtain ok st w1 where s: "start_tasks QueueRepo ts oks [] ts (w\<lparr>wd_queue := q\<rparr>) = (ok, st, w1)"
        by (cases "start_tasks QueueRepo ts oks [] ts (w\<lparr>wd_queue := q\<rparr>)") auto
      have eq: "started = st" "w' = w1" using c cl False Inr s by (auto simp: claimAndDispatch_def QueueRepo_def Let_def)
      obtain vs where vs: "ts = started @ vs" using start_tasks_prefix [OF s] eq by auto
      have "task_LockedBy t = Some (eo_WorkerID (en_opts e))" if "t \<in> set started" for t
        using Claim_result(2) [OF inv, of ?req ts t] cl Inr that vs by simp
      with Claim_limit [OF inv, of ?req ts q] cl Inr vs eq start_tasks_slots [OF s] False show ?thesis by auto
    qed
  qed
  moreover have "length jobs = length started" if "map snd jobs = started" for jobs :: "(env \<times> DeliveryTask) list"
    using that by auto
  ultimately show ?thesis by (auto simp: run_tasks_slots)
qed

theorem claim_budget_witness:
  "wd_inflight (snd (claimAndDispatch QueueRepo demo_engine [7] [] demo_world)) \<le> 3 \<and>
   wd_inflight (run_tasks QueueRepo demo_engine
     (map (Pair demo_env) (snd (snd (fst (claimAndDispatch QueueRepo demo_engine [7] [] demo_world)))))
     (snd (claimAndDispatch QueueRepo demo_engine [7] [] demo_world))) = 1"
proof -
  let ?c = "claimAndDispatch QueueRepo demo_engine [7] [] demo_world"
  have o: "eo_MaxInflight (en_opts demo_engine) = 3" "wd_inflight demo_world = 1"
    by (simp_all add: demo_engine_def demo_opts_def engine_defaults_def Let_def demo_world_def)
  have "?c = ((fst (fst ?c), fst (snd (fst ?c)), snd (snd (fst ?c))), snd ?c)" by simp
  from claim_budget [OF demo_pg_inv(2) _ this] show ?thesis by (simp add: o comp_def)
qed

text \<open>
  C37: shutdown gives back work that is still running. When the context ends while a batch is being
  started and the release succeeds, the rows of the tasks already started are unlocked too, although
  their handlers run on, so another worker can claim and deliver them a second time.
\<close>
theorem shutdown_releases_started:
  assumes inv: "pg_inv (wd_queue w)" and f: "pg_faults (wd_queue w) = []"
    and c: "claimAndDispatch QueueRepo e partitions oks w = ((Some ClaimCtxDone, n, started), w')" and t: "t \<in> set started"
  shows "\<exists>row. pg_look (wd_queue w') (task_ID t) = Some row \<and> task_LockedUntil row = None"
proof -
  let ?req = "\<lparr>cr_Pool = eo_Pool (en_opts e), cr_Partitions = partitions, cr_OwnerID = eo_WorkerID (en_opts e),
    cr_LockTTL = eo_LockTTL (en_opts e), cr_Limit = min (eo_ClaimBatchSize (en_opts e)) (eo_MaxInflight (en_opts e) - wd_inflight w)\<rparr>"
  obtain ts q where cl: "Claim ?req (wd_queue w) = (Inr ts, q)"
    and s: "start_tasks QueueRepo ts oks [] ts (w\<lparr>wd_queue := q\<rparr>) = (False, started, w')"
    using c by (auto simp: claimAndDispatch_def Let_def QueueRepo_def split: if_splits sum.splits prod.splits)
  have rel: "wd_queue w' = snd (Release (map task_ID ts) q)"
    using start_tasks_queue [OF s] by (simp add: QueueRepo_def)
  have m: "t \<in> set ts" using start_tasks_prefix [OF s] t by auto
  have q: "pg_look q (task_ID t) = Some t" using Claim_result(1) [OF inv, of ?req ts t] cl m by simp
  have "pg_faults q = []" using cl f by (auto simp: Claim_cases Let_def update_rows_def pg_exec_def split: if_splits)
  then have "fst (Release (map task_ID ts) q) = None" by (simp add: Release_def statement_def pg_exec_def)
  then show ?thesis using look_Release [of "map task_ID ts" q] q m rel by (auto simp: unlocked_def)
qed

text \<open>The worker starts one of the two tasks it claimed, and the context ends before the second.\<close>

definition shutdown_claim :: "(claim_error option \<times> int \<times> DeliveryTask list) \<times> pg world" where
  "shutdown_claim = claimAndDispatch QueueRepo demo_engine [7] [True, False] demo_world"

lemma shutdown_claim_result: "fst shutdown_claim = (Some ClaimCtxDone, 2, [(demo_task 1)\<lparr>task_LockedBy := Some ''w1'',
    task_LockedUntil := Some (10 + 90 * Second)\<rparr>])"
  by (simp add: shutdown_claim_def claimAndDispatch_def Let_def demo_engine_def demo_opts_def engine_defaults_def demo_world_def
      QueueRepo_def Claim_def pg_exec_def claim_ids_def claimable_def update_rows_def demo_defs lock_row_def slot_acquire_def
      wrap64_def)

theorem shutdown_releases_started_witness:
  "\<exists>row. pg_look (wd_queue (snd shutdown_claim)) 1 = Some row \<and> task_LockedUntil row = None"
proof -
  have "claimAndDispatch QueueRepo demo_engine [7] [True, False] demo_world =
      ((Some ClaimCtxDone, 2, [(demo_task 1)\<lparr>task_LockedBy := Some ''w1'', task_LockedUntil := Some (10 + 90 * Second)\<rparr>]), snd shutdown_claim)"
    using shutdown_claim_result by (metis prod.collapse shutdown_claim_def)
  from shutdown_releases_started [OF demo_pg_inv(2) _ this] show ?thesis by (simp add: demo_fields demo_pg_def)
qed

section \<open>Several tasks\<close>

context queue_contract
begin

lemma run_tasks_valid: "valid (wd_queue w) \<Longrightarrow> valid (wd_queue (run_tasks Q e jobs w))"
  by (induction jobs arbitrary: w) (auto simp: run_task_valid)

lemma run_task_keeps:
  assumes "valid (wd_queue w)" "task_ID t \<in> dom (look (wd_queue w))" "j \<in> dom (look (wd_queue w))" "j \<noteq> task_ID t"
  shows "j \<in> dom (look (wd_queue (run_task Q e v t w)))"
  using run_task_others [OF assms(1) assms(4,3,2)] assms(3) by (simp add: domIff)

text \<open>A row that is gone after a batch of handlers was removed by one of them, for a reason.\<close>

lemma run_tasks_removes:
  assumes "valid (wd_queue w)" "distinct (map (task_ID \<circ> snd) jobs)" "\<forall>(v, t)\<in>set jobs. task_ID t \<in> dom (look (wd_queue w))"
    and "i \<in> dom (look (wd_queue w))" "i \<notin> dom (look (wd_queue (run_tasks Q e jobs w)))"
  shows "\<exists>pre v t post. jobs = pre @ (v, t) # post \<and> task_ID t = i \<and> removal_reason e v t (run_tasks Q e pre w)"
  using assms
proof (induction jobs arbitrary: w)
  case (Cons job jobs)
  obtain v t where job: "job = (v, t)" by fastforce
  let ?w1 = "run_task Q e v t w"
  have t: "task_ID t \<in> dom (look (wd_queue w))" using Cons.prems(3) by (simp add: job)
  have v1: "valid (wd_queue ?w1)" using Cons.prems(1) by (rule run_task_valid)
  show ?case
  proof (cases "i \<in> dom (look (wd_queue ?w1))")
    case False
    with run_task_removes [OF Cons.prems(1,4) _ t] have "task_ID t = i" "removal_reason e v t w" by auto
    then show ?thesis by (intro exI [of _ "[]"] exI [of _ v] exI [of _ t] exI [of _ jobs]) (simp add: job)
  next
    case True
    have d: "distinct (map (task_ID \<circ> snd) jobs)" and g: "i \<notin> dom (look (wd_queue (run_tasks Q e jobs ?w1)))"
      using Cons.prems(2,5) by (simp_all add: job comp_def)
    have k: "\<forall>(v', t')\<in>set jobs. task_ID t' \<in> dom (look (wd_queue ?w1))"
      using Cons.prems(2,3) run_task_keeps [OF Cons.prems(1) t] by (force simp: job)
    from Cons.IH [OF v1 d k True g] obtain pre v' t' post where
      "jobs = pre @ (v', t') # post" "task_ID t' = i" "removal_reason e v' t' (run_tasks Q e pre ?w1)" by blast
    then show ?thesis by (intro exI [of _ "job # pre"] exI [of _ v'] exI [of _ t'] exI [of _ post]) (simp add: job)
  qed
qed simp

end

text \<open>Handlers only ever add records.\<close>

lemma run_task_sink: "\<exists>rs. wd_sink (run_task Q e v t w) = wd_sink w @ rs"
proof (cases "task_Kind t = TaskDeliver")
  case True
  then have "run_task Q e v t w = snd (slot_release (handleDeliver Q e v t (True, w)))" by (simp add: run_task_def handle_def)
  with handleDeliver_end [of Q e v t w True] show ?thesis by (auto elim!: deliver_endE)
qed (use run_task_sent_sink [of t Q e v w] in auto)

end
