(* ===== verification/Lease_Repo.thy ===== *)
theory Lease_Repo
  imports Entities "HOL-Library.Product_Lexorder"
begin

text \<open>
  \<^verbatim>\<open>internal/adapters/outbound/persistence/postgres/lease_repo.go\<close> with its port
  \<^verbatim>\<open>internal/domain/repositories/lease_repository.go\<close>: the worker registry, the partition leases
  and the named leases, as functions on the rows of their three tables. As in the queue, the state
  has the database clock, the lease rows locked by other transactions and a script of driver
  faults. The column \<^verbatim>\<open>deleted_at\<close> of these tables is never set, and \<^verbatim>\<open>ttl.Seconds() * interval '1
  second'\<close> is the ttl itself. Rows come back in table order where SQL leaves the order open.
\<close>

section \<open>The port\<close>

record 'l LeaseRepository =
  lr_RegisterWorker :: "Worker \<Rightarrow> 'l \<Rightarrow> repo_error option \<times> 'l"
  lr_DeregisterWorker :: "string \<Rightarrow> 'l \<Rightarrow> repo_error option \<times> 'l"
  lr_CountLiveWorkers :: "string \<Rightarrow> duration \<Rightarrow> 'l \<Rightarrow> (repo_error + int) \<times> 'l"
  lr_ReapDeadWorkers :: "duration \<Rightarrow> 'l \<Rightarrow> (repo_error + int) \<times> 'l"
  lr_ClaimPartitions :: "string \<Rightarrow> string \<Rightarrow> duration \<Rightarrow> int \<Rightarrow> 'l \<Rightarrow> (repo_error + int list) \<times> 'l"
  lr_HeartbeatPartitions :: "string \<Rightarrow> string \<Rightarrow> int list \<Rightarrow> 'l \<Rightarrow> (repo_error + int list) \<times> 'l"
  lr_ReleasePartitions :: "string \<Rightarrow> string \<Rightarrow> int list \<Rightarrow> 'l \<Rightarrow> repo_error option \<times> 'l"
  lr_AcquireNamedLease :: "string \<Rightarrow> string \<Rightarrow> duration \<Rightarrow> 'l \<Rightarrow> (repo_error + bool) \<times> 'l"
  lr_ReleaseNamedLease :: "string \<Rightarrow> string \<Rightarrow> 'l \<Rightarrow> repo_error option \<times> 'l"

text \<open>
  What a lease holder relies on: \<open>holder s pool p\<close> is the owner the lease table names. Reading never
  changes it, an error never changes it, a claim changes only what it returns.
\<close>

locale lease_contract =
  fixes R :: "'l LeaseRepository"
    and holder :: "'l \<Rightarrow> string \<Rightarrow> int \<Rightarrow> string option"
    and valid :: "'l \<Rightarrow> bool"
  assumes Heartbeat_ok: "valid s \<Longrightarrow> lr_HeartbeatPartitions R pool w ps s = (Inr ks, s') \<Longrightarrow>
      set ks = {p \<in> set ps. holder s pool p = Some w} \<and> distinct ks \<and> holder s' = holder s"
    and Heartbeat_err: "valid s \<Longrightarrow> lr_HeartbeatPartitions R pool w ps s = (Inl e, s') \<Longrightarrow> holder s' = holder s"
    and Count_frame: "valid s \<Longrightarrow> lr_CountLiveWorkers R pool ttl s = (r, s') \<Longrightarrow> holder s' = holder s"
    and Claim_ok: "valid s \<Longrightarrow> lr_ClaimPartitions R pool w ttl n s = (Inr ks, s') \<Longrightarrow>
      distinct ks \<and> int (length ks) \<le> max 0 n \<and> (\<forall>p\<in>set ks. holder s' pool p = Some w) \<and>
      (\<forall>pool' p. pool' \<noteq> pool \<or> p \<notin> set ks \<longrightarrow> holder s' pool' p = holder s pool' p)"
    and Claim_err: "valid s \<Longrightarrow> lr_ClaimPartitions R pool w ttl n s = (Inl e, s') \<Longrightarrow> holder s' = holder s"
    and Release_ok: "valid s \<Longrightarrow> lr_ReleasePartitions R pool w ps s = (None, s') \<Longrightarrow>
      holder s' = (\<lambda>pool' p. if pool' = pool \<and> holder s pool p = Some w \<and> (ps = [] \<or> p \<in> set ps)
        then None else holder s pool' p)"
    and Release_err: "valid s \<Longrightarrow> lr_ReleasePartitions R pool w ps s = (Some e, s') \<Longrightarrow> holder s' = holder s"
    and valid_ops: "valid s \<Longrightarrow> valid (snd (lr_HeartbeatPartitions R pool w ps s))"
      "valid s \<Longrightarrow> valid (snd (lr_CountLiveWorkers R pool ttl s))"
      "valid s \<Longrightarrow> valid (snd (lr_ClaimPartitions R pool w ttl n s))"
      "valid s \<Longrightarrow> valid (snd (lr_ReleasePartitions R pool w ps s))"

section \<open>The tables\<close>

record ldb =
  ld_workers :: "Worker list"
  ld_leases :: "PartitionLease list"
  ld_named :: "NamedLease list"
  ld_now :: time
  ld_busy :: "(string \<times> int) list"
  ld_faults :: "bool list"

definition ld_exec :: "ldb \<Rightarrow> bool \<times> ldb" where
  "ld_exec d = (case ld_faults d of [] \<Rightarrow> (True, d) | f # fs \<Rightarrow> (\<not> f, d\<lparr>ld_faults := fs\<rparr>))"

definition ld_query :: "string \<Rightarrow> (ldb \<Rightarrow> 'a \<times> ldb) \<Rightarrow> ldb \<Rightarrow> (repo_error + 'a) \<times> ldb" where
  "ld_query what f d = (case ld_exec d of (ok, d1) \<Rightarrow>
     if ok then (case f d1 of (a, d2) \<Rightarrow> (Inr a, d2)) else (Inl (DriverError what), d1))"

definition ld_command :: "string \<Rightarrow> (ldb \<Rightarrow> ldb) \<Rightarrow> ldb \<Rightarrow> repo_error option \<times> ldb" where
  "ld_command what f d = (case ld_exec d of (ok, d1) \<Rightarrow>
     if ok then (None, f d1) else (Some (DriverError what), d1))"

section \<open>Workers\<close>

definition RegisterWorker :: "Worker \<Rightarrow> ldb \<Rightarrow> repo_error option \<times> ldb" where
  "RegisterWorker w = ld_command ''register worker'' (\<lambda>d.
     if list_ex (\<lambda>v. wk_ID v = wk_ID w) (ld_workers d)
     then d\<lparr>ld_workers := map (\<lambda>v. if wk_ID v = wk_ID w
        then v\<lparr>wk_Pools := wk_Pools w, wk_Version := wk_Version w, wk_HeartbeatAt := ld_now d\<rparr> else v) (ld_workers d)\<rparr>
     else d\<lparr>ld_workers := ld_workers d @ [w\<lparr>wk_HeartbeatAt := ld_now d, wk_CreatedAt := ld_now d\<rparr>]\<rparr>)"

definition DeregisterWorker :: "string \<Rightarrow> ldb \<Rightarrow> repo_error option \<times> ldb" where
  "DeregisterWorker i = ld_command ''deregister worker''
     (\<lambda>d. d\<lparr>ld_workers := filter (\<lambda>v. wk_ID v \<noteq> i) (ld_workers d)\<rparr>)"

definition CountLiveWorkers :: "string \<Rightarrow> duration \<Rightarrow> ldb \<Rightarrow> (repo_error + int) \<times> ldb" where
  "CountLiveWorkers pool ttl = ld_query ''count live workers'' (\<lambda>d.
     (int (length (filter (\<lambda>v. pool \<in> set (wk_Pools v) \<and> wk_HeartbeatAt v > ld_now d - ttl) (ld_workers d))), d))"

definition ReapDeadWorkers :: "duration \<Rightarrow> ldb \<Rightarrow> (repo_error + int) \<times> ldb" where
  "ReapDeadWorkers ttl = ld_query ''reap dead workers'' (\<lambda>d.
     let dead = (\<lambda>v. wk_HeartbeatAt v < ld_now d - ttl) in
     (int (length (filter dead (ld_workers d))), d\<lparr>ld_workers := filter (\<lambda>v. \<not> dead v) (ld_workers d)\<rparr>))"

section \<open>Partition leases\<close>

definition lease_row :: "string \<Rightarrow> int \<Rightarrow> time \<Rightarrow> PartitionLease" where
  "lease_row pool k now = \<lparr>pl_PartitionKey = k, pl_Pool = pool, pl_OwnerID = None, pl_HeartbeatAt = None, pl_CreatedAt = now\<rparr>"

text \<open>The cast to \<^verbatim>\<open>smallint\<close> makes the statement fail when a key does not fit.\<close>

definition ensurePartitionRows :: "int \<Rightarrow> string \<Rightarrow> ldb \<Rightarrow> repo_error option \<times> ldb" where
  "ensurePartitionRows partitions pool d =
     (if partitions > 2 ^ 15 then (Some (DriverError ''ensure partition lease rows''), snd (ld_exec d))
      else ld_command ''ensure partition lease rows'' (\<lambda>d. d\<lparr>ld_leases := ld_leases d @
        map (\<lambda>k. lease_row pool k (ld_now d))
          (filter (\<lambda>k. \<not> list_ex (\<lambda>l. pl_Pool l = pool \<and> pl_PartitionKey l = k) (ld_leases d)) [0 .. partitions - 1])\<rparr>) d)"

definition lease_claimable :: "string \<Rightarrow> string \<Rightarrow> duration \<Rightarrow> ldb \<Rightarrow> PartitionLease \<Rightarrow> bool" where
  "lease_claimable pool owner ttl d l \<longleftrightarrow> pl_Pool l = pool \<and> (pl_Pool l, pl_PartitionKey l) \<notin> set (ld_busy d) \<and>
     (pl_OwnerID l = Some owner \<or> pl_OwnerID l = None \<or> pl_OwnerID l = Some [] \<or>
      (case pl_HeartbeatAt l of None \<Rightarrow> True | Some h \<Rightarrow> h < ld_now d - ttl))"

text \<open>
  \<^verbatim>\<open>ORDER BY (owner_id = $2) DESC\<close>: a descending sort in PostgreSQL puts \<^verbatim>\<open>NULL\<close> first, and the
  comparison is \<^verbatim>\<open>NULL\<close> for a row with no owner.
\<close>

definition owner_rank :: "string \<Rightarrow> PartitionLease \<Rightarrow> int" where
  "owner_rank owner l = (case pl_OwnerID l of None \<Rightarrow> 0 | Some w \<Rightarrow> if w = owner then 1 else 2)"

definition lease_claim_keys :: "string \<Rightarrow> string \<Rightarrow> duration \<Rightarrow> int \<Rightarrow> ldb \<Rightarrow> int list" where
  "lease_claim_keys pool owner ttl limit d = map pl_PartitionKey (take (nat limit)
     (sort_key (\<lambda>l. (owner_rank owner l, pl_PartitionKey l)) (filter (lease_claimable pool owner ttl d) (ld_leases d))))"

text \<open>An \<^verbatim>\<open>UPDATE ... RETURNING partition_key\<close> on the lease table.\<close>

definition update_leases :: "(PartitionLease \<Rightarrow> bool) \<Rightarrow> (PartitionLease \<Rightarrow> PartitionLease) \<Rightarrow> ldb \<Rightarrow> int list \<times> ldb" where
  "update_leases P f d = (map pl_PartitionKey (filter P (ld_leases d)),
     d\<lparr>ld_leases := map (\<lambda>l. if P l then f l else l) (ld_leases d)\<rparr>)"

definition ClaimPartitions ::
  "int \<Rightarrow> string \<Rightarrow> string \<Rightarrow> duration \<Rightarrow> int \<Rightarrow> ldb \<Rightarrow> (repo_error + int list) \<times> ldb" where
  "ClaimPartitions partitions pool owner ttl limit d =
     (if limit \<le> 0 then (Inr [], d)
      else case ensurePartitionRows partitions pool d of
        (Some e, d1) \<Rightarrow> (Inl e, d1)
      | (None, d1) \<Rightarrow> ld_query ''claim partitions'' (\<lambda>d2.
          let keys = lease_claim_keys pool owner ttl limit d2 in
          update_leases (\<lambda>l. pl_Pool l = pool \<and> pl_PartitionKey l \<in> set keys)
            (\<lambda>l. l\<lparr>pl_OwnerID := Some owner, pl_HeartbeatAt := Some (ld_now d2)\<rparr>) d2) d1)"

definition HeartbeatPartitions :: "string \<Rightarrow> string \<Rightarrow> int list \<Rightarrow> ldb \<Rightarrow> (repo_error + int list) \<times> ldb" where
  "HeartbeatPartitions pool owner ps d =
     (if ps = [] then (Inr [], d)
      else ld_query ''heartbeat partitions'' (\<lambda>d.
        update_leases (\<lambda>l. pl_Pool l = pool \<and> pl_OwnerID l = Some owner \<and> pl_PartitionKey l \<in> set ps)
          (\<lambda>l. l\<lparr>pl_HeartbeatAt := Some (ld_now d)\<rparr>) d) d)"

definition ReleasePartitions :: "string \<Rightarrow> string \<Rightarrow> int list \<Rightarrow> ldb \<Rightarrow> repo_error option \<times> ldb" where
  "ReleasePartitions pool owner ps = ld_command ''release partitions'' (\<lambda>d. snd (
     update_leases (\<lambda>l. pl_Pool l = pool \<and> pl_OwnerID l = Some owner \<and> (ps = [] \<or> pl_PartitionKey l \<in> set ps))
       (\<lambda>l. l\<lparr>pl_OwnerID := None, pl_HeartbeatAt := None\<rparr>) d))"

definition ListPartitionLeases :: "(string \<Rightarrow> 'k::linorder) \<Rightarrow> string \<Rightarrow> ldb \<Rightarrow> (repo_error + PartitionLease list) \<times> ldb" where
  "ListPartitionLeases collate pool = ld_query ''list partition leases'' (\<lambda>d.
     (sort_key (\<lambda>l. (collate (pl_Pool l), pl_PartitionKey l)) (filter (\<lambda>l. pool = [] \<or> pl_Pool l = pool) (ld_leases d)), d))"

section \<open>Named leases\<close>

definition AcquireNamedLease :: "string \<Rightarrow> string \<Rightarrow> duration \<Rightarrow> ldb \<Rightarrow> (repo_error + bool) \<times> ldb" where
  "AcquireNamedLease name owner ttl = ld_query ''acquire named lease'' (\<lambda>d.
     case find (\<lambda>n. nl_Name n = name) (ld_named d) of
       None \<Rightarrow> (True, d\<lparr>ld_named := ld_named d @
          [\<lparr>nl_Name = name, nl_OwnerID = owner, nl_HeartbeatAt = ld_now d, nl_CreatedAt = ld_now d\<rparr>]\<rparr>)
     | Some n \<Rightarrow>
         if nl_OwnerID n = owner \<or> nl_HeartbeatAt n < ld_now d - ttl
         then (True, d\<lparr>ld_named := map (\<lambda>m. if nl_Name m = name
            then m\<lparr>nl_OwnerID := owner, nl_HeartbeatAt := ld_now d\<rparr> else m) (ld_named d)\<rparr>)
         else (False, d))"

definition ReleaseNamedLease :: "string \<Rightarrow> string \<Rightarrow> ldb \<Rightarrow> repo_error option \<times> ldb" where
  "ReleaseNamedLease name owner = ld_command ''release named lease''
     (\<lambda>d. d\<lparr>ld_named := filter (\<lambda>n. \<not> (nl_Name n = name \<and> nl_OwnerID n = owner)) (ld_named d)\<rparr>)"

definition LeaseRepo :: "int \<Rightarrow> ldb LeaseRepository" where
  "LeaseRepo partitions =
     \<lparr>lr_RegisterWorker = RegisterWorker, lr_DeregisterWorker = DeregisterWorker,
      lr_CountLiveWorkers = CountLiveWorkers, lr_ReapDeadWorkers = ReapDeadWorkers,
      lr_ClaimPartitions = ClaimPartitions partitions, lr_HeartbeatPartitions = HeartbeatPartitions,
      lr_ReleasePartitions = ReleasePartitions, lr_AcquireNamedLease = AcquireNamedLease,
      lr_ReleaseNamedLease = ReleaseNamedLease\<rparr>"

section \<open>The table as a map\<close>

text \<open>(pool, partition_key) is the primary key of the lease table, and name that of the named leases.\<close>

definition ldb_inv :: "ldb \<Rightarrow> bool" where
  "ldb_inv d \<longleftrightarrow> distinct (map (\<lambda>l. (pl_Pool l, pl_PartitionKey l)) (ld_leases d)) \<and>
     distinct (map nl_Name (ld_named d)) \<and> distinct (map wk_ID (ld_workers d))"

definition lease_of :: "ldb \<Rightarrow> string \<Rightarrow> int \<Rightarrow> PartitionLease option" where
  "lease_of d pool k = find (\<lambda>l. pl_Pool l = pool \<and> pl_PartitionKey l = k) (ld_leases d)"

definition ld_holder :: "ldb \<Rightarrow> string \<Rightarrow> int \<Rightarrow> string option" where
  "ld_holder d pool k = Option.bind (lease_of d pool k) pl_OwnerID"

lemma ld_exec_frame [simp]:
  "ld_leases (snd (ld_exec d)) = ld_leases d" "ld_named (snd (ld_exec d)) = ld_named d"
  "ld_workers (snd (ld_exec d)) = ld_workers d" "ld_now (snd (ld_exec d)) = ld_now d"
  "ld_busy (snd (ld_exec d)) = ld_busy d"
  by (auto simp: ld_exec_def split: list.splits)

lemma ld_query_eq: "ld_query what f d = (if fst (ld_exec d)
    then (Inr (fst (f (snd (ld_exec d)))), snd (f (snd (ld_exec d)))) else (Inl (DriverError what), snd (ld_exec d)))"
  by (simp add: ld_query_def split: prod.splits)

lemma ld_command_eq: "ld_command what f d = (if fst (ld_exec d) then (None, f (snd (ld_exec d)))
    else (Some (DriverError what), snd (ld_exec d)))"
  by (simp add: ld_command_def split: prod.splits)

lemma lease_of_exec [simp]: "lease_of (snd (ld_exec d)) = lease_of d" "ld_holder (snd (ld_exec d)) = ld_holder d"
  "ldb_inv (snd (ld_exec d)) = ldb_inv d"
  by (simp_all add: fun_eq_iff lease_of_def ld_holder_def ldb_inv_def)

lemma find_map_keep:
  assumes "\<And>l. Q (f l) = Q l"
  shows "find Q (map f xs) = map_option f (find Q xs)"
  using assms by (induction xs) auto

text \<open>An update that keeps the primary key acts pointwise on the map.\<close>

definition keeps_key :: "(PartitionLease \<Rightarrow> PartitionLease) \<Rightarrow> bool" where
  "keeps_key f \<longleftrightarrow> (\<forall>l. pl_Pool (f l) = pl_Pool l \<and> pl_PartitionKey (f l) = pl_PartitionKey l)"

lemma lease_of_update:
  assumes "keeps_key f"
  shows "lease_of (snd (update_leases P f d)) pool k = map_option (\<lambda>l. if P l then f l else l) (lease_of d pool k)"
  using assms unfolding lease_of_def update_leases_def keeps_key_def
  by (simp add: find_map_keep del: map_map)

lemma inv_update_leases:
  assumes "keeps_key f"
  shows "ldb_inv (snd (update_leases P f d)) = ldb_inv d"
proof -
  have "map (\<lambda>l. (pl_Pool l, pl_PartitionKey l)) (ld_leases (snd (update_leases P f d))) =
      map (\<lambda>l. (pl_Pool l, pl_PartitionKey l)) (ld_leases d)"
    using assms by (simp add: keeps_key_def update_leases_def)
  moreover have "ld_named (snd (update_leases P f d)) = ld_named d" "ld_workers (snd (update_leases P f d)) = ld_workers d"
    by (simp_all add: update_leases_def)
  ultimately show ?thesis by (simp only: ldb_inv_def)
qed

lemma lease_of_Some: "lease_of d pool k = Some l \<Longrightarrow> l \<in> set (ld_leases d) \<and> pl_Pool l = pool \<and> pl_PartitionKey l = k"
  by (auto simp: lease_of_def find_Some_iff)

lemma lease_of_iff:
  assumes "ldb_inv d"
  shows "lease_of d pool k = Some l \<longleftrightarrow> l \<in> set (ld_leases d) \<and> pl_Pool l = pool \<and> pl_PartitionKey l = k"
proof
  assume r: "l \<in> set (ld_leases d) \<and> pl_Pool l = pool \<and> pl_PartitionKey l = k"
  then obtain l' where l': "lease_of d pool k = Some l'"
    unfolding lease_of_def by (metis (mono_tags, lifting) find_None_iff not_Some_eq)
  with r lease_of_Some [OF l'] assms have "l' = l" by (auto simp: ldb_inv_def distinct_map inj_on_def)
  with l' show "lease_of d pool k = Some l" by simp
qed (use lease_of_Some in blast)

lemma holder_update:
  assumes "keeps_key f"
  shows "ld_holder (snd (update_leases P f d)) pool k =
    Option.bind (lease_of d pool k) (\<lambda>l. pl_OwnerID (if P l then f l else l))"
  by (simp add: ld_holder_def lease_of_update [OF assms] bind_map_option o_def)

lemma mem_update_keys:
  assumes "ldb_inv d" and P: "\<And>l. P l \<Longrightarrow> pl_Pool l = pool"
  shows "set (fst (update_leases P f d)) = {k. \<exists>l. lease_of d pool k = Some l \<and> P l}"
    and "distinct (fst (update_leases P f d))"
proof -
  show "set (fst (update_leases P f d)) = {k. \<exists>l. lease_of d pool k = Some l \<and> P l}"
    using P by (auto simp: update_leases_def lease_of_iff [OF assms(1)] image_iff)
  show "distinct (fst (update_leases P f d))"
    using assms by (auto simp: update_leases_def ldb_inv_def distinct_map inj_on_def)
qed

lemma find_append: "find Q (xs @ ys) = (case find Q xs of Some x \<Rightarrow> Some x | None \<Rightarrow> find Q ys)"
  by (induction xs) auto

definition missing_rows :: "int \<Rightarrow> string \<Rightarrow> ldb \<Rightarrow> PartitionLease list" where
  "missing_rows n pool d = map (\<lambda>k. lease_row pool k (ld_now d))
     (filter (\<lambda>k. \<not> list_ex (\<lambda>l. pl_Pool l = pool \<and> pl_PartitionKey l = k) (ld_leases d)) [0 .. n - 1])"

lemma ensure_cases:
  obtains "ensurePartitionRows n pool d = (Some (DriverError ''ensure partition lease rows''), snd (ld_exec d))"
  | "ensurePartitionRows n pool d =
      (None, (snd (ld_exec d))\<lparr>ld_leases := ld_leases d @ missing_rows n pool d\<rparr>)"
proof -
  have "ensurePartitionRows n pool d = (if n > 2 ^ 15 \<or> \<not> fst (ld_exec d)
      then (Some (DriverError ''ensure partition lease rows''), snd (ld_exec d))
      else (None, (snd (ld_exec d))\<lparr>ld_leases := ld_leases d @ missing_rows n pool d\<rparr>))"
    by (simp add: ensurePartitionRows_def ld_command_eq missing_rows_def)
  then show thesis using that by (auto split: if_splits)
qed

lemma missing_free: "l \<in> set (missing_rows n pool d) \<Longrightarrow> pl_OwnerID l = None"
  by (auto simp: missing_rows_def lease_row_def)

lemma find_missing_owner: "Option.bind (find Q (missing_rows n pool d)) pl_OwnerID = None"
proof (cases "find Q (missing_rows n pool d)")
  case (Some l)
  then have "l \<in> set (missing_rows n pool d)" by (auto simp: find_Some_iff)
  with Some show ?thesis by (simp add: missing_free)
qed simp

lemma holder_missing: "ld_holder (e\<lparr>ld_leases := ld_leases d @ missing_rows n pool d\<rparr>) = ld_holder d"
  by (simp add: fun_eq_iff ld_holder_def lease_of_def find_append find_missing_owner split: option.splits)

lemma distinct_missing: "distinct (map (\<lambda>l. (pl_Pool l, pl_PartitionKey l)) (missing_rows n pool d))"
  by (simp add: missing_rows_def lease_row_def distinct_map inj_on_def)

lemma inv_missing:
  assumes "ldb_inv d"
  shows "ldb_inv ((snd (ld_exec d))\<lparr>ld_leases := ld_leases d @ missing_rows n pool d\<rparr>)"
proof -
  have "set (map (\<lambda>l. (pl_Pool l, pl_PartitionKey l)) (ld_leases d)) \<inter>
      set (map (\<lambda>l. (pl_Pool l, pl_PartitionKey l)) (missing_rows n pool d)) = {}"
    by (auto simp: missing_rows_def lease_row_def list_ex_iff)
  with assms distinct_missing [of n pool d] show ?thesis by (simp add: ldb_inv_def del: set_map)
qed

lemma ensure_frame:
  assumes "ensurePartitionRows n pool d = (r, d')"
  shows "ld_holder d' = ld_holder d" and "ldb_inv d \<Longrightarrow> ldb_inv d'"
    and "ld_now d' = ld_now d" and "ld_busy d' = ld_busy d" and "ld_named d' = ld_named d"
  by (cases rule: ensure_cases [of n pool d]; use assms inv_missing holder_missing in auto)+
section \<open>The contract holds\<close>

lemma keeps_key_ops [simp]:
  "keeps_key (\<lambda>l. l\<lparr>pl_HeartbeatAt := h\<rparr>)" "keeps_key (\<lambda>l. l\<lparr>pl_OwnerID := w, pl_HeartbeatAt := h\<rparr>)"
  by (simp_all add: keeps_key_def)

lemma holder_heartbeat: "ld_holder (snd (update_leases P (\<lambda>l. l\<lparr>pl_HeartbeatAt := h\<rparr>) d)) = ld_holder d"
proof (intro ext)
  fix pool k
  show "ld_holder (snd (update_leases P (\<lambda>l. l\<lparr>pl_HeartbeatAt := h\<rparr>) d)) pool k = ld_holder d pool k"
    unfolding holder_update [OF keeps_key_ops(1)] by (cases "lease_of d pool k") (simp_all add: ld_holder_def)
qed

lemma HeartbeatPartitions_eq:
  "HeartbeatPartitions pool w ps d =
    (if ps = [] then (Inr [], d) else if fst (ld_exec d) then
       (Inr (fst (update_leases (\<lambda>l. pl_Pool l = pool \<and> pl_OwnerID l = Some w \<and> pl_PartitionKey l \<in> set ps)
          (\<lambda>l. l\<lparr>pl_HeartbeatAt := Some (ld_now d)\<rparr>) (snd (ld_exec d)))),
        snd (update_leases (\<lambda>l. pl_Pool l = pool \<and> pl_OwnerID l = Some w \<and> pl_PartitionKey l \<in> set ps)
          (\<lambda>l. l\<lparr>pl_HeartbeatAt := Some (ld_now d)\<rparr>) (snd (ld_exec d))))
     else (Inl (DriverError ''heartbeat partitions''), snd (ld_exec d)))"
  by (simp add: HeartbeatPartitions_def ld_query_eq)

lemma Heartbeat_contract:
  assumes "ldb_inv d" and "HeartbeatPartitions pool w ps d = (Inr ks, d')"
  shows "set ks = {p \<in> set ps. ld_holder d pool p = Some w} \<and> distinct ks \<and> ld_holder d' = ld_holder d"
proof (cases "ps = []")
  case False
  let ?P = "\<lambda>l. pl_Pool l = pool \<and> pl_OwnerID l = Some w \<and> pl_PartitionKey l \<in> set ps"
  have inv: "ldb_inv (snd (ld_exec d))" using assms(1) by simp
  note m = mem_update_keys [OF inv, of ?P pool "\<lambda>l. l\<lparr>pl_HeartbeatAt := Some (ld_now d)\<rparr>"]
  from False assms(2) have k: "ks = fst (update_leases ?P (\<lambda>l. l\<lparr>pl_HeartbeatAt := Some (ld_now d)\<rparr>) (snd (ld_exec d)))"
    and d': "d' = snd (update_leases ?P (\<lambda>l. l\<lparr>pl_HeartbeatAt := Some (ld_now d)\<rparr>) (snd (ld_exec d)))"
    by (auto simp: HeartbeatPartitions_eq split: if_splits)
  have "set ks = {p \<in> set ps. ld_holder d pool p = Some w}"
    unfolding k m(1) [simplified] by (auto simp: ld_holder_def dest: lease_of_Some split: Option.bind_splits)
  then show ?thesis using m(2) by (simp add: k d' holder_heartbeat)
qed (use assms in \<open>simp add: HeartbeatPartitions_eq\<close>)

lemma claim_rows_free:
  assumes "l \<in> set (ld_leases d)" and "pl_PartitionKey l \<in> set (lease_claim_keys pool w ttl n d)"
    and "ldb_inv d" and "pl_Pool l = pool"
  shows "lease_claimable pool w ttl d l"
proof -
  from assms(2) obtain l' where l': "l' \<in> set (ld_leases d)" "lease_claimable pool w ttl d l'"
      "pl_PartitionKey l' = pl_PartitionKey l"
    by (auto simp: lease_claim_keys_def dest!: in_set_takeD)
  moreover from this have "pl_Pool l' = pool" by (simp add: lease_claimable_def)
  ultimately have "l' = l" using assms by (auto simp: ldb_inv_def distinct_map inj_on_def)
  with l' show ?thesis by simp
qed

lemma ClaimPartitions_cases:
  assumes "ClaimPartitions np pool w ttl n d = (r, d')"
  obtains "n \<le> 0" "r = Inr []" "d' = d"
  | e d1 where "0 < n" "ensurePartitionRows np pool d = (Some e, d1)" "r = Inl e" "d' = d1"
  | d1 where "0 < n" "ensurePartitionRows np pool d = (None, d1)" "r = Inl (DriverError ''claim partitions'')"
      "d' = snd (ld_exec d1)"
  | d1 keys d2 where "0 < n" "ensurePartitionRows np pool d = (None, d1)" "d2 = snd (ld_exec d1)"
      "keys = lease_claim_keys pool w ttl n d2"
      "update_leases (\<lambda>l. pl_Pool l = pool \<and> pl_PartitionKey l \<in> set keys)
        (\<lambda>l. l\<lparr>pl_OwnerID := Some w, pl_HeartbeatAt := Some (ld_now d2)\<rparr>) d2 = (projr r, d')" "r = Inr (projr r)"
  using assms by (cases "ensurePartitionRows np pool d"; cases "fst (ensurePartitionRows np pool d)")
    (auto simp: ClaimPartitions_def ld_query_eq Let_def split: if_splits)

lemma length_claim_keys: "int (length (lease_claim_keys pool w ttl n d)) \<le> max 0 n"
  by (simp add: lease_claim_keys_def)

lemma Claim_contract:
  assumes "ldb_inv d" and "ClaimPartitions np pool w ttl n d = (Inr ks, d')"
  shows "distinct ks \<and> int (length ks) \<le> max 0 n \<and> (\<forall>p\<in>set ks. ld_holder d' pool p = Some w) \<and>
    (\<forall>pool' p. pool' \<noteq> pool \<or> p \<notin> set ks \<longrightarrow> ld_holder d' pool' p = ld_holder d pool' p)"
  using assms(2)
proof (cases rule: ClaimPartitions_cases)
  case (4 d1 keys d2)
  let ?P = "\<lambda>l. pl_Pool l = pool \<and> pl_PartitionKey l \<in> set keys"
  let ?f = "\<lambda>l. l\<lparr>pl_OwnerID := Some w, pl_HeartbeatAt := Some (ld_now d2)\<rparr>"
  have inv: "ldb_inv d2" and h: "ld_holder d2 = ld_holder d" using ensure_frame [OF 4(2)] assms(1) 4(3) by simp_all
  have ks: "ks = fst (update_leases ?P ?f d2)" and d': "d' = snd (update_leases ?P ?f d2)"
    using 4(5,6) assms(2) by (metis fst_conv sum.sel(2), simp)
  note m = mem_update_keys [OF inv, of ?P pool ?f]
  have dk: "distinct ks" and sk: "set ks \<subseteq> set keys" using m by (auto simp: ks dest: lease_of_Some)
  have "length ks \<le> length keys" using dk sk by (metis card_length card_mono distinct_card finite_set order_trans)
  then have "int (length ks) \<le> max 0 n" using length_claim_keys [of pool w ttl n d2] unfolding 4(4) [symmetric] by linarith
  moreover have "\<forall>p\<in>set ks. ld_holder d' pool p = Some w"
    using m(1) by (auto simp: ks d' holder_update)
  moreover have "ld_holder d' pool' p = ld_holder d pool' p" if "pool' \<noteq> pool \<or> p \<notin> set ks" for pool' p
  proof -
    have "\<not> ?P l" if "lease_of d2 pool' p = Some l" for l
      using that \<open>pool' \<noteq> pool \<or> p \<notin> set ks\<close> m(1) lease_of_Some [OF that] by (auto simp: ks)
    then have "ld_holder d' pool' p = ld_holder d2 pool' p"
      unfolding d' holder_update [OF keeps_key_ops(2)] unfolding ld_holder_def
      by (cases "lease_of d2 pool' p") auto
    with h show ?thesis by simp
  qed
  ultimately show ?thesis using dk by blast
qed auto

lemma Claim_error: "ldb_inv d \<Longrightarrow> ClaimPartitions np pool w ttl n d = (Inl e, d') \<Longrightarrow> ld_holder d' = ld_holder d"
  by (erule ClaimPartitions_cases) (auto dest: ensure_frame)

lemma Claim_inv: "ldb_inv d \<Longrightarrow> ClaimPartitions np pool w ttl n d = (r, d') \<Longrightarrow> ldb_inv d'"
proof (erule ClaimPartitions_cases)
  fix d1 keys d2
  assume "ldb_inv d" "ensurePartitionRows np pool d = (None, d1)" "d2 = snd (ld_exec d1)"
    "update_leases (\<lambda>l. pl_Pool l = pool \<and> pl_PartitionKey l \<in> set keys)
        (\<lambda>l. l\<lparr>pl_OwnerID := Some w, pl_HeartbeatAt := Some (ld_now d2)\<rparr>) d2 = (projr r, d')"
  note a = this
  from a(4) have "d' = snd (update_leases (\<lambda>l. pl_Pool l = pool \<and> pl_PartitionKey l \<in> set keys)
      (\<lambda>l. l\<lparr>pl_OwnerID := Some w, pl_HeartbeatAt := Some (ld_now d2)\<rparr>) d2)" by (simp only: snd_conv)
  then show "ldb_inv d'" using ensure_frame(2) [OF a(2)] a(1,3) inv_update_leases [OF keeps_key_ops(2)] by simp
qed (auto dest: ensure_frame)

lemma Release_contract: "ldb_inv d \<Longrightarrow> ReleasePartitions pool w ps d = (None, d') \<Longrightarrow>
    ld_holder d' = (\<lambda>pool' p. if pool' = pool \<and> ld_holder d pool p = Some w \<and> (ps = [] \<or> p \<in> set ps)
      then None else ld_holder d pool' p)"
proof (intro ext)
  fix pool' p
  assume a: "ldb_inv d" "ReleasePartitions pool w ps d = (None, d')"
  let ?P = "\<lambda>l. pl_Pool l = pool \<and> pl_OwnerID l = Some w \<and> (ps = [] \<or> pl_PartitionKey l \<in> set ps)"
  have "d' = snd (update_leases ?P (\<lambda>l. l\<lparr>pl_OwnerID := None, pl_HeartbeatAt := None\<rparr>) (snd (ld_exec d)))"
    using a(2) by (auto simp: ReleasePartitions_def ld_command_eq split: if_splits)
  then have "ld_holder d' pool' p = Option.bind (lease_of d pool' p) (\<lambda>l. if ?P l then None else pl_OwnerID l)"
    unfolding holder_update [OF keeps_key_ops(2)] by (auto simp: holder_update intro!: Option.bind_cong)
  then show "ld_holder d' pool' p = (if pool' = pool \<and> ld_holder d pool p = Some w \<and> (ps = [] \<or> p \<in> set ps)
      then None else ld_holder d pool' p)"
    using lease_of_Some [of d pool' p] by (cases "lease_of d pool' p") (auto simp: ld_holder_def)
qed

lemma ldb_inv_ops:
  assumes "ldb_inv d"
  shows "ldb_inv (snd (HeartbeatPartitions pool w ps d))" "ldb_inv (snd (CountLiveWorkers pool ttl d))"
    "ldb_inv (snd (ReleasePartitions pool w ps d))" "ldb_inv (snd (ClaimPartitions np pool w ttl n d))"
  using assms Claim_inv [OF assms, of np pool w ttl n]
  by (auto simp: HeartbeatPartitions_eq CountLiveWorkers_def ReleasePartitions_def ld_query_eq ld_command_eq inv_update_leases)
     (metis prod.collapse)

interpretation pgl: lease_contract "LeaseRepo np" ld_holder ldb_inv
proof unfold_locales
  fix s s' pool w ps ks
  assume "ldb_inv s" "lr_HeartbeatPartitions (LeaseRepo np) pool w ps s = (Inr ks, s')"
  then show "set ks = {p \<in> set ps. ld_holder s pool p = Some w} \<and> distinct ks \<and> ld_holder s' = ld_holder s"
    using Heartbeat_contract by (simp add: LeaseRepo_def)
next
  fix s s' pool w ttl n ks
  assume "ldb_inv s" "lr_ClaimPartitions (LeaseRepo np) pool w ttl n s = (Inr ks, s')"
  then show "distinct ks \<and> int (length ks) \<le> max 0 n \<and> (\<forall>p\<in>set ks. ld_holder s' pool p = Some w) \<and>
      (\<forall>pool' p. pool' \<noteq> pool \<or> p \<notin> set ks \<longrightarrow> ld_holder s' pool' p = ld_holder s pool' p)"
    using Claim_contract by (simp add: LeaseRepo_def)
qed (auto simp: LeaseRepo_def HeartbeatPartitions_eq CountLiveWorkers_def ReleasePartitions_def ld_query_eq ld_command_eq
    ldb_inv_ops Release_contract inv_update_leases holder_heartbeat intro: Claim_error split: if_splits)
section \<open>Runs of lease statements\<close>

datatype lease_op =
    LsClaim string string duration int
  | LsHeartbeat string string "int list"
  | LsRelease string string "int list"
  | LsAcquire string string duration
  | LsDrop string string
  | LsRegister Worker
  | LsDeregister string
  | LsReap duration
  | LsTick nat
  | LsBusy "(string \<times> int) list"

fun lease_step :: "int \<Rightarrow> ldb \<Rightarrow> lease_op \<Rightarrow> ldb" where
  "lease_step np d (LsClaim pool w ttl n) = snd (ClaimPartitions np pool w ttl n d)"
| "lease_step np d (LsHeartbeat pool w ps) = snd (HeartbeatPartitions pool w ps d)"
| "lease_step np d (LsRelease pool w ps) = snd (ReleasePartitions pool w ps d)"
| "lease_step np d (LsAcquire name w ttl) = snd (AcquireNamedLease name w ttl d)"
| "lease_step np d (LsDrop name w) = snd (ReleaseNamedLease name w d)"
| "lease_step np d (LsRegister w) = snd (RegisterWorker w d)"
| "lease_step np d (LsDeregister i) = snd (DeregisterWorker i d)"
| "lease_step np d (LsReap ttl) = snd (ReapDeadWorkers ttl d)"
| "lease_step np d (LsTick n) = d\<lparr>ld_now := ld_now d + int n\<rparr>"
| "lease_step np d (LsBusy b) = d\<lparr>ld_busy := b\<rparr>"

definition lease_run :: "int \<Rightarrow> ldb \<Rightarrow> lease_op list \<Rightarrow> ldb" where
  "lease_run np = foldl (lease_step np)"

text \<open>Every claim of the pool uses at least this ttl, and the worker does not release the pool.\<close>

fun keeps_lease :: "string \<Rightarrow> string \<Rightarrow> duration \<Rightarrow> lease_op \<Rightarrow> bool" where
  "keeps_lease pool w ttl (LsClaim pool' w' ttl' n) = (pool' = pool \<longrightarrow> ttl \<le> ttl')"
| "keeps_lease pool w ttl (LsRelease pool' w' ps) = (pool' = pool \<longrightarrow> w' \<noteq> w)"
| "keeps_lease pool w ttl _ = True"

fun keeps_name :: "string \<Rightarrow> string \<Rightarrow> duration \<Rightarrow> lease_op \<Rightarrow> bool" where
  "keeps_name name w ttl (LsAcquire name' w' ttl') = (name' = name \<longrightarrow> ttl \<le> ttl')"
| "keeps_name name w ttl (LsDrop name' w') = (name' = name \<longrightarrow> w' \<noteq> w)"
| "keeps_name name w ttl _ = True"

lemma now_update [simp]: "ld_now (snd (update_leases P f d)) = ld_now d" "ld_named (snd (update_leases P f d)) = ld_named d"
  by (simp_all add: update_leases_def)

lemma Claim_frame:
  assumes "ClaimPartitions np pool w ttl n d = (r, d')"
  shows "ld_now d' = ld_now d" and "ld_named d' = ld_named d"
proof -
  have "ld_now d' = ld_now d \<and> ld_named d' = ld_named d"
    using assms
  proof (cases rule: ClaimPartitions_cases)
    case (4 d1 keys d2)
    then have "d' = snd (update_leases (\<lambda>l. pl_Pool l = pool \<and> pl_PartitionKey l \<in> set keys)
        (\<lambda>l. l\<lparr>pl_OwnerID := Some w, pl_HeartbeatAt := Some (ld_now d2)\<rparr>) d2)" by (metis snd_conv)
    with 4 show ?thesis using ensure_frame [OF 4(2)] by simp
  qed (auto dest: ensure_frame)
  then show "ld_now d' = ld_now d" "ld_named d' = ld_named d" by simp_all
qed

lemma lease_step_now: "ld_now d \<le> ld_now (lease_step np d op)"
  by (cases op)
    (auto simp: HeartbeatPartitions_eq ReleasePartitions_def AcquireNamedLease_def ReleaseNamedLease_def RegisterWorker_def
      DeregisterWorker_def ReapDeadWorkers_def Let_def ld_query_eq ld_command_eq Claim_frame [OF prod.collapse [symmetric]]
      split: option.splits)

lemma lease_run_now: "ld_now d \<le> ld_now (lease_run np d ops)"
  unfolding lease_run_def
proof (induction ops arbitrary: d)
  case (Cons op ops)
  then show ?case using lease_step_now [of d np op] by (auto intro: order_trans)
qed simp

section \<open>Leases are exclusive\<close>

definition held :: "ldb \<Rightarrow> string \<Rightarrow> int \<Rightarrow> string \<Rightarrow> time \<Rightarrow> bool" where
  "held d pool k w h \<longleftrightarrow> (\<exists>l h'. lease_of d pool k = Some l \<and> pl_OwnerID l = Some w \<and> pl_HeartbeatAt l = Some h' \<and> h \<le> h')"

lemma ensure_lease_of:
  assumes "ensurePartitionRows n pool' d = (r, d')" and "lease_of d pool k = Some l"
  shows "lease_of d' pool k = Some l"
  by (cases rule: ensure_cases [of n pool' d]) (use assms in \<open>auto simp: lease_of_def find_append\<close>)

lemma Claim_held:
  assumes "ldb_inv d" "held d pool k w h" "w \<noteq> []" "h \<le> ld_now d"
    and "pool' = pool \<longrightarrow> ld_now d - ttl \<le> h"
  shows "held (snd (ClaimPartitions np pool' w' ttl n d)) pool k w h"
proof -
  obtain l h' where l: "lease_of d pool k = Some l" "pl_OwnerID l = Some w" "pl_HeartbeatAt l = Some h'" "h \<le> h'"
    using assms(2) by (auto simp: held_def)
  obtain r d' where c: "ClaimPartitions np pool' w' ttl n d = (r, d')" by fastforce
  then show ?thesis
  proof (cases rule: ClaimPartitions_cases)
    case (4 d1 keys d2)
    let ?P = "\<lambda>l. pl_Pool l = pool' \<and> pl_PartitionKey l \<in> set keys"
    let ?f = "\<lambda>l. l\<lparr>pl_OwnerID := Some w', pl_HeartbeatAt := Some (ld_now d2)\<rparr>"
    have d2: "lease_of d2 pool k = Some l" "ldb_inv d2" "ld_now d2 = ld_now d"
      using ensure_lease_of [OF 4(2) l(1)] ensure_frame [OF 4(2)] assms(1) 4(3) by simp_all
    have "w' = w" if "?P l"
    proof -
      have "lease_claimable pool' w' ttl d2 l"
        using claim_rows_free [of l d2 pool' w' ttl n] that d2 4(4) lease_of_Some [OF d2(1)] by blast
      then show ?thesis using l assms(3,5) that d2 lease_of_Some [OF d2(1)] by (auto simp: lease_claimable_def)
    qed
    moreover have "lease_of d' pool k = Some (if ?P l then ?f l else l)"
      using lease_of_update [of ?f ?P d2 pool k] 4(5) d2(1) by (metis keeps_key_ops(2) option.simps(9) snd_conv)
    ultimately show ?thesis using l assms(4) d2(3) c by (auto simp: held_def split: if_splits)
  qed (use c l ensure_lease_of in \<open>auto simp: held_def\<close>)
qed

lemma held_leases: "ld_leases d' = ld_leases d \<Longrightarrow> held d' pool k w h = held d pool k w h"
  by (simp add: held_def lease_of_def)

lemma held_update:
  assumes "held d pool k w h" and "keeps_key f"
    and "\<And>l. P l \<Longrightarrow> pl_Pool l = pool \<Longrightarrow> pl_OwnerID l = Some w \<Longrightarrow>
      pl_OwnerID (f l) = Some w \<and> (\<exists>h'. pl_HeartbeatAt (f l) = Some h' \<and> h \<le> h')"
  shows "held (snd (update_leases P f d)) pool k w h"
proof -
  obtain l h' where l: "lease_of d pool k = Some l" "pl_OwnerID l = Some w" "pl_HeartbeatAt l = Some h'" "h \<le> h'"
    using assms(1) by (auto simp: held_def)
  then show ?thesis using assms(3) [of l] lease_of_Some [OF l(1)]
    by (cases "P l") (auto simp: held_def lease_of_update [OF assms(2)])
qed

definition touches_leases :: "lease_op \<Rightarrow> bool" where
  "touches_leases op = (case op of LsClaim _ _ _ _ \<Rightarrow> True | LsHeartbeat _ _ _ \<Rightarrow> True | LsRelease _ _ _ \<Rightarrow> True | _ \<Rightarrow> False)"

lemma other_leases: "\<not> touches_leases op \<Longrightarrow> ld_leases (lease_step np d op) = ld_leases d"
  by (cases op) (auto simp: touches_leases_def AcquireNamedLease_def ReleaseNamedLease_def RegisterWorker_def
      DeregisterWorker_def ReapDeadWorkers_def Let_def ld_query_eq ld_command_eq split: option.splits)

lemma held_step:
  assumes "ldb_inv d" "held d pool k w h" "w \<noteq> []" "h \<le> ld_now d"
    and "keeps_lease pool w ttl op" and "ld_now d \<le> h + ttl"
  shows "held (lease_step np d op) pool k w h"
proof (cases op)
  case (LsClaim pool' w' ttl' n)
  then show ?thesis using assms Claim_held [of d pool k w h pool' ttl' np w' n] by auto
next
  case (LsHeartbeat pool' w' ps)
  moreover have "held (snd (ld_exec d)) pool k w h" using assms(2) held_leases [of "snd (ld_exec d)" d] by simp
  ultimately show ?thesis using assms(2,4) by (auto simp: HeartbeatPartitions_eq intro!: held_update)
next
  case (LsRelease pool' w' ps)
  moreover have "held (snd (ld_exec d)) pool k w h" using assms(2) held_leases [of "snd (ld_exec d)" d] by simp
  ultimately show ?thesis using assms(5) by (auto simp: ReleasePartitions_def ld_command_eq intro!: held_update)
qed (use assms(2) held_leases [OF other_leases, of op np d pool k w h] in
    \<open>simp_all add: touches_leases_def del: lease_step.simps\<close>)

lemma map_upd_named: "map nl_Name (map (\<lambda>m. if nl_Name m = name then m\<lparr>nl_OwnerID := w, nl_HeartbeatAt := t\<rparr> else m) xs) =
    map nl_Name xs"
  by simp

lemma map_upd_workers: "map wk_ID (map (\<lambda>v. if wk_ID v = i
    then v\<lparr>wk_Pools := p, wk_Version := s, wk_HeartbeatAt := t\<rparr> else v) xs) = map wk_ID xs"
  by simp

lemma inv_other_tables:
  "ldb_inv d \<Longrightarrow> ldb_inv (snd (AcquireNamedLease name w ttl d))"
  "ldb_inv d \<Longrightarrow> ldb_inv (snd (ReleaseNamedLease name w d))"
  "ldb_inv d \<Longrightarrow> ldb_inv (snd (RegisterWorker v d))"
  "ldb_inv d \<Longrightarrow> ldb_inv (snd (DeregisterWorker i d))"
  "ldb_inv d \<Longrightarrow> ldb_inv (snd (ReapDeadWorkers ttl d))"
      apply (auto simp: AcquireNamedLease_def ld_query_eq ldb_inv_def find_None_iff map_upd_named simp del: map_map
        split: option.splits)[1]
     apply (auto simp: ReleaseNamedLease_def ld_command_eq ldb_inv_def distinct_map_filter)[1]
    apply (auto simp: RegisterWorker_def ld_command_eq ldb_inv_def list_ex_iff map_upd_workers simp del: map_map)[1]
   apply (auto simp: DeregisterWorker_def ld_command_eq ldb_inv_def distinct_map_filter)[1]
  apply (auto simp: ReapDeadWorkers_def Let_def ld_query_eq ldb_inv_def distinct_map_filter)[1]
  done

lemma lease_step_inv: "ldb_inv d \<Longrightarrow> ldb_inv (lease_step np d op)"
proof (cases op)
  case (LsTick n) then show "ldb_inv d \<Longrightarrow> ?thesis" by (simp add: ldb_inv_def)
next
  case (LsBusy b) then show "ldb_inv d \<Longrightarrow> ?thesis" by (simp add: ldb_inv_def)
qed (simp_all add: ldb_inv_ops inv_other_tables)

lemma held_run:
  assumes "ldb_inv d" "held d pool k w h" "w \<noteq> []" "h \<le> ld_now d"
    and "\<forall>op\<in>set ops. keeps_lease pool w ttl op" and "ld_now (lease_run np d ops) \<le> h + ttl"
  shows "held (lease_run np d ops) pool k w h"
  using assms
proof (induction ops arbitrary: d)
  case (Cons op ops)
  have e: "lease_run np d (op # ops) = lease_run np (lease_step np d op) ops" by (simp add: lease_run_def)
  have now: "ld_now d \<le> ld_now (lease_step np d op)" "ld_now (lease_step np d op) \<le> h + ttl"
    using lease_step_now [of d np op] lease_run_now [of "lease_step np d op" np ops] Cons.prems(6) by (simp_all add: e)
  have "held (lease_step np d op) pool k w h" using held_step [of d pool k w h ttl op np] Cons.prems now by simp
  then show ?case using Cons.IH [of "lease_step np d op"] Cons.prems now lease_step_inv [of d np op] by (simp add: e)
qed (simp add: lease_run_def)

text \<open>
  C28: a live partition lease is not taken. From a heartbeat at time \<open>h\<close> until \<open>h + ttl\<close>, whatever
  statements any workers run in any order and with any database failures, the lease stays with its
  owner, as long as the owner does not release it and every claim of the pool uses at least that ttl.
\<close>
theorem lease_exclusive:
  assumes "ldb_inv d" and "lease_of d pool k = Some l" and "pl_OwnerID l = Some w" and "w \<noteq> []"
    and "pl_HeartbeatAt l = Some h" and "h \<le> ld_now d"
    and "\<forall>op\<in>set ops. keeps_lease pool w ttl op" and "ld_now (lease_run np d ops) \<le> h + ttl"
  shows "ld_holder (lease_run np d ops) pool k = Some w"
proof -
  have "held d pool k w h" using assms(2,3,5) by (simp add: held_def)
  from held_run [OF assms(1) this assms(4,6,7,8)] show ?thesis by (auto simp: held_def ld_holder_def)
qed

section \<open>Named leases are exclusive\<close>

definition named_held :: "ldb \<Rightarrow> string \<Rightarrow> string \<Rightarrow> time \<Rightarrow> bool" where
  "named_held d name w h \<longleftrightarrow>
     (\<exists>n. find (\<lambda>n. nl_Name n = name) (ld_named d) = Some n \<and> nl_OwnerID n = w \<and> h \<le> nl_HeartbeatAt n)"

lemma named_held_cong: "ld_named d' = ld_named d \<Longrightarrow> named_held d' name w h = named_held d name w h"
  by (simp add: named_held_def)

lemma other_named: "(case op of LsAcquire _ _ _ \<Rightarrow> False | LsDrop _ _ \<Rightarrow> False | _ \<Rightarrow> True) \<Longrightarrow>
    ld_named (lease_step np d op) = ld_named d"
  by (cases op) (auto simp: HeartbeatPartitions_eq ReleasePartitions_def RegisterWorker_def DeregisterWorker_def
      ReapDeadWorkers_def Let_def ld_query_eq ld_command_eq Claim_frame [OF prod.collapse [symmetric]])

lemma find_filter_keep: "find P xs = Some x \<Longrightarrow> Q x \<Longrightarrow> find P (filter Q xs) = Some x"
  if "\<And>y. y \<in> set xs \<Longrightarrow> P y \<Longrightarrow> y = x"
  using that by (induction xs) (auto split: if_splits)

lemma find_map_named:
  "find (\<lambda>n. nl_Name n = name) (map (\<lambda>m. if nl_Name m = name' then m\<lparr>nl_OwnerID := w, nl_HeartbeatAt := t\<rparr> else m) xs) =
   map_option (\<lambda>m. if nl_Name m = name' then m\<lparr>nl_OwnerID := w, nl_HeartbeatAt := t\<rparr> else m) (find (\<lambda>n. nl_Name n = name) xs)"
  by (rule find_map_keep) auto

lemma find_prop: "find P xs = Some x \<Longrightarrow> P x \<and> x \<in> set xs"
  by (auto simp: find_Some_iff)

lemma named_Acquire:
  assumes "named_held d name w h" and "h \<le> ld_now d" and "name' = name \<Longrightarrow> ld_now d \<le> h + ttl'"
  shows "named_held (snd (AcquireNamedLease name' w' ttl' d)) name w h"
    and "name' = name \<Longrightarrow> fst (AcquireNamedLease name' w' ttl' d) = Inr True \<Longrightarrow> w' = w"
proof -
  obtain n where n: "find (\<lambda>n. nl_Name n = name) (ld_named d) = Some n" "nl_OwnerID n = w" "h \<le> nl_HeartbeatAt n"
    using assms(1) by (auto simp: named_held_def)
  have nn: "nl_Name n = name" using find_prop [OF n(1)] by simp
  show "name' = name \<Longrightarrow> fst (AcquireNamedLease name' w' ttl' d) = Inr True \<Longrightarrow> w' = w"
    using n assms(3) by (auto simp: AcquireNamedLease_def ld_query_eq split: if_splits)
  show "named_held (snd (AcquireNamedLease name' w' ttl' d)) name w h"
  proof (cases "name' = name")
    case True
    then show ?thesis using n nn assms by (auto simp: AcquireNamedLease_def ld_query_eq named_held_def find_map_named)
  next
    case False
    then show ?thesis using n nn
      by (auto simp: AcquireNamedLease_def ld_query_eq named_held_def find_map_named find_append split: option.splits)
  qed
qed

lemma named_step:
  assumes "ldb_inv d" "named_held d name w h" "h \<le> ld_now d" "ld_now d \<le> h + ttl" "keeps_name name w ttl op"
  shows "named_held (lease_step np d op) name w h"
proof (cases op)
  case (LsAcquire name' w' ttl')
  then show ?thesis using assms by (auto intro!: named_Acquire(1))
next
  case (LsDrop name' w')
  obtain n where n: "find (\<lambda>n. nl_Name n = name) (ld_named d) = Some n" "nl_OwnerID n = w" "h \<le> nl_HeartbeatAt n"
    using assms(2) by (auto simp: named_held_def)
  have "find (\<lambda>n. nl_Name n = name) (filter (\<lambda>n. \<not> (nl_Name n = name' \<and> nl_OwnerID n = w')) (ld_named d)) = Some n"
    using n find_prop [OF n(1)] assms(1,5) LsDrop
    by (intro find_filter_keep) (auto simp: ldb_inv_def distinct_map inj_on_def)
  with LsDrop n assms(2) show ?thesis by (auto simp: ReleaseNamedLease_def ld_command_eq named_held_def)
qed (use assms(2) named_held_cong [OF other_named, of op np d name w h] in \<open>simp_all del: lease_step.simps\<close>)

lemma named_run:
  assumes "ldb_inv d" "named_held d name w h" "h \<le> ld_now d"
    and "\<forall>op\<in>set ops. keeps_name name w ttl op" and "ld_now (lease_run np d ops) \<le> h + ttl"
  shows "named_held (lease_run np d ops) name w h"
  using assms
proof (induction ops arbitrary: d)
  case (Cons op ops)
  have e: "lease_run np d (op # ops) = lease_run np (lease_step np d op) ops" by (simp add: lease_run_def)
  have now: "ld_now d \<le> ld_now (lease_step np d op)" "ld_now (lease_step np d op) \<le> h + ttl"
    using lease_step_now [of d np op] lease_run_now [of "lease_step np d op" np ops] Cons.prems(5) by (simp_all add: e)
  have "named_held (lease_step np d op) name w h" using named_step [of d name w h ttl op np] Cons.prems now by simp
  then show ?case using Cons.IH [of "lease_step np d op"] Cons.prems now lease_step_inv [of d np op] by (simp add: e)
qed (simp add: lease_run_def)

lemma named_Acquire_held: "AcquireNamedLease name w ttl d = (Inr True, d') \<Longrightarrow> named_held d' name w (ld_now d) \<and> ld_now d' = ld_now d"
  by (cases "find (\<lambda>n. nl_Name n = name) (ld_named d)")
    (auto simp: AcquireNamedLease_def ld_query_eq named_held_def find_map_named find_append
      dest: find_prop split: if_splits)

text \<open>
  One leader. After a process takes a named lease, no other process gets it while the ttl has
  not run out, whatever statements are run in between, unless the holder drops it.
\<close>
theorem named_lease_exclusive:
  assumes "ldb_inv d" and "AcquireNamedLease name w ttl d = (Inr True, d')"
    and "\<forall>op\<in>set ops. keeps_name name w ttl op" and "ld_now (lease_run np d' ops) \<le> ld_now d + ttl"
    and "AcquireNamedLease name w' ttl (lease_run np d' ops) = (Inr True, d'')"
  shows "w' = w"
proof -
  note h = named_Acquire_held [OF assms(2)]
  have "ldb_inv d'" using inv_other_tables(1) [OF assms(1), of name w ttl] assms(2) by simp
  then have "named_held (lease_run np d' ops) name w (ld_now d)"
    using named_run [of d' name w "ld_now d" ops ttl np] h assms(3,4) by simp
  with named_Acquire(2) [OF this, of name ttl w'] lease_run_now [of d' np ops] h assms(4,5) show ?thesis by simp
qed

section \<open>Witnesses\<close>

definition demo_ldb :: ldb where
  "demo_ldb = \<lparr>ld_workers = [], ld_leases = [\<lparr>pl_PartitionKey = 0, pl_Pool = ''default'', pl_OwnerID = Some ''A'',
     pl_HeartbeatAt = Some 100, pl_CreatedAt = 0\<rparr>, lease_row ''default'' 1 0, lease_row ''default'' 2 0],
     ld_named = [], ld_now = 100, ld_busy = [], ld_faults = []\<rparr>"

lemma demo_ldb_inv: "ldb_inv demo_ldb"
  by (simp add: ldb_inv_def demo_ldb_def lease_row_def)

theorem lease_exclusive_witness:
  "ld_holder (lease_run 3 demo_ldb [LsTick 20, LsClaim ''default'' ''B'' 30 3, LsTick 10]) ''default'' 0 = Some ''A''"
proof -
  have "ld_now (lease_run 3 demo_ldb [LsTick 20, LsClaim ''default'' ''B'' 30 3, LsTick 10]) \<le> 130"
    by (simp add: lease_run_def Claim_frame [OF prod.collapse [symmetric]] demo_ldb_def)
  then show ?thesis
    using lease_exclusive [OF demo_ldb_inv, of "''default''" 0 _ "''A''" 100
        "[LsTick 20, LsClaim ''default'' ''B'' 30 3, LsTick 10]" 30 3]
    by (simp add: lease_of_def demo_ldb_def)
qed

theorem named_lease_exclusive_witness:
  "fst (AcquireNamedLease ''maintenance'' ''B'' 30
     (lease_run 3 (snd (AcquireNamedLease ''maintenance'' ''A'' 30 demo_ldb)) [LsTick 20])) \<noteq> Inr True"
proof
  let ?d = "snd (AcquireNamedLease ''maintenance'' ''A'' 30 demo_ldb)"
  assume b: "fst (AcquireNamedLease ''maintenance'' ''B'' 30 (lease_run 3 ?d [LsTick 20])) = Inr True"
  have a: "AcquireNamedLease ''maintenance'' ''A'' 30 demo_ldb = (Inr True, ?d)" "ld_now ?d = 100"
    by (simp_all add: AcquireNamedLease_def ld_query_eq ld_exec_def demo_ldb_def)
  have "''B'' = ''A''"
    using named_lease_exclusive [OF demo_ldb_inv a(1), of "[LsTick 20]" 3 "''B''"] a(2) b
    by (cases "AcquireNamedLease ''maintenance'' ''B'' 30 (lease_run 3 ?d [LsTick 20])")
      (simp add: lease_run_def demo_ldb_def)
  then show False by simp
qed

end
