(* ===== verification/Lease_Manager.thy ===== *)
theory Lease_Manager
  imports Lease_Repo Utils
begin

text \<open>
  \<^verbatim>\<open>internal/application/dispatch/partitions.go\<close> and \<^verbatim>\<open>lease_manager.go\<close>: the partition sources the
  engine reads and the loop that keeps a worker's fair share of partitions leased. The lease
  repository is a record of operations over a state; what the loop relies on is \<open>lease_contract\<close>.
\<close>

section \<open>Partition sources\<close>

record StaticPartitions =
  sp_partitions :: "int list"

definition NewStaticPartitions :: StaticPartitions where
  "NewStaticPartitions = \<lparr>sp_partitions = map wrap16 [0 .. QueuePartitions - 1]\<rparr>"

definition StaticPartitions_Partitions :: "StaticPartitions \<Rightarrow> int list" where
  "StaticPartitions_Partitions s = sp_partitions s"

record AtomicPartitions =
  ap_value :: "int list option"

definition NewAtomicPartitions :: AtomicPartitions where
  "NewAtomicPartitions = \<lparr>ap_value = Some []\<rparr>"

definition AtomicPartitions_Store :: "int list \<Rightarrow> AtomicPartitions \<Rightarrow> AtomicPartitions" where
  "AtomicPartitions_Store ps a = a\<lparr>ap_value := Some ps\<rparr>"

definition AtomicPartitions_Partitions :: "AtomicPartitions \<Rightarrow> int list" where
  "AtomicPartitions_Partitions a = (case ap_value a of Some ps \<Rightarrow> ps | None \<Rightarrow> [])"

section \<open>The manager\<close>

record LeaseManagerOptions =
  lmo_WorkerID :: string
  lmo_Pool :: string
  lmo_Partitions :: int
  lmo_TTL :: duration
  lmo_Heartbeat :: duration

text \<open>\<open>lm_ownedGauge\<close> is \<open>None\<close> for a nil gauge, else the value it shows.\<close>

record LeaseManager =
  lm_ownedPartitions :: AtomicPartitions
  lm_ownedGauge :: "int option"
  lm_opts :: LeaseManagerOptions

definition lease_defaults :: "LeaseManagerOptions \<Rightarrow> LeaseManagerOptions" where
  "lease_defaults opts =
    (let opts = (if lmo_Pool opts = [] then opts\<lparr>lmo_Pool := ''default''\<rparr> else opts);
         opts = (if lmo_Partitions opts \<le> 0 then opts\<lparr>lmo_Partitions := QueuePartitions\<rparr> else opts);
         opts = (if lmo_Heartbeat opts \<le> 0 then opts\<lparr>lmo_Heartbeat := 5 * Second\<rparr> else opts);
         opts = (if lmo_TTL opts \<le> lmo_Heartbeat opts then opts\<lparr>lmo_TTL := wrap64 (3 * lmo_Heartbeat opts)\<rparr> else opts)
     in opts)"

definition NewLeaseManager :: "bool \<Rightarrow> int option \<Rightarrow> LeaseManagerOptions \<Rightarrow> string + LeaseManager" where
  "NewLeaseManager hasRepo gauge opts =
     (if \<not> hasRepo then Inl ''dispatch: a lease repository is required''
      else if lmo_WorkerID opts = [] then Inl ''dispatch: a worker id is required to lease partitions''
      else Inr \<lparr>lm_ownedPartitions = NewAtomicPartitions, lm_ownedGauge = gauge, lm_opts = lease_defaults opts\<rparr>)"

definition Owned :: "LeaseManager \<Rightarrow> int list" where
  "Owned m = AtomicPartitions_Partitions (lm_ownedPartitions m)"

text \<open>\<^verbatim>\<open>fairShare\<close> rounds up; the sum cannot overflow for counts a process can have.\<close>

definition fairShare :: "int \<Rightarrow> int \<Rightarrow> int" where
  "fairShare partitions workers = (if workers \<le> 0 then partitions else go_div (partitions + workers - 1) workers)"

definition lm_store :: "int list \<Rightarrow> LeaseManager \<Rightarrow> LeaseManager" where
  "lm_store ps m = m\<lparr>lm_ownedPartitions := AtomicPartitions_Store (Unique ps) (lm_ownedPartitions m)\<rparr>"

definition set_gauge :: "LeaseManager \<Rightarrow> LeaseManager" where
  "set_gauge m = m\<lparr>lm_ownedGauge := map_option (\<lambda>_. int (length (Owned m))) (lm_ownedGauge m)\<rparr>"

text \<open>Shedding and claiming, the \<^verbatim>\<open>switch\<close> of \<^verbatim>\<open>rebalance\<close>.\<close>

definition rebalance_share ::
  "'l LeaseRepository \<Rightarrow> int list \<Rightarrow> int \<Rightarrow> LeaseManager \<Rightarrow> 'l \<Rightarrow> LeaseManager \<times> 'l" where
  "rebalance_share R owned share m s =
    (let opts = lm_opts m in
     if int (length owned) > share then
       (case lr_ReleasePartitions R (lmo_Pool opts) (lmo_WorkerID opts) (drop (nat share) owned) s of
          (Some e, s1) \<Rightarrow> (m, s1)
        | (None, s1) \<Rightarrow> (set_gauge (lm_store (take (nat share) owned) m), s1))
     else if int (length owned) < share then
       (case lr_ClaimPartitions R (lmo_Pool opts) (lmo_WorkerID opts) (lmo_TTL opts) share s of
          (Inl e, s1) \<Rightarrow> (m, s1)
        | (Inr claimed, s1) \<Rightarrow> (set_gauge (lm_store claimed m), s1))
     else (set_gauge m, s))"

definition rebalance_rest :: "'l LeaseRepository \<Rightarrow> int list \<Rightarrow> LeaseManager \<Rightarrow> 'l \<Rightarrow> LeaseManager \<times> 'l" where
  "rebalance_rest R owned m s =
    (case lr_CountLiveWorkers R (lmo_Pool (lm_opts m)) (lmo_TTL (lm_opts m)) s of
       (Inl e, s1) \<Rightarrow> (m, s1)
     | (Inr workers, s1) \<Rightarrow> rebalance_share R owned (fairShare (lmo_Partitions (lm_opts m)) (max workers 1)) m s1)"

definition rebalance :: "'l LeaseRepository \<Rightarrow> LeaseManager \<Rightarrow> 'l \<Rightarrow> LeaseManager \<times> 'l" where
  "rebalance R m s =
    (let owned = Owned m; opts = lm_opts m in
     if owned = [] then rebalance_rest R owned m s
     else case lr_HeartbeatPartitions R (lmo_Pool opts) (lmo_WorkerID opts) owned s of
       (Inl e, s1) \<Rightarrow> (m, s1)
     | (Inr kept, s1) \<Rightarrow> rebalance_rest R kept (lm_store kept m) s1)"

definition lm_release :: "'l LeaseRepository \<Rightarrow> LeaseManager \<Rightarrow> 'l \<Rightarrow> LeaseManager \<times> 'l" where
  "lm_release R m s =
    (let s1 = snd (lr_ReleasePartitions R (lmo_Pool (lm_opts m)) (lmo_WorkerID (lm_opts m)) [] s);
         m1 = lm_store [] m
     in (m1\<lparr>lm_ownedGauge := map_option (\<lambda>_. 0) (lm_ownedGauge m1)\<rparr>, s1))"

text \<open>
  \<^verbatim>\<open>Run\<close>: one rebalance at once, one per tick, and a release when the context ends. What the other
  workers do to the database between ticks is an argument, one function per tick.
\<close>

fun lm_ticks :: "'l LeaseRepository \<Rightarrow> ('l \<Rightarrow> 'l) list \<Rightarrow> LeaseManager \<Rightarrow> 'l \<Rightarrow> LeaseManager \<times> 'l" where
  "lm_ticks R [] m s = (m, s)"
| "lm_ticks R (f # fs) m s = (case rebalance R m (f s) of (m1, s1) \<Rightarrow> lm_ticks R fs m1 s1)"

definition lm_Run :: "'l LeaseRepository \<Rightarrow> ('l \<Rightarrow> 'l) list \<Rightarrow> LeaseManager \<Rightarrow> 'l \<Rightarrow> LeaseManager \<times> 'l" where
  "lm_Run R fs m s = (case lm_ticks R ((\<lambda>s. s) # fs) m s of (m1, s1) \<Rightarrow> lm_release R m1 s1)"

section \<open>Fair share\<close>

lemma fairShare_ceil:
  assumes "0 \<le> partitions" and "1 \<le> workers"
  shows "fairShare partitions workers = (partitions + workers - 1) div workers"
  using assms by (cases "partitions + workers - 1 = 0") (auto simp: fairShare_def go_div_def)

text \<open>
  The fair share is the ceiling. Workers that each hold their share cover every partition, and
  one partition less each would not.
\<close>
theorem fairShare_covers:
  assumes "0 \<le> partitions" and "1 \<le> workers"
  shows "partitions \<le> workers * fairShare partitions workers \<and>
    (0 < partitions \<longrightarrow> workers * (fairShare partitions workers - 1) < partitions)"
proof -
  define a q r where aqr: "a = partitions + workers - 1" "q = a div workers" "r = a mod workers"
  have "a = workers * q + r" "0 \<le> r" "r < workers" using assms by (simp_all add: aqr)
  moreover have "fairShare partitions workers = q" using assms by (simp add: fairShare_ceil aqr)
  ultimately show ?thesis using aqr(1) by (simp add: algebra_simps)
qed

theorem fairShare_covers_witness: "256 \<le> 3 * fairShare 256 3 \<and> fairShare 256 3 = 86"
  using fairShare_covers [of 256 3] by (simp add: fairShare_def go_div_def)

section \<open>Rebalancing against the contract\<close>

lemma Owned_store [simp]: "Owned (lm_store ps m) = Unique ps" "lm_opts (lm_store ps m) = lm_opts m"
  by (simp_all add: Owned_def lm_store_def AtomicPartitions_Store_def AtomicPartitions_Partitions_def)

lemma Owned_gauge [simp]: "Owned (set_gauge m) = Owned m" "lm_opts (set_gauge m) = lm_opts m"
  by (simp_all add: set_gauge_def Owned_def)

context lease_contract
begin

lemma share_held:
  assumes "valid s" and "distinct owned" and "\<forall>p\<in>set owned. holder s (lmo_Pool (lm_opts m)) p = Some (lmo_WorkerID (lm_opts m))"
    and "Unique owned = Owned m"
  shows "\<forall>p\<in>set (Owned (fst (rebalance_share R owned share m s))).
    holder (snd (rebalance_share R owned share m s)) (lmo_Pool (lm_opts m)) p = Some (lmo_WorkerID (lm_opts m))"
proof -
  let ?pool = "lmo_Pool (lm_opts m)" and ?w = "lmo_WorkerID (lm_opts m)"
  have om: "set (Owned m) = set owned" using assms(4) set_Unique by metis
  obtain e s1 where r: "lr_ReleasePartitions R ?pool ?w (drop (nat share) owned) s = (e, s1)" by fastforce
  obtain c s2 where k: "lr_ClaimPartitions R ?pool ?w (lmo_TTL (lm_opts m)) share s = (c, s2)" by fastforce
  have rel: "holder s1 ?pool p = Some ?w"
    if "e = None \<and> int (length owned) > share \<and> p \<in> set (take (nat share) owned) \<or> e \<noteq> None \<and> p \<in> set owned" for p
  proof (cases e)
    case None
    then have p: "p \<in> set (take (nat share) owned)" "drop (nat share) owned \<noteq> []" using that by auto
    then have "p \<notin> set (drop (nat share) owned)"
      using assms(2) by (metis append_take_drop_id disjoint_iff distinct_append)
    then show ?thesis using Release_ok [OF assms(1) r [unfolded None]] assms(3) p by (auto dest: in_set_takeD)
  next
    case (Some x)
    then show ?thesis using Release_err [OF assms(1) r [unfolded Some]] assms(3) that by auto
  qed
  show ?thesis
    using rel r k Claim_ok [OF assms(1), of ?pool ?w "lmo_TTL (lm_opts m)" share _ s2]
      Claim_err [OF assms(1), of ?pool ?w "lmo_TTL (lm_opts m)" share _ s2] assms(3) om
    by (auto simp: rebalance_share_def Let_def split: option.splits sum.splits)
qed

lemma rest_held:
  assumes "valid s" and "distinct owned" and "\<forall>p\<in>set owned. holder s (lmo_Pool (lm_opts m)) p = Some (lmo_WorkerID (lm_opts m))"
    and "Unique owned = Owned m"
  shows "\<forall>p\<in>set (Owned (fst (rebalance_rest R owned m s))).
    holder (snd (rebalance_rest R owned m s)) (lmo_Pool (lm_opts m)) p = Some (lmo_WorkerID (lm_opts m))"
proof -
  obtain c s1 where k: "lr_CountLiveWorkers R (lmo_Pool (lm_opts m)) (lmo_TTL (lm_opts m)) s = (c, s1)" by fastforce
  have h: "holder s1 = holder s" using Count_frame [OF assms(1) k] .
  have v: "valid s1" using valid_ops(2) [OF assms(1)] k by (metis snd_conv)
  have om: "set (Owned m) = set owned" using assms(4) set_Unique by metis
  show ?thesis using share_held [OF v assms(2) _ assms(4)] assms(3) h k om
    by (auto simp: rebalance_rest_def split: sum.splits)
qed

text \<open>After a rebalance whose heartbeat answered, the worker serves only partitions it holds.\<close>

lemma rebalance_held:
  assumes "valid s" and "Owned m = [] \<or>
    \<not> isl (fst (lr_HeartbeatPartitions R (lmo_Pool (lm_opts m)) (lmo_WorkerID (lm_opts m)) (Owned m) s))"
  shows "\<forall>p\<in>set (Owned (fst (rebalance R m s))).
    holder (snd (rebalance R m s)) (lmo_Pool (lm_opts m)) p = Some (lmo_WorkerID (lm_opts m))"
proof (cases "Owned m = []")
  case True
  then show ?thesis using rest_held [of s "[]" m] assms(1) by (simp add: rebalance_def Unique_id)
next
  case False
  then obtain ks s1 where k: "lr_HeartbeatPartitions R (lmo_Pool (lm_opts m)) (lmo_WorkerID (lm_opts m)) (Owned m) s = (Inr ks, s1)"
    using assms(2) by (cases "lr_HeartbeatPartitions R (lmo_Pool (lm_opts m)) (lmo_WorkerID (lm_opts m)) (Owned m) s";
        cases "fst (lr_HeartbeatPartitions R (lmo_Pool (lm_opts m)) (lmo_WorkerID (lm_opts m)) (Owned m) s)") auto
  have v: "valid s1" using valid_ops(1) [OF assms(1)] k by (metis snd_conv)
  note h = Heartbeat_ok [OF assms(1) k]
  show ?thesis using rest_held [OF v, of ks "lm_store ks m"] h False k by (simp add: rebalance_def Let_def)
qed

text \<open>A release that reached the database leaves nothing of the pool with the worker.\<close>

lemma release_gives_up:
  assumes "valid s" and "lr_ReleasePartitions R (lmo_Pool (lm_opts m)) (lmo_WorkerID (lm_opts m)) [] s = (None, s')"
  shows "Owned (fst (lm_release R m s)) = [] \<and>
    holder (snd (lm_release R m s)) (lmo_Pool (lm_opts m)) p \<noteq> Some (lmo_WorkerID (lm_opts m))"
  using Release_ok [OF assms] assms(2)
  by (simp add: lm_release_def Let_def Owned_def lm_store_def AtomicPartitions_Store_def AtomicPartitions_Partitions_def Unique_id)

end

section \<open>On the database\<close>

text \<open>
  A worker serves only what it holds. After a rebalance whose heartbeat reached the database,
  every partition in the set the engine claims from is leased to this worker in the table,
  whichever of the later statements failed.
\<close>
theorem rebalance_serves_held:
  assumes "ldb_inv d" and "Owned m = [] \<or>
    \<not> isl (fst (HeartbeatPartitions (lmo_Pool (lm_opts m)) (lmo_WorkerID (lm_opts m)) (Owned m) d))"
  shows "\<forall>p\<in>set (Owned (fst (rebalance (LeaseRepo np) m d))).
    ld_holder (snd (rebalance (LeaseRepo np) m d)) (lmo_Pool (lm_opts m)) p = Some (lmo_WorkerID (lm_opts m))"
  using pgl.rebalance_held [of d m np] assms by (simp add: LeaseRepo_def)

definition demo_manager :: LeaseManager where
  "demo_manager = \<lparr>lm_ownedPartitions = \<lparr>ap_value = Some [0]\<rparr>, lm_ownedGauge = Some 1,
     lm_opts = \<lparr>lmo_WorkerID = ''A'', lmo_Pool = ''default'', lmo_Partitions = 3, lmo_TTL = 30, lmo_Heartbeat = 10\<rparr>\<rparr>"

definition two_workers :: ldb where
  "two_workers = demo_ldb\<lparr>ld_workers :=
     [\<lparr>wk_ID = ''A'', wk_Pools = [''default''], wk_Version = [], wk_HeartbeatAt = 100, wk_CreatedAt = 0\<rparr>,
      \<lparr>wk_ID = ''B'', wk_Pools = [''default''], wk_Version = [], wk_HeartbeatAt = 100, wk_CreatedAt = 0\<rparr>]\<rparr>"

lemmas rebalance_eval = rebalance_def rebalance_rest_def rebalance_share_def LeaseRepo_def
  HeartbeatPartitions_def CountLiveWorkers_def ClaimPartitions_def ensurePartitionRows_def lease_claim_keys_def
  lease_claimable_def owner_rank_def update_leases_def ld_query_def ld_command_def ld_exec_def lease_row_def
  fairShare_def go_div_def demo_manager_def two_workers_def demo_ldb_def Owned_def lm_store_def set_gauge_def
  AtomicPartitions_Store_def AtomicPartitions_Partitions_def Let_def upto_rec1 ld_holder_def lease_of_def

lemma demo_rebalance:
  "Owned (fst (rebalance (LeaseRepo 3) demo_manager two_workers)) = [1, 2]"
  "ld_holder (snd (rebalance (LeaseRepo 3) demo_manager two_workers)) ''default'' 0 = Some ''A''"
  by (simp_all add: rebalance_eval Unique_id)

theorem rebalance_serves_held_witness:
  "ld_holder (snd (rebalance (LeaseRepo 3) demo_manager two_workers)) ''default'' 2 = Some ''A''"
proof -
  have inv: "ldb_inv two_workers" by (simp add: ldb_inv_def two_workers_def demo_ldb_def lease_row_def)
  show ?thesis
    using rebalance_serves_held [OF inv, of demo_manager 3] unfolding demo_rebalance
    by (simp add: rebalance_eval)
qed

text \<open>
  The claim does not prefer what the worker holds. \<^verbatim>\<open>ORDER BY (owner_id = $2) DESC\<close> puts the rows
  without an owner first, so a worker that holds partition 0 and is entitled to two of three claims
  1 and 2, stores just those, and partition 0 stays leased to it in the table with nobody serving it.
\<close>
theorem rebalance_drops_held:
  "Owned demo_manager = [0] \<and> 0 \<notin> set (Owned (fst (rebalance (LeaseRepo 3) demo_manager two_workers))) \<and>
   ld_holder (snd (rebalance (LeaseRepo 3) demo_manager two_workers)) ''default'' 0 = Some ''A''"
  using demo_rebalance by (simp add: demo_manager_def Owned_def AtomicPartitions_Partitions_def)

end
