(* ===== verification/Query.thy ===== *)
theory Query
  imports Entities Base64 Ports "HOL-Library.Multiset" "HOL-Library.Product_Lexorder" "HOL-Library.List_Lexorder" "HOL-Library.Char_ord"
begin

text \<open>
  \<^verbatim>\<open>internal/domain/repositories/query.go\<close> and
  \<^verbatim>\<open>internal/adapters/outbound/persistence/postgres/query_builder.go\<close>: typed filters, the WHERE builder and
  keyset pagination. A SQL condition is the predicate on rows it denotes (true, so that a comparison
  with NULL selects nothing); a column is a function from rows to an optional value. Text is ordered
  byte by byte. \<^verbatim>\<open>ILIKE\<close> is the parameter \<open>ilike\<close>; \<^verbatim>\<open>encoding/json\<close> on the cursor payload is the pair of
  parameters \<open>marshal\<close> and \<open>unmarshal\<close>.
\<close>

section \<open>query.go\<close>

record 'a Filter =
  f_Is :: "'a option"
  f_IsNot :: "'a option"
  f_In :: "'a list"
  f_NotIn :: "'a list"
  f_IContains :: "'a option"
  f_Exists :: "bool option"
  f_GT :: "'a option"
  f_GTE :: "'a option"
  f_LT :: "'a option"
  f_LTE :: "'a option"

definition no_filter :: "'a Filter" where
  "no_filter = \<lparr>f_Is = None, f_IsNot = None, f_In = [], f_NotIn = [], f_IContains = None, f_Exists = None,
     f_GT = None, f_GTE = None, f_LT = None, f_LTE = None\<rparr>"

definition Filter_IsZero :: "'a Filter option \<Rightarrow> bool" where
  "Filter_IsZero f = (case f of
      None \<Rightarrow> True
    | Some f \<Rightarrow> f_Is f = None \<and> f_IsNot f = None \<and> f_In f = [] \<and> f_NotIn f = [] \<and> f_IContains f = None \<and>
        f_Exists f = None \<and> f_GT f = None \<and> f_GTE f = None \<and> f_LT f = None \<and> f_LTE f = None)"

definition Eq :: "'a \<Rightarrow> 'a Filter option" where
  "Eq v = Some (no_filter\<lparr>f_Is := Some v\<rparr>)"

definition AnyOf :: "'a list \<Rightarrow> 'a Filter option" where
  "AnyOf vs = Some (no_filter\<lparr>f_In := vs\<rparr>)"

definition IsNull :: "bool \<Rightarrow> 'a Filter option" where
  "IsNull null = Some (no_filter\<lparr>f_Exists := Some (\<not> null)\<rparr>)"

record CursorPagination =
  cp_Cursor :: string
  cp_Limit :: int

definition DefaultPageSize :: int where "DefaultPageSize = 20"
definition MaxPageSize :: int where "MaxPageSize = 100"

definition GetLimit :: "CursorPagination \<Rightarrow> int" where
  "GetLimit p = (if cp_Limit p \<le> 0 then DefaultPageSize else if cp_Limit p > MaxPageSize then MaxPageSize else cp_Limit p)"

record 'r CursorResult =
  cres_Items :: "'r list"
  cres_NextCursor :: "string option"
  cres_PrevCursor :: "string option"
  cres_HasMore :: bool
  cres_Limit :: int

definition EncodeCursor :: "(string \<times> string \<Rightarrow> bytes) \<Rightarrow> string \<Rightarrow> string \<Rightarrow> string" where
  "EncodeCursor marshal v i = EncodeToString RawURLEncoding (marshal (v, i))"

datatype cursor_error = EmptyCursor | CursorEncoding | CursorPayload

definition DecodeCursor :: "(bytes \<Rightarrow> (string \<times> string) option) \<Rightarrow> string \<Rightarrow> cursor_error + string \<times> string" where
  "DecodeCursor unmarshal encoded =
    (if encoded = [] then Inl EmptyCursor
     else case DecodeString RawURLEncoding encoded of
       None \<Rightarrow> Inl CursorEncoding
     | Some raw \<Rightarrow> (case unmarshal raw of None \<Rightarrow> Inl CursorPayload | Some p \<Rightarrow> Inr p))"

section \<open>query_builder.go\<close>

text \<open>The bound arguments are in the predicates, so only the conditions are left of the builder.\<close>

record 'r QueryBuilder =
  qb_conds :: "('r \<Rightarrow> bool) list"

definition NewQueryBuilder :: "'r QueryBuilder" where
  "NewQueryBuilder = \<lparr>qb_conds = []\<rparr>"

definition Where :: "('r \<Rightarrow> bool) \<Rightarrow> 'r QueryBuilder \<Rightarrow> 'r QueryBuilder" where
  "Where cond b = b\<lparr>qb_conds := qb_conds b @ [cond]\<rparr>"

definition Clause :: "'r QueryBuilder \<Rightarrow> 'r \<Rightarrow> bool" where
  "Clause b r \<longleftrightarrow> list_all (\<lambda>c. c r) (qb_conds b)"

text \<open>A condition on a column holds of a row whose value is not NULL and satisfies it.\<close>

definition where_col :: "('r \<Rightarrow> 'a option) \<Rightarrow> ('a \<Rightarrow> bool) \<Rightarrow> 'r QueryBuilder \<Rightarrow> 'r QueryBuilder" where
  "where_col col P = Where (\<lambda>r. case col r of None \<Rightarrow> False | Some x \<Rightarrow> P x)"

definition where_opt :: "'b option \<Rightarrow> ('b \<Rightarrow> 'r QueryBuilder \<Rightarrow> 'r QueryBuilder) \<Rightarrow> 'r QueryBuilder \<Rightarrow> 'r QueryBuilder" where
  "where_opt v f b = (case v of None \<Rightarrow> b | Some x \<Rightarrow> f x b)"

definition ApplyFilter ::
  "('a \<Rightarrow> 'a \<Rightarrow> bool) \<Rightarrow> 'a::linorder Filter option \<Rightarrow> ('r \<Rightarrow> 'a option) \<Rightarrow> 'r QueryBuilder \<Rightarrow> 'r QueryBuilder" where
  "ApplyFilter ilike flt col b = (if Filter_IsZero flt then b else case flt of
      None \<Rightarrow> b
    | Some f \<Rightarrow>
       (let b = where_opt (f_Exists f) (\<lambda>e. Where (\<lambda>r. if e then col r \<noteq> None else col r = None)) b;
            b = where_opt (f_Is f) (\<lambda>v. where_col col (\<lambda>x. x = v)) b;
            b = where_opt (f_IsNot f) (\<lambda>v. where_col col (\<lambda>x. x \<noteq> v)) b;
            b = (if f_In f \<noteq> [] then where_col col (\<lambda>x. x \<in> set (f_In f)) b else b);
            b = (if f_NotIn f \<noteq> [] then where_col col (\<lambda>x. x \<notin> set (f_NotIn f)) b else b);
            b = where_opt (f_IContains f) (\<lambda>v. where_col col (\<lambda>x. ilike x v)) b;
            b = where_opt (f_GT f) (\<lambda>v. where_col col (\<lambda>x. x > v)) b;
            b = where_opt (f_GTE f) (\<lambda>v. where_col col (\<lambda>x. x \<ge> v)) b;
            b = where_opt (f_LT f) (\<lambda>v. where_col col (\<lambda>x. x < v)) b
        in where_opt (f_LTE f) (\<lambda>v. where_col col (\<lambda>x. x \<le> v)) b))"

definition ApplyBoolStateFilter :: "bool Filter option \<Rightarrow> ('r \<Rightarrow> time option) \<Rightarrow> 'r QueryBuilder \<Rightarrow> 'r QueryBuilder" where
  "ApplyBoolStateFilter flt col b = (case flt of
      None \<Rightarrow> b
    | Some f \<Rightarrow> (case f_Is f of
        None \<Rightarrow> b
      | Some v \<Rightarrow> Where (\<lambda>r. if v then col r \<noteq> None else col r = None) b))"

definition ApplyKeysetCursor ::
  "(bytes \<Rightarrow> (string \<times> string) option) \<Rightarrow> CursorPagination \<Rightarrow> ('r \<Rightarrow> 'k::linorder) \<Rightarrow> ('r \<Rightarrow> string) \<Rightarrow> bool \<Rightarrow>
   (string \<Rightarrow> 'k option) \<Rightarrow> 'r QueryBuilder \<Rightarrow> int \<times> 'r QueryBuilder" where
  "ApplyKeysetCursor unmarshal page sortCol idCol desc sortValue b =
    (let limit = GetLimit page in
     if cp_Cursor page = [] then (limit, b)
     else case DecodeCursor unmarshal (cp_Cursor page) of
       Inl _ \<Rightarrow> (limit, b)
     | Inr (rawValue, cursorID) \<Rightarrow>
        if cursorID = [] then (limit, b)
        else (case sortValue rawValue of
            None \<Rightarrow> (limit, b)
          | Some value \<Rightarrow>
             (limit, Where (\<lambda>r. if desc then sortCol r < value \<or> sortCol r = value \<and> idCol r < cursorID
                                else sortCol r > value \<or> sortCol r = value \<and> idCol r > cursorID) b)))"

record OrderBy =
  ob_Column :: string
  ob_Desc :: bool

text \<open>The columns and directions of the ORDER BY.\<close>

definition OrderClause :: "OrderBy list \<Rightarrow> (string \<rightharpoonup> string) \<Rightarrow> (string \<times> bool) list \<Rightarrow> (string \<times> bool) list" where
  "OrderClause orders allowed fallback =
    (let parts = concat (map (\<lambda>o'. case allowed (ob_Column o') of None \<Rightarrow> [] | Some c \<Rightarrow> [(c, ob_Desc o')]) orders) in
     if parts = [] then fallback else parts)"

definition BuildCursorResult ::
  "(string \<times> string \<Rightarrow> bytes) \<Rightarrow> 'r list \<Rightarrow> int \<Rightarrow> ('r \<Rightarrow> string) \<Rightarrow> ('r \<Rightarrow> string) \<Rightarrow> 'r CursorResult" where
  "BuildCursorResult marshal items limit i sortValue =
    (let hasMore = int (length items) > limit;
         items = (if hasMore then take (nat limit) items else items) in
     \<lparr>cres_Items = items,
      cres_NextCursor = (if hasMore \<and> items \<noteq> [] then Some (EncodeCursor marshal (sortValue (last items)) (i (last items))) else None),
      cres_PrevCursor = None, cres_HasMore = hasMore, cres_Limit = limit\<rparr>)"

section \<open>A page\<close>

text \<open>
  The body the list methods of the repositories share, with their default order: the rows that satisfy
  the conditions, ordered by the sort column and the id, one more than the page holds.
\<close>

definition ordered :: "bool \<Rightarrow> ('r \<Rightarrow> 'k::linorder) \<Rightarrow> ('r \<Rightarrow> string) \<Rightarrow> 'r list \<Rightarrow> 'r list" where
  "ordered desc sortCol idCol rows = (let s = sort_key (\<lambda>r. (sortCol r, idCol r)) rows in if desc then rev s else s)"

record 'k cursor_codec =
  cc_marshal :: "string \<times> string \<Rightarrow> bytes"
  cc_unmarshal :: "bytes \<Rightarrow> (string \<times> string) option"
  cc_format :: "'k \<Rightarrow> string"
  cc_parse :: "string \<Rightarrow> 'k option"

definition get_page ::
  "'k::linorder cursor_codec \<Rightarrow> ('r \<Rightarrow> 'k) \<Rightarrow> ('r \<Rightarrow> string) \<Rightarrow> bool \<Rightarrow> 'r QueryBuilder \<Rightarrow> CursorPagination \<Rightarrow> 'r list \<Rightarrow> 'r CursorResult" where
  "get_page cc sortCol idCol desc b page rows =
    (case ApplyKeysetCursor (cc_unmarshal cc) page sortCol idCol desc (cc_parse cc) b of (limit, b) \<Rightarrow>
       BuildCursorResult (cc_marshal cc) (take (nat (limit + 1)) (ordered desc sortCol idCol (filter (Clause b) rows))) limit
         idCol (\<lambda>r. cc_format cc (sortCol r)))"

section \<open>Filters\<close>

lemma Clause_simps [simp]:
  "Clause NewQueryBuilder r" "Clause (Where c b) r \<longleftrightarrow> Clause b r \<and> c r"
  "Clause (where_opt v f b) r \<longleftrightarrow> (case v of None \<Rightarrow> Clause b r | Some x \<Rightarrow> Clause (f x b) r)"
  by (auto simp: Clause_def NewQueryBuilder_def Where_def where_opt_def split: option.splits)

lemma Clause_col [simp]: "Clause (where_col col P b) r \<longleftrightarrow> Clause b r \<and> (\<exists>x. col r = Some x \<and> P x)"
  by (simp add: where_col_def split: option.splits)

lemma Clause_Eq [simp]: "Clause (ApplyFilter ilike (Eq v) col b) r \<longleftrightarrow> Clause b r \<and> col r = Some v"
  by (auto simp: ApplyFilter_def Eq_def no_filter_def Filter_IsZero_def Let_def)

lemma Clause_None [simp]: "ApplyFilter ilike None col b = b"
  by (simp add: ApplyFilter_def Filter_IsZero_def)

lemma Clause_AnyOf [simp]: "vs \<noteq> [] \<Longrightarrow> Clause (ApplyFilter ilike (AnyOf vs) col b) r \<longleftrightarrow> Clause b r \<and> (\<exists>x\<in>set vs. col r = Some x)"
  by (auto simp: ApplyFilter_def AnyOf_def no_filter_def Filter_IsZero_def Let_def)

lemma GetLimit_range: "1 \<le> GetLimit p \<and> GetLimit p \<le> 100"
  by (auto simp: GetLimit_def DefaultPageSize_def MaxPageSize_def)

section \<open>Following the cursor visits every row once\<close>

lemma encode_empty: "EncodeToString e bs = [] \<longleftrightarrow> bs = []"
  by (induction e bs rule: EncodeToString.induct) auto

lemma cursor_roundtrip:
  assumes "unmarshal (marshal (v, i)) = Some (v, i)"
  shows "DecodeCursor unmarshal (EncodeCursor marshal v i) = (if marshal (v, i) = [] then Inl EmptyCursor else Inr (v, i))"
  using assms by (simp add: DecodeCursor_def EncodeCursor_def Base64_roundtrip encode_empty)

text \<open>The direction of a listing, on rows.\<close>

definition before :: "bool \<Rightarrow> ('r \<Rightarrow> 'k::linorder) \<Rightarrow> ('r \<Rightarrow> string) \<Rightarrow> 'r \<Rightarrow> 'r \<Rightarrow> bool" where
  "before desc sortCol idCol r s \<longleftrightarrow> (if desc then (sortCol s, idCol s) < (sortCol r, idCol r) else (sortCol r, idCol r) < (sortCol s, idCol s))"

lemma before_keyset: "before desc k i y r \<longleftrightarrow> (if desc then k r < k y \<or> k r = k y \<and> i r < i y else k r > k y \<or> k r = k y \<and> i r > i y)"
  by (auto simp: before_def order.order_iff_strict)

lemma before_irrefl: "\<not> before desc k i r r" "before desc k i r s \<Longrightarrow> \<not> before desc k i s r"
  by (auto simp: before_def split: if_splits)

lemma set_ordered [simp]: "set (ordered desc k i rows) = set rows"
  by (simp add: ordered_def Let_def)

lemma ordered_filter: "ordered desc k i (filter P rows) = filter P (ordered desc k i rows)"
  by (simp add: ordered_def Let_def filter_sort flip: rev_filter)

lemma ordered_before:
  assumes "distinct (map i rows)"
  shows "sorted_wrt (before desc k i) (ordered desc k i rows)"
proof -
  let ?s = "sort_key (\<lambda>r. (k r, i r)) rows"
  have "mset (map i ?s) = mset (map i rows)" by simp
  with assms have "distinct (map i ?s)" by (metis mset_eq_imp_distinct_iff)
  then have "distinct (map (\<lambda>r. (k r, i r)) ?s)" by (auto simp: distinct_map inj_on_def)
  moreover have "sorted (map (\<lambda>r. (k r, i r)) ?s)" by (rule sorted_sort_key)
  ultimately have "sorted_wrt (<) (map (\<lambda>r. (k r, i r)) ?s)" by (simp add: strict_sorted_iff)
  then show ?thesis by (simp add: ordered_def Let_def before_def [abs_def] sorted_wrt_map sorted_wrt_rev)
qed

lemma filter_after:
  assumes "sorted_wrt (before desc k i) (xs @ y # ys)"
  shows "filter (before desc k i y) (xs @ y # ys) = ys"
proof -
  have "filter (before desc k i y) xs = []" "filter (before desc k i y) ys = ys"
    using assms by (auto simp: sorted_wrt_append filter_empty_conv filter_id_conv dest: before_irrefl(2))
  then show ?thesis by (simp add: before_irrefl)
qed

text \<open>The codecs the listings use, on the keys they see: what is written into a cursor is read back.\<close>

definition codec_ok :: "'k cursor_codec \<Rightarrow> bool" where
  "codec_ok cc \<longleftrightarrow> (\<forall>v i. cc_unmarshal cc (cc_marshal cc (v, i)) = Some (v, i) \<and> cc_marshal cc (v, i) \<noteq> []) \<and>
     (\<forall>k. cc_parse cc (cc_format cc k) = Some k)"

lemma page_after:
  assumes cc: "codec_ok cc" and rows: "distinct (map i rows)" "\<forall>r\<in>set rows. i r \<noteq> []"
    and L: "ordered desc k i (filter (Clause b) rows) = xs @ ys"
    and c: "if xs = [] then c = [] else c = EncodeCursor (cc_marshal cc) (cc_format cc (k (last xs))) (i (last xs))"
    and lim: "GetLimit \<lparr>cp_Cursor = c, cp_Limit = n\<rparr> = limit"
  shows "get_page cc k i desc b \<lparr>cp_Cursor = c, cp_Limit = n\<rparr> rows =
    BuildCursorResult (cc_marshal cc) (take (nat (limit + 1)) ys) limit i (\<lambda>r. cc_format cc (k r))"
proof (cases xs rule: rev_cases)
  case Nil
  then show ?thesis using L c lim by (simp add: get_page_def ApplyKeysetCursor_def)
next
  case (snoc zs y)
  have c': "c = EncodeCursor (cc_marshal cc) (cc_format cc (k y)) (i y)" using c by (simp add: snoc)
  have "set (xs @ ys) = {r \<in> set rows. Clause b r}" unfolding L [symmetric] by simp
  then have y: "i y \<noteq> []" using rows(2) by (auto simp: snoc)
  let ?b = "Where (\<lambda>r. if desc then k r < k y \<or> k r = k y \<and> i r < i y else k r > k y \<or> k r = k y \<and> i r > i y) b"
  have d: "DecodeCursor (cc_unmarshal cc) c = Inr (cc_format cc (k y), i y)"
    using cc cursor_roundtrip [of "cc_unmarshal cc" "cc_marshal cc"] by (simp add: codec_ok_def c')
  then have "c \<noteq> []" by (auto simp: DecodeCursor_def)
  moreover have "cc_parse cc (cc_format cc (k y)) = Some (k y)" using cc by (simp add: codec_ok_def)
  ultimately have a: "ApplyKeysetCursor (cc_unmarshal cc) \<lparr>cp_Cursor = c, cp_Limit = n\<rparr> k i desc (cc_parse cc) b = (limit, ?b)"
    using y lim d by (simp add: ApplyKeysetCursor_def)
  have "distinct (map i (filter (Clause b) rows))" using rows(1) by (rule distinct_map_filter)
  from ordered_before [OF this, of desc k] have "sorted_wrt (before desc k i) (zs @ y # ys)" unfolding L snoc by simp
  from filter_after [OF this] have f: "filter (before desc k i y) (xs @ ys) = ys" unfolding snoc by simp
  have "filter (Clause ?b) rows = filter (before desc k i y) (filter (Clause b) rows)"
    unfolding filter_filter by (rule filter_cong) (simp_all add: before_keyset conj_commute)
  then have "ordered desc k i (filter (Clause ?b) rows) = filter (before desc k i y) (ordered desc k i (filter (Clause b) rows))"
    by (simp only: ordered_filter)
  then have "ordered desc k i (filter (Clause ?b) rows) = ys" by (simp only: L f)
  then show ?thesis unfolding get_page_def a by simp
qed

text \<open>A client that follows the cursors, for at most \<open>fuel\<close> pages.\<close>

fun walk :: "nat \<Rightarrow> (string \<Rightarrow> 'r CursorResult) \<Rightarrow> string \<Rightarrow> 'r list option" where
  "walk 0 get c = None"
| "walk (Suc fuel) get c = (let p = get c in case cres_NextCursor p of
     None \<Rightarrow> Some (cres_Items p)
   | Some c' \<Rightarrow> map_option (\<lambda>rest. cres_Items p @ rest) (walk fuel get c'))"

lemma walk_rest:
  assumes cc: "codec_ok cc" and rows: "distinct (map i rows)" "\<forall>r\<in>set rows. i r \<noteq> []"
    and "ordered desc k i (filter (Clause b) rows) = xs @ ys"
    and "if xs = [] then c = [] else c = EncodeCursor (cc_marshal cc) (cc_format cc (k (last xs))) (i (last xs))"
    and "length ys < fuel"
  shows "walk fuel (\<lambda>c. get_page cc k i desc b \<lparr>cp_Cursor = c, cp_Limit = n\<rparr> rows) c = Some ys"
  using assms(4-6)
proof (induction fuel arbitrary: xs ys c)
  case (Suc fuel)
  define limit where "limit = GetLimit \<lparr>cp_Cursor = c, cp_Limit = n\<rparr>"
  have l: "1 \<le> limit" using GetLimit_range limit_def by simp
  note p = page_after [OF cc rows Suc.prems(1,2) limit_def [symmetric]]
  show ?case
  proof (cases "int (length ys) > limit")
    case False
    then show ?thesis using p by (simp add: BuildCursorResult_def Let_def)
  next
    case True
    let ?zs = "take (nat limit) ys"
    have z: "?zs \<noteq> []" "min (length ys) (nat (limit + 1)) = nat (limit + 1)" using True l by auto
    have t: "take (nat limit) (take (nat (limit + 1)) ys) = ?zs" using l by (simp add: min_def)
    let ?c = "EncodeCursor (cc_marshal cc) (cc_format cc (k (last ?zs))) (i (last ?zs))"
    have "cres_NextCursor (get_page cc k i desc b \<lparr>cp_Cursor = c, cp_Limit = n\<rparr> rows) = Some ?c"
      "cres_Items (get_page cc k i desc b \<lparr>cp_Cursor = c, cp_Limit = n\<rparr> rows) = ?zs"
      using p z t l by (simp_all add: BuildCursorResult_def Let_def)
    moreover have "walk fuel (\<lambda>c. get_page cc k i desc b \<lparr>cp_Cursor = c, cp_Limit = n\<rparr> rows) ?c = Some (drop (nat limit) ys)"
      using Suc.prems(1,3) True l z(1) by (intro Suc.IH [of "xs @ ?zs"]) auto
    ultimately show ?thesis by simp
  qed
qed simp


text \<open>A codec for the witness: the length of the first string in unary, then both strings.\<close>

definition demo_codec :: "string cursor_codec" where
  "demo_codec = \<lparr>cc_marshal = (\<lambda>(v, i). replicate (length v) 1 @ 0 # bytes_of (v @ i)),
     cc_unmarshal = (\<lambda>bs. let n = length (takeWhile (\<lambda>b. b = 1) bs); s = string_of (drop (Suc n) bs) in Some (take n s, drop n s)),
     cc_format = (\<lambda>k. k), cc_parse = Some\<rparr>"

lemma demo_codec_ok: "codec_ok demo_codec"
proof -
  have "takeWhile (\<lambda>b. b = 1) (replicate n (1 :: byte) @ 0 # bs) = replicate n 1" for n bs by (induction n) auto
  then show ?thesis by (simp add: codec_ok_def demo_codec_def Let_def del: bytes_of_append)
qed


end
