(* ===== verification/App_Errors.thy ===== *)
theory App_Errors
  imports Utils
begin

text \<open>
  \<^verbatim>\<open>internal/domain/apperrors/errors.go\<close> with its translation to HTTP in
  \<^verbatim>\<open>internal/adapters/inbound/http/httperr\<close> and \<^verbatim>\<open>handlers/error_handler.go\<close>. A cause is kept as the text
  the log shows. What a handler returns is an application error, an error of the web framework, or
  anything else.
\<close>

section \<open>errors.go\<close>

datatype ErrorKind = KindNotFound | KindConflict | KindValidation | KindBusiness | KindUnauthorized | KindForbidden |
  KindRateLimit | KindPayloadTooLarge | KindGone | KindInternal

record AppError =
  ae_Kind :: ErrorKind
  ae_Code :: string
  ae_Message :: string
  ae_Cause :: "string option"

definition AppError_Error :: "AppError \<Rightarrow> string" where
  "AppError_Error e = (case ae_Cause e of Some c \<Rightarrow> ae_Message e @ '': '' @ c | None \<Rightarrow> ae_Message e)"

definition NewNotFoundError :: "string \<Rightarrow> AppError" where
  "NewNotFoundError resource = \<lparr>ae_Kind = KindNotFound, ae_Code = ''not_found'', ae_Message = resource @ '' not found'', ae_Cause = None\<rparr>"

definition NewConflictError :: "string \<Rightarrow> AppError" where
  "NewConflictError message = \<lparr>ae_Kind = KindConflict, ae_Code = ''conflict'', ae_Message = message, ae_Cause = None\<rparr>"

definition NewValidationError :: "string \<Rightarrow> AppError" where
  "NewValidationError message = \<lparr>ae_Kind = KindValidation, ae_Code = ''validation'', ae_Message = message, ae_Cause = None\<rparr>"

definition NewBusinessRuleError :: "string \<Rightarrow> AppError" where
  "NewBusinessRuleError message = \<lparr>ae_Kind = KindBusiness, ae_Code = ''business_rule'', ae_Message = message, ae_Cause = None\<rparr>"

definition NewUnauthorizedError :: "string \<Rightarrow> AppError" where
  "NewUnauthorizedError message = \<lparr>ae_Kind = KindUnauthorized, ae_Code = ''authentication_failed'', ae_Message = message, ae_Cause = None\<rparr>"

definition NewForbiddenError :: "string \<Rightarrow> AppError" where
  "NewForbiddenError message = \<lparr>ae_Kind = KindForbidden, ae_Code = ''forbidden'', ae_Message = message, ae_Cause = None\<rparr>"

definition NewRateLimitError :: "string \<Rightarrow> AppError" where
  "NewRateLimitError message = \<lparr>ae_Kind = KindRateLimit, ae_Code = ''rate_limited'', ae_Message = message, ae_Cause = None\<rparr>"

definition NewPayloadTooLargeError :: "string \<Rightarrow> AppError" where
  "NewPayloadTooLargeError message = \<lparr>ae_Kind = KindPayloadTooLarge, ae_Code = ''payload_too_large'', ae_Message = message, ae_Cause = None\<rparr>"

definition NewGoneError :: "string \<Rightarrow> AppError" where
  "NewGoneError message = \<lparr>ae_Kind = KindGone, ae_Code = ''gone'', ae_Message = message, ae_Cause = None\<rparr>"

definition NewInternalError :: "string \<Rightarrow> AppError" where
  "NewInternalError cause = \<lparr>ae_Kind = KindInternal, ae_Code = ''internal_error'', ae_Message = ''internal server error'',
     ae_Cause = Some (''internal server error: '' @ cause)\<rparr>"

definition WithMessage :: "AppError \<Rightarrow> string \<Rightarrow> AppError" where
  "WithMessage e message = e\<lparr>ae_Message := message\<rparr>"

lemmas app_error_defs = NewNotFoundError_def NewConflictError_def NewValidationError_def NewBusinessRuleError_def
  NewUnauthorizedError_def NewForbiddenError_def NewRateLimitError_def NewPayloadTooLargeError_def NewGoneError_def NewInternalError_def

text \<open>The text of a repository error, for the cause.\<close>

definition repo_text :: "repo_error \<Rightarrow> string" where
  "repo_text e = (case e of ErrNotFound \<Rightarrow> ''record not found'' | ErrConflict \<Rightarrow> ''record already exists'' | DriverError s \<Rightarrow> s)"

section \<open>httperr\<close>

definition StatusForKind :: "ErrorKind \<Rightarrow> int" where
  "StatusForKind k = (case k of
      KindNotFound \<Rightarrow> 404 | KindConflict \<Rightarrow> 409 | KindValidation \<Rightarrow> 422 | KindBusiness \<Rightarrow> 422 | KindUnauthorized \<Rightarrow> 401
    | KindForbidden \<Rightarrow> 403 | KindRateLimit \<Rightarrow> 429 | KindPayloadTooLarge \<Rightarrow> 413 | KindGone \<Rightarrow> 410 | _ \<Rightarrow> 500)"

definition CodeForStatus :: "int \<Rightarrow> string" where
  "CodeForStatus status =
    (if status = 400 then ''bad_request'' else if status = 401 then ''authentication_failed'' else if status = 403 then ''forbidden''
     else if status = 404 then ''not_found'' else if status = 405 then ''method_not_allowed'' else if status = 413 then ''payload_too_large''
     else if status = 422 then ''validation'' else if status = 429 then ''rate_limited'' else ''error'')"

section \<open>error_handler.go\<close>

datatype handler_error = App AppError | EchoHTTP int string | Unexpected string

record ErrorResponse =
  er_Code :: string
  er_Detail :: string

text \<open>
  The answer written, none when the response is already committed. \<open>status_text\<close> is
  \<^verbatim>\<open>http.StatusText\<close>.
\<close>

definition CustomHTTPErrorHandler :: "(int \<Rightarrow> string) \<Rightarrow> bool \<Rightarrow> handler_error \<Rightarrow> (int \<times> ErrorResponse) option" where
  "CustomHTTPErrorHandler status_text committed err =
    (let internal = \<lparr>er_Code = ''internal_error'', er_Detail = ''internal server error''\<rparr> in
     if committed then None
     else case err of
       App e \<Rightarrow> if ae_Kind e = KindInternal then Some (500, internal)
                else Some (StatusForKind (ae_Kind e), \<lparr>er_Code = ae_Code e, er_Detail = ae_Message e\<rparr>)
     | EchoHTTP code message \<Rightarrow>
         Some (code, \<lparr>er_Code = CodeForStatus code, er_Detail = (if message = [] then status_text code else message)\<rparr>)
     | Unexpected s \<Rightarrow> Some (500, internal))"

text \<open>Nothing of a cause reaches the client, and an internal error always looks the same.\<close>

lemma cause_is_secret:
  "CustomHTTPErrorHandler st c (App (e\<lparr>ae_Cause := x\<rparr>)) = CustomHTTPErrorHandler st c (App (e\<lparr>ae_Cause := y\<rparr>))"
  "CustomHTTPErrorHandler st c (App (NewInternalError s)) = CustomHTTPErrorHandler st c (Unexpected s')"
  by (simp_all add: CustomHTTPErrorHandler_def NewInternalError_def Let_def)

end
