(* ===== verification/Config_Repos.thy ===== *)
theory Config_Repos
  imports Query Snapshot App_Errors
begin

text \<open>
  The repositories of the configuration tables, in
  \<^verbatim>\<open>internal/adapters/outbound/persistence/postgres\<close>: organizations, applications, event types,
  endpoints, and the snapshot loader. A table is the list of its rows; an INSERT or UPDATE is refused
  when a unique index of \<^verbatim>\<open>migrations/schema/00001_init.sql\<close> or a foreign key would be violated. Each
  statement takes the next entry of a fault script, and \<open>True\<close> makes it fail with no effect (a lost
  connection, a value the driver or the server refuses). The variadic order is empty at every call of
  the program, so a query has its default order.
\<close>

section \<open>Tables and statements\<close>

text \<open>The columns of an endpoint are the fields of the entity, but for the rotated secrets, which are JSON.\<close>

record endpoint_row = Endpoint +
  col_old_secrets_enc :: "bytes option"

record cfgdb =
  db_orgs :: "Organization list"
  db_apps :: "Application list"
  db_types :: "EventType list"
  db_eps :: "endpoint_row list"
  db_now :: time
  db_faults :: "bool list"
  db_notified :: "string list"

text \<open>
  What is not the program's own: \<^verbatim>\<open>ILIKE\<close>, the text a \<^verbatim>\<open>jsonb\<close> column gives back for what was written,
  and \<^verbatim>\<open>encoding/json\<close> on the list of sealed secrets and on cursors.
\<close>

record pgenv =
  pe_ilike :: "string \<Rightarrow> string \<Rightarrow> bool"
  pe_jsonb :: "bytes \<Rightarrow> bytes"
  pe_marshalSecrets :: "SealedSecret list \<Rightarrow> bytes option"
  pe_unmarshalSecrets :: "bytes \<Rightarrow> SealedSecret list option"
  pe_marshalCursor :: "string \<times> string \<Rightarrow> bytes"
  pe_unmarshalCursor :: "bytes \<Rightarrow> (string \<times> string) option"

definition pe_codec :: "pgenv \<Rightarrow> string cursor_codec" where
  "pe_codec env = \<lparr>cc_marshal = pe_marshalCursor env, cc_unmarshal = pe_unmarshalCursor env, cc_format = (\<lambda>s. s), cc_parse = Some\<rparr>"

definition db_exec :: "cfgdb \<Rightarrow> bool \<times> cfgdb" where
  "db_exec d = (case db_faults d of [] \<Rightarrow> (True, d) | f # fs \<Rightarrow> (\<not> f, d\<lparr>db_faults := fs\<rparr>))"

datatype pg_error = UniqueViolation | OtherError

definition wrapWriteError :: "pg_error \<Rightarrow> string \<Rightarrow> repo_error" where
  "wrapWriteError err context = (if err = UniqueViolation then ErrConflict else DriverError context)"

definition unique :: "('r \<Rightarrow> string list option) list \<Rightarrow> 'r list \<Rightarrow> bool" where
  "unique keys rows \<longleftrightarrow> list_all (\<lambda>k. distinct (List.map_filter k rows)) keys"

definition insert_row :: "('r \<Rightarrow> string list option) list \<Rightarrow> bool \<Rightarrow> 'r \<Rightarrow> 'r list \<Rightarrow> pg_error + nat \<times> 'r list" where
  "insert_row keys references r rows =
    (if \<not> unique keys (rows @ [r]) then Inl UniqueViolation
     else if \<not> references then Inl OtherError
     else Inr (1, rows @ [r]))"

definition update_where :: "('r \<Rightarrow> string list option) list \<Rightarrow> ('r \<Rightarrow> bool) \<Rightarrow> ('r \<Rightarrow> 'r) \<Rightarrow> 'r list \<Rightarrow> pg_error + nat \<times> 'r list" where
  "update_where keys P f rows =
    (let rows' = map (\<lambda>r. if P r then f r else r) rows in
     if \<not> unique keys rows' then Inl UniqueViolation
     else Inr (length (filter P rows), rows'))"

text \<open>Executing a statement on a table of the database; the answer is the number of rows affected.\<close>

definition write_tbl :: "(cfgdb \<Rightarrow> 'r list) \<Rightarrow> ('r list \<Rightarrow> cfgdb \<Rightarrow> cfgdb) \<Rightarrow> (cfgdb \<Rightarrow> 'r list \<Rightarrow> pg_error + nat \<times> 'r list) \<Rightarrow>
    cfgdb \<Rightarrow> (pg_error + nat) \<times> cfgdb" where
  "write_tbl get put stmt d = (case db_exec d of
      (False, d) \<Rightarrow> (Inl OtherError, d)
    | (True, d) \<Rightarrow> (case stmt d (get d) of Inl e \<Rightarrow> (Inl e, d) | Inr (n, rows) \<Rightarrow> (Inr n, put rows d)))"

definition inserted :: "string \<Rightarrow> (pg_error + nat) \<times> cfgdb \<Rightarrow> repo_error option \<times> cfgdb" where
  "inserted context r = (case r of (Inl e, d) \<Rightarrow> (Some (wrapWriteError e context), d) | (Inr n, d) \<Rightarrow> (None, d))"

definition affected :: "repo_error \<Rightarrow> string \<Rightarrow> (pg_error + nat) \<times> cfgdb \<Rightarrow> repo_error option \<times> cfgdb" where
  "affected none context r = (case r of
      (Inl e, d) \<Rightarrow> (Some (wrapWriteError e context), d)
    | (Inr n, d) \<Rightarrow> (if n = 0 then Some none else None, d))"

text \<open>\<^verbatim>\<open>collectRows\<close>: the first row that cannot be scanned fails the whole query.\<close>

fun collectRows :: "('r \<Rightarrow> 'a option) \<Rightarrow> 'r list \<Rightarrow> 'a list \<Rightarrow> 'a list option" where
  "collectRows scan [] out = Some out"
| "collectRows scan (r # rows) out = (case scan r of None \<Rightarrow> None | Some item \<Rightarrow> collectRows scan rows (out @ [item]))"

definition query :: "string \<Rightarrow> (cfgdb \<Rightarrow> repo_error + 'a) \<Rightarrow> cfgdb \<Rightarrow> (repo_error + 'a) \<times> cfgdb" where
  "query context f d = (case db_exec d of (False, d) \<Rightarrow> (Inl (DriverError context), d) | (True, d) \<Rightarrow> (f d, d))"

text \<open>\<^verbatim>\<open>SELECT ... ORDER BY ... LIMIT 1\<close>, scanned.\<close>

definition select_one :: "string \<Rightarrow> ('r \<Rightarrow> string) \<Rightarrow> ('r \<Rightarrow> 'a option) \<Rightarrow> 'r QueryBuilder \<Rightarrow> 'r list \<Rightarrow> repo_error + 'a" where
  "select_one context key scan b rows = (case ordered False key key (filter (Clause b) rows) of
      [] \<Rightarrow> Inl ErrNotFound
    | r # _ \<Rightarrow> (case scan r of None \<Rightarrow> Inl (DriverError context) | Some x \<Rightarrow> Inr x))"

text \<open>The list methods: a page of rows in the default order, scanned.\<close>

definition select_page ::
  "pgenv \<Rightarrow> string \<Rightarrow> ('r \<Rightarrow> string) \<Rightarrow> ('r \<Rightarrow> 'a option) \<Rightarrow> ('a \<Rightarrow> string) \<Rightarrow> 'r QueryBuilder \<Rightarrow> CursorPagination \<Rightarrow> 'r list \<Rightarrow>
   repo_error + 'a CursorResult" where
  "select_page env context key scan item_key b page rows =
    (case ApplyKeysetCursor (pe_unmarshalCursor env) page key key False Some b of (limit, b) \<Rightarrow>
      (case collectRows scan (take (nat (limit + 1)) (ordered False key key (filter (Clause b) rows))) [] of
         None \<Rightarrow> Inl (DriverError context)
       | Some items \<Rightarrow> Inr (BuildCursorResult (pe_marshalCursor env) items limit item_key item_key)))"

text \<open>A JSON argument: nothing for an empty text.\<close>

definition jsonbArg :: "bytes \<Rightarrow> bytes option" where
  "jsonbArg raw = (if raw = [] then None else Some raw)"

definition jsonb_col :: "pgenv \<Rightarrow> bytes option \<Rightarrow> bytes" where
  "jsonb_col env v = (case v of None \<Rightarrow> [] | Some raw \<Rightarrow> pe_jsonb env raw)"

section \<open>organization_repo.go\<close>

record OrganizationFilters =
  of_ID :: "string Filter option"
  of_Name :: "string Filter option"
  of_DeletedAt :: "bool Filter option"

definition org_keys :: "(Organization \<Rightarrow> string list option) list" where
  "org_keys = [\<lambda>o'. Some [org_ID o']]"

definition write_orgs where
  "write_orgs stmt = write_tbl db_orgs (\<lambda>rows d. d\<lparr>db_orgs := rows\<rparr>) (\<lambda>d. stmt d)"

definition OrganizationRepo_CreateOrganization :: "Organization \<Rightarrow> cfgdb \<Rightarrow> repo_error option \<times> cfgdb" where
  "OrganizationRepo_CreateOrganization org d = inserted ''insert organization'' (write_orgs (\<lambda>d. insert_row org_keys True
     \<lparr>org_ID = org_ID org, org_Name = org_Name org, org_CreatedAt = org_CreatedAt org, org_UpdatedAt = org_CreatedAt org, org_DeletedAt = None\<rparr>) d)"

definition OrganizationRepo_UpdateOrganization :: "Organization \<Rightarrow> cfgdb \<Rightarrow> repo_error option \<times> cfgdb" where
  "OrganizationRepo_UpdateOrganization org d = affected ErrNotFound ''update organization'' (write_orgs (\<lambda>d. update_where org_keys
     (\<lambda>r. org_ID r = org_ID org \<and> org_DeletedAt r = None)
     (\<lambda>r. r\<lparr>org_Name := org_Name org, org_UpdatedAt := org_UpdatedAt org\<rparr>)) d)"

text \<open>\<^verbatim>\<open>softDelete\<close> on any of the tables: the statement executor, the indexes, the live row of an id, the stamp.\<close>

definition softDelete ::
  "string \<Rightarrow> ((cfgdb \<Rightarrow> 'r list \<Rightarrow> pg_error + nat \<times> 'r list) \<Rightarrow> cfgdb \<Rightarrow> (pg_error + nat) \<times> cfgdb) \<Rightarrow> ('r \<Rightarrow> string list option) list \<Rightarrow>
   (string \<Rightarrow> 'r \<Rightarrow> bool) \<Rightarrow> (time \<Rightarrow> 'r \<Rightarrow> 'r) \<Rightarrow> time \<Rightarrow> string \<Rightarrow> cfgdb \<Rightarrow> repo_error option \<times> cfgdb" where
  "softDelete table exec keys live stamp now i d =
     affected ErrNotFound (''soft delete '' @ table) (exec (\<lambda>d. update_where keys (live i) (stamp now)) d)"

definition OrganizationRepo_DeleteOrganization :: "time \<Rightarrow> string \<Rightarrow> cfgdb \<Rightarrow> repo_error option \<times> cfgdb" where
  "OrganizationRepo_DeleteOrganization = softDelete ''organization'' write_orgs org_keys (\<lambda>i r. org_ID r = i \<and> org_DeletedAt r = None)
     (\<lambda>now r. r\<lparr>org_DeletedAt := Some now, org_UpdatedAt := now\<rparr>)"

definition applyOrganizationFilters :: "pgenv \<Rightarrow> OrganizationFilters \<Rightarrow> Organization QueryBuilder" where
  "applyOrganizationFilters env f =
    (let b = ApplyFilter (pe_ilike env) (of_ID f) (\<lambda>r. Some (org_ID r)) NewQueryBuilder;
         b = ApplyFilter (pe_ilike env) (of_Name f) (\<lambda>r. Some (org_Name r)) b in
     if Filter_IsZero (of_DeletedAt f) then Where (\<lambda>r. org_DeletedAt r = None) b
     else ApplyBoolStateFilter (of_DeletedAt f) org_DeletedAt b)"

definition OrganizationRepo_GetOrganization :: "pgenv \<Rightarrow> OrganizationFilters \<Rightarrow> cfgdb \<Rightarrow> (repo_error + Organization) \<times> cfgdb" where
  "OrganizationRepo_GetOrganization env f = query ''select organization''
     (\<lambda>d. select_one ''select organization'' org_ID Some (applyOrganizationFilters env f) (db_orgs d))"

definition OrganizationRepo_GetOrganizations ::
  "pgenv \<Rightarrow> OrganizationFilters \<Rightarrow> CursorPagination \<Rightarrow> cfgdb \<Rightarrow> (repo_error + Organization CursorResult) \<times> cfgdb" where
  "OrganizationRepo_GetOrganizations env f page = query ''select organizations''
     (\<lambda>d. select_page env ''scan organizations'' org_ID Some org_ID (applyOrganizationFilters env f) page (db_orgs d))"

section \<open>application_repo.go\<close>

record ApplicationFilters =
  af_ID :: "string Filter option"
  af_OrgID :: "string Filter option"
  af_UID :: "string Filter option"
  af_Name :: "string Filter option"

definition app_keys :: "(Application \<Rightarrow> string list option) list" where
  "app_keys = [\<lambda>a. Some [app_ID a], \<lambda>a. if app_DeletedAt a = None then map_option (\<lambda>u. [app_OrgID a, u]) (app_UID a) else None]"

definition write_apps where
  "write_apps stmt = write_tbl db_apps (\<lambda>rows d. d\<lparr>db_apps := rows\<rparr>) (\<lambda>d. stmt d)"

definition metadata_col :: "pgenv \<Rightarrow> bytes \<Rightarrow> bytes" where
  "metadata_col env raw = (case jsonbArg raw of None \<Rightarrow> bytes_of ''{}'' | Some r \<Rightarrow> pe_jsonb env r)"

definition ApplicationRepo_CreateApplication :: "pgenv \<Rightarrow> Application \<Rightarrow> cfgdb \<Rightarrow> repo_error option \<times> cfgdb" where
  "ApplicationRepo_CreateApplication env app d = inserted ''insert application'' (write_apps (\<lambda>d. insert_row app_keys
     (app_OrgID app \<in> org_ID ` set (db_orgs d))
     (app\<lparr>app_Metadata := metadata_col env (app_Metadata app), app_UpdatedAt := app_CreatedAt app, app_DeletedAt := None\<rparr>)) d)"

definition ApplicationRepo_UpdateApplication :: "pgenv \<Rightarrow> Application \<Rightarrow> cfgdb \<Rightarrow> repo_error option \<times> cfgdb" where
  "ApplicationRepo_UpdateApplication env app d = affected ErrNotFound ''update application'' (write_apps (\<lambda>d. update_where app_keys
     (\<lambda>r. app_ID r = app_ID app \<and> app_DeletedAt r = None)
     (\<lambda>r. r\<lparr>app_UID := app_UID app, app_Name := app_Name app, app_RateLimit := app_RateLimit app,
            app_Metadata := metadata_col env (app_Metadata app), app_UpdatedAt := app_UpdatedAt app\<rparr>)) d)"

definition ApplicationRepo_DeleteApplication :: "time \<Rightarrow> string \<Rightarrow> cfgdb \<Rightarrow> repo_error option \<times> cfgdb" where
  "ApplicationRepo_DeleteApplication = softDelete ''application'' write_apps app_keys (\<lambda>i r. app_ID r = i \<and> app_DeletedAt r = None)
     (\<lambda>now r. r\<lparr>app_DeletedAt := Some now, app_UpdatedAt := now\<rparr>)"

definition applyApplicationFilters :: "pgenv \<Rightarrow> ApplicationFilters \<Rightarrow> Application QueryBuilder" where
  "applyApplicationFilters env f =
    (let b = ApplyFilter (pe_ilike env) (af_ID f) (\<lambda>r. Some (app_ID r)) NewQueryBuilder;
         b = ApplyFilter (pe_ilike env) (af_OrgID f) (\<lambda>r. Some (app_OrgID r)) b;
         b = ApplyFilter (pe_ilike env) (af_UID f) app_UID b;
         b = ApplyFilter (pe_ilike env) (af_Name f) (\<lambda>r. Some (app_Name r)) b in
     Where (\<lambda>r. app_DeletedAt r = None) b)"

definition ApplicationRepo_GetApplication :: "pgenv \<Rightarrow> ApplicationFilters \<Rightarrow> cfgdb \<Rightarrow> (repo_error + Application) \<times> cfgdb" where
  "ApplicationRepo_GetApplication env f = query ''select application''
     (\<lambda>d. select_one ''select application'' app_ID Some (applyApplicationFilters env f) (db_apps d))"

definition ApplicationRepo_GetApplications ::
  "pgenv \<Rightarrow> ApplicationFilters \<Rightarrow> CursorPagination \<Rightarrow> cfgdb \<Rightarrow> (repo_error + Application CursorResult) \<times> cfgdb" where
  "ApplicationRepo_GetApplications env f page = query ''select applications''
     (\<lambda>d. select_page env ''scan applications'' app_ID Some app_ID (applyApplicationFilters env f) page (db_apps d))"

section \<open>event_type_repo.go\<close>

record EventTypeFilters =
  tf_OrgID :: "string Filter option"
  tf_Name :: "string Filter option"
  tf_IncludeArchived :: bool

definition type_keys :: "(EventType \<Rightarrow> string list option) list" where
  "type_keys = [\<lambda>t. Some [et_OrgID t, et_Name t]]"

definition write_types where
  "write_types stmt = write_tbl db_types (\<lambda>rows d. d\<lparr>db_types := rows\<rparr>) (\<lambda>d. stmt d)"

text \<open>
  \<^verbatim>\<open>INSERT ... ON CONFLICT (org_id, name) DO UPDATE ... WHERE deleted_at IS NOT NULL\<close>: a live row of the
  same name is left alone and no row is affected.
\<close>

definition upsert_type :: "bool \<Rightarrow> EventType \<Rightarrow> EventType list \<Rightarrow> pg_error + nat \<times> EventType list" where
  "upsert_type references et rows =
    (let same = (\<lambda>r. et_OrgID r = et_OrgID et \<and> et_Name r = et_Name et) in
     if list_ex same rows then
       update_where type_keys (\<lambda>r. same r \<and> et_DeletedAt r \<noteq> None)
         (\<lambda>r. r\<lparr>et_Description := et_Description et, et_Schemas := et_Schemas et, et_UpdatedAt := et_UpdatedAt et, et_DeletedAt := None\<rparr>) rows
     else insert_row type_keys references et rows)"

definition EventTypeRepo_CreateEventType :: "pgenv \<Rightarrow> EventType \<Rightarrow> cfgdb \<Rightarrow> repo_error option \<times> cfgdb" where
  "EventTypeRepo_CreateEventType env et d = affected ErrConflict ''insert event type'' (write_types (\<lambda>d. upsert_type
     (et_OrgID et \<in> org_ID ` set (db_orgs d))
     (et\<lparr>et_Schemas := jsonb_col env (jsonbArg (et_Schemas et)), et_UpdatedAt := et_CreatedAt et, et_DeletedAt := None\<rparr>)) d)"

definition EventTypeRepo_UpdateEventType :: "pgenv \<Rightarrow> EventType \<Rightarrow> cfgdb \<Rightarrow> repo_error option \<times> cfgdb" where
  "EventTypeRepo_UpdateEventType env et d = affected ErrNotFound ''update event type'' (write_types (\<lambda>d. update_where type_keys
     (\<lambda>r. et_OrgID r = et_OrgID et \<and> et_Name r = et_Name et \<and> et_DeletedAt r = None)
     (\<lambda>r. r\<lparr>et_Description := et_Description et, et_Schemas := jsonb_col env (jsonbArg (et_Schemas et)), et_UpdatedAt := et_UpdatedAt et\<rparr>)) d)"

text \<open>\<open>archived\<close> is the lifecycle state the predicate of the UPDATE asks for.\<close>

definition setDeletedAt :: "string \<Rightarrow> string \<Rightarrow> time option \<Rightarrow> bool \<Rightarrow> cfgdb \<Rightarrow> repo_error option \<times> cfgdb" where
  "setDeletedAt orgID name at archived d = affected ErrNotFound ''update event type lifecycle'' (write_types (\<lambda>d. update_where type_keys
     (\<lambda>r. et_OrgID r = orgID \<and> et_Name r = name \<and> Archived r = archived)
     (\<lambda>r. r\<lparr>et_DeletedAt := at, et_UpdatedAt := db_now d\<rparr>)) d)"

definition EventTypeRepo_ArchiveEventType :: "time \<Rightarrow> string \<Rightarrow> string \<Rightarrow> cfgdb \<Rightarrow> repo_error option \<times> cfgdb" where
  "EventTypeRepo_ArchiveEventType now orgID name = setDeletedAt orgID name (Some now) False"

definition EventTypeRepo_UnarchiveEventType :: "string \<Rightarrow> string \<Rightarrow> cfgdb \<Rightarrow> repo_error option \<times> cfgdb" where
  "EventTypeRepo_UnarchiveEventType orgID name = setDeletedAt orgID name None True"

definition applyEventTypeFilters :: "pgenv \<Rightarrow> EventTypeFilters \<Rightarrow> EventType QueryBuilder" where
  "applyEventTypeFilters env f =
    (let b = ApplyFilter (pe_ilike env) (tf_OrgID f) (\<lambda>r. Some (et_OrgID r)) NewQueryBuilder;
         b = ApplyFilter (pe_ilike env) (tf_Name f) (\<lambda>r. Some (et_Name r)) b in
     if \<not> tf_IncludeArchived f then Where (\<lambda>r. et_DeletedAt r = None) b else b)"

definition EventTypeRepo_GetEventType :: "pgenv \<Rightarrow> EventTypeFilters \<Rightarrow> cfgdb \<Rightarrow> (repo_error + EventType) \<times> cfgdb" where
  "EventTypeRepo_GetEventType env f = query ''select event type''
     (\<lambda>d. select_one ''select event type'' et_Name Some (applyEventTypeFilters env f) (db_types d))"

definition EventTypeRepo_GetEventTypes ::
  "pgenv \<Rightarrow> EventTypeFilters \<Rightarrow> CursorPagination \<Rightarrow> cfgdb \<Rightarrow> (repo_error + EventType CursorResult) \<times> cfgdb" where
  "EventTypeRepo_GetEventTypes env f page = query ''select event types''
     (\<lambda>d. select_page env ''scan event types'' et_Name Some et_Name (applyEventTypeFilters env f) page (db_types d))"

section \<open>endpoint_repo.go\<close>

record EndpointFilters =
  ef_ID :: "string Filter option"
  ef_AppID :: "string Filter option"
  ef_OrgID :: "string Filter option"
  ef_UID :: "string Filter option"
  ef_URL :: "string Filter option"
  ef_Pool :: "string Filter option"
  ef_Disabled :: "bool Filter option"
  ef_FirstFailureBefore :: "time option"

definition no_endpoint_filters :: EndpointFilters where
  "no_endpoint_filters = \<lparr>ef_ID = None, ef_AppID = None, ef_OrgID = None, ef_UID = None, ef_URL = None, ef_Pool = None,
     ef_Disabled = None, ef_FirstFailureBefore = None\<rparr>"

definition ep_keys :: "(endpoint_row \<Rightarrow> string list option) list" where
  "ep_keys = [\<lambda>e. Some [ep_ID e], \<lambda>e. if ep_DeletedAt e = None then map_option (\<lambda>u. [ep_AppID e, u]) (ep_UID e) else None]"

definition write_eps where
  "write_eps stmt = write_tbl db_eps (\<lambda>rows d. d\<lparr>db_eps := rows\<rparr>) (\<lambda>d. stmt d)"

text \<open>\<open>None\<close> when the encoding fails; the column is NULL for no secrets.\<close>

definition marshalSealedSecrets :: "pgenv \<Rightarrow> SealedSecret list \<Rightarrow> bytes option option" where
  "marshalSealedSecrets env secrets = (if secrets = [] then Some None else map_option Some (pe_marshalSecrets env secrets))"

definition unmarshalSealedSecrets :: "pgenv \<Rightarrow> bytes option \<Rightarrow> SealedSecret list option" where
  "unmarshalSealedSecrets env raw = (case raw of
      None \<Rightarrow> Some []
    | Some r \<Rightarrow> if r = [] then Some [] else pe_unmarshalSecrets env r)"

text \<open>The row an entity is written as; the lists have NULL for empty, which is read as empty.\<close>

definition endpoint_row_of :: "pgenv \<Rightarrow> Endpoint \<Rightarrow> bytes option \<Rightarrow> endpoint_row" where
  "endpoint_row_of env ep old = Endpoint.extend
     (ep\<lparr>ep_Headers := jsonb_col env (jsonbArg (ep_Headers ep)), ep_Secret := \<lparr>sealed_Sealed = sealed_Sealed (ep_Secret ep), sealed_ExpiresAt = None\<rparr>,
         ep_OldSecrets := [], ep_FirstFailureAt := None, ep_DisabledAt := None, ep_UpdatedAt := ep_CreatedAt ep, ep_DeletedAt := None\<rparr>)
     (endpoint_row.fields (map_option (pe_jsonb env) old))"

definition EndpointRepo_CreateEndpoint :: "pgenv \<Rightarrow> Endpoint \<Rightarrow> cfgdb \<Rightarrow> repo_error option \<times> cfgdb" where
  "EndpointRepo_CreateEndpoint env ep d = (case marshalSealedSecrets env (ep_OldSecrets ep) of
      None \<Rightarrow> (Some (DriverError ''encode rotated secrets''), d)
    | Some old \<Rightarrow> inserted ''insert endpoint'' (write_eps (\<lambda>d. insert_row ep_keys
        (ep_AppID ep \<in> app_ID ` set (db_apps d)) (endpoint_row_of env ep old)) d))"

definition live_endpoint :: "string \<Rightarrow> endpoint_row \<Rightarrow> bool" where
  "live_endpoint i r \<longleftrightarrow> ep_ID r = i \<and> ep_DeletedAt r = None"

definition EndpointRepo_UpdateEndpoint :: "pgenv \<Rightarrow> Endpoint \<Rightarrow> cfgdb \<Rightarrow> repo_error option \<times> cfgdb" where
  "EndpointRepo_UpdateEndpoint env ep d = affected ErrNotFound ''update endpoint'' (write_eps (\<lambda>d. update_where ep_keys
     (live_endpoint (ep_ID ep))
     (\<lambda>r. r\<lparr>ep_UID := ep_UID ep, ep_URL := ep_URL ep, ep_Description := ep_Description ep, ep_Version := ep_Version ep,
            ep_RateLimit := ep_RateLimit ep, ep_EventTypes := ep_EventTypes ep, ep_Channels := ep_Channels ep,
            ep_Headers := jsonb_col env (jsonbArg (ep_Headers ep)), ep_UpdatedAt := ep_UpdatedAt ep\<rparr>)) d)"

definition EndpointRepo_DeleteEndpoint :: "time \<Rightarrow> string \<Rightarrow> cfgdb \<Rightarrow> repo_error option \<times> cfgdb" where
  "EndpointRepo_DeleteEndpoint = softDelete ''endpoint'' write_eps ep_keys live_endpoint
     (\<lambda>now r. r\<lparr>ep_DeletedAt := Some now, ep_UpdatedAt := now\<rparr>)"

definition updateColumn :: "string \<Rightarrow> string \<Rightarrow> (endpoint_row \<Rightarrow> endpoint_row) \<Rightarrow> cfgdb \<Rightarrow> repo_error option \<times> cfgdb" where
  "updateColumn i column upd d = affected ErrNotFound (''update endpoint '' @ column) (write_eps (\<lambda>d. update_where ep_keys
     (live_endpoint i) (\<lambda>r. (upd r)\<lparr>ep_UpdatedAt := db_now d\<rparr>)) d)"

definition EndpointRepo_SetPool :: "string \<Rightarrow> string \<Rightarrow> cfgdb \<Rightarrow> repo_error option \<times> cfgdb" where
  "EndpointRepo_SetPool i pool = updateColumn i ''pool'' (\<lambda>r. r\<lparr>ep_Pool := pool\<rparr>)"

definition EndpointRepo_SetDisabled :: "string \<Rightarrow> time option \<Rightarrow> cfgdb \<Rightarrow> repo_error option \<times> cfgdb" where
  "EndpointRepo_SetDisabled i at = updateColumn i ''disabled_at'' (\<lambda>r. r\<lparr>ep_DisabledAt := at\<rparr>)"

definition EndpointRepo_SetFirstFailure :: "string \<Rightarrow> time option \<Rightarrow> cfgdb \<Rightarrow> repo_error option \<times> cfgdb" where
  "EndpointRepo_SetFirstFailure i at = updateColumn i ''first_failure_at'' (\<lambda>r. r\<lparr>ep_FirstFailureAt := at\<rparr>)"

definition EndpointRepo_RotateSecret :: "pgenv \<Rightarrow> string \<Rightarrow> SealedSecret \<Rightarrow> SealedSecret list \<Rightarrow> cfgdb \<Rightarrow> repo_error option \<times> cfgdb" where
  "EndpointRepo_RotateSecret env i secret old d = (case marshalSealedSecrets env old of
      None \<Rightarrow> (Some (DriverError ''encode rotated secrets''), d)
    | Some encoded \<Rightarrow> affected ErrNotFound ''rotate endpoint secret'' (write_eps (\<lambda>d. update_where ep_keys (live_endpoint i)
        (\<lambda>r. r\<lparr>ep_Secret := \<lparr>sealed_Sealed = sealed_Sealed secret, sealed_ExpiresAt = None\<rparr>,
               ep_UpdatedAt := db_now d, col_old_secrets_enc := map_option (pe_jsonb env) encoded\<rparr>)) d))"

definition applyEndpointFilters :: "pgenv \<Rightarrow> EndpointFilters \<Rightarrow> endpoint_row QueryBuilder" where
  "applyEndpointFilters env f =
    (let b = ApplyFilter (pe_ilike env) (ef_ID f) (\<lambda>r. Some (ep_ID r)) NewQueryBuilder;
         b = ApplyFilter (pe_ilike env) (ef_AppID f) (\<lambda>r. Some (ep_AppID r)) b;
         b = ApplyFilter (pe_ilike env) (ef_OrgID f) (\<lambda>r. Some (ep_OrgID r)) b;
         b = ApplyFilter (pe_ilike env) (ef_UID f) ep_UID b;
         b = ApplyFilter (pe_ilike env) (ef_URL f) (\<lambda>r. Some (ep_URL r)) b;
         b = ApplyFilter (pe_ilike env) (ef_Pool f) (\<lambda>r. Some (ep_Pool r)) b;
         b = ApplyBoolStateFilter (ef_Disabled f) ep_DisabledAt b;
         b = where_opt (ef_FirstFailureBefore f) (\<lambda>t. where_col ep_FirstFailureAt (\<lambda>x. x < t)) b in
     Where (\<lambda>r. ep_DeletedAt r = None) b)"

definition scanEndpoint :: "pgenv \<Rightarrow> endpoint_row \<Rightarrow> Endpoint option" where
  "scanEndpoint env r = map_option (\<lambda>old. (Endpoint.truncate r)\<lparr>ep_OldSecrets := old\<rparr>) (unmarshalSealedSecrets env (col_old_secrets_enc r))"

definition EndpointRepo_GetEndpoint :: "pgenv \<Rightarrow> EndpointFilters \<Rightarrow> cfgdb \<Rightarrow> (repo_error + Endpoint) \<times> cfgdb" where
  "EndpointRepo_GetEndpoint env f = query ''select endpoint''
     (\<lambda>d. select_one ''select endpoint'' ep_ID (scanEndpoint env) (applyEndpointFilters env f) (db_eps d))"

definition EndpointRepo_GetEndpoints ::
  "pgenv \<Rightarrow> EndpointFilters \<Rightarrow> CursorPagination \<Rightarrow> cfgdb \<Rightarrow> (repo_error + Endpoint CursorResult) \<times> cfgdb" where
  "EndpointRepo_GetEndpoints env f page = query ''select endpoints''
     (\<lambda>d. select_page env ''scan endpoints'' ep_ID (scanEndpoint env) ep_ID (applyEndpointFilters env f) page (db_eps d))"

section \<open>snapshot_repo.go\<close>

text \<open>Four queries, each of which may fail; the tables are those of the moment of its query, here unchanged.\<close>

definition load_rows :: "string \<Rightarrow> (cfgdb \<Rightarrow> repo_error + 'a) \<Rightarrow> ('a \<Rightarrow> cfgdb \<Rightarrow> (repo_error + 'b) \<times> cfgdb) \<Rightarrow> cfgdb \<Rightarrow> (repo_error + 'b) \<times> cfgdb" where
  "load_rows context f rest d = (case query context f d of (Inl e, d) \<Rightarrow> (Inl e, d) | (Inr x, d) \<Rightarrow> rest x d)"

definition LoadSnapshot :: "pgenv \<Rightarrow> cfgdb \<Rightarrow> (repo_error + SnapshotData) \<times> cfgdb" where
  "LoadSnapshot env =
    load_rows ''load organizations'' (\<lambda>d. Inr (filter (\<lambda>r. org_DeletedAt r = None) (db_orgs d))) (\<lambda>orgs.
    load_rows ''load applications'' (\<lambda>d. Inr (filter (\<lambda>r. app_DeletedAt r = None) (db_apps d))) (\<lambda>apps.
    load_rows ''load endpoints'' (\<lambda>d. case collectRows (scanEndpoint env) (filter (\<lambda>r. ep_DeletedAt r = None) (db_eps d)) [] of
        None \<Rightarrow> Inl (DriverError ''scan endpoints'') | Some eps \<Rightarrow> Inr eps) (\<lambda>eps.
    load_rows ''load event types'' (\<lambda>d. Inr (filter (\<lambda>r. et_DeletedAt r = None) (db_types d))) (\<lambda>types d.
      (Inr \<lparr>sd_Organizations = orgs, sd_Applications = apps, sd_Endpoints = eps, sd_EventTypes = types\<rparr>, d)))))"

definition NotifyConfigChanged :: "string \<Rightarrow> cfgdb \<Rightarrow> repo_error option \<times> cfgdb" where
  "NotifyConfigChanged orgID d = (case db_exec d of
      (False, d) \<Rightarrow> (Some (DriverError ''notify config change''), d)
    | (True, d) \<Rightarrow> (None, d\<lparr>db_notified := db_notified d @ [orgID]\<rparr>))"

section \<open>What the statements change\<close>

text \<open>A statement changes the table it is about, takes an entry of the fault script, and nothing else.\<close>

lemma db_exec_frame: "db_exec d = (ok, d') \<Longrightarrow> \<exists>fs. d' = d\<lparr>db_faults := fs\<rparr>"
  by (auto simp: db_exec_def split: list.splits) (metis cfgdb.surjective cfgdb.update_convs(6) cfgdb.select_convs(6))

lemma insert_row_Inr:
  "insert_row keys references r rows = Inr (n, rows') \<longleftrightarrow> unique keys (rows @ [r]) \<and> references \<and> n = 1 \<and> rows' = rows @ [r]"
  by (auto simp: insert_row_def)

lemma update_where_Inr:
  "update_where keys P f rows = Inr (n, rows') \<longleftrightarrow>
     rows' = map (\<lambda>r. if P r then f r else r) rows \<and> unique keys rows' \<and> n = length (filter P rows)"
  by (auto simp: update_where_def Let_def)

lemma write_eps_cases:
  assumes "write_eps stmt d = (res, d')"
  obtains (fail) e fs where "res = Inl e" "d' = d\<lparr>db_faults := fs\<rparr>"
    | (ok) n rows fs where "res = Inr n" "stmt (d\<lparr>db_faults := fs\<rparr>) (db_eps d) = Inr (n, rows)" "d' = d\<lparr>db_faults := fs, db_eps := rows\<rparr>"
proof -
  obtain ok d1 where x: "db_exec d = (ok, d1)" by fastforce
  then obtain fs where "d1 = d\<lparr>db_faults := fs\<rparr>" using db_exec_frame by blast
  with assms x that show thesis by (cases ok) (auto simp: write_eps_def write_tbl_def split: sum.splits prod.splits)
qed

lemma query_frame: "query c f d = (res, d') \<Longrightarrow> \<exists>fs. d' = d\<lparr>db_faults := fs\<rparr> \<and> (res = f d' \<or> res = Inl (DriverError c))"
  using db_exec_frame by (fastforce simp: query_def split: prod.splits bool.splits)

lemma collectRows_Some: "collectRows scan rows out = Some xs \<longleftrightarrow> (\<exists>ys. xs = out @ ys \<and> list_all2 (\<lambda>r y. scan r = Some y) rows ys)"
  by (induction rows arbitrary: out) (force simp: list_all2_Cons1 split: option.splits)+

lemma unique_id:
  assumes "unique keys rows" and "(\<lambda>r. Some [i r]) \<in> set keys"
  shows "distinct (map i rows)"
proof -
  have "distinct (List.map_filter (\<lambda>r. Some [i r]) rows)" using assms by (auto simp: unique_def list_all_iff)
  moreover have "List.map_filter (\<lambda>r. Some [i r]) rows = map (\<lambda>r. [i r]) rows" by (induction rows) (auto simp: List.map_filter_simps)
  ultimately show ?thesis by (simp add: distinct_map inj_on_def)
qed

lemma ep_keys_id: "unique ep_keys rows \<Longrightarrow> distinct (map ep_ID rows)"
  by (erule unique_id) (simp add: ep_keys_def)

lemma ordered_hd: "ordered False key key (filter (Clause b) rows) = r # rs \<Longrightarrow> r \<in> set rows \<and> Clause b r"
  by (drule arg_cong [where f = set]) auto

lemma ordered_Nil: "ordered False key key (filter (Clause b) rows) = [] \<longleftrightarrow> \<not> (\<exists>r\<in>set rows. Clause b r)"
  by (metis (no_types, lifting) filter_empty_conv set_empty set_ordered)

lemma select_one_Inr: "select_one c key scan b rows = Inr x \<Longrightarrow> \<exists>r\<in>set rows. Clause b r \<and> scan r = Some x"
  by (auto simp: select_one_def dest: ordered_hd split: list.splits option.splits)

lemma select_one_NotFound: "select_one c key scan b rows = Inl ErrNotFound \<longleftrightarrow> \<not> (\<exists>r\<in>set rows. Clause b r)"
  by (auto simp: select_one_def ordered_Nil dest: ordered_hd split: list.splits option.splits)

lemma scanEndpoint_fields:
  assumes "scanEndpoint env r = Some ep"
  shows "ep = (Endpoint.truncate r)\<lparr>ep_OldSecrets := ep_OldSecrets ep\<rparr>"
    and "unmarshalSealedSecrets env (col_old_secrets_enc r) = Some (ep_OldSecrets ep)"
  using assms by (auto simp: scanEndpoint_def Endpoint.truncate_def)

end
