(* ===== verification/Endpoint_UseCase.thy ===== *)
theory Endpoint_UseCase
  imports Config_Repos "HOL-Library.AList"
begin

text \<open>
  \<^verbatim>\<open>internal/application/usecases/endpoint_usecase.go\<close>: the lifecycle of an endpoint and of its signing
  secrets, over the endpoint repository. The clock, generated ids, random bytes, \<^verbatim>\<open>net/url\<close> and
  \<^verbatim>\<open>encoding/json\<close> are fields of an environment. A Go map of headers is an association list in the
  order its range visits it. A result is an application error or a value, with the database after.
\<close>

record ucenv =
  uc_pg :: pgenv
  uc_now :: time
  uc_nowLater :: time
  uc_nowDelete :: time
  uc_id :: string
  uc_random :: "bytes option"
  uc_nonce :: "bytes option"
  uc_parseURL :: "string \<Rightarrow> (string \<times> string) option"
  uc_validJSON :: "bytes \<Rightarrow> bool"
  uc_marshalHeaders :: "(string \<times> string) list \<Rightarrow> bytes option"
  uc_unmarshalHeaders :: "bytes \<Rightarrow> (string \<times> string) list option"
  uc_lowerUnicode :: "string \<Rightarrow> string"
  uc_aead_seal :: "bytes \<Rightarrow> bytes \<Rightarrow> bytes \<Rightarrow> bytes"
  uc_aead_open :: "bytes \<Rightarrow> bytes \<Rightarrow> bytes \<Rightarrow> bytes option"
  uc_sealer :: Sealer
  uc_invalidator :: bool

type_synonym 'a uc_result = "(AppError + 'a) \<times> cfgdb"

definition Internal :: "repo_error \<Rightarrow> AppError" where
  "Internal e = NewInternalError (repo_text e)"

text \<open>Going on with the value of a step, or returning its error.\<close>

definition uc_bind :: "'a uc_result \<Rightarrow> ('a \<Rightarrow> cfgdb \<Rightarrow> 'b uc_result) \<Rightarrow> 'b uc_result" where
  "uc_bind r f = (case r of (Inl e, d) \<Rightarrow> (Inl e, d) | (Inr x, d) \<Rightarrow> f x d)"

text \<open>A repository call: how its errors become application errors, and what follows when there is none.\<close>

definition uc_call :: "repo_error option \<times> cfgdb \<Rightarrow> (repo_error \<Rightarrow> AppError) \<Rightarrow> (cfgdb \<Rightarrow> 'a uc_result) \<Rightarrow> 'a uc_result" where
  "uc_call r to_app f = (case r of (Some e, d) \<Rightarrow> (Inl (to_app e), d) | (None, d) \<Rightarrow> f d)"

definition not_found_or_internal :: "string \<Rightarrow> repo_error \<Rightarrow> AppError" where
  "not_found_or_internal what e = (if e = ErrNotFound then NewNotFoundError what else Internal e)"

definition conflict_or_internal :: "string \<Rightarrow> repo_error \<Rightarrow> AppError" where
  "conflict_or_internal message e = (if e = ErrConflict then NewConflictError message else Internal e)"

definition uc_invalidate :: "ucenv \<Rightarrow> string \<Rightarrow> cfgdb \<Rightarrow> cfgdb" where
  "uc_invalidate v orgID d = (if uc_invalidator v then snd (NotifyConfigChanged orgID d) else d)"

text \<open>
  The lookup that \<^verbatim>\<open>GetEndpoint\<close> and \<^verbatim>\<open>GetApplication\<close> share: by id, and when there is none, by uid.
\<close>

definition by_id_or_uid ::
  "string \<Rightarrow> (cfgdb \<Rightarrow> (repo_error + 'a) \<times> cfgdb) \<Rightarrow> (cfgdb \<Rightarrow> (repo_error + 'a) \<times> cfgdb) \<Rightarrow> cfgdb \<Rightarrow> 'a uc_result" where
  "by_id_or_uid what get_id get_uid d = (case get_id d of
      (Inr x, d) \<Rightarrow> (Inr x, d)
    | (Inl e, d) \<Rightarrow>
        if e \<noteq> ErrNotFound then (Inl (Internal e), d)
        else (case get_uid d of
            (Inr x, d) \<Rightarrow> (Inr x, d)
          | (Inl e, d) \<Rightarrow> (Inl (not_found_or_internal what e), d)))"

section \<open>Validation\<close>

definition SecretRotationOverlap :: duration where
  "SecretRotationOverlap = 24 * Hour"

definition reservedHeaders :: "string list" where
  "reservedHeaders = [''webhook-id'', ''webhook-timestamp'', ''webhook-signature'', ''huxio-id'', ''huxio-timestamp'', ''huxio-signature'',
     ''content-type'', ''content-length'', ''host'', ''user-agent'', ''transfer-encoding'', ''connection'']"

text \<open>
  \<^verbatim>\<open>http.CanonicalHeaderKey\<close>: a name with a byte that is not a token byte is returned unchanged; in any
  other, a letter is upper case at the start and after a dash, and lower case elsewhere.
\<close>

definition validHeaderFieldByte :: "char \<Rightarrow> bool" where
  "validHeaderFieldByte c = (let n = (of_char c :: nat) in
     48 \<le> n \<and> n \<le> 57 \<or> 65 \<le> n \<and> n \<le> 90 \<or> 97 \<le> n \<and> n \<le> 122 \<or> c \<in> set ''!#$%&*+-.^_|~'' \<or> n = 39 \<or> n = 96)"

definition upper_char :: "char \<Rightarrow> char" where
  "upper_char c = (let n = (of_char c :: nat) in if 97 \<le> n \<and> n \<le> 122 then char_of (n - 32) else c)"

fun canonical_loop :: "bool \<Rightarrow> string \<Rightarrow> string" where
  "canonical_loop upper [] = []"
| "canonical_loop upper (c # cs) = (let c = (if upper then upper_char c else lower_char c) in c # canonical_loop (c = CHR ''-'') cs)"

definition CanonicalHeaderKey :: "string \<Rightarrow> string" where
  "CanonicalHeaderKey s = (if list_all validHeaderFieldByte s then canonical_loop True s else s)"

definition banned_header_chars :: string where
  "banned_header_chars = '' '' @ [CHR 0x09, CHR 0x0D, CHR 0x0A] @ '':()<>@,;'' @ [CHR 0x5C, CHR 0x22] @ ''/[]?={}''"

definition isValidHeaderName :: "(string \<Rightarrow> string) \<Rightarrow> string \<Rightarrow> bool" where
  "isValidHeaderName lowerUnicode name \<longleftrightarrow> name \<noteq> [] \<and>
     CanonicalHeaderKey name = CanonicalHeaderKey (ToLower lowerUnicode name) \<and>
     \<not> list_ex (\<lambda>c. c \<in> set banned_header_chars) name"

fun check_headers :: "(string \<Rightarrow> string) \<Rightarrow> (string \<times> string) list \<Rightarrow> AppError option" where
  "check_headers lowerUnicode [] = None"
| "check_headers lowerUnicode ((name, value) # rest) =
    (if \<not> isValidHeaderName lowerUnicode name then Some (NewValidationError (''invalid header name: '' @ name))
     else if ToLower lowerUnicode name \<in> set reservedHeaders then Some (NewValidationError (''header may not be overridden: '' @ name))
     else check_headers lowerUnicode rest)"

definition encodeCustomHeaders :: "ucenv \<Rightarrow> (string \<times> string) list \<Rightarrow> AppError + bytes" where
  "encodeCustomHeaders v headers =
    (if headers = [] then Inr []
     else case check_headers (uc_lowerUnicode v) headers of
       Some e \<Rightarrow> Inl e
     | None \<Rightarrow> (case uc_marshalHeaders v headers of None \<Rightarrow> Inl (NewInternalError ''json: marshal'') | Some encoded \<Rightarrow> Inr encoded))"

definition validateEndpointURL :: "ucenv \<Rightarrow> string \<Rightarrow> AppError option" where
  "validateEndpointURL v raw =
    (if IsBlank raw then Some (NewValidationError ''url is required'')
     else case uc_parseURL v raw of
       None \<Rightarrow> Some (NewValidationError ''url is not a valid URL'')
     | Some (scheme, host) \<Rightarrow>
        if scheme \<noteq> ''http'' \<and> scheme \<noteq> ''https'' then Some (NewValidationError ''url must use http or https'')
        else if host = [] then Some (NewValidationError ''url must include a host'')
        else None)"

definition GenerateSecret :: "ucenv \<Rightarrow> AppError + string" where
  "GenerateSecret v = (case uc_random v of
      None \<Rightarrow> Inl (NewInternalError ''generate signing secret'')
    | Some raw \<Rightarrow> Inr (''whsec_'' @ EncodeToString StdEncoding raw))"

text \<open>The secret a request installs: generated when it is blank, else it must have the prefix.\<close>

definition chosen_secret :: "ucenv \<Rightarrow> string \<Rightarrow> AppError + string" where
  "chosen_secret v secret =
    (if IsBlank secret then GenerateSecret v
     else if take (length ''whsec_'') secret \<noteq> ''whsec_'' then Inl (NewValidationError ''secret must start with whsec_'')
     else Inr secret)"

definition seal_text :: "seal_error \<Rightarrow> string" where
  "seal_text e = (case e of ErrOpen \<Rightarrow> ''open sealed secret'' | _ \<Rightarrow> ''seal secret'')"

text \<open>Choosing a secret and sealing it.\<close>

definition sealed_secret :: "ucenv \<Rightarrow> string \<Rightarrow> AppError + string \<times> bytes" where
  "sealed_secret v requested = (case chosen_secret v requested of
      Inl e \<Rightarrow> Inl e
    | Inr secret \<Rightarrow> (case Seal (uc_aead_seal v) (uc_sealer v) (uc_nonce v) (bytes_of secret) of
        Inl e \<Rightarrow> Inl (NewInternalError (seal_text e))
      | Inr sealed \<Rightarrow> Inr (secret, sealed)))"

section \<open>Operations\<close>

record CreateEndpointInput =
  ce_OrgID :: string
  ce_AppID :: string
  ce_URL :: string
  ce_Description :: string
  ce_UID :: "string option"
  ce_Version :: "int option"
  ce_RateLimit :: "int option"
  ce_EventTypes :: "string list"
  ce_Channels :: "string list"
  ce_Headers :: "(string \<times> string) list"
  ce_Secret :: string
  ce_SecretType :: "SecretType option"
  ce_Pool :: string

definition not_positive :: "int option \<Rightarrow> bool" where
  "not_positive r = (case r of None \<Rightarrow> False | Some n \<Rightarrow> n \<le> 0)"

definition new_endpoint :: "ucenv \<Rightarrow> CreateEndpointInput \<Rightarrow> bytes \<Rightarrow> SecretType \<Rightarrow> bytes \<Rightarrow> Endpoint" where
  "new_endpoint v inp headers secretType sealed =
    \<lparr>ep_ID = uc_id v, ep_AppID = ce_AppID inp, ep_OrgID = ce_OrgID inp, ep_UID = NilIfBlank (Deref (ce_UID inp) []), ep_URL = ce_URL inp,
     ep_Description = ce_Description inp, ep_Version = max (Deref (ce_Version inp) 1) 1, ep_RateLimit = ce_RateLimit inp,
     ep_EventTypes = Unique (ce_EventTypes inp), ep_Channels = Unique (ce_Channels inp), ep_Headers = headers,
     ep_Secret = \<lparr>sealed_Sealed = sealed, sealed_ExpiresAt = None\<rparr>, ep_SecretType = secretType, ep_OldSecrets = [],
     ep_Pool = Fallback (ce_Pool inp) ''default'', ep_FirstFailureAt = None, ep_DisabledAt = None,
     ep_CreatedAt = uc_now v, ep_UpdatedAt = uc_now v, ep_DeletedAt = None\<rparr>"

definition CreateEndpoint :: "ucenv \<Rightarrow> CreateEndpointInput \<Rightarrow> cfgdb \<Rightarrow> (Endpoint \<times> string) uc_result" where
  "CreateEndpoint v inp d = (case validateEndpointURL v (ce_URL inp) of
      Some e \<Rightarrow> (Inl e, d)
    | None \<Rightarrow> (case encodeCustomHeaders v (ce_Headers inp) of
        Inl e \<Rightarrow> (Inl e, d)
      | Inr headers \<Rightarrow>
         (let secretType = Deref (ce_SecretType inp) SecretTypeHMAC256 in
          if \<not> SecretType_Valid secretType then (Inl (NewValidationError ''unsupported secret type''), d)
          else if not_positive (ce_RateLimit inp) then (Inl (NewValidationError ''rateLimit must be positive''), d)
          else case sealed_secret v (ce_Secret inp) of
            Inl e \<Rightarrow> (Inl e, d)
          | Inr (secret, sealed) \<Rightarrow>
             (let ep = new_endpoint v inp headers secretType sealed in
              uc_call (EndpointRepo_CreateEndpoint (uc_pg v) ep d) (conflict_or_internal ''an endpoint with this uid already exists'')
                (\<lambda>d. (Inr (ep, secret), uc_invalidate v (ce_OrgID inp) d))))))"

definition GetEndpoint :: "ucenv \<Rightarrow> string \<Rightarrow> string \<Rightarrow> cfgdb \<Rightarrow> Endpoint uc_result" where
  "GetEndpoint v appID idOrUID = by_id_or_uid ''endpoint''
     (EndpointRepo_GetEndpoint (uc_pg v) (no_endpoint_filters\<lparr>ef_AppID := Eq appID, ef_ID := Eq idOrUID\<rparr>))
     (EndpointRepo_GetEndpoint (uc_pg v) (no_endpoint_filters\<lparr>ef_AppID := Eq appID, ef_UID := Eq idOrUID\<rparr>))"

text \<open>A Go slice that may be nil.\<close>

record UpdateEndpointInput =
  ue_URL :: "string option"
  ue_Description :: "string option"
  ue_UID :: "string option"
  ue_Version :: "int option"
  ue_RateLimit :: "int option"
  ue_EventTypes :: "string list option"
  ue_Channels :: "string list option"
  ue_Disabled :: "bool option"
  ue_ClearEventTypes :: bool
  ue_ClearChannels :: bool

definition update_fields :: "ucenv \<Rightarrow> UpdateEndpointInput \<Rightarrow> Endpoint \<Rightarrow> AppError + Endpoint" where
  "update_fields v inp ep =
    (case (case ue_URL inp of None \<Rightarrow> None | Some u \<Rightarrow> validateEndpointURL v u) of
       Some e \<Rightarrow> Inl e
     | None \<Rightarrow>
        if (case ue_Version inp of None \<Rightarrow> False | Some n \<Rightarrow> n < 1) then Inl (NewValidationError ''version must be at least 1'')
        else if not_positive (ue_RateLimit inp) then Inl (NewValidationError ''rateLimit must be positive'')
        else Inr (ep\<lparr>ep_URL := Deref (ue_URL inp) (ep_URL ep),
            ep_Description := Deref (ue_Description inp) (ep_Description ep),
            ep_UID := (case ue_UID inp of None \<Rightarrow> ep_UID ep | Some u \<Rightarrow> NilIfBlank u),
            ep_Version := Deref (ue_Version inp) (ep_Version ep),
            ep_RateLimit := (case ue_RateLimit inp of None \<Rightarrow> ep_RateLimit ep | Some n \<Rightarrow> Some n),
            ep_EventTypes := (if ue_ClearEventTypes inp then [] else case ue_EventTypes inp of None \<Rightarrow> ep_EventTypes ep | Some ts \<Rightarrow> Unique ts),
            ep_Channels := (if ue_ClearChannels inp then [] else case ue_Channels inp of None \<Rightarrow> ep_Channels ep | Some cs \<Rightarrow> Unique cs),
            ep_UpdatedAt := uc_now v\<rparr>))"

definition setDisabled :: "ucenv \<Rightarrow> Endpoint \<Rightarrow> bool \<Rightarrow> cfgdb \<Rightarrow> Endpoint uc_result" where
  "setDisabled v ep disabled d =
    (let at = (if disabled then Some (uc_nowLater v) else None) in
     uc_call (EndpointRepo_SetDisabled (ep_ID ep) at d) (not_found_or_internal ''endpoint'') (\<lambda>d.
       let ep = ep\<lparr>ep_DisabledAt := at\<rparr> in
       if \<not> disabled then
         uc_call (EndpointRepo_SetFirstFailure (ep_ID ep) None d) Internal (\<lambda>d. (Inr (ep\<lparr>ep_FirstFailureAt := None\<rparr>), d))
       else (Inr ep, d)))"

definition UpdateEndpoint :: "ucenv \<Rightarrow> string \<Rightarrow> string \<Rightarrow> UpdateEndpointInput \<Rightarrow> cfgdb \<Rightarrow> Endpoint uc_result" where
  "UpdateEndpoint v appID idOrUID inp d = uc_bind (GetEndpoint v appID idOrUID d) (\<lambda>ep d.
     case update_fields v inp ep of
       Inl e \<Rightarrow> (Inl e, d)
     | Inr ep \<Rightarrow> uc_call (EndpointRepo_UpdateEndpoint (uc_pg v) ep d)
         (\<lambda>e. if e = ErrConflict then NewConflictError ''an endpoint with this uid already exists'' else not_found_or_internal ''endpoint'' e)
         (\<lambda>d. uc_bind (case ue_Disabled inp of None \<Rightarrow> (Inr ep, d) | Some b \<Rightarrow> setDisabled v ep b d)
            (\<lambda>ep d. (Inr ep, uc_invalidate v (ep_OrgID ep) d))))"

definition SetDisabled :: "ucenv \<Rightarrow> string \<Rightarrow> string \<Rightarrow> bool \<Rightarrow> cfgdb \<Rightarrow> Endpoint uc_result" where
  "SetDisabled v appID idOrUID disabled d = uc_bind (GetEndpoint v appID idOrUID d) (\<lambda>ep d.
     uc_bind (setDisabled v ep disabled d) (\<lambda>ep d. (Inr ep, uc_invalidate v (ep_OrgID ep) d)))"

definition DeleteEndpoint :: "ucenv \<Rightarrow> string \<Rightarrow> string \<Rightarrow> cfgdb \<Rightarrow> unit uc_result" where
  "DeleteEndpoint v appID idOrUID d = uc_bind (GetEndpoint v appID idOrUID d) (\<lambda>ep d.
     uc_call (EndpointRepo_DeleteEndpoint (uc_nowDelete v) (ep_ID ep) d) (not_found_or_internal ''endpoint'')
       (\<lambda>d. (Inr (), uc_invalidate v (ep_OrgID ep) d)))"

definition ListEndpoints :: "ucenv \<Rightarrow> string \<Rightarrow> CursorPagination \<Rightarrow> cfgdb \<Rightarrow> Endpoint CursorResult uc_result" where
  "ListEndpoints v appID page d = (case EndpointRepo_GetEndpoints (uc_pg v) (no_endpoint_filters\<lparr>ef_AppID := Eq appID\<rparr>) page d of
      (Inl e, d) \<Rightarrow> (Inl (Internal e), d) | (Inr r, d) \<Rightarrow> (Inr r, d))"

definition RevealSecret :: "ucenv \<Rightarrow> string \<Rightarrow> string \<Rightarrow> cfgdb \<Rightarrow> string uc_result" where
  "RevealSecret v appID idOrUID d = uc_bind (GetEndpoint v appID idOrUID d) (\<lambda>ep d.
     case Open (uc_aead_open v) (uc_sealer v) (sealed_Sealed (ep_Secret ep)) of
       Inl e \<Rightarrow> (Inl (NewInternalError (seal_text e)), d)
     | Inr plaintext \<Rightarrow> (Inr (string_of plaintext), d))"

definition rotated_out :: "time \<Rightarrow> Endpoint \<Rightarrow> SealedSecret list" where
  "rotated_out now ep = \<lparr>sealed_Sealed = sealed_Sealed (ep_Secret ep), sealed_ExpiresAt = Some (now + SecretRotationOverlap)\<rparr> #
     filter (\<lambda>prior. \<not> SealedSecret_Expired prior now) (ep_OldSecrets ep)"

definition RotateSecret :: "ucenv \<Rightarrow> string \<Rightarrow> string \<Rightarrow> string \<Rightarrow> cfgdb \<Rightarrow> string uc_result" where
  "RotateSecret v appID idOrUID newSecret d = uc_bind (GetEndpoint v appID idOrUID d) (\<lambda>ep d.
     case sealed_secret v newSecret of
       Inl e \<Rightarrow> (Inl e, d)
     | Inr (secret, sealed) \<Rightarrow>
        uc_call (EndpointRepo_RotateSecret (uc_pg v) (ep_ID ep) \<lparr>sealed_Sealed = sealed, sealed_ExpiresAt = None\<rparr> (rotated_out (uc_now v) ep) d)
          (not_found_or_internal ''endpoint'') (\<lambda>d. (Inr secret, uc_invalidate v (ep_OrgID ep) d)))"

definition GetHeaders :: "ucenv \<Rightarrow> string \<Rightarrow> string \<Rightarrow> cfgdb \<Rightarrow> (string \<times> string) list uc_result" where
  "GetHeaders v appID idOrUID d = uc_bind (GetEndpoint v appID idOrUID d) (\<lambda>ep d.
     if ep_Headers ep = [] then (Inr [], d)
     else case uc_unmarshalHeaders v (ep_Headers ep) of
       None \<Rightarrow> (Inl (NewInternalError ''json: unmarshal''), d)
     | Some headers \<Rightarrow> (Inr headers, d))"

definition patch_header :: "string \<times> string \<Rightarrow> (string \<times> string) list \<Rightarrow> (string \<times> string) list" where
  "patch_header nv current = (case nv of (name, value) \<Rightarrow> if value = [] then AList.delete name current else AList.update name value current)"

definition PatchHeaders :: "ucenv \<Rightarrow> string \<Rightarrow> string \<Rightarrow> (string \<times> string) list \<Rightarrow> cfgdb \<Rightarrow> (string \<times> string) list uc_result" where
  "PatchHeaders v appID idOrUID patch d = uc_bind (GetEndpoint v appID idOrUID d) (\<lambda>ep d.
     uc_bind (GetHeaders v appID idOrUID d) (\<lambda>current d.
       let current = fold patch_header patch current in
       case encodeCustomHeaders v current of
         Inl e \<Rightarrow> (Inl e, d)
       | Inr encoded \<Rightarrow>
          (let ep = ep\<lparr>ep_Headers := encoded, ep_UpdatedAt := uc_now v\<rparr> in
           uc_call (EndpointRepo_UpdateEndpoint (uc_pg v) ep d) Internal (\<lambda>d. (Inr current, uc_invalidate v (ep_OrgID ep) d)))))"

definition SetPool :: "string \<Rightarrow> string \<Rightarrow> cfgdb \<Rightarrow> unit uc_result" where
  "SetPool endpointID pool d =
    (if IsBlank pool then (Inl (NewValidationError ''pool is required''), d)
     else uc_call (EndpointRepo_SetPool endpointID pool d) (not_found_or_internal ''endpoint'') (\<lambda>d. (Inr (), d)))"

section \<open>Looking up by id or uid inside a scope\<close>

text \<open>
  The contract of the two queries a lookup makes: they change nothing, an entity they return is live,
  in the scope asked for and has the id or uid asked for, and when they find nothing there is none.
\<close>

locale scoped_lookup =
  fixes get_id get_uid :: "string \<Rightarrow> string \<Rightarrow> cfgdb \<Rightarrow> (repo_error + 'e) \<times> cfgdb"
    and live :: "cfgdb \<Rightarrow> 'e \<Rightarrow> bool" and scope ident :: "'e \<Rightarrow> string" and uid :: "'e \<Rightarrow> string option"
  assumes get_id: "get_id s i d = (res, d') \<Longrightarrow> (\<exists>fs. d' = d\<lparr>db_faults := fs\<rparr>) \<and> (\<forall>e. res = Inr e \<longrightarrow> live d e \<and> scope e = s \<and> ident e = i)"
    and get_uid: "get_uid s i d = (res, d') \<Longrightarrow> (\<exists>fs. d' = d\<lparr>db_faults := fs\<rparr>) \<and> (\<forall>e. res = Inr e \<longrightarrow> live d e \<and> scope e = s \<and> uid e = Some i)"
    and miss_id: "get_id s i d = (Inl ErrNotFound, d') \<Longrightarrow> live d e \<Longrightarrow> scope e = s \<Longrightarrow> ident e \<noteq> i"
    and miss_uid: "get_uid s i d = (Inl ErrNotFound, d') \<Longrightarrow> live d e \<Longrightarrow> scope e = s \<Longrightarrow> uid e \<noteq> Some i"
    and live_faults: "live (d\<lparr>db_faults := fs\<rparr>) = live d"
begin

lemma lookup:
  assumes "by_id_or_uid what (get_id s i) (get_uid s i) d = (res, d')"
  shows "\<exists>fs. d' = d\<lparr>db_faults := fs\<rparr>"
    and "res = Inr e \<Longrightarrow> live d e \<and> scope e = s \<and> (ident e = i \<or> uid e = Some i)"
proof -
  obtain r1 d1 where 1: "get_id s i d = (r1, d1)" by fastforce
  obtain r2 d2 where 2: "get_uid s i d1 = (r2, d2)" by fastforce
  note g = get_id [OF 1] get_uid [OF 2]
  show "\<exists>fs. d' = d\<lparr>db_faults := fs\<rparr>"
    using assms 1 2 g by (auto simp: by_id_or_uid_def split: sum.splits if_splits)
  show "res = Inr e \<Longrightarrow> live d e \<and> scope e = s \<and> (ident e = i \<or> uid e = Some i)"
    using assms 1 2 g live_faults by (auto simp: by_id_or_uid_def split: sum.splits if_splits)
qed

lemma lookup_miss:
  assumes "by_id_or_uid what (get_id s i) (get_uid s i) d = (Inl (NewNotFoundError what), d')" and "live d e" and "scope e = s"
  shows "ident e \<noteq> i \<and> uid e \<noteq> Some i"
proof -
  obtain r1 d1 where 1: "get_id s i d = (r1, d1)" by fastforce
  obtain r2 d2 where 2: "get_uid s i d1 = (r2, d2)" by fastforce
  from assms(1) 1 2 have r: "r1 = Inl ErrNotFound" "r2 = Inl ErrNotFound"
    by (auto simp: by_id_or_uid_def not_found_or_internal_def Internal_def app_error_defs split: sum.splits if_splits)
  have "live d1 e" using get_id [OF 1] assms(2) by (auto simp: live_faults)
  with assms(2,3) 1 2 r miss_id miss_uid show ?thesis by blast
qed

end

definition live_ep :: "pgenv \<Rightarrow> cfgdb \<Rightarrow> Endpoint \<Rightarrow> bool" where
  "live_ep env d ep \<longleftrightarrow> (\<exists>r\<in>set (db_eps d). ep_DeletedAt r = None \<and> scanEndpoint env r = Some ep)"

lemma Clause_endpoint [simp]:
  "Clause (applyEndpointFilters env (no_endpoint_filters\<lparr>ef_AppID := Eq a, ef_ID := Eq i\<rparr>)) r \<longleftrightarrow>
     ep_ID r = i \<and> ep_AppID r = a \<and> ep_DeletedAt r = None"
  "Clause (applyEndpointFilters env (no_endpoint_filters\<lparr>ef_AppID := Eq a, ef_UID := Eq i\<rparr>)) r \<longleftrightarrow>
     ep_UID r = Some i \<and> ep_AppID r = a \<and> ep_DeletedAt r = None"
  by (auto simp: applyEndpointFilters_def no_endpoint_filters_def ApplyBoolStateFilter_def where_opt_def Let_def)

lemma scan_simps:
  assumes "scanEndpoint env r = Some ep"
  shows "ep_ID ep = ep_ID r" "ep_AppID ep = ep_AppID r" "ep_UID ep = ep_UID r" "ep_Secret ep = ep_Secret r" "ep_DeletedAt ep = ep_DeletedAt r"
    "ep_Headers ep = ep_Headers r" "ep_SecretType ep = ep_SecretType r" "ep_OrgID ep = ep_OrgID r" "ep_EventTypes ep = ep_EventTypes r"
    "ep_DisabledAt ep = ep_DisabledAt r" "ep_Channels ep = ep_Channels r"
  using assms by (auto simp: scanEndpoint_def Endpoint.truncate_def)

lemma query_cases:
  assumes "query c f d = (res, d')"
  obtains fs where "d' = d\<lparr>db_faults := fs\<rparr>" "res = f (d\<lparr>db_faults := fs\<rparr>) \<or> (\<exists>s. res = Inl (DriverError s))"
  using query_frame [OF assms] by blast

interpretation ep: scoped_lookup
  "\<lambda>a i. EndpointRepo_GetEndpoint env (no_endpoint_filters\<lparr>ef_AppID := Eq a, ef_ID := Eq i\<rparr>)"
  "\<lambda>a i. EndpointRepo_GetEndpoint env (no_endpoint_filters\<lparr>ef_AppID := Eq a, ef_UID := Eq i\<rparr>)"
  "live_ep env" ep_AppID ep_ID ep_UID
  for env
proof (unfold_locales, goal_cases)
  case (1 s i d res d')
  then show ?case unfolding EndpointRepo_GetEndpoint_def
    by (elim query_cases) (auto simp: live_ep_def scan_simps dest!: select_one_Inr sym [of "Inr _"])
next
  case (2 s i d res d')
  then show ?case unfolding EndpointRepo_GetEndpoint_def
    by (elim query_cases) (auto simp: live_ep_def scan_simps dest!: select_one_Inr sym [of "Inr _"])
next
  case (3 s i d d' e)
  then show ?case unfolding EndpointRepo_GetEndpoint_def
    by (elim query_cases) (fastforce simp: live_ep_def scan_simps select_one_NotFound dest!: sym [of "Inl ErrNotFound"])
next
  case (4 s i d d' e)
  then show ?case unfolding EndpointRepo_GetEndpoint_def
    by (elim query_cases) (fastforce simp: live_ep_def scan_simps select_one_NotFound dest!: sym [of "Inl ErrNotFound"])
next
  case (5 d fs)
  then show ?case by (auto simp: live_ep_def fun_eq_iff)
qed

section \<open>An operation on one application leaves the others alone\<close>

definition foreign :: "string \<Rightarrow> cfgdb \<Rightarrow> endpoint_row list" where
  "foreign a d = filter (\<lambda>r. ep_AppID r \<noteq> a) (db_eps d)"

definition only_app :: "string \<Rightarrow> cfgdb \<Rightarrow> cfgdb \<Rightarrow> bool" where
  "only_app a d d' \<longleftrightarrow> foreign a d' = foreign a d \<and> db_apps d' = db_apps d \<and> db_orgs d' = db_orgs d \<and> db_types d' = db_types d"

definition owned :: "string \<Rightarrow> string \<Rightarrow> cfgdb \<Rightarrow> bool" where
  "owned i a d \<longleftrightarrow> (\<forall>r\<in>set (db_eps d). ep_ID r = i \<longrightarrow> ep_AppID r = a)"

definition ids_ok :: "cfgdb \<Rightarrow> bool" where
  "ids_ok d \<longleftrightarrow> unique ep_keys (db_eps d)"

lemma only_app_refl [simp]: "only_app a d d" "only_app a d (d\<lparr>db_faults := fs\<rparr>)" "only_app a d (d\<lparr>db_faults := fs, db_notified := ns\<rparr>)"
  by (simp_all add: only_app_def foreign_def)

lemma only_app_trans: "only_app a d d' \<Longrightarrow> only_app a d' d'' \<Longrightarrow> only_app a d d''"
  by (simp add: only_app_def)

lemma ids_ok_simps [simp]:
  "ids_ok (d\<lparr>db_faults := fs\<rparr>) = ids_ok d" "ids_ok (d\<lparr>db_notified := ns\<rparr>) = ids_ok d"
  "owned i a (d\<lparr>db_faults := fs\<rparr>) = owned i a d"
  by (simp_all add: ids_ok_def owned_def)

lemma update_foreign:
  assumes "owned i a d" and "\<And>r. ep_AppID (f r) = ep_AppID r"
  shows "filter (\<lambda>r. ep_AppID r \<noteq> a) (map (\<lambda>r. if live_endpoint i r then f r else r) (db_eps d)) = filter (\<lambda>r. ep_AppID r \<noteq> a) (db_eps d)"
proof -
  have "filter (\<lambda>r. ep_AppID r \<noteq> a) (map (\<lambda>r. if live_endpoint i r then f r else r) rows) = filter (\<lambda>r. ep_AppID r \<noteq> a) rows"
    if "\<forall>r\<in>set rows. ep_ID r = i \<longrightarrow> ep_AppID r = a" for rows
    using that assms(2) by (induction rows) (auto simp: live_endpoint_def)
  with assms(1) show ?thesis by (simp add: owned_def)
qed

text \<open>Every UPDATE of the endpoint with a given id, when that endpoint is of the application.\<close>

lemma update_statement:
  assumes "affected none c (write_eps (\<lambda>d. update_where ep_keys (live_endpoint i) (f d)) d) = (res, d')"
    and "owned i a d" and "\<And>d r. ep_AppID (f d r) = ep_AppID r" and "\<And>d r. ep_ID (f d r) = ep_ID r"
  shows "only_app a d d'" and "owned i a d'" and "ids_ok d \<Longrightarrow> ids_ok d'"
proof -
  obtain x where w: "write_eps (\<lambda>d. update_where ep_keys (live_endpoint i) (f d)) d = (x, d')"
    using assms(1) by (auto simp: affected_def split: prod.splits sum.splits)
  have u: "filter (\<lambda>r. ep_AppID r \<noteq> a) (map (\<lambda>r. if live_endpoint i r then f d0 r else r) (db_eps d)) = filter (\<lambda>r. ep_AppID r \<noteq> a) (db_eps d)" for d0
    using assms(2,3) by (rule update_foreign)
  from w show "only_app a d d'" "owned i a d'" "ids_ok d \<Longrightarrow> ids_ok d'"
    using assms(2-4) by (cases rule: write_eps_cases; auto simp: update_where_Inr only_app_def foreign_def u owned_def ids_ok_def)+
qed

lemmas endpoint_statements = EndpointRepo_UpdateEndpoint_def EndpointRepo_DeleteEndpoint_def softDelete_def EndpointRepo_SetPool_def
  EndpointRepo_SetDisabled_def EndpointRepo_SetFirstFailure_def updateColumn_def EndpointRepo_RotateSecret_def

text \<open>The repository's operations on one endpoint.\<close>

inductive endpoint_write :: "pgenv \<Rightarrow> string \<Rightarrow> cfgdb \<Rightarrow> repo_error option \<times> cfgdb \<Rightarrow> bool" for env where
  "endpoint_write env (ep_ID ep) d (EndpointRepo_UpdateEndpoint env ep d)"
| "endpoint_write env i d (EndpointRepo_DeleteEndpoint now i d)"
| "endpoint_write env i d (EndpointRepo_SetDisabled i at d)"
| "endpoint_write env i d (EndpointRepo_SetFirstFailure i at d)"
| "endpoint_write env i d (EndpointRepo_RotateSecret env i secret old d)"

lemma endpoint_write_app:
  assumes "endpoint_write env i d (res, d')" and "owned i a d"
  shows "only_app a d d' \<and> owned i a d' \<and> (ids_ok d \<longrightarrow> ids_ok d')"
  using assms(1)
proof cases
  case (5 secret old)
  then show ?thesis using assms(2)
    by (cases "marshalSealedSecrets env old")
      (auto simp: EndpointRepo_RotateSecret_def dest!: sym [of "(_, _)"] dest: update_statement)
qed (use assms(2) in \<open>auto simp: endpoint_statements dest!: sym [of "(_, _)"] dest: update_statement\<close>)

text \<open>What an operation may have done so far, for the operations composed of several steps.\<close>

definition within_app :: "string \<Rightarrow> cfgdb \<Rightarrow> 'a uc_result \<Rightarrow> bool" where
  "within_app a d r \<longleftrightarrow> only_app a d (snd r) \<and> ids_ok (snd r)"

lemma within_bind:
  assumes "\<And>x d'. r = (Inr x, d') \<Longrightarrow> only_app a d d' \<and> ids_ok d' \<and> within_app a d' (f x d')"
    and "\<And>e d'. r = (Inl e, d') \<Longrightarrow> only_app a d d' \<and> ids_ok d'"
  shows "within_app a d (uc_bind r f)"
  using assms by (cases r; cases "fst r") (auto simp: uc_bind_def within_app_def intro: only_app_trans)

lemma within_call:
  assumes "endpoint_write env i d r" and "owned i a d" and "ids_ok d"
    and "\<And>d'. owned i a d' \<Longrightarrow> ids_ok d' \<Longrightarrow> within_app a d' (f d')"
  shows "within_app a d (uc_call r t f)"
proof -
  obtain res d' where r: "r = (res, d')" by fastforce
  have "only_app a d d' \<and> owned i a d' \<and> ids_ok d'" using endpoint_write_app assms(1-3) r by blast
  with assms(4) [of d'] r show ?thesis by (cases res) (auto simp: uc_call_def within_app_def intro: only_app_trans)
qed

lemma uc_invalidate_frame [simp]:
  "db_eps (uc_invalidate v o' d) = db_eps d" "db_apps (uc_invalidate v o' d) = db_apps d"
  "db_orgs (uc_invalidate v o' d) = db_orgs d" "db_types (uc_invalidate v o' d) = db_types d"
  by (auto simp: uc_invalidate_def NotifyConfigChanged_def split: prod.splits bool.splits dest!: db_exec_frame)

lemma within_done: "ids_ok d \<Longrightarrow> within_app a d (x, uc_invalidate v o' d)" "ids_ok d \<Longrightarrow> within_app a d (x, d)"
  by (simp_all add: within_app_def only_app_def foreign_def ids_ok_def)

lemma within_then: "within_app a d r \<Longrightarrow> within_app a d (uc_bind r (\<lambda>x d. (Inr (g x), uc_invalidate v (h x) d)))"
  by (cases r; cases "fst r") (auto simp: uc_bind_def within_app_def only_app_def foreign_def ids_ok_def)

lemma GetEndpoint_within:
  assumes "GetEndpoint v a x d = (res, d')" and "ids_ok d"
  shows "only_app a d d'" and "ids_ok d'" and "res = Inr ep \<Longrightarrow> owned (ep_ID ep) a d'"
proof -
  note g = assms(1) [unfolded GetEndpoint_def]
  from ep.lookup(1) [OF g] obtain fs where d': "d' = d\<lparr>db_faults := fs\<rparr>" by blast
  then show "only_app a d d'" "ids_ok d'" using assms(2) by simp_all
  assume "res = Inr ep"
  from ep.lookup(2) [OF g this] obtain r where r: "r \<in> set (db_eps d)" "ep_ID r = ep_ID ep" "ep_AppID r = a"
    by (auto simp: live_ep_def scan_simps)
  have "inj_on ep_ID (set (db_eps d))" using assms(2) ep_keys_id by (auto simp: ids_ok_def distinct_map)
  with r show "owned (ep_ID ep) a d'" unfolding owned_def d' by simp (metis inj_onD)
qed

text \<open>An operation that first looks an endpoint up.\<close>

lemma within_lookup:
  assumes "ids_ok d" and "\<And>ep d. ids_ok d \<Longrightarrow> owned (ep_ID ep) a d \<Longrightarrow> within_app a d (f ep d)"
  shows "within_app a d (uc_bind (GetEndpoint v a x d) f)"
  using GetEndpoint_within [OF _ assms(1)] assms(2) by (intro within_bind) blast+

lemma setDisabled_within:
  assumes "ids_ok d" and "owned (ep_ID ep) a d"
  shows "within_app a d (setDisabled v ep b d)"
  unfolding setDisabled_def Let_def using assms
  by (auto intro!: within_call [where env = "uc_pg v"] endpoint_write.intros within_done)

text \<open>The requests a client can make about the endpoints of an application.\<close>

datatype endpoint_op =
    OpCreate CreateEndpointInput | OpGet string | OpUpdate string UpdateEndpointInput | OpSetDisabled string bool | OpDelete string
  | OpList CursorPagination | OpReveal string | OpRotate string string | OpGetHeaders string | OpPatchHeaders string "(string \<times> string) list"

definition endpoint_op :: "string \<Rightarrow> ucenv \<Rightarrow> endpoint_op \<Rightarrow> cfgdb \<Rightarrow> cfgdb" where
  "endpoint_op a v op d = (case op of
      OpCreate inp \<Rightarrow> snd (CreateEndpoint v (inp\<lparr>ce_AppID := a\<rparr>) d)
    | OpGet x \<Rightarrow> snd (GetEndpoint v a x d)
    | OpUpdate x inp \<Rightarrow> snd (UpdateEndpoint v a x inp d)
    | OpSetDisabled x b \<Rightarrow> snd (SetDisabled v a x b d)
    | OpDelete x \<Rightarrow> snd (DeleteEndpoint v a x d)
    | OpList page \<Rightarrow> snd (ListEndpoints v a page d)
    | OpReveal x \<Rightarrow> snd (RevealSecret v a x d)
    | OpRotate x s \<Rightarrow> snd (RotateSecret v a x s d)
    | OpGetHeaders x \<Rightarrow> snd (GetHeaders v a x d)
    | OpPatchHeaders x p \<Rightarrow> snd (PatchHeaders v a x p d))"

lemma create_within:
  assumes "ids_ok d" and "ce_AppID inp = a"
  shows "within_app a d (CreateEndpoint v inp d)"
proof -
  have repo: "only_app a d d' \<and> ids_ok d'" if c: "EndpointRepo_CreateEndpoint (uc_pg v) ep d = (res, d')" and "ep_AppID ep = a" for ep res d'
  proof (cases "marshalSealedSecrets (uc_pg v) (ep_OldSecrets ep)")
    case None
    then show ?thesis using c assms(1) by (auto simp: EndpointRepo_CreateEndpoint_def)
  next
    case (Some old)
    let ?stmt = "\<lambda>d. insert_row ep_keys (ep_AppID ep \<in> app_ID ` set (db_apps d)) (endpoint_row_of (uc_pg v) ep old)"
    obtain x where "write_eps ?stmt d = (x, d')"
      using c Some by (auto simp: EndpointRepo_CreateEndpoint_def inserted_def split: prod.splits sum.splits)
    then show ?thesis using assms(1) that(2)
      by (cases rule: write_eps_cases)
        (auto simp: insert_row_Inr only_app_def foreign_def ids_ok_def endpoint_row_of_def Endpoint.extend_def endpoint_row.fields_def)
  qed
  show ?thesis unfolding CreateEndpoint_def Let_def
  proof (auto simp: within_done assms(1) split: option.splits sum.splits, goal_cases)
    case (1 headers secret sealed)
    let ?ep = "new_endpoint v inp headers (Deref (ce_SecretType inp) SecretTypeHMAC256) sealed"
    obtain res d' where r: "EndpointRepo_CreateEndpoint (uc_pg v) ?ep d = (res, d')" by fastforce
    have "only_app a d d' \<and> ids_ok d'" using repo [OF r] assms(2) by (simp add: new_endpoint_def)
    then show ?case using r by (auto simp: uc_call_def within_app_def only_app_def foreign_def ids_ok_def split: option.splits)
  qed
qed

lemma GetHeaders_frame: "GetHeaders v a x d = (res, d') \<Longrightarrow> \<exists>fs. d' = d\<lparr>db_faults := fs\<rparr>"
  using ep.lookup(1) by (fastforce simp: GetHeaders_def GetEndpoint_def uc_bind_def split: prod.splits sum.splits if_splits option.splits)

lemma patch_within: "ids_ok d \<Longrightarrow> within_app a d (PatchHeaders v a x p d)"
  unfolding PatchHeaders_def Let_def
proof (erule within_lookup, rule within_bind, goal_cases)
  case (1 ep d current d')
  then obtain fs where "d' = d\<lparr>db_faults := fs\<rparr>" using GetHeaders_frame by blast
  with 1(1,2) show ?case
    by (auto split: sum.splits intro!: within_done within_call [where env = "uc_pg v"] endpoint_write.intros(1) [of _ "ep\<lparr>ep_Headers := _, ep_UpdatedAt := _\<rparr>", simplified])
next
  case (2 ep d e d')
  then show ?case using GetHeaders_frame by fastforce
qed

lemma lookups_within:
  assumes "ids_ok d"
  shows "within_app a d (GetEndpoint v a x d)" "within_app a d (GetHeaders v a x d)" "within_app a d (RevealSecret v a x d)"
    "within_app a d (ListEndpoints v a page d)"
proof -
  show "within_app a d (GetEndpoint v a x d)" using GetEndpoint_within(1,2) [OF _ assms] by (cases "GetEndpoint v a x d") (simp add: within_app_def)
  show "within_app a d (GetHeaders v a x d)" "within_app a d (RevealSecret v a x d)"
    unfolding GetHeaders_def RevealSecret_def by (auto intro!: within_lookup assms within_done split: option.splits sum.splits)
  show "within_app a d (ListEndpoints v a page d)"
    unfolding ListEndpoints_def EndpointRepo_GetEndpoints_def using assms
    by (auto simp: within_app_def split: prod.splits sum.splits elim!: query_cases)
qed

lemma update_within: "ids_ok d \<Longrightarrow> within_app a d (UpdateEndpoint v a x inp d)"
  unfolding UpdateEndpoint_def
proof (erule within_lookup, goal_cases)
  case (1 ep d)
  show ?case
  proof (cases "update_fields v inp ep")
    case (Inr ep')
    then have i: "ep_ID ep' = ep_ID ep" by (auto simp: update_fields_def split: option.splits if_splits)
    have "within_app a d1 (case ue_Disabled inp of None \<Rightarrow> (Inr ep', d1) | Some b \<Rightarrow> setDisabled v ep' b d1)"
      if "owned (ep_ID ep) a d1" "ids_ok d1" for d1
      using setDisabled_within [of d1 ep' a v] that i by (auto simp: within_done split: option.splits)
    note within_then [OF this, of _ "\<lambda>x. x" v ep_OrgID]
    then show ?thesis using 1 Inr i endpoint_write.intros(1) [of "uc_pg v" ep' d] by (auto intro!: within_call [where env = "uc_pg v"])
  qed (simp add: within_done 1)
qed

lemma endpoint_op_within:
  assumes "ids_ok d"
  shows "only_app a d (endpoint_op a v op d) \<and> ids_ok (endpoint_op a v op d)"
proof -
  have "within_app a d (SetDisabled v a x b d)" for x b
    unfolding SetDisabled_def by (intro within_lookup [OF assms] within_then [where g = "\<lambda>x. x"] setDisabled_within)
  moreover have "within_app a d (DeleteEndpoint v a x d)" "within_app a d (RotateSecret v a x s d)" for x s
    unfolding DeleteEndpoint_def RotateSecret_def
    by (auto intro!: within_lookup assms within_done within_call [where env = "uc_pg v"] endpoint_write.intros split: sum.splits)
  ultimately show ?thesis
    using assms create_within [of d "inp\<lparr>ce_AppID := a\<rparr>" a v for inp] patch_within update_within lookups_within
    by (cases op) (auto simp: endpoint_op_def within_app_def)
qed

text \<open>
  An operation on one application never touches another. Any sequence of requests about the endpoints
  of an application, each with its own inputs, clock, random bytes and database faults, leaves the rows
  of the endpoints of every other application exactly as they were, and the other tables too; and a lookup
  afterwards returns only a live endpoint of that application, with the id or uid that was asked for.
\<close>
theorem endpoint_isolation:
  assumes "unique ep_keys (db_eps d)"
  shows "let d' = fold (\<lambda>(v, op). endpoint_op a v op) ops d in
    filter (\<lambda>r. ep_AppID r \<noteq> a) (db_eps d') = filter (\<lambda>r. ep_AppID r \<noteq> a) (db_eps d) \<and>
    db_apps d' = db_apps d \<and> db_orgs d' = db_orgs d \<and> db_types d' = db_types d \<and>
    (\<forall>v x ep d''. GetEndpoint v a x d' = (Inr ep, d'') \<longrightarrow>
       live_ep (uc_pg v) d' ep \<and> ep_AppID ep = a \<and> (ep_ID ep = x \<or> ep_UID ep = Some x))"
proof -
  have "only_app a d (fold (\<lambda>(v, op). endpoint_op a v op) ops d)" if "ids_ok d" for d
    using that
  proof (induction ops arbitrary: d)
    case (Cons p ops)
    obtain v op where p: "p = (v, op)" by fastforce
    show ?case using endpoint_op_within [OF Cons.prems, of a v op] Cons.IH [of "endpoint_op a v op d"] by (auto simp: p intro: only_app_trans)
  qed simp
  moreover have "live_ep (uc_pg v) d' ep \<and> ep_AppID ep = a \<and> (ep_ID ep = x \<or> ep_UID ep = Some x)" if "GetEndpoint v a x d' = (Inr ep, d'')" for v x ep d' d''
    using ep.lookup(2) [OF that [unfolded GetEndpoint_def]] by blast
  ultimately show ?thesis using assms by (simp add: only_app_def foreign_def ids_ok_def Let_def)
qed

section \<open>Rotation keeps the old secret alive\<close>

lemma open_secrets_Inr:
  "open_secrets opn ep ss acc = Inr out \<longleftrightarrow> (\<forall>s\<in>set ss. \<exists>k. opn (sealed_Sealed s) = Inr k) \<and>
     out = acc @ map (\<lambda>s. \<lparr>sec_Key = projr (opn (sealed_Sealed s)), sec_Type = ep_SecretType ep, sec_ExpiresAt = sealed_ExpiresAt s\<rparr>) ss"
  by (induction opn ep ss acc rule: open_secrets.induct) (auto split: sum.splits)

lemma buildEndpoint_Inr:
  assumes "buildEndpoint opn um now ep = Inr e"
  shows "\<forall>s\<in>set (ActiveSecrets ep now). \<exists>k. opn (sealed_Sealed s) = Inr k"
    and "cep_Secrets e = map (\<lambda>s. \<lparr>sec_Key = projr (opn (sealed_Sealed s)), sec_Type = ep_SecretType ep, sec_ExpiresAt = sealed_ExpiresAt s\<rparr>) (ActiveSecrets ep now)"
    and "ep_ID e = ep_ID ep"
  using assms by (auto simp: buildEndpoint_def open_secrets_Inr Endpoint.extend_def split: sum.splits if_splits option.splits)

lemma build_other:
  assumes "\<And>ep e. build ep = Inr e \<Longrightarrow> ep_ID e = ep_ID ep" and "i \<notin> ep_ID ` set eps"
  shows "sn_endpoints (fst (build_endpoints build eps s p)) i = sn_endpoints s i"
  using assms(2)
proof (induction eps arbitrary: s p)
  case (Cons ep eps)
  show ?case
  proof (cases "build ep")
    case (Inr e)
    then have "sn_endpoints (add_endpoint e s) i = sn_endpoints s i"
      using assms(1) [OF Inr] Cons.prems by (auto simp: add_endpoint_def Let_def split: option.splits)
    with Cons Inr show ?thesis by simp
  qed (use Cons in simp)
qed simp

lemma build_endpoints_at:
  assumes "\<And>ep e. build ep = Inr e \<Longrightarrow> ep_ID e = ep_ID ep" and "distinct (map ep_ID eps)" and "ep \<in> set eps" and "build ep = Inr e"
  shows "sn_endpoints (fst (build_endpoints build eps s p)) (ep_ID ep) = Some e"
  using assms(2,3)
proof (induction eps arbitrary: s p)
  case (Cons ep' eps)
  show ?case
  proof (cases "ep' = ep")
    case True
    have "sn_endpoints (add_endpoint e s) (ep_ID ep) = Some e"
      using assms(1) [OF assms(4)] by (auto simp: add_endpoint_def Let_def split: option.splits)
    with True Cons.prems assms(1,4) show ?thesis by (simp add: build_other)
  next
    case False
    with Cons show ?thesis by (cases "build ep'") simp_all
  qed
qed simp

text \<open>What the snapshot loader reads: the live endpoints, each scanned.\<close>

lemma load_rows_Inr:
  assumes "load_rows c f rest d = (Inr y, d')"
  obtains x fs where "f (d\<lparr>db_faults := fs\<rparr>) = Inr x" "rest x (d\<lparr>db_faults := fs\<rparr>) = (Inr y, d')"
proof -
  obtain res d1 where q: "query c f d = (res, d1)" by fastforce
  with assms obtain x where "res = Inr x" "rest x d1 = (Inr y, d')" by (cases res) (auto simp: load_rows_def)
  moreover from q obtain fs where "d1 = d\<lparr>db_faults := fs\<rparr>" "res = f (d\<lparr>db_faults := fs\<rparr>) \<or> (\<exists>s. res = Inl (DriverError s))"
    by (rule query_cases)
  ultimately show thesis by (intro that [of fs x]) auto
qed

lemma load_endpoints:
  assumes "LoadSnapshot env d = (Inr data, d')"
  shows "list_all2 (\<lambda>r ep. scanEndpoint env r = Some ep) (filter (\<lambda>r. ep_DeletedAt r = None) (db_eps d)) (sd_Endpoints data)"
  using assms unfolding LoadSnapshot_def
  by (auto elim!: load_rows_Inr simp: collectRows_Some split: option.splits)

text \<open>The row of an endpoint after a rotation.\<close>

lemma RotateSecret_row:
  assumes "ids_ok d" and rot: "RotateSecret v a x newSecret d = (Inr secret, d1)" and get: "GetEndpoint v a x d = (Inr ep, d0)"
    and codec: "\<And>ss raw. pe_marshalSecrets (uc_pg v) ss = Some raw \<Longrightarrow>
      pe_jsonb (uc_pg v) raw \<noteq> [] \<and> pe_unmarshalSecrets (uc_pg v) (pe_jsonb (uc_pg v) raw) = Some ss"
  shows "\<exists>sealed. sealed_secret v newSecret = Inr (secret, sealed) \<and> distinct (map ep_ID (db_eps d1)) \<and>
    (\<exists>r. r \<in> set (db_eps d1) \<and> ep_DeletedAt r = None \<and> scanEndpoint (uc_pg v) r =
       Some (ep\<lparr>ep_Secret := \<lparr>sealed_Sealed = sealed, sealed_ExpiresAt = None\<rparr>, ep_OldSecrets := rotated_out (uc_now v) ep, ep_UpdatedAt := db_now d\<rparr>))"
proof -
  obtain fs0 where d0: "d0 = d\<lparr>db_faults := fs0\<rparr>" using ep.lookup(1) [OF get [unfolded GetEndpoint_def]] by blast
  obtain r0 where r0: "r0 \<in> set (db_eps d)" "ep_DeletedAt r0 = None" "scanEndpoint (uc_pg v) r0 = Some ep"
    using ep.lookup(2) [OF get [unfolded GetEndpoint_def]] by (auto simp: live_ep_def)
  obtain sealed where s: "sealed_secret v newSecret = Inr (secret, sealed)"
    using rot get by (auto simp: RotateSecret_def uc_bind_def uc_call_def split: sum.splits prod.splits option.splits)
  let ?old = "rotated_out (uc_now v) ep"
  obtain raw where raw: "pe_marshalSecrets (uc_pg v) ?old = Some raw"
    using rot get s by (cases "pe_marshalSecrets (uc_pg v) ?old")
      (auto simp: RotateSecret_def uc_bind_def uc_call_def EndpointRepo_RotateSecret_def marshalSealedSecrets_def rotated_out_def)
  let ?f = "\<lambda>d r. r\<lparr>ep_Secret := \<lparr>sealed_Sealed = sealed, sealed_ExpiresAt = None\<rparr>,
               ep_UpdatedAt := db_now d, col_old_secrets_enc := Some (pe_jsonb (uc_pg v) raw)\<rparr>"
  have o: "?old \<noteq> []" by (simp add: rotated_out_def)
  obtain n d2 where w: "write_eps (\<lambda>d. update_where ep_keys (live_endpoint (ep_ID ep)) (?f d)) d0 = (Inr n, d2)" "db_eps d1 = db_eps d2"
    using rot get s raw o by (cases "write_eps (\<lambda>d. update_where ep_keys (live_endpoint (ep_ID ep)) (?f d)) d0")
      (auto simp: RotateSecret_def uc_bind_def uc_call_def EndpointRepo_RotateSecret_def marshalSealedSecrets_def affected_def
        split: sum.splits option.splits if_splits)
  then have rows: "db_eps d1 = map (\<lambda>r. if live_endpoint (ep_ID ep) r then ?f d r else r) (db_eps d)" "unique ep_keys (db_eps d1)"
    by (auto simp: d0 update_where_Inr elim!: write_eps_cases)
  let ?r = "?f d r0"
  have "?r \<in> set (db_eps d1)" using r0 by (auto simp: rows(1) live_endpoint_def scan_simps image_iff intro!: bexI [of _ r0])
  moreover have "scanEndpoint (uc_pg v) ?r = Some (ep\<lparr>ep_Secret := \<lparr>sealed_Sealed = sealed, sealed_ExpiresAt = None\<rparr>,
      ep_OldSecrets := ?old, ep_UpdatedAt := db_now d\<rparr>)"
    using r0(3) codec [OF raw] by (auto simp: scanEndpoint_def unmarshalSealedSecrets_def Endpoint.truncate_def)
  ultimately show ?thesis using s r0(2) ep_keys_id [OF rows(2)] by (intro exI [of _ sealed] conjI exI [of _ ?r]) simp_all
qed

lemma seal_opens:
  assumes "NewSealer keys = Inr s" and "Seal aead_seal s (Some nonce) p = Inr sealed" and "length nonce = NonceSizeX"
    and "\<And>k n m. aead_open k n (aead_seal k n m) = Some m"
  shows "Open aead_open s sealed = Inr p"
  using NewSealer_ok [OF assms(1)] assms(2-4) by (auto simp: Open_def Seal_def split: list.splits if_splits)

lemma subset_opens: "A \<subseteq> insert c B \<Longrightarrow> \<forall>x\<in>B. \<exists>k. f x = Inr k \<Longrightarrow> f c = Inr p \<Longrightarrow> \<forall>x\<in>A. \<exists>k. f x = Inr k"
  by auto

lemma list_all2_in_set1: "list_all2 P xs ys \<Longrightarrow> x \<in> set xs \<Longrightarrow> \<exists>y\<in>set ys. P x y"
  by (induction rule: list_all2_induct) auto

text \<open>A secret is still in use at a time: it does not expire, or not before.\<close>

definition in_use :: "time \<Rightarrow> Secret \<Rightarrow> bool" where
  "in_use t s = (case sec_ExpiresAt s of None \<Rightarrow> True | Some e \<Rightarrow> t \<le> e)"

lemma in_use_iff: "in_use t \<lparr>sec_Key = k, sec_Type = ty, sec_ExpiresAt = sealed_ExpiresAt s\<rparr> \<longleftrightarrow> \<not> SealedSecret_Expired s t"
  by (auto simp: in_use_def SealedSecret_Expired_def split: option.splits)

lemma in_use_at: "in_use t \<lparr>sec_Key = k, sec_Type = ty, sec_ExpiresAt = Some e\<rparr> \<longleftrightarrow> t \<le> e"
  by (simp add: in_use_def)


section \<open>A small configuration\<close>

text \<open>One tenant with two applications, an endpoint each; JSON of one rotated secret is its bytes.\<close>

definition demo_pgenv :: pgenv where
  "demo_pgenv = \<lparr>pe_ilike = (=), pe_jsonb = (\<lambda>b. b),
     pe_marshalSecrets = (\<lambda>ss. case ss of [s] \<Rightarrow> if sealed_ExpiresAt s = Some (100 + 24 * Hour) then Some (1 # sealed_Sealed s) else None | _ \<Rightarrow> None),
     pe_unmarshalSecrets = (\<lambda>raw. case raw of [] \<Rightarrow> None | _ # c \<Rightarrow> Some [\<lparr>sealed_Sealed = c, sealed_ExpiresAt = Some (100 + 24 * Hour)\<rparr>]),
     pe_marshalCursor = cc_marshal demo_codec, pe_unmarshalCursor = cc_unmarshal demo_codec\<rparr>"

definition demo_uc :: ucenv where
  "demo_uc = \<lparr>uc_pg = demo_pgenv, uc_now = 100, uc_nowLater = 101, uc_nowDelete = 102, uc_id = ''ep_9'', uc_random = Some [1, 2, 3],
     uc_nonce = Some (replicate 24 1), uc_parseURL = (\<lambda>u. Some (''https'', u)), uc_validJSON = (\<lambda>_. True),
     uc_marshalHeaders = (\<lambda>_. None), uc_unmarshalHeaders = (\<lambda>_. None), uc_lowerUnicode = (\<lambda>s. s),
     uc_aead_seal = toy_seal, uc_aead_open = toy_open, uc_sealer = \<lparr>sl_keys = [replicate 32 7]\<rparr>, uc_invalidator = True\<rparr>"

definition demo_row :: "string \<Rightarrow> string \<Rightarrow> endpoint_row" where
  "demo_row i a = Endpoint.extend
     \<lparr>ep_ID = i, ep_AppID = a, ep_OrgID = ''org_1'', ep_UID = None, ep_URL = ''https://a.example'', ep_Description = [], ep_Version = 1,
      ep_RateLimit = None, ep_EventTypes = [], ep_Channels = [], ep_Headers = [],
      ep_Secret = \<lparr>sealed_Sealed = replicate 24 1 @ toy_seal (replicate 32 7) (replicate 24 1) (bytes_of ''whsec_old''), sealed_ExpiresAt = None\<rparr>,
      ep_SecretType = SecretTypeHMAC256, ep_OldSecrets = [], ep_Pool = ''default'', ep_FirstFailureAt = None, ep_DisabledAt = None,
      ep_CreatedAt = 1, ep_UpdatedAt = 1, ep_DeletedAt = None\<rparr> (endpoint_row.fields None)"

definition demo_cfg :: cfgdb where
  "demo_cfg = \<lparr>db_orgs = [], db_apps = [], db_types = [], db_eps = [demo_row ''ep_1'' ''app_1'', demo_row ''ep_2'' ''app_2''],
     db_now = 100, db_faults = [False, False, False], db_notified = []\<rparr>"

lemma demo_cfg_unique: "unique ep_keys (db_eps demo_cfg)" by code_simp

theorem endpoint_isolation_witness:
  "filter (\<lambda>r. ep_AppID r \<noteq> ''app_1'') (db_eps (fold (\<lambda>(v, op). endpoint_op ''app_1'' v op)
      [(demo_uc, OpRotate ''ep_1'' []), (demo_uc, OpDelete ''ep_2''), (demo_uc, OpDelete ''ep_1'')] demo_cfg)) = [demo_row ''ep_2'' ''app_2'']"
proof -
  have "filter (\<lambda>r. ep_AppID r \<noteq> ''app_1'') (db_eps demo_cfg) = [demo_row ''ep_2'' ''app_2'']" by code_simp
  then show ?thesis using endpoint_isolation [OF demo_cfg_unique, of "''app_1''" "[(demo_uc, OpRotate ''ep_1'' []), (demo_uc, OpDelete ''ep_2''), (demo_uc, OpDelete ''ep_1'')]"]
    by (simp add: Let_def)
qed

definition demo_rotated :: cfgdb where
  "demo_rotated = snd (RotateSecret demo_uc ''app_1'' ''ep_1'' ''whsec_new'' demo_cfg)"

lemma demo_rotate: "RotateSecret demo_uc ''app_1'' ''ep_1'' ''whsec_new'' demo_cfg = (Inr ''whsec_new'', demo_rotated)"
proof -
  have "fst (RotateSecret demo_uc ''app_1'' ''ep_1'' ''whsec_new'' demo_cfg) = Inr ''whsec_new''" by code_simp
  then show ?thesis unfolding demo_rotated_def by (metis prod.collapse)
qed

definition demo_before :: Endpoint where
  "demo_before = Endpoint.truncate (demo_row ''ep_1'' ''app_1'')"

lemma demo_get: "fst (GetEndpoint demo_uc ''app_1'' ''ep_1'' demo_cfg) = Inr demo_before" by code_simp

lemma demo_entry: "(case buildEndpoint (Open (uc_aead_open demo_uc) (uc_sealer demo_uc)) (\<lambda>_. None) (uc_now demo_uc) demo_before of
    Inl _ \<Rightarrow> False | Inr e \<Rightarrow> cep_Secrets e = [\<lparr>sec_Key = bytes_of ''whsec_old'', sec_Type = SecretTypeHMAC256, sec_ExpiresAt = None\<rparr>])" by code_simp

lemma demo_load: "\<not> isl (fst (LoadSnapshot demo_pgenv (demo_rotated\<lparr>db_faults := []\<rparr>)))" by code_simp

lemma demo_json:
  "pe_marshalSecrets demo_pgenv ss = Some raw \<Longrightarrow> pe_jsonb demo_pgenv raw \<noteq> [] \<and> pe_unmarshalSecrets demo_pgenv (pe_jsonb demo_pgenv raw) = Some ss"
  by (auto simp: demo_pgenv_def split: list.splits if_splits)


text \<open>
  A name that is not a header token can pass the check: \<^verbatim>\<open>CanonicalHeaderKey\<close> returns it and its lower
  case form unchanged, and a control byte is not among the characters the check excludes.
\<close>

lemma header_name_gap: "isValidHeaderName low [CHR ''x'', CHR 0x01]" "\<not> validHeaderFieldByte (CHR 0x01)"
  by code_simp+

end
