(* ===== verification/Tenant_UseCases.thy ===== *)
theory Tenant_UseCases
  imports Endpoint_UseCase Queue_Repo Lease_Repo
begin

text \<open>
  The use cases of \<^verbatim>\<open>internal/application/usecases\<close> around the endpoints: applications, organizations,
  event types, the resolution of an application inside a tenant (\<^verbatim>\<open>app_resolver.go\<close>) and the operator's
  routes (\<^verbatim>\<open>admin_usecase.go\<close>). The environment and the conventions are those of the endpoint use case.
\<close>

section \<open>application_usecase.go\<close>

record CreateApplicationInput =
  ca_OrgID :: string
  ca_Name :: string
  ca_UID :: "string option"
  ca_RateLimit :: "int option"
  ca_Metadata :: bytes

definition CreateApplication :: "ucenv \<Rightarrow> CreateApplicationInput \<Rightarrow> cfgdb \<Rightarrow> Application uc_result" where
  "CreateApplication v inp d =
    (if IsBlank (ca_Name inp) then (Inl (NewValidationError ''name is required''), d)
     else if not_positive (ca_RateLimit inp) then (Inl (NewValidationError ''rateLimit must be positive''), d)
     else if ca_Metadata inp \<noteq> [] \<and> \<not> uc_validJSON v (ca_Metadata inp) then (Inl (NewValidationError ''metadata must be well-formed JSON''), d)
     else
       (let app = \<lparr>app_ID = uc_id v, app_OrgID = ca_OrgID inp, app_UID = NilIfBlank (Deref (ca_UID inp) []), app_Name = ca_Name inp,
                   app_RateLimit = ca_RateLimit inp, app_Metadata = ca_Metadata inp, app_CreatedAt = uc_now v, app_UpdatedAt = uc_now v,
                   app_DeletedAt = None\<rparr> in
        uc_call (ApplicationRepo_CreateApplication (uc_pg v) app d) (conflict_or_internal ''an application with this uid already exists'')
          (\<lambda>d. (Inr app, uc_invalidate v (ca_OrgID inp) d))))"

definition no_application_filters :: ApplicationFilters where
  "no_application_filters = \<lparr>af_ID = None, af_OrgID = None, af_UID = None, af_Name = None\<rparr>"

definition app_by_id :: "pgenv \<Rightarrow> string \<Rightarrow> string \<Rightarrow> cfgdb \<Rightarrow> (repo_error + Application) \<times> cfgdb" where
  "app_by_id env orgID i = ApplicationRepo_GetApplication env (no_application_filters\<lparr>af_OrgID := Eq orgID, af_ID := Eq i\<rparr>)"

definition app_by_uid :: "pgenv \<Rightarrow> string \<Rightarrow> string \<Rightarrow> cfgdb \<Rightarrow> (repo_error + Application) \<times> cfgdb" where
  "app_by_uid env orgID u = ApplicationRepo_GetApplication env (no_application_filters\<lparr>af_OrgID := Eq orgID, af_UID := Eq u\<rparr>)"

definition GetApplication :: "ucenv \<Rightarrow> string \<Rightarrow> string \<Rightarrow> cfgdb \<Rightarrow> Application uc_result" where
  "GetApplication v orgID idOrUID = by_id_or_uid ''application'' (app_by_id (uc_pg v) orgID idOrUID) (app_by_uid (uc_pg v) orgID idOrUID)"

record UpdateApplicationInput =
  ua_Name :: "string option"
  ua_UID :: "string option"
  ua_RateLimit :: "int option"
  ua_Metadata :: bytes

definition update_app_fields :: "ucenv \<Rightarrow> UpdateApplicationInput \<Rightarrow> Application \<Rightarrow> AppError + Application" where
  "update_app_fields v inp app =
    (if (case ua_Name inp of None \<Rightarrow> False | Some n \<Rightarrow> IsBlank n) then Inl (NewValidationError ''name cannot be blank'')
     else if not_positive (ua_RateLimit inp) then Inl (NewValidationError ''rateLimit must be positive'')
     else if ua_Metadata inp \<noteq> [] \<and> \<not> uc_validJSON v (ua_Metadata inp) then Inl (NewValidationError ''metadata must be well-formed JSON'')
     else Inr (app\<lparr>app_Name := Deref (ua_Name inp) (app_Name app),
         app_UID := (case ua_UID inp of None \<Rightarrow> app_UID app | Some u \<Rightarrow> NilIfBlank u),
         app_RateLimit := (case ua_RateLimit inp of None \<Rightarrow> app_RateLimit app | Some n \<Rightarrow> Some n),
         app_Metadata := (if ua_Metadata inp \<noteq> [] then ua_Metadata inp else app_Metadata app),
         app_UpdatedAt := uc_now v\<rparr>))"

definition UpdateApplication :: "ucenv \<Rightarrow> string \<Rightarrow> string \<Rightarrow> UpdateApplicationInput \<Rightarrow> cfgdb \<Rightarrow> Application uc_result" where
  "UpdateApplication v orgID idOrUID inp d = uc_bind (GetApplication v orgID idOrUID d) (\<lambda>app d.
     case update_app_fields v inp app of
       Inl e \<Rightarrow> (Inl e, d)
     | Inr app \<Rightarrow> uc_call (ApplicationRepo_UpdateApplication (uc_pg v) app d)
         (\<lambda>e. if e = ErrConflict then NewConflictError ''an application with this uid already exists'' else not_found_or_internal ''application'' e)
         (\<lambda>d. (Inr app, uc_invalidate v orgID d)))"

definition DeleteApplication :: "ucenv \<Rightarrow> string \<Rightarrow> string \<Rightarrow> cfgdb \<Rightarrow> unit uc_result" where
  "DeleteApplication v orgID idOrUID d = uc_bind (GetApplication v orgID idOrUID d) (\<lambda>app d.
     uc_call (ApplicationRepo_DeleteApplication (uc_nowDelete v) (app_ID app) d) (not_found_or_internal ''application'')
       (\<lambda>d. (Inr (), uc_invalidate v orgID d)))"

definition search_filter :: "string \<Rightarrow> string Filter option" where
  "search_filter search = map_option (\<lambda>s. no_filter\<lparr>f_IContains := Some s\<rparr>) (NilIfBlank search)"

definition internal_page :: "(repo_error + 'a) \<times> cfgdb \<Rightarrow> 'a uc_result" where
  "internal_page r = (case r of (Inl e, d) \<Rightarrow> (Inl (Internal e), d) | (Inr x, d) \<Rightarrow> (Inr x, d))"

definition ListApplications :: "ucenv \<Rightarrow> string \<Rightarrow> string \<Rightarrow> CursorPagination \<Rightarrow> cfgdb \<Rightarrow> Application CursorResult uc_result" where
  "ListApplications v orgID search page d = internal_page (ApplicationRepo_GetApplications (uc_pg v)
     (no_application_filters\<lparr>af_OrgID := Eq orgID, af_Name := search_filter search\<rparr>) page d)"

section \<open>organization_usecase.go\<close>

definition CreateOrganization :: "ucenv \<Rightarrow> string \<Rightarrow> cfgdb \<Rightarrow> Organization uc_result" where
  "CreateOrganization v name d =
    (if IsBlank name then (Inl (NewValidationError ''name is required''), d)
     else
       (let org = \<lparr>org_ID = uc_id v, org_Name = name, org_CreatedAt = uc_now v, org_UpdatedAt = uc_now v, org_DeletedAt = None\<rparr> in
        uc_call (OrganizationRepo_CreateOrganization org d) Internal (\<lambda>d. (Inr org, uc_invalidate v (org_ID org) d))))"

definition GetOrganization :: "ucenv \<Rightarrow> string \<Rightarrow> cfgdb \<Rightarrow> Organization uc_result" where
  "GetOrganization v i d = (case OrganizationRepo_GetOrganization (uc_pg v) \<lparr>of_ID = Eq i, of_Name = None, of_DeletedAt = None\<rparr> d of
      (Inl e, d) \<Rightarrow> (Inl (not_found_or_internal ''organization'' e), d) | (Inr org, d) \<Rightarrow> (Inr org, d))"

definition ListOrganizations :: "ucenv \<Rightarrow> string \<Rightarrow> CursorPagination \<Rightarrow> cfgdb \<Rightarrow> Organization CursorResult uc_result" where
  "ListOrganizations v search page d = internal_page (OrganizationRepo_GetOrganizations (uc_pg v)
     \<lparr>of_ID = None, of_Name = search_filter search, of_DeletedAt = None\<rparr> page d)"

section \<open>event_type_usecase.go\<close>

text \<open>\<^verbatim>\<open>^[a-zA-Z0-9\-_.]+$\<close>; Go's \<^verbatim>\<open>$\<close> without flags is the end of the text.\<close>

definition eventTypeNamePattern :: "string \<Rightarrow> bool" where
  "eventTypeNamePattern s \<longleftrightarrow> s \<noteq> [] \<and> list_all (\<lambda>c. let n = (of_char c :: nat) in
     97 \<le> n \<and> n \<le> 122 \<or> 65 \<le> n \<and> n \<le> 90 \<or> 48 \<le> n \<and> n \<le> 57 \<or> c \<in> set ''-_.'') s"

definition validateEventTypeName :: "string \<Rightarrow> AppError option" where
  "validateEventTypeName name =
    (if IsBlank name then Some (NewValidationError ''name is required'')
     else if length name > 256 then Some (NewValidationError ''name must be at most 256 characters'')
     else if \<not> eventTypeNamePattern name then Some (NewValidationError ''name may contain only letters, digits, dots, dashes and underscores'')
     else None)"

record CreateEventTypeInput =
  ct_OrgID :: string
  ct_Name :: string
  ct_Description :: string
  ct_Schemas :: bytes

definition CreateEventType :: "ucenv \<Rightarrow> CreateEventTypeInput \<Rightarrow> cfgdb \<Rightarrow> EventType uc_result" where
  "CreateEventType v inp d = (case validateEventTypeName (ct_Name inp) of
      Some e \<Rightarrow> (Inl e, d)
    | None \<Rightarrow>
       if ct_Schemas inp \<noteq> [] \<and> \<not> uc_validJSON v (ct_Schemas inp) then (Inl (NewValidationError ''schemas must be well-formed JSON''), d)
       else
         (let et = \<lparr>et_OrgID = ct_OrgID inp, et_Name = ct_Name inp, et_Description = ct_Description inp, et_Schemas = ct_Schemas inp,
                    et_CreatedAt = uc_now v, et_UpdatedAt = uc_now v, et_DeletedAt = None\<rparr> in
          uc_call (EventTypeRepo_CreateEventType (uc_pg v) et d) (conflict_or_internal ''an event type with this name already exists'')
            (\<lambda>d. (Inr et, uc_invalidate v (ct_OrgID inp) d))))"

definition GetEventType :: "ucenv \<Rightarrow> string \<Rightarrow> string \<Rightarrow> cfgdb \<Rightarrow> EventType uc_result" where
  "GetEventType v orgID name d = (case EventTypeRepo_GetEventType (uc_pg v) \<lparr>tf_OrgID = Eq orgID, tf_Name = Eq name, tf_IncludeArchived = True\<rparr> d of
      (Inl e, d) \<Rightarrow> (Inl (not_found_or_internal ''event type'' e), d) | (Inr et, d) \<Rightarrow> (Inr et, d))"

definition UpdateEventType :: "ucenv \<Rightarrow> string \<Rightarrow> string \<Rightarrow> string option \<Rightarrow> bytes \<Rightarrow> cfgdb \<Rightarrow> EventType uc_result" where
  "UpdateEventType v orgID name description schemas d = uc_bind (GetEventType v orgID name d) (\<lambda>et d.
     if Archived et then (Inl (NewBusinessRuleError ''cannot update an archived event type''), d)
     else if schemas \<noteq> [] \<and> \<not> uc_validJSON v schemas then (Inl (NewValidationError ''schemas must be well-formed JSON''), d)
     else
       (let et = et\<lparr>et_Description := Deref description (et_Description et), et_Schemas := (if schemas \<noteq> [] then schemas else et_Schemas et),
                    et_UpdatedAt := uc_now v\<rparr> in
        uc_call (EventTypeRepo_UpdateEventType (uc_pg v) et d) (not_found_or_internal ''event type'') (\<lambda>d. (Inr et, uc_invalidate v orgID d))))"

definition ArchiveEventType :: "ucenv \<Rightarrow> string \<Rightarrow> string \<Rightarrow> cfgdb \<Rightarrow> unit uc_result" where
  "ArchiveEventType v orgID name d = uc_call (EventTypeRepo_ArchiveEventType (uc_nowDelete v) orgID name d) (not_found_or_internal ''event type'')
     (\<lambda>d. (Inr (), uc_invalidate v orgID d))"

definition UnarchiveEventType :: "ucenv \<Rightarrow> string \<Rightarrow> string \<Rightarrow> cfgdb \<Rightarrow> unit uc_result" where
  "UnarchiveEventType v orgID name d = uc_call (EventTypeRepo_UnarchiveEventType orgID name d) (not_found_or_internal ''event type'')
     (\<lambda>d. (Inr (), uc_invalidate v orgID d))"

definition ListEventTypes :: "ucenv \<Rightarrow> string \<Rightarrow> bool \<Rightarrow> CursorPagination \<Rightarrow> cfgdb \<Rightarrow> EventType CursorResult uc_result" where
  "ListEventTypes v orgID includeArchived page d = internal_page (EventTypeRepo_GetEventTypes (uc_pg v)
     \<lparr>tf_OrgID = Eq orgID, tf_Name = None, tf_IncludeArchived = includeArchived\<rparr> page d)"

section \<open>app_resolver.go\<close>

record AppRef =
  ref_ID :: string
  ref_OrgID :: string

text \<open>
  The resolver's fields: the current snapshot, whether it has a repository to fall back on and a local
  invalidator. The number of reloads it asked for is part of the result.
\<close>

record appResolver =
  rs_snapshot :: "Snapshot option"
  rs_appRepo :: bool
  rs_invalidator :: bool

definition resolve :: "pgenv \<Rightarrow> appResolver \<Rightarrow> string \<Rightarrow> string \<Rightarrow> cfgdb \<Rightarrow> (AppError + AppRef) \<times> nat \<times> cfgdb" where
  "resolve env r orgID idOrUID d =
    (if rs_snapshot r = None \<and> \<not> rs_appRepo r then (Inl (NewInternalError ''config snapshot is not loaded''), 0, d)
     else case (case rs_snapshot r of None \<Rightarrow> None | Some s \<Rightarrow> ResolveApp s orgID idOrUID) of
       Some app \<Rightarrow> (Inr \<lparr>ref_ID = app_ID (ca_App app), ref_OrgID = app_OrgID (ca_App app)\<rparr>, 0, d)
     | None \<Rightarrow>
        if \<not> rs_appRepo r then (Inl (NewNotFoundError ''application''), 0, d)
        else case (case app_by_id env orgID idOrUID d of
                     (Inl ErrNotFound, d) \<Rightarrow> app_by_uid env orgID idOrUID d
                   | other \<Rightarrow> other) of
            (Inl ErrNotFound, d) \<Rightarrow> (Inl (NewNotFoundError ''application''), 0, d)
          | (Inl e, d) \<Rightarrow> (Inl (Internal e), 0, d)
          | (Inr app, d) \<Rightarrow> (Inr \<lparr>ref_ID = app_ID app, ref_OrgID = app_OrgID app\<rparr>, if rs_invalidator r then 1 else 0, d))"

section \<open>admin_usecase.go\<close>

text \<open>The routes on endpoints; those on the queue and the leases pass the repository's answer on.\<close>

record PoolAssignment =
  pa_OrgID :: string
  pa_AppIDOrUID :: string
  pa_EndpointID :: string
  pa_Pool :: string

definition with_endpoint ::
  "ucenv \<Rightarrow> appResolver \<Rightarrow> PoolAssignment \<Rightarrow> (AppRef \<Rightarrow> Endpoint \<Rightarrow> cfgdb \<Rightarrow> unit uc_result) \<Rightarrow> cfgdb \<Rightarrow> unit uc_result" where
  "with_endpoint v r inp f d = (case resolve (uc_pg v) r (pa_OrgID inp) (pa_AppIDOrUID inp) d of
      (Inl e, _, d) \<Rightarrow> (Inl e, d)
    | (Inr app, _, d) \<Rightarrow>
       (case EndpointRepo_GetEndpoint (uc_pg v) (no_endpoint_filters\<lparr>ef_AppID := Eq (ref_ID app), ef_ID := Eq (pa_EndpointID inp)\<rparr>) d of
          (Inl e, d) \<Rightarrow> (Inl (NewNotFoundError ''endpoint''), d)
        | (Inr ep, d) \<Rightarrow> f app ep d))"

definition MoveEndpointPool :: "ucenv \<Rightarrow> appResolver \<Rightarrow> PoolAssignment \<Rightarrow> cfgdb \<Rightarrow> unit uc_result" where
  "MoveEndpointPool v r inp d =
    (if IsBlank (pa_Pool inp) then (Inl (NewValidationError ''pool is required''), d)
     else with_endpoint v r inp (\<lambda>app ep d.
       uc_call (EndpointRepo_SetPool (ep_ID ep) (pa_Pool inp) d) Internal (\<lambda>d. (Inr (), uc_invalidate v (ref_OrgID app) d))) d)"

definition ReEnableEndpoint :: "ucenv \<Rightarrow> appResolver \<Rightarrow> PoolAssignment \<Rightarrow> cfgdb \<Rightarrow> unit uc_result" where
  "ReEnableEndpoint v r inp d = with_endpoint v r inp (\<lambda>app ep d.
     uc_call (EndpointRepo_SetDisabled (ep_ID ep) None d) Internal (\<lambda>d.
     uc_call (EndpointRepo_SetFirstFailure (ep_ID ep) None d) Internal (\<lambda>d. (Inr (), uc_invalidate v (ref_OrgID app) d)))) d"

text \<open>The queue and lease routes.\<close>

definition AdminUseCase_RescueStuck :: "pg \<Rightarrow> (AppError + nat) \<times> pg" where
  "AdminUseCase_RescueStuck q = (case RescueStuck q of (Inl e, q) \<Rightarrow> (Inl (Internal e), q) | (Inr n, q) \<Rightarrow> (Inr n, q))"

definition AdminUseCase_QueueStats :: "string list \<Rightarrow> pg \<Rightarrow> (AppError + QueueStats list) \<times> pg" where
  "AdminUseCase_QueueStats pools q = (case Stats pools q of (Inl e, q) \<Rightarrow> (Inl (Internal e), q) | (Inr s, q) \<Rightarrow> (Inr s, q))"

definition AdminUseCase_PartitionLeases :: "(string \<Rightarrow> 'a::linorder) \<Rightarrow> string \<Rightarrow> ldb \<Rightarrow> (AppError + PartitionLease list) \<times> ldb" where
  "AdminUseCase_PartitionLeases collate pool d = (case ListPartitionLeases collate pool d of (Inl e, d) \<Rightarrow> (Inl (Internal e), d) | (Inr l, d) \<Rightarrow> (Inr l, d))"

section \<open>Applications inside a tenant\<close>

definition live_app :: "cfgdb \<Rightarrow> Application \<Rightarrow> bool" where
  "live_app d app \<longleftrightarrow> app \<in> set (db_apps d) \<and> app_DeletedAt app = None"

lemma Clause_application [simp]:
  "Clause (applyApplicationFilters env (no_application_filters\<lparr>af_OrgID := Eq o', af_ID := Eq i\<rparr>)) r \<longleftrightarrow>
     app_ID r = i \<and> app_OrgID r = o' \<and> app_DeletedAt r = None"
  "Clause (applyApplicationFilters env (no_application_filters\<lparr>af_OrgID := Eq o', af_UID := Eq i\<rparr>)) r \<longleftrightarrow>
     app_UID r = Some i \<and> app_OrgID r = o' \<and> app_DeletedAt r = None"
  by (auto simp: applyApplicationFilters_def no_application_filters_def Let_def)

interpretation ap: scoped_lookup "app_by_id env" "app_by_uid env" live_app app_OrgID app_ID app_UID for env
proof (unfold_locales, goal_cases)
  case (1 s i d res d')
  then show ?case unfolding app_by_id_def ApplicationRepo_GetApplication_def
    by (elim query_cases) (auto simp: live_app_def dest!: select_one_Inr sym [of "Inr _"])
next
  case (2 s i d res d')
  then show ?case unfolding app_by_uid_def ApplicationRepo_GetApplication_def
    by (elim query_cases) (auto simp: live_app_def dest!: select_one_Inr sym [of "Inr _"])
next
  case (3 s i d d' e)
  then show ?case unfolding app_by_id_def ApplicationRepo_GetApplication_def
    by (elim query_cases) (fastforce simp: live_app_def select_one_NotFound dest!: sym [of "Inl ErrNotFound"])
next
  case (4 s i d d' e)
  then show ?case unfolding app_by_uid_def ApplicationRepo_GetApplication_def
    by (elim query_cases) (fastforce simp: live_app_def select_one_NotFound dest!: sym [of "Inl ErrNotFound"])
next
  case (5 d fs)
  then show ?case by (auto simp: live_app_def fun_eq_iff)
qed

text \<open>What the database half of the resolver returns.\<close>

lemma resolve_fallback:
  assumes "(case app_by_id env orgID x d of (Inl ErrNotFound, d) \<Rightarrow> app_by_uid env orgID x d | other \<Rightarrow> other) = (res, d')"
  shows "\<exists>fs. d' = d\<lparr>db_faults := fs\<rparr>" and "res = Inr app \<Longrightarrow> live_app d app \<and> app_OrgID app = orgID \<and> (app_ID app = x \<or> app_UID app = Some x)"
    and "res = Inl ErrNotFound \<Longrightarrow> live_app d app \<Longrightarrow> app_OrgID app = orgID \<Longrightarrow> app_ID app \<noteq> x \<and> app_UID app \<noteq> Some x"
proof -
  obtain r1 d1 where 1: "app_by_id env orgID x d = (r1, d1)" by fastforce
  obtain r2 d2 where 2: "app_by_uid env orgID x d1 = (r2, d2)" by fastforce
  note g = ap.get_id [OF 1] ap.get_uid [OF 2]
  from g(1) obtain fs where d1: "d1 = d\<lparr>db_faults := fs\<rparr>" by blast
  show "\<exists>fs. d' = d\<lparr>db_faults := fs\<rparr>" using assms 1 2 g by (auto split: sum.splits repo_error.splits)
  show "res = Inr app \<Longrightarrow> live_app d app \<and> app_OrgID app = orgID \<and> (app_ID app = x \<or> app_UID app = Some x)"
    using assms 1 2 g ap.live_faults by (auto simp: d1 split: sum.splits repo_error.splits)
  assume "res = Inl ErrNotFound" "live_app d app" "app_OrgID app = orgID"
  then show "app_ID app \<noteq> x \<and> app_UID app \<noteq> Some x"
    using assms 1 2 ap.miss_id [of env orgID x d d1 app] ap.miss_uid [of env orgID x d1 d2 app] ap.live_faults [of fs d]
    by (auto simp: d1 split: sum.splits repo_error.splits)
qed

text \<open>
  Tenant isolation of application resolution, by snapshot or by database. Whatever identifier a
  tenant passes, the application it resolves to belongs to that tenant, is one of the rows the
  snapshot was built from or a live row of the database, and has that identifier as its id or uid; the
  database is not changed. PostgreSQL text holds no NUL character, so the separator of the uid
  keys of the snapshot is unambiguous for the stored rows.
\<close>
theorem resolve_isolation:
  assumes "\<forall>app\<in>set (sd_Applications data). CHR 0x00 \<notin> set (app_OrgID app) \<and> (\<forall>uid. app_UID app = Some uid \<longrightarrow> CHR 0x00 \<notin> set uid)"
    and "\<And>s. rs_snapshot r = Some s \<Longrightarrow> s = fst (BuildSnapshot aead_open um sealer t now data)"
    and "resolve env r orgID x d = (Inr ref, n, d')"
  shows "ref_OrgID ref = orgID \<and> (\<exists>fs. d' = d\<lparr>db_faults := fs\<rparr>) \<and>
    (\<exists>app. (app \<in> set (sd_Applications data) \<or> app \<in> set (db_apps d) \<and> app_DeletedAt app = None) \<and>
       app_ID app = ref_ID ref \<and> app_OrgID app = orgID \<and> (app_ID app = x \<or> app_UID app = Some x))"
proof -
  have keep: "\<exists>fs. d = d\<lparr>db_faults := fs\<rparr>" by (rule exI [of _ "db_faults d"]) simp
  let ?hit = "case rs_snapshot r of None \<Rightarrow> None | Some s \<Rightarrow> ResolveApp s orgID x"
  show ?thesis
  proof (cases ?hit)
    case (Some app)
    then obtain s where s: "rs_snapshot r = Some s" "ResolveApp s orgID x = Some app" by (auto split: option.splits)
    obtain problems where b: "BuildSnapshot aead_open um sealer t now data = (s, problems)" using assms(2) [OF s(1)] by (metis prod.collapse)
    have "ref = \<lparr>ref_ID = app_ID (ca_App app), ref_OrgID = app_OrgID (ca_App app)\<rparr>" "d' = d"
      using assms(3) s by (auto simp: resolve_def split: if_splits)
    with ResolveApp_in_tenant [OF assms(1) b s(2)] keep show ?thesis by auto
  next
    case None
    let ?db = "case app_by_id env orgID x d of (Inl ErrNotFound, d) \<Rightarrow> app_by_uid env orgID x d | other \<Rightarrow> other"
    obtain res d1 where db: "?db = (res, d1)" by fastforce
    obtain app where "res = Inr app" "ref = \<lparr>ref_ID = app_ID app, ref_OrgID = app_OrgID app\<rparr>" "d' = d1"
      using assms(3) None db by (auto simp: resolve_def split: if_splits sum.splits repo_error.splits)
    with resolve_fallback(1,2) [OF db] show ?thesis by (auto simp: live_app_def)
  qed
qed

theorem resolve_isolation_witness:
  "\<exists>ref n d'. resolve demo_pgenv \<lparr>rs_snapshot = Some demo_snapshot, rs_appRepo = True, rs_invalidator = True\<rparr> ''org_1'' ''billing'' demo_cfg =
     (Inr ref, n, d') \<and> ref_OrgID ref = ''org_1''"
proof -
  let ?r = "\<lparr>rs_snapshot = Some demo_snapshot, rs_appRepo = True, rs_invalidator = True\<rparr>"
  obtain app where "ResolveApp demo_snapshot ''org_1'' ''billing'' = Some app" using demo_resolve by blast
  then obtain ref n d' where r: "resolve demo_pgenv ?r ''org_1'' ''billing'' demo_cfg = (Inr ref, n, d')" by (simp add: resolve_def)
  have "ref_OrgID ref = ''org_1''"
    using resolve_isolation [OF _ _ r, of demo_data "\<lambda>k n c. Some c" "\<lambda>_. None" "\<lparr>sl_keys = [replicate 32 7]\<rparr>" 5 5]
    by (simp add: demo_snapshot_def demo_data_def demo_app_def)
  with r show ?thesis by blast
qed

end
