(* ===== verification/Ingest.thy ===== *)
theory Ingest
  imports Tenant_UseCases Payload_Codec
begin

text \<open>
  From an accepted request to a message and its fan-out task: \<^verbatim>\<open>internal/infrastructure/ids/ids.go\<close>, the
  message repository and store (\<^verbatim>\<open>message_repo.go\<close>, \<^verbatim>\<open>message_store.go\<close>), and the use cases
  \<^verbatim>\<open>ingest_usecase.go\<close> and \<^verbatim>\<open>message_usecase.go\<close>. The KSUID library is third-party: generating a body,
  with the current time or a given one, and reading the time of a body are parameters. The message table
  and the queue are in one database, so a transaction covers both, and their statements share one fault
  script, that of the queue's model.
\<close>

section \<open>ids.go\<close>

record ksuid =
  ks_new :: string
  ks_newAt :: "time \<Rightarrow> string option"
  ks_time :: "string \<Rightarrow> time option"

definition ids_New :: "ksuid \<Rightarrow> string \<Rightarrow> string" where
  "ids_New k p = p @ ''_'' @ ks_new k"

definition NewAt :: "ksuid \<Rightarrow> string \<Rightarrow> time \<Rightarrow> string option" where
  "NewAt k p at = map_option (\<lambda>body. p @ ''_'' @ body) (ks_newAt k at)"

text \<open>The prefix and the time of the body; \<open>None\<close> is \<^verbatim>\<open>ErrMalformed\<close>.\<close>

definition Split :: "ksuid \<Rightarrow> string \<Rightarrow> (string \<times> time) option" where
  "Split k i =
    (let prefix = takeWhile (\<lambda>c. c \<noteq> CHR ''_'') i; rest = dropWhile (\<lambda>c. c \<noteq> CHR ''_'') i in
     if rest = [] \<or> prefix = [] then None
     else map_option (\<lambda>t. (prefix, t)) (ks_time k (tl rest)))"

definition HasKindPrefix :: "string \<Rightarrow> string \<Rightarrow> bool" where
  "HasKindPrefix i p \<longleftrightarrow> take (length p + 1) i = p @ ''_'' \<and> length i > length p + 1"

definition HasPrefix :: "ksuid \<Rightarrow> string \<Rightarrow> string \<Rightarrow> bool" where
  "HasPrefix k i p = (case Split k i of None \<Rightarrow> False | Some (prefix, _) \<Rightarrow> prefix = p)"

definition TimeOf :: "ksuid \<Rightarrow> string \<Rightarrow> time option" where
  "TimeOf k i = map_option snd (Split k i)"

section \<open>message_repo.go and message_store.go\<close>

record mdb =
  md_msgs :: "Message list"
  md_queue :: pg

definition md_exec :: "mdb \<Rightarrow> bool \<times> mdb" where
  "md_exec d = (case pg_exec (md_queue d) of (ok, q) \<Rightarrow> (ok, d\<lparr>md_queue := q\<rparr>))"

text \<open>The primary key and the unique index on the tenant's deduplication key.\<close>

definition message_conflict :: "Message \<Rightarrow> Message \<Rightarrow> bool" where
  "message_conflict m m' \<longleftrightarrow> msg_ID m = msg_ID m' \<and> msg_CreatedAt m = msg_CreatedAt m' \<or>
     msg_AppID m = msg_AppID m' \<and> msg_UID m \<noteq> None \<and> msg_UID m = msg_UID m' \<and> msg_CreatedAt m = msg_CreatedAt m' \<and>
     msg_DeletedAt m = None \<and> msg_DeletedAt m' = None"

definition CreateMessage :: "Message \<Rightarrow> mdb \<Rightarrow> repo_error option \<times> mdb" where
  "CreateMessage msg d = (case md_exec d of
      (False, d) \<Rightarrow> (Some (wrapWriteError OtherError ''insert message''), d)
    | (True, d) \<Rightarrow>
       if list_ex (message_conflict (msg\<lparr>msg_DeletedAt := None\<rparr>)) (md_msgs d) then (Some (wrapWriteError UniqueViolation ''insert message''), d)
       else (None, d\<lparr>md_msgs := md_msgs d @ [msg\<lparr>msg_DeletedAt := None\<rparr>]\<rparr>))"

record MessageFilters =
  mf_ID :: "string Filter option"
  mf_AppID :: "string Filter option"
  mf_OrgID :: "string Filter option"
  mf_EventType :: "string Filter option"
  mf_UID :: "string Filter option"
  mf_Channel :: "string option"
  mf_CreatedAt :: "time Filter option"

definition no_message_filters :: MessageFilters where
  "no_message_filters = \<lparr>mf_ID = None, mf_AppID = None, mf_OrgID = None, mf_EventType = None, mf_UID = None, mf_Channel = None, mf_CreatedAt = None\<rparr>"

definition applyMessageFilters :: "pgenv \<Rightarrow> MessageFilters \<Rightarrow> Message QueryBuilder" where
  "applyMessageFilters env f =
    (let b = ApplyFilter (pe_ilike env) (mf_ID f) (\<lambda>m. Some (msg_ID m)) NewQueryBuilder;
         b = ApplyFilter (pe_ilike env) (mf_AppID f) (\<lambda>m. Some (msg_AppID m)) b;
         b = ApplyFilter (pe_ilike env) (mf_OrgID f) (\<lambda>m. Some (msg_OrgID m)) b;
         b = ApplyFilter (pe_ilike env) (mf_EventType f) (\<lambda>m. Some (msg_EventType m)) b;
         b = ApplyFilter (pe_ilike env) (mf_UID f) msg_UID b;
         b = ApplyFilter (\<lambda>_ _. False) (mf_CreatedAt f) (\<lambda>m. Some (msg_CreatedAt m)) b;
         b = where_opt (mf_Channel f) (\<lambda>c. Where (\<lambda>m. c \<in> set (msg_Channels m))) b in
     Where (\<lambda>m. msg_DeletedAt m = None) b)"

definition md_query :: "string \<Rightarrow> (mdb \<Rightarrow> repo_error + 'a) \<Rightarrow> mdb \<Rightarrow> (repo_error + 'a) \<times> mdb" where
  "md_query context f d = (case md_exec d of (False, d) \<Rightarrow> (Inl (DriverError context), d) | (True, d) \<Rightarrow> (f d, d))"

text \<open>\<^verbatim>\<open>ORDER BY created_at DESC, id DESC LIMIT 1\<close>.\<close>

definition MessageRepo_GetMessage :: "pgenv \<Rightarrow> MessageFilters \<Rightarrow> mdb \<Rightarrow> (repo_error + Message) \<times> mdb" where
  "MessageRepo_GetMessage env f = md_query ''select message''
     (\<lambda>d. case ordered True msg_CreatedAt msg_ID (filter (Clause (applyMessageFilters env f)) (md_msgs d)) of
            [] \<Rightarrow> Inl ErrNotFound | m # _ \<Rightarrow> Inr m)"

definition without_payload :: "Message CursorResult \<Rightarrow> Message CursorResult" where
  "without_payload r = r\<lparr>cres_Items := map (\<lambda>m. m\<lparr>msg_Payload := []\<rparr>) (cres_Items r)\<rparr>"

text \<open>A listing has no payloads. \<open>fmt\<close> and \<open>parse\<close> are the RFC 3339 text of a time.\<close>

definition MessageRepo_GetMessages ::
  "pgenv \<Rightarrow> (time \<Rightarrow> string) \<Rightarrow> (string \<Rightarrow> time option) \<Rightarrow> MessageFilters \<Rightarrow> CursorPagination \<Rightarrow> mdb \<Rightarrow> (repo_error + Message CursorResult) \<times> mdb" where
  "MessageRepo_GetMessages env fmt parse f page = md_query ''select messages'' (\<lambda>d. Inr (without_payload
     (get_page \<lparr>cc_marshal = pe_marshalCursor env, cc_unmarshal = pe_unmarshalCursor env, cc_format = fmt, cc_parse = parse\<rparr>
        msg_CreatedAt msg_ID True (applyMessageFilters env f) page (md_msgs d))))"

definition GetPayload :: "string \<Rightarrow> time \<Rightarrow> mdb \<Rightarrow> (repo_error + bytes) \<times> mdb" where
  "GetPayload i createdAt = md_query ''select message payload''
     (\<lambda>d. case find (\<lambda>m. msg_ID m = i \<and> msg_CreatedAt m = createdAt \<and> msg_DeletedAt m = None) (md_msgs d) of
            None \<Rightarrow> Inl ErrNotFound | Some m \<Rightarrow> Inr (msg_Payload m))"

definition day_of :: "time \<Rightarrow> time" where
  "day_of t = t - t mod (24 * Hour)"

definition day_window :: "time \<Rightarrow> time Filter option" where
  "day_window t = Some (no_filter\<lparr>f_GTE := Some (day_of t), f_LT := Some (day_of t + 24 * Hour)\<rparr>)"

definition LoadMessage :: "pgenv \<Rightarrow> string \<Rightarrow> time \<Rightarrow> mdb \<Rightarrow> (repo_error + Message) \<times> mdb" where
  "LoadMessage env i createdAt = MessageRepo_GetMessage env (no_message_filters\<lparr>mf_ID := Eq i, mf_CreatedAt := day_window createdAt\<rparr>)"

definition MessageStore_LoadPayload :: "string \<Rightarrow> time \<Rightarrow> mdb \<Rightarrow> (repo_error + bytes) \<times> mdb" where
  "MessageStore_LoadPayload i createdAt = GetPayload i createdAt"

section \<open>The transaction\<close>

text \<open>\<^verbatim>\<open>Store.WithinTransaction\<close> over the message table and the queue; identity values are not given back.\<close>

definition md_rollback :: "mdb \<Rightarrow> mdb \<Rightarrow> mdb" where
  "md_rollback d d' = d\<lparr>md_queue := rollback (md_queue d) (md_queue d')\<rparr>"

definition md_WithinTransaction :: "(mdb \<Rightarrow> repo_error option \<times> mdb) \<Rightarrow> mdb \<Rightarrow> repo_error option \<times> mdb" where
  "md_WithinTransaction f d = (case md_exec d of
      (False, d1) \<Rightarrow> (Some (DriverError ''begin transaction''), d1)
    | (True, d1) \<Rightarrow> (case f d1 of
        (Some e, d2) \<Rightarrow> (Some e, md_rollback d d2)
      | (None, d2) \<Rightarrow> (case md_exec d2 of
          (True, d3) \<Rightarrow> (None, d3)
        | (False, d3) \<Rightarrow> (Some (DriverError ''commit transaction''), md_rollback d d3))))"

definition on_queue :: "pg action \<Rightarrow> mdb \<Rightarrow> repo_error option \<times> mdb" where
  "on_queue f d = (case f (md_queue d) of (r, q) \<Rightarrow> (r, d\<lparr>md_queue := q\<rparr>))"

section \<open>ingest_usecase.go\<close>

record IngestConfig =
  ic_MaxPayloadBytes :: int
  ic_DefaultRetentionDays :: int
  ic_Pool :: string

definition ingest_defaults :: "IngestConfig \<Rightarrow> IngestConfig" where
  "ingest_defaults c = \<lparr>ic_MaxPayloadBytes = (if ic_MaxPayloadBytes c \<le> 0 then 2 ^ 20 else ic_MaxPayloadBytes c),
     ic_DefaultRetentionDays = (if ic_DefaultRetentionDays c \<le> 0 then 90 else ic_DefaultRetentionDays c),
     ic_Pool = (if ic_Pool c = [] then ''default'' else ic_Pool c)\<rparr>"

record IngestInput =
  ii_OrgID :: string
  ii_AppIDOrUID :: string
  ii_EventType :: string
  ii_EventID :: "string option"
  ii_Payload :: bytes
  ii_Channels :: "string list"
  ii_RetentionDays :: "int option"

record IngestResult =
  ir_Message :: Message
  ir_MatchedEndpoints :: nat
  ir_Payload :: bytes

text \<open>The use case with its dependencies, and the clock, the identifiers and the JSON check it uses.\<close>

record IngestUseCase =
  iu_cfg :: IngestConfig
  iu_resolver :: appResolver
  iu_codec :: Codec
  iu_pg :: pgenv
  iu_now :: time
  iu_ksuid :: ksuid
  iu_validJSON :: "bytes \<Rightarrow> bool"

definition validate :: "IngestUseCase \<Rightarrow> IngestInput \<Rightarrow> AppError option" where
  "validate uc inp =
    (if IsBlank (ii_EventType inp) then Some (NewValidationError ''eventType is required'')
     else if int (length (ii_Payload inp)) > ic_MaxPayloadBytes (iu_cfg uc) then Some (NewPayloadTooLargeError ''payload exceeds the maximum size'')
     else if ii_Payload inp = [] then Some (NewValidationError ''payload is required'')
     else if \<not> iu_validJSON uc (ii_Payload inp) then Some (NewValidationError ''payload must be well-formed JSON'')
     else if (case ii_RetentionDays inp of None \<Rightarrow> False | Some n \<Rightarrow> n \<le> 0 \<or> n > 365)
       then Some (NewValidationError ''payloadRetentionPeriod must be between 1 and 365 days'')
     else None)"

definition new_message :: "IngestUseCase \<Rightarrow> IngestInput \<Rightarrow> AppRef \<Rightarrow> string \<Rightarrow> time \<Rightarrow> Message" where
  "new_message uc inp app msgID createdAt =
    \<lparr>msg_ID = msgID, msg_CreatedAt = createdAt, msg_OrgID = ref_OrgID app, msg_AppID = ref_ID app, msg_EventType = ii_EventType inp,
     msg_UID = ii_EventID inp, msg_Channels = ii_Channels inp, msg_Payload = Codec_Encode (iu_codec uc) (ii_Payload inp),
     msg_PayloadSize = int (length (ii_Payload inp)),
     msg_ExpiresAt = createdAt + Deref (ii_RetentionDays inp) (ic_DefaultRetentionDays (iu_cfg uc)) * (24 * Hour), msg_DeletedAt = None\<rparr>"

definition ingest_task :: "IngestUseCase \<Rightarrow> AppRef \<Rightarrow> Message \<Rightarrow> EnqueueTask" where
  "ingest_task uc app msg =
    \<lparr>et_PartitionKey = PartitionKeyFor (ref_ID app), et_Pool = ic_Pool (iu_cfg uc), et_Kind = TaskFanout, et_TaskOrgID = ref_OrgID app,
     et_AppID = ref_ID app, et_MsgID = msg_ID msg, et_MsgCreatedAt = msg_CreatedAt msg, et_EndpointID = None, et_Attempt = 0,
     et_TriggerType = TriggerScheduled, et_VisibleAt = iu_now uc\<rparr>"

definition ingest_tx :: "IngestUseCase \<Rightarrow> AppRef \<Rightarrow> Message \<Rightarrow> mdb \<Rightarrow> repo_error option \<times> mdb" where
  "ingest_tx uc app msg = md_WithinTransaction (\<lambda>d. case CreateMessage msg d of
     (Some e, d) \<Rightarrow> (Some e, d)
   | (None, d) \<Rightarrow> on_queue (Enqueue (iu_now uc) [ingest_task uc app msg]) d)"

text \<open>The state is the configuration database and the message database.\<close>

definition Ingest :: "IngestUseCase \<Rightarrow> IngestInput \<Rightarrow> cfgdb \<times> mdb \<Rightarrow> (AppError + IngestResult) \<times> cfgdb \<times> mdb" where
  "Ingest uc inp s = (case s of (c, d) \<Rightarrow> (case resolve (iu_pg uc) (iu_resolver uc) (ii_OrgID inp) (ii_AppIDOrUID inp) c of
      (Inl e, _, c) \<Rightarrow> (Inl e, c, d)
    | (Inr app, _, c) \<Rightarrow> (case validate uc inp of
        Some e \<Rightarrow> (Inl e, c, d)
      | None \<Rightarrow> (case NewAt (iu_ksuid uc) ''msg'' (iu_now uc) of
          None \<Rightarrow> (Inl (NewInternalError ''generate ksuid''), c, d)
        | Some msgID \<Rightarrow> (case TimeOf (iu_ksuid uc) msgID of
            None \<Rightarrow> (Inl (NewInternalError ''malformed identifier''), c, d)
          | Some createdAt \<Rightarrow>
             (let msg = new_message uc inp app msgID createdAt;
                  matched = (case rs_snapshot (iu_resolver uc) of
                    None \<Rightarrow> [] | Some s \<Rightarrow> MatchingEndpoints s (ref_ID app) (ii_EventType inp) (ii_Channels inp)) in
              case ingest_tx uc app msg d of
                (Some e, d) \<Rightarrow> (Inl (conflict_or_internal ''a message with this eventId already exists'' e), c, d)
              | (None, d) \<Rightarrow> (Inr \<lparr>ir_Message = msg, ir_MatchedEndpoints = length matched, ir_Payload = ii_Payload inp\<rparr>,
                    c, snd (on_queue (Notify (PartitionKeyFor (ref_ID app))) d))))))))"

definition IngestUseCase_LoadPayload :: "IngestUseCase \<Rightarrow> string \<Rightarrow> time \<Rightarrow> mdb \<Rightarrow> (AppError + bytes) \<times> mdb" where
  "IngestUseCase_LoadPayload uc msgID createdAt d = (case GetPayload msgID createdAt d of
      (Inl e, d) \<Rightarrow> (Inl (not_found_or_internal ''message'' e), d)
    | (Inr stored, d) \<Rightarrow> (case Codec_Decode (iu_codec uc) stored of
        Inl _ \<Rightarrow> (Inl (NewInternalError ''decode payload''), d) | Inr raw \<Rightarrow> (Inr raw, d)))"

section \<open>message_usecase.go\<close>

definition MessageUseCase_GetMessage ::
  "pgenv \<Rightarrow> ksuid \<Rightarrow> appResolver \<Rightarrow> string \<Rightarrow> string \<Rightarrow> string \<Rightarrow> cfgdb \<times> mdb \<Rightarrow> (AppError + Message) \<times> cfgdb \<times> mdb" where
  "MessageUseCase_GetMessage env k r orgID appIDOrUID msgID s = (case s of (c, d) \<Rightarrow> (case resolve env r orgID appIDOrUID c of
      (Inl e, _, c) \<Rightarrow> (Inl e, c, d)
    | (Inr app, _, c) \<Rightarrow>
       (let f = no_message_filters\<lparr>mf_AppID := Eq (ref_ID app), mf_ID := Eq msgID\<rparr>;
            f = (case TimeOf k msgID of None \<Rightarrow> f | Some createdAt \<Rightarrow> f\<lparr>mf_CreatedAt := day_window createdAt\<rparr>) in
        case MessageRepo_GetMessage env f d of
          (Inl e, d) \<Rightarrow> (Inl (not_found_or_internal ''message'' e), c, d)
        | (Inr msg, d) \<Rightarrow> (Inr msg, c, d))))"

record ListMessagesInput =
  lm_OrgID :: string
  lm_AppIDOrUID :: string
  lm_EventTypes :: "string list"
  lm_Channel :: "string option"
  lm_Before :: "time option"
  lm_After :: "time option"
  lm_Page :: CursorPagination

definition ListMessages ::
  "pgenv \<Rightarrow> (time \<Rightarrow> string) \<Rightarrow> (string \<Rightarrow> time option) \<Rightarrow> appResolver \<Rightarrow> ListMessagesInput \<Rightarrow> cfgdb \<times> mdb \<Rightarrow> (AppError + Message CursorResult) \<times> cfgdb \<times> mdb" where
  "ListMessages env fmt parse r inp s = (case s of (c, d) \<Rightarrow> (case resolve env r (lm_OrgID inp) (lm_AppIDOrUID inp) c of
      (Inl e, _, c) \<Rightarrow> (Inl e, c, d)
    | (Inr app, _, c) \<Rightarrow>
       (let f = no_message_filters\<lparr>mf_AppID := Eq (ref_ID app), mf_Channel := lm_Channel inp\<rparr>;
            f = (if lm_EventTypes inp \<noteq> [] then f\<lparr>mf_EventType := AnyOf (lm_EventTypes inp)\<rparr> else f);
            f = (if lm_Before inp \<noteq> None \<or> lm_After inp \<noteq> None
                 then f\<lparr>mf_CreatedAt := Some (no_filter\<lparr>f_LT := lm_Before inp, f_GTE := lm_After inp\<rparr>)\<rparr> else f) in
        case MessageRepo_GetMessages env fmt parse f (lm_Page inp) d of
          (Inl e, d) \<Rightarrow> (Inl (Internal e), c, d)
        | (Inr page, d) \<Rightarrow> (Inr page, c, d))))"

section \<open>Accepting a message is atomic\<close>

lemma md_exec_frame:
  assumes "md_exec d = (ok, d')"
  shows "md_msgs d' = md_msgs d" "pg_look (md_queue d') = pg_look (md_queue d)" "pg_inv (md_queue d) \<Longrightarrow> pg_inv (md_queue d')"
    "pg_faults (md_queue d) = [] \<Longrightarrow> ok \<and> d' = d"
  using assms by (auto simp: md_exec_def pg_exec_def pg_look_def pg_inv_def split: list.splits)

lemma ingest_tx_err:
  assumes "ingest_tx uc app msg d = (Some e, d')"
  shows "md_msgs d' = md_msgs d \<and> pg_look (md_queue d') = pg_look (md_queue d)"
  using assms by (auto simp: ingest_tx_def md_WithinTransaction_def md_rollback_def md_exec_frame split: prod.splits option.splits bool.splits)

lemma ingest_tx_ok:
  assumes "ingest_tx uc app msg d = (None, d')" and "pg_inv (md_queue d)"
  shows "pg_inv (md_queue d')" and "md_msgs d' = md_msgs d @ [msg\<lparr>msg_DeletedAt := None\<rparr>]"
    and "\<exists>task. enqueued_as task (ingest_task uc app msg) \<and> task_ID task \<notin> dom (pg_look (md_queue d)) \<and>
      pg_look (md_queue d') = (pg_look (md_queue d))(task_ID task \<mapsto> task)"
proof -
  obtain d1 where d1: "md_exec d = (True, d1)"
    using assms(1) by (auto simp: ingest_tx_def md_WithinTransaction_def split: prod.splits option.splits bool.splits)
  obtain d2 where d2: "CreateMessage msg d1 = (None, d2)"
    using assms(1) d1 by (auto simp: ingest_tx_def md_WithinTransaction_def split: prod.splits option.splits bool.splits)
  obtain d3 where d3: "on_queue (Enqueue (iu_now uc) [ingest_task uc app msg]) d2 = (None, d3)" "md_exec d3 = (True, d')"
    using assms(1) d1 d2 by (auto simp: ingest_tx_def md_WithinTransaction_def split: prod.splits option.splits bool.splits)
  have m: "md_msgs d2 = md_msgs d @ [msg\<lparr>msg_DeletedAt := None\<rparr>]" "pg_look (md_queue d2) = pg_look (md_queue d)" "pg_inv (md_queue d2)"
    using d2 md_exec_frame [OF d1] assms(2) by (auto simp: CreateMessage_def md_exec_frame split: prod.splits bool.splits if_splits)
  obtain q where q: "Enqueue (iu_now uc) [ingest_task uc app msg] (md_queue d2) = (None, q)" "d3 = d2\<lparr>md_queue := q\<rparr>"
    using d3(1) by (auto simp: on_queue_def split: prod.splits)
  note e = md_exec_frame [OF d3(2)]
  show "pg_inv (md_queue d')" using e(3) q pg_inv_Enqueue [OF m(3), of "iu_now uc" "[ingest_task uc app msg]"] by simp
  show "md_msgs d' = md_msgs d @ [msg\<lparr>msg_DeletedAt := None\<rparr>]" using e(1) q(2) m(1) by simp
  obtain rows where rows: "list_all2 enqueued_as rows [ingest_task uc app msg]" "set (map task_ID rows) \<inter> dom (pg_look (md_queue d2)) = {}"
      "pg_look q = pg_look (md_queue d2) ++ map_of (map (\<lambda>t. (task_ID t, t)) rows)"
    using Enqueue_contract [OF m(3), of "iu_now uc" "[ingest_task uc app msg]"] q(1) by auto
  then obtain task where "rows = [task]" "enqueued_as task (ingest_task uc app msg)" by (auto simp: list_all2_Cons2)
  with rows e(2) q(2) m(2) show "\<exists>task. enqueued_as task (ingest_task uc app msg) \<and> task_ID task \<notin> dom (pg_look (md_queue d)) \<and>
      pg_look (md_queue d') = (pg_look (md_queue d))(task_ID task \<mapsto> task)" by (intro exI [of _ task]) simp
qed

lemma Ingest_cases:
  assumes "Ingest uc inp (c, d) = (res, c', d')"
  obtains (rejected) e where "res = Inl e" "d' = d"
    | (failed) e app msgID createdAt e' where "res = Inl e" "ingest_tx uc app (new_message uc inp app msgID createdAt) d = (Some e', d')"
    | (accepted) app n msgID createdAt d1 r where "res = Inr r" "resolve (iu_pg uc) (iu_resolver uc) (ii_OrgID inp) (ii_AppIDOrUID inp) c = (Inr app, n, c')"
        "validate uc inp = None" "NewAt (iu_ksuid uc) ''msg'' (iu_now uc) = Some msgID" "TimeOf (iu_ksuid uc) msgID = Some createdAt"
        "ir_Message r = new_message uc inp app msgID createdAt" "ir_Payload r = ii_Payload inp"
        "ingest_tx uc app (ir_Message r) d = (None, d1)" "d' = snd (on_queue (Notify (PartitionKeyFor (ref_ID app))) d1)"
  using assms by (auto simp: Ingest_def Let_def split: prod.splits sum.splits option.splits)

lemma notify_frame:
  "md_msgs (snd (on_queue (Notify p) d)) = md_msgs d" "pg_look (md_queue (snd (on_queue (Notify p) d))) = pg_look (md_queue d)"
  using look_Notify [of p "md_queue d"] by (auto simp: on_queue_def split: prod.splits)

text \<open>
  C2: a message is accepted entirely or not at all. Whatever statement of the transaction fails, and
  for every input: when a request is refused, the message table and the queue are as before; when it is
  accepted, the message is stored, as a new row, together with exactly one new queue row, a fan-out
  task of that message, unlocked, in the partition of the application, and the queue's other rows are
  as they were. The application is the one the tenant's identifier resolves to.
\<close>
theorem ingest_atomic:
  assumes "Ingest uc inp (c, d) = (res, c', d')" and "pg_inv (md_queue d)"
  shows "case res of
      Inl e \<Rightarrow> md_msgs d' = md_msgs d \<and> pg_look (md_queue d') = pg_look (md_queue d)
    | Inr r \<Rightarrow> md_msgs d' = md_msgs d @ [ir_Message r] \<and> ir_Payload r = ii_Payload inp \<and>
        (\<exists>app n task. resolve (iu_pg uc) (iu_resolver uc) (ii_OrgID inp) (ii_AppIDOrUID inp) c = (Inr app, n, c') \<and>
           msg_AppID (ir_Message r) = ref_ID app \<and> msg_OrgID (ir_Message r) = ref_OrgID app \<and>
           pg_look (md_queue d') = (pg_look (md_queue d))(task_ID task \<mapsto> task) \<and> task_ID task \<notin> dom (pg_look (md_queue d)) \<and>
           task_Kind task = TaskFanout \<and> task_MsgID task = msg_ID (ir_Message r) \<and> task_MsgCreatedAt task = msg_CreatedAt (ir_Message r) \<and>
           task_AppID task = ref_ID app \<and> task_PartitionKey task = PartitionKeyFor (ref_ID app) \<and>
           task_LockedUntil task = None \<and> task_Attempt task = 0)"
  using assms(1)
proof (cases rule: Ingest_cases)
  case (accepted app n msgID createdAt d1 r)
  note tx = ingest_tx_ok [OF accepted(8) assms(2)]
  have same: "(ir_Message r)\<lparr>msg_DeletedAt := None\<rparr> = ir_Message r" by (simp add: accepted(6) new_message_def)
  have f: "msg_AppID (ir_Message r) = ref_ID app" "msg_OrgID (ir_Message r) = ref_OrgID app" by (simp_all add: accepted(6) new_message_def)
  from tx(3) obtain task where "enqueued_as task (ingest_task uc app (ir_Message r))" "task_ID task \<notin> dom (pg_look (md_queue d))"
      "pg_look (md_queue d1) = (pg_look (md_queue d))(task_ID task \<mapsto> task)" by blast
  then have "\<exists>task. pg_look (md_queue d') = (pg_look (md_queue d))(task_ID task \<mapsto> task) \<and> task_ID task \<notin> dom (pg_look (md_queue d)) \<and>
      task_Kind task = TaskFanout \<and> task_MsgID task = msg_ID (ir_Message r) \<and> task_MsgCreatedAt task = msg_CreatedAt (ir_Message r) \<and>
      task_AppID task = ref_ID app \<and> task_PartitionKey task = PartitionKeyFor (ref_ID app) \<and> task_LockedUntil task = None \<and> task_Attempt task = 0"
    by (intro exI [of _ task]) (simp add: accepted(9) notify_frame enqueued_as_def ingest_task_def)
  with accepted(1,2,7) f tx(2) same show ?thesis by (simp add: accepted(9) notify_frame)
qed (auto dest: ingest_tx_err)

lemma Clause_day [simp]: "Clause (ApplyFilter il (day_window t) col b) m \<longleftrightarrow> Clause b m \<and> (\<exists>x. col m = Some x \<and> day_of t \<le> x \<and> x < day_of t + 24 * Hour)"
  by (auto simp: ApplyFilter_def day_window_def no_filter_def Filter_IsZero_def Let_def where_opt_def)

lemma find_fresh: "\<forall>x\<in>set xs. \<not> P x \<Longrightarrow> P y \<Longrightarrow> find P (xs @ [y]) = Some y"
  by (induction xs) auto

lemma day_of_bounds: "day_of t \<le> t \<and> t < day_of t + 24 * Hour"
  by (simp add: day_of_def)


section \<open>A small tenant\<close>

definition demo_ksuid :: ksuid where
  "demo_ksuid = \<lparr>ks_new = ''k'', ks_newAt = (\<lambda>_. Some ''k1''), ks_time = (\<lambda>b. if b = ''k1'' then Some (5 * Second) else None)\<rparr>"

definition demo_ingest :: IngestUseCase where
  "demo_ingest = \<lparr>iu_cfg = ingest_defaults \<lparr>ic_MaxPayloadBytes = 0, ic_DefaultRetentionDays = 0, ic_Pool = []\<rparr>,
     iu_resolver = \<lparr>rs_snapshot = None, rs_appRepo = True, rs_invalidator = True\<rparr>, iu_codec = NewCodec (\<lambda>b. b) Some 0,
     iu_pg = demo_pgenv, iu_now = 5 * Second + 7, iu_ksuid = demo_ksuid, iu_validJSON = (\<lambda>_. True)\<rparr>"

definition demo_input :: IngestInput where
  "demo_input = \<lparr>ii_OrgID = ''org_1'', ii_AppIDOrUID = ''billing'', ii_EventType = ''invoice.paid'', ii_EventID = None,
     ii_Payload = bytes_of ''{}'', ii_Channels = [], ii_RetentionDays = None\<rparr>"

definition demo_mdb :: mdb where
  "demo_mdb = \<lparr>md_msgs = [], md_queue = \<lparr>pg_rows = [], pg_seq = 1, pg_now = 9, pg_busy = [], pg_faults = [], pg_notified = []\<rparr>\<rparr>"

definition demo_ingested :: mdb where
  "demo_ingested = snd (snd (Ingest demo_ingest demo_input (demo_cfg\<lparr>db_apps := [demo_app]\<rparr>, demo_mdb)))"

definition demo_result :: IngestResult where
  "demo_result = \<lparr>ir_Message = new_message demo_ingest demo_input \<lparr>ref_ID = ''app_1'', ref_OrgID = ''org_1''\<rparr> ''msg_k1'' (5 * Second),
     ir_MatchedEndpoints = 0, ir_Payload = bytes_of ''{}''\<rparr>"

lemma demo_ingest_run:
  "Ingest demo_ingest demo_input (demo_cfg\<lparr>db_apps := [demo_app]\<rparr>, demo_mdb) =
     (Inr demo_result, fst (snd (Ingest demo_ingest demo_input (demo_cfg\<lparr>db_apps := [demo_app]\<rparr>, demo_mdb))), demo_ingested)"
proof -
  have "fst (Ingest demo_ingest demo_input (demo_cfg\<lparr>db_apps := [demo_app]\<rparr>, demo_mdb)) = Inr demo_result" by code_simp
  then show ?thesis unfolding demo_ingested_def by (metis prod.collapse)
qed

lemma demo_mdb_inv: "pg_inv (md_queue demo_mdb)" "md_msgs demo_mdb = []" "pg_look (md_queue demo_mdb) = Map.empty"
  by (simp_all add: demo_mdb_def pg_inv_def pg_look_def)

theorem ingest_atomic_witness:
  "md_msgs demo_ingested = [ir_Message demo_result] \<and>
   (\<exists>task. pg_look (md_queue demo_ingested) = [task_ID task \<mapsto> task] \<and> task_Kind task = TaskFanout \<and> task_MsgID task = ''msg_k1'')"
proof -
  have i: "msg_ID (ir_Message demo_result) = ''msg_k1''" by (simp add: demo_result_def new_message_def)
  show ?thesis using ingest_atomic [OF demo_ingest_run demo_mdb_inv(1)] by (auto simp: demo_mdb_inv i)
qed


text \<open>
  The deduplication key is checked by an index that includes the creation time, which a message takes
  from its id with a resolution of one second: the same key in another second is no conflict.
\<close>

lemma dedup_same_second_only:
  "msg_ID m \<noteq> msg_ID m' \<Longrightarrow> msg_CreatedAt m \<noteq> msg_CreatedAt m' \<Longrightarrow> \<not> message_conflict m m'"
  by (simp add: message_conflict_def)

end
