(* ===== verification/Delivery_HTTP.thy ===== *)
theory Delivery_HTTP
  imports Ports Retry_Policy
begin

text \<open>
  \<^verbatim>\<open>internal/adapters/outbound/deliveryhttp\<close>: the guard against requests to internal addresses
  (\<^verbatim>\<open>ssrf.go\<close>), the resolver cache (\<^verbatim>\<open>dnscache.go\<close>), the dialer that connects only to addresses it has checked
  (\<^verbatim>\<open>dialer.go\<close>) and the delivery client (\<^verbatim>\<open>client.go\<close>). Addresses of \<^verbatim>\<open>net/netip\<close> are words with an optional
  zone; parsing them, the resolver, the connections and \<^verbatim>\<open>net/http\<close> are parameters.
\<close>

section \<open>net/netip\<close>

datatype Addr = NoAddr | V4 "32 word" | V6 "128 word" string

datatype Prefix = Prefix4 "32 word" nat | Prefix6 "128 word" nat

text \<open>A prefix holds the addresses of its family that agree with it on its bits; never one with a zone.\<close>

fun Contains :: "Prefix \<Rightarrow> Addr \<Rightarrow> bool" where
  "Contains (Prefix4 net n) (V4 w) \<longleftrightarrow> drop_bit (32 - n) w = drop_bit (32 - n) net"
| "Contains (Prefix6 net n) (V6 w zone) \<longleftrightarrow> zone = [] \<and> drop_bit (128 - n) w = drop_bit (128 - n) net"
| "Contains _ _ \<longleftrightarrow> False"

fun Is4In6 :: "Addr \<Rightarrow> bool" where
  "Is4In6 (V6 w _) \<longleftrightarrow> drop_bit 32 w = 0xFFFF"
| "Is4In6 _ \<longleftrightarrow> False"

fun Unmap :: "Addr \<Rightarrow> Addr" where
  "Unmap (V6 w zone) = (if drop_bit 32 w = 0xFFFF then V4 (ucast w) else V6 w zone)"
| "Unmap a = a"

fun IsLoopback :: "Addr \<Rightarrow> bool" where
  "IsLoopback (V4 w) \<longleftrightarrow> drop_bit 24 w = 127"
| "IsLoopback (V6 w _) \<longleftrightarrow> w = 1"
| "IsLoopback NoAddr \<longleftrightarrow> False"

fun IsMulticast :: "Addr \<Rightarrow> bool" where
  "IsMulticast (V4 w) \<longleftrightarrow> drop_bit 28 w = 0xE"
| "IsMulticast (V6 w _) \<longleftrightarrow> drop_bit 120 w = 0xFF"
| "IsMulticast NoAddr \<longleftrightarrow> False"

fun IsLinkLocalUnicast :: "Addr \<Rightarrow> bool" where
  "IsLinkLocalUnicast (V4 w) \<longleftrightarrow> drop_bit 16 w = 0xA9FE"
| "IsLinkLocalUnicast (V6 w _) \<longleftrightarrow> drop_bit 118 w = 0x3FA"
| "IsLinkLocalUnicast NoAddr \<longleftrightarrow> False"

fun IsLinkLocalMulticast :: "Addr \<Rightarrow> bool" where
  "IsLinkLocalMulticast (V4 w) \<longleftrightarrow> drop_bit 8 w = 0xE00000"
| "IsLinkLocalMulticast (V6 w _) \<longleftrightarrow> drop_bit 112 w AND 0xFF0F = 0xFF02"
| "IsLinkLocalMulticast NoAddr \<longleftrightarrow> False"

fun IsInterfaceLocalMulticast :: "Addr \<Rightarrow> bool" where
  "IsInterfaceLocalMulticast (V6 w _) \<longleftrightarrow> drop_bit 112 w AND 0xFF0F = 0xFF01"
| "IsInterfaceLocalMulticast _ \<longleftrightarrow> False"

fun IsUnspecified :: "Addr \<Rightarrow> bool" where
  "IsUnspecified (V4 w) \<longleftrightarrow> w = 0"
| "IsUnspecified (V6 w zone) \<longleftrightarrow> w = 0 \<and> zone = []"
| "IsUnspecified NoAddr \<longleftrightarrow> False"

section \<open>ssrf.go\<close>

definition blockedPrefixes :: "Prefix list" where
  "blockedPrefixes =
    [Prefix4 0x00000000 8, Prefix4 0x0A000000 8, Prefix4 0x64400000 10, Prefix4 0x7F000000 8, Prefix4 0xA9FE0000 16,
     Prefix4 0xAC100000 12, Prefix4 0xC0000000 24, Prefix4 0xC0000200 24, Prefix4 0xC0A80000 16, Prefix4 0xC6120000 15,
     Prefix4 0xC6336400 24, Prefix4 0xCB007100 24, Prefix4 0xE0000000 4, Prefix4 0xF0000000 4, Prefix4 0xFFFFFFFF 32,
     Prefix6 0 128, Prefix6 1 128, Prefix6 0x0064FF9B000000000000000000000000 96, Prefix6 0x01000000000000000000000000000000 64,
     Prefix6 0x20010DB8000000000000000000000000 32, Prefix6 0xFC000000000000000000000000000000 7,
     Prefix6 0xFE800000000000000000000000000000 10, Prefix6 0xFF000000000000000000000000000000 8]"

record Guard =
  gd_allowed :: "Prefix list"
  gd_allowAll :: bool

fun parse_subnets :: "(string \<Rightarrow> Prefix option) \<Rightarrow> string list \<Rightarrow> Prefix list \<Rightarrow> Prefix list option" where
  "parse_subnets parse [] acc = Some acc"
| "parse_subnets parse (raw # rest) acc = (case parse raw of None \<Rightarrow> None | Some p \<Rightarrow> parse_subnets parse rest (acc @ [p]))"

definition NewGuard :: "(string \<Rightarrow> Prefix option) \<Rightarrow> string list \<Rightarrow> bool \<Rightarrow> Guard option" where
  "NewGuard parse allowSubnets allowPrivate =
     map_option (\<lambda>ps. \<lparr>gd_allowed = ps, gd_allowAll = allowPrivate\<rparr>) (parse_subnets parse allowSubnets [])"

definition Guard_Allow :: "Guard \<Rightarrow> Addr \<Rightarrow> bool" where
  "Guard_Allow g addr =
    (if gd_allowAll g then True
     else if addr = NoAddr then False
     else
       (let addr = (if Is4In6 addr then Unmap addr else addr) in
        if list_ex (\<lambda>p. Contains p addr) (gd_allowed g) then True
        else if IsLoopback addr \<or> IsLinkLocalUnicast addr \<or> IsLinkLocalMulticast addr \<or> IsInterfaceLocalMulticast addr \<or>
                IsMulticast addr \<or> IsUnspecified addr then False
        else \<not> list_ex (\<lambda>p. Contains p addr) blockedPrefixes))"

text \<open>\<^verbatim>\<open>netip.AddrFromSlice\<close> on a \<^verbatim>\<open>net.IP\<close>: 4 or 16 bytes, no zone.\<close>

definition AddrFromSlice :: "bytes \<Rightarrow> Addr option" where
  "AddrFromSlice ip = (if length ip = 4 then Some (V4 (word_rcat ip)) else if length ip = 16 then Some (V6 (word_rcat ip) []) else None)"

definition AllowIP :: "Guard \<Rightarrow> bytes \<Rightarrow> bool" where
  "AllowIP g ip = (case AddrFromSlice ip of None \<Rightarrow> False | Some addr \<Rightarrow> Guard_Allow g addr)"

definition Guard_Filter :: "Guard \<Rightarrow> Addr list \<Rightarrow> Addr list" where
  "Guard_Filter g addrs = filter (Guard_Allow g) addrs"

section \<open>dnscache.go\<close>

record dnsEntry =
  de_addrs :: "Addr list"
  de_err :: "string option"
  de_expiresAt :: time

record DNSCache =
  dc_ttl :: duration
  dc_negTTL :: duration
  dc_entries :: "string \<rightharpoonup> dnsEntry"
  dc_hits :: nat
  dc_misses :: nat

definition NewDNSCache :: "duration \<Rightarrow> duration \<Rightarrow> DNSCache" where
  "NewDNSCache ttl negTTL = \<lparr>dc_ttl = (if ttl \<le> 0 then 30 * Second else ttl), dc_negTTL = (if negTTL \<le> 0 then 5 * Second else negTTL),
     dc_entries = Map.empty, dc_hits = 0, dc_misses = 0\<rparr>"

definition dns_refresh :: "time \<Rightarrow> Addr list \<times> string option \<Rightarrow> string \<Rightarrow> DNSCache \<Rightarrow> (Addr list \<times> string option) \<times> DNSCache" where
  "dns_refresh now ans host c = (case ans of (addrs, err) \<Rightarrow>
     (ans, c\<lparr>dc_misses := dc_misses c + 1,
            dc_entries := (dc_entries c)(host \<mapsto> \<lparr>de_addrs = addrs, de_err = err,
              de_expiresAt = now + (if err \<noteq> None then dc_negTTL c else dc_ttl c)\<rparr>)\<rparr>))"

text \<open>\<open>parse\<close> is \<^verbatim>\<open>netip.ParseAddr\<close>; \<open>answer\<close> is what the resolver would say now, with its error.\<close>

definition DNSCache_Lookup ::
  "(string \<Rightarrow> Addr option) \<Rightarrow> time \<Rightarrow> (string \<Rightarrow> Addr list \<times> string option) \<Rightarrow> string \<Rightarrow> DNSCache \<Rightarrow> (Addr list \<times> string option) \<times> DNSCache" where
  "DNSCache_Lookup parse now answer host c = (case parse host of
      Some addr \<Rightarrow> (([addr], None), c)
    | None \<Rightarrow>
       (case dc_entries c host of
          Some e \<Rightarrow> if now < de_expiresAt e then ((de_addrs e, de_err e), c\<lparr>dc_hits := dc_hits c + 1\<rparr>)
                    else dns_refresh now (answer host) host c
        | None \<Rightarrow> dns_refresh now (answer host) host c))"

definition DNSCache_Len :: "DNSCache \<Rightarrow> nat" where
  "DNSCache_Len c = card (dom (dc_entries c))"

definition DNSCache_Purge :: "time \<Rightarrow> DNSCache \<Rightarrow> nat \<times> DNSCache" where
  "DNSCache_Purge now c =
    (let stale = {h. \<exists>e. dc_entries c h = Some e \<and> \<not> now < de_expiresAt e} in
     (card stale, c\<lparr>dc_entries := dc_entries c |` (- stale)\<rparr>))"

section \<open>dialer.go\<close>

datatype dial_error = SplitAddress | ResolveError string | ErrBlockedDestination | DialFailed string

text \<open>
  The loop over the checked addresses: the addresses tried, and the outcome. \<open>dial\<close> gives the error of a
  connection, and \<open>ended\<close> whether the context has ended after it.
\<close>

fun dial_loop :: "(Addr \<Rightarrow> string option) \<Rightarrow> (Addr \<Rightarrow> bool) \<Rightarrow> Addr list \<Rightarrow> dial_error option \<Rightarrow> Addr list \<times> (dial_error + Addr)" where
  "dial_loop dial ended [] lastErr = ([], Inl (case lastErr of None \<Rightarrow> ErrBlockedDestination | Some e \<Rightarrow> e))"
| "dial_loop dial ended (a # as) lastErr = (case dial a of
     None \<Rightarrow> ([a], Inr a)
   | Some err \<Rightarrow> if ended a then ([a], Inl (DialFailed err))
                 else (case dial_loop dial ended as (Some (DialFailed err)) of (tried, r) \<Rightarrow> (a # tried, r)))"

definition DialContext ::
  "(string \<Rightarrow> (string \<times> string) option) \<Rightarrow> (string \<Rightarrow> Addr option) \<Rightarrow> time \<Rightarrow> (string \<Rightarrow> Addr list \<times> string option) \<Rightarrow>
   (Addr \<Rightarrow> string option) \<Rightarrow> (Addr \<Rightarrow> bool) \<Rightarrow> Guard \<Rightarrow> string \<Rightarrow> DNSCache \<Rightarrow> Addr list \<times> (dial_error + Addr) \<times> DNSCache" where
  "DialContext splitHostPort parse now answer dial ended g address c = (case splitHostPort address of
      None \<Rightarrow> ([], Inl SplitAddress, c)
    | Some (host, port) \<Rightarrow> (case DNSCache_Lookup parse now answer host c of
        ((addrs, Some err), c) \<Rightarrow> ([], Inl (ResolveError err), c)
      | ((addrs, None), c) \<Rightarrow>
         (let allowed = Guard_Filter g addrs in
          if allowed = [] then ([], Inl ErrBlockedDestination, c)
          else case dial_loop dial ended allowed None of (tried, r) \<Rightarrow> (tried, r, c))))"

section \<open>client.go\<close>

text \<open>What \<^verbatim>\<open>errors.Is\<close> and \<^verbatim>\<open>errors.As\<close> find in the chain of a transport error.\<close>

datatype sys_errno = ECONNREFUSED | EHOSTUNREACH | ENETUNREACH | OtherErrno

record http_error =
  he_text :: string
  he_deadline :: bool
  he_timeouter :: "bool option"
  he_blocked :: bool
  he_dns :: bool
  he_op :: "(sys_errno option \<times> bool) option"

definition isTimeout :: "http_error \<Rightarrow> bool" where
  "isTimeout e \<longleftrightarrow> he_deadline e \<or> he_timeouter e = Some True"

definition isRefused :: "http_error \<Rightarrow> bool" where
  "isRefused e =
    (if he_blocked e then True
     else if he_dns e then True
     else case he_op e of
       None \<Rightarrow> False
     | Some (Some errno, timeout) \<Rightarrow> errno \<in> {ECONNREFUSED, EHOSTUNREACH, ENETUNREACH}
     | Some (None, timeout) \<Rightarrow> \<not> timeout)"

record Client =
  cl_timeout :: duration
  cl_bodyLimit :: int
  cl_userAgent :: string

text \<open>\<open>None\<close> when the guard or the cache is missing.\<close>

definition NewClient :: "bool \<Rightarrow> bool \<Rightarrow> duration \<Rightarrow> int \<Rightarrow> string \<Rightarrow> Client option" where
  "NewClient hasGuard hasCache requestTimeout bodyLimit userAgent =
    (if \<not> hasGuard then None else if \<not> hasCache then None
     else Some \<lparr>cl_timeout = (if requestTimeout \<le> 0 then 30 * Second else requestTimeout),
                cl_bodyLimit = (if bodyLimit \<le> 0 then 8192 else bodyLimit),
                cl_userAgent = (if userAgent = [] then ''huxio/1.0'' else userAgent)\<rparr>)"

text \<open>
  The request handed to \<^verbatim>\<open>net/http\<close>, with its header map under canonical names, and the response: its status,
  its Retry-After header, the bytes of the body that arrived and whether reading them failed.
\<close>

record http_request =
  hq_URL :: string
  hq_Body :: bytes
  hq_Headers :: "string \<rightharpoonup> string"
  hq_Timeout :: duration

record http_response =
  hr_Status :: int
  hr_RetryAfter :: string
  hr_Body :: bytes
  hr_ReadErr :: bool

definition client_request :: "(string \<Rightarrow> string) \<Rightarrow> Client \<Rightarrow> (string \<times> string) list \<Rightarrow> DeliveryRequest \<Rightarrow> http_request" where
  "client_request canonical c headers r =
    \<lparr>hq_URL = req_URL r, hq_Body = req_Body r,
     hq_Headers = fold (\<lambda>(name, value) h. h(canonical name \<mapsto> value)) headers
       [canonical ''content-type'' \<mapsto> ''application/json'', canonical ''user-agent'' \<mapsto> cl_userAgent c],
     hq_Timeout = (if req_Timeout r \<le> 0 then cl_timeout c else req_Timeout r)\<rparr>"

text \<open>
  \<open>headers\<close> lists the request's header map in the order its range visits it; \<open>build\<close> says whether the
  request could be built, \<open>exchange\<close> is \<^verbatim>\<open>http.Client.Do\<close>, with redirects not followed.
\<close>

definition Deliver ::
  "(string \<Rightarrow> string) \<Rightarrow> (string \<Rightarrow> string \<Rightarrow> time option) \<Rightarrow> (http_request \<Rightarrow> string option) \<Rightarrow> (http_request \<Rightarrow> http_error + http_response) \<Rightarrow>
   bool \<Rightarrow> duration \<Rightarrow> time \<Rightarrow> Client \<Rightarrow> (string \<times> string) list \<Rightarrow> DeliveryRequest \<Rightarrow> DeliveryResult" where
  "Deliver canonical parseDate build exchange reused elapsed now c headers r =
    (let empty = \<lparr>res_StatusCode = 0, res_Body = [], res_Duration = 0, res_Err = None, res_Timeout = False, res_Refused = False,
                  res_ConnectionReused = False, res_RetryAfter = None\<rparr>;
         q = client_request canonical c headers r in
     case build q of
       Some err \<Rightarrow> empty\<lparr>res_Err := Some err, res_Refused := True\<rparr>
     | None \<Rightarrow> (case exchange q of
         Inl err \<Rightarrow> empty\<lparr>res_Duration := elapsed, res_Err := Some (he_text err), res_Timeout := isTimeout err, res_Refused := isRefused err,
                         res_ConnectionReused := reused\<rparr>
       | Inr resp \<Rightarrow>
          (let body = take (nat (cl_bodyLimit c)) (hr_Body resp) in
           empty\<lparr>res_StatusCode := hr_Status resp, res_Duration := elapsed, res_ConnectionReused := reused,
                 res_RetryAfter := ParseRetryAfter parseDate (hr_RetryAfter resp) now,
                 res_Body := (if hr_ReadErr resp then Truncate body (cl_bodyLimit c) else body)\<rparr>)))"

section \<open>The guard and the address ranges\<close>

text \<open>
  The special-purpose ranges, as numbers: what must never be reached. An IPv6 address of
  \<^verbatim>\<open>::ffff:0:0/96\<close> stands for the IPv4 address in its low 32 bits.
\<close>

definition quad :: "int \<Rightarrow> int \<Rightarrow> int \<Rightarrow> int \<Rightarrow> int" where
  "quad a b c d = ((a * 256 + b) * 256 + c) * 256 + d"

definition ranges4 :: "(int \<times> int) list" where
  "ranges4 = [(quad 0 0 0 0, quad 0 255 255 255), (quad 10 0 0 0, quad 10 255 255 255), (quad 100 64 0 0, quad 100 127 255 255),
     (quad 127 0 0 0, quad 127 255 255 255), (quad 169 254 0 0, quad 169 254 255 255), (quad 172 16 0 0, quad 172 31 255 255),
     (quad 192 0 0 0, quad 192 0 0 255), (quad 192 0 2 0, quad 192 0 2 255), (quad 192 168 0 0, quad 192 168 255 255),
     (quad 198 18 0 0, quad 198 19 255 255), (quad 198 51 100 0, quad 198 51 100 255), (quad 203 0 113 0, quad 203 0 113 255),
     (quad 224 0 0 0, quad 255 255 255 255)]"

definition ranges6 :: "(int \<times> int) list" where
  "ranges6 = [(0, 1), (0x64FF9B * 2 ^ 96, 0x64FF9B * 2 ^ 96 + 2 ^ 32 - 1), (0x100 * 2 ^ 112, 0x100 * 2 ^ 112 + 2 ^ 64 - 1),
     (0x20010DB8 * 2 ^ 96, 0x20010DB9 * 2 ^ 96 - 1), (0xFC00 * 2 ^ 112, 0xFE00 * 2 ^ 112 - 1), (0xFE80 * 2 ^ 112, 0xFEC0 * 2 ^ 112 - 1),
     (0xFF00 * 2 ^ 112, 2 ^ 128 - 1)]"

definition in_ranges :: "(int \<times> int) list \<Rightarrow> int \<Rightarrow> bool" where
  "in_ranges rs x \<longleftrightarrow> list_ex (\<lambda>(lo, hi). lo \<le> x \<and> x \<le> hi) rs"

fun public :: "Addr \<Rightarrow> bool" where
  "public NoAddr \<longleftrightarrow> False"
| "public (V4 w) \<longleftrightarrow> \<not> in_ranges ranges4 (uint w)"
| "public (V6 w _) \<longleftrightarrow> (if 0xFFFF * 2 ^ 32 \<le> uint w \<and> uint w \<le> 0x10000 * 2 ^ 32 - 1 then \<not> in_ranges ranges4 (uint w - 0xFFFF * 2 ^ 32)
     else \<not> in_ranges ranges6 (uint w))"

fun zone_of :: "Addr \<Rightarrow> string" where
  "zone_of (V6 _ zone) = zone"
| "zone_of _ = []"

lemma drop_bit_interval:
  fixes w c :: "'a::len word"
  shows "drop_bit k w = c \<longleftrightarrow> uint c * 2 ^ k \<le> uint w \<and> uint w \<le> (uint c + 1) * 2 ^ k - 1"
proof -
  have "take_bit LENGTH('a) (uint v) = uint v" for v :: "'a word" by transfer simp
  then have "drop_bit k w = c \<longleftrightarrow> uint w div 2 ^ k = uint c"
    by (subst word_uint_eq_iff) (simp add: unsigned_drop_bit_eq drop_bit_eq_div [where 'a = int])
  moreover have "uint w div 2 ^ k = uint c \<longleftrightarrow> uint c * 2 ^ k \<le> uint w \<and> uint w < (uint c + 1) * 2 ^ k"
  proof
    assume "uint w div 2 ^ k = uint c"
    then show "uint c * 2 ^ k \<le> uint w \<and> uint w < (uint c + 1) * 2 ^ k"
      using div_mult_mod_eq [of "uint w" "2 ^ k"] pos_mod_bound [of "2 ^ k" "uint w"] pos_mod_sign [of "2 ^ k" "uint w"]
      unfolding distrib_right by (simp del: pos_mod_bound pos_mod_sign)
  qed (use int_div_pos_eq [of "uint w" "2 ^ k" "uint c" "uint w - uint c * 2 ^ k"] in \<open>simp add: algebra_simps\<close>)
  ultimately show ?thesis by simp
qed

lemma blocked_V4: "list_ex (\<lambda>p. Contains p (V4 w)) blockedPrefixes \<longleftrightarrow> in_ranges ranges4 (uint w)"
proof -
  have top: "3758096384 \<le> uint w \<and> uint w \<le> 4026531839 \<or> 4026531840 \<le> uint w \<or> w = 4294967295 \<longleftrightarrow> 3758096384 \<le> uint w"
    by (auto simp: linorder_not_le)
  have "uint w \<le> 4294967295" using uint_bounded [of w] by simp
  then show ?thesis
    by (simp add: blockedPrefixes_def drop_bit_interval in_ranges_def ranges4_def quad_def top)
qed

lemma blocked_V6: "list_ex (\<lambda>p. Contains p (V6 w [])) blockedPrefixes \<longleftrightarrow> in_ranges ranges6 (uint w)"
proof -
  have "uint w \<le> 1 \<longleftrightarrow> uint w = 0 \<or> uint w = 1" using uint_ge_0 [of w] by linarith
  then have low: "uint w \<le> 1 \<longleftrightarrow> w = 0 \<or> w = 1" by (simp add: word_uint_eq_iff)
  have "uint w < 2 ^ 128" using uint_bounded [of w] by simp
  then show ?thesis
    by (simp add: blockedPrefixes_def drop_bit_interval in_ranges_def ranges6_def low)
qed

lemma multicast6:
  fixes w :: "128 word"
  assumes "drop_bit 112 w AND 0xFF0F = c" and "drop_bit 8 c = 0xFF"
  shows "drop_bit 120 w = 0xFF"
proof -
  have "drop_bit 120 w AND 0xFF = 0xFF"
    using arg_cong [OF assms(1), of "drop_bit 8"] assms(2) by (simp add: drop_bit_and drop_bit_drop_bit)
  moreover have "drop_bit 120 w AND mask 8 = drop_bit 120 w"
    by (rule bit_word_eqI) (auto simp: bit_simps dest: bit_imp_le_length)
  ultimately show ?thesis by (simp add: mask_eq_exp_minus_1)
qed

lemma special_V4:
  "IsLoopback (V4 w) \<or> IsLinkLocalUnicast (V4 w) \<or> IsLinkLocalMulticast (V4 w) \<or> IsInterfaceLocalMulticast (V4 w) \<or> IsMulticast (V4 w) \<or>
   IsUnspecified (V4 w) \<Longrightarrow> in_ranges ranges4 (uint w)"
  by (elim disjE) (simp_all add: drop_bit_interval in_ranges_def ranges4_def quad_def)

lemma special_V6:
  "IsLoopback (V6 w z) \<or> IsLinkLocalUnicast (V6 w z) \<or> IsLinkLocalMulticast (V6 w z) \<or> IsInterfaceLocalMulticast (V6 w z) \<or>
   IsMulticast (V6 w z) \<or> IsUnspecified (V6 w z) \<Longrightarrow> in_ranges ranges6 (uint w)"
  using multicast6 [of w "0xFF02"] multicast6 [of w "0xFF01"] uint_bounded [of w]
  by (elim disjE) (simp_all add: drop_bit_interval in_ranges_def ranges6_def)

lemma mapped_interval:
  fixes w :: "128 word"
  assumes "drop_bit 32 w = 0xFFFF"
  shows "0xFFFF * 2 ^ 32 \<le> uint w \<and> uint w \<le> 0x10000 * 2 ^ 32 - 1" and "uint (ucast w :: 32 word) = uint w - 0xFFFF * 2 ^ 32"
proof -
  show range: "0xFFFF * 2 ^ 32 \<le> uint w \<and> uint w \<le> 0x10000 * 2 ^ 32 - 1" using assms by (simp add: drop_bit_interval)
  have "uint (ucast w :: 32 word) = uint w mod 2 ^ 32" by (simp add: uint_up_ucast unsigned_ucast_eq take_bit_eq_mod)
  also have "\<dots> = uint w - 0xFFFF * 2 ^ 32" using range by (intro int_mod_pos_eq [of _ _ 65535]) auto
  finally show "uint (ucast w :: 32 word) = uint w - 0xFFFF * 2 ^ 32" .
qed

lemma Guard_Allow_V4:
  assumes "\<not> gd_allowAll g"
  shows "Guard_Allow g (V4 w) \<longleftrightarrow> \<not> in_ranges ranges4 (uint w) \<or> list_ex (\<lambda>p. Contains p (V4 w)) (gd_allowed g)"
  using assms special_V4 [of w] blocked_V4 [of w] by (simp only: Guard_Allow_def Let_def Is4In6.simps Addr.distinct if_False simp_thms) (simp only: split: if_split; blast)

lemma Guard_Allow_V6:
  assumes "\<not> gd_allowAll g" and "drop_bit 32 w \<noteq> 0xFFFF"
  shows "Guard_Allow g (V6 w []) \<longleftrightarrow> \<not> in_ranges ranges6 (uint w) \<or> list_ex (\<lambda>p. Contains p (V6 w [])) (gd_allowed g)"
  using assms special_V6 [of w "[]"] blocked_V6 [of w] by (simp only: Guard_Allow_def Let_def Is4In6.simps Addr.distinct if_False simp_thms) (simp only: split: if_split; blast)

lemma Guard_Allow_exact:
  assumes "\<not> gd_allowAll g" and "zone_of a = []"
  shows "Guard_Allow g a \<longleftrightarrow> public a \<or> list_ex (\<lambda>p. Contains p (Unmap a)) (gd_allowed g)"
proof (cases a)
  case NoAddr
  have "\<not> list_ex (\<lambda>p. Contains p NoAddr) ps" for ps by (induction ps) auto
  then show ?thesis using assms(1) by (simp add: NoAddr Guard_Allow_def)
next
  case (V4 w)
  then show ?thesis using Guard_Allow_V4 [OF assms(1)] by simp
next
  case (V6 w z)
  then have a: "a = V6 w []" using assms(2) by simp
  show ?thesis
  proof (cases "drop_bit 32 w = 0xFFFF")
    case True
    have "Guard_Allow g a \<longleftrightarrow> Guard_Allow g (V4 (ucast w))" using True by (simp add: a Guard_Allow_def)
    then show ?thesis using Guard_Allow_V4 [OF assms(1), of "ucast w"] mapped_interval [OF True] True by (simp add: a)
  next
    case False
    then show ?thesis using Guard_Allow_V6 [OF assms(1) False] by (simp add: a drop_bit_interval) blast
  qed
qed

text \<open>
  C26: The delivery guard lets through exactly the addresses outside the special-purpose ranges, plus those an
  operator allowed: unless everything is allowed, an address with no zone passes iff it is not in one of the
  blocked number ranges (an IPv4 address mapped into IPv6 judged as that IPv4 address) or some allowed subnet
  contains it. The bit tests, the prefix list and the unmapping together leave no gap and block nothing else.
\<close>

theorem guard_exact:
  assumes "\<not> gd_allowAll g" and "zone_of a = []"
  shows "Guard_Allow g a \<longleftrightarrow> public a \<or> list_ex (\<lambda>p. Contains p (Unmap a)) (gd_allowed g)"
  using assms by (rule Guard_Allow_exact)

theorem guard_exact_witness:
  "(Guard_Allow \<lparr>gd_allowed = [Prefix4 0x0A010000 16], gd_allowAll = False\<rparr> (V6 0xFFFF0A010203 []) \<longleftrightarrow>
      public (V6 0xFFFF0A010203 []) \<or> list_ex (\<lambda>p. Contains p (Unmap (V6 0xFFFF0A010203 []))) [Prefix4 0x0A010000 16]) \<and>
   \<not> public (V6 0xFFFF0A010203 []) \<and> public (V4 0x08080808)"
  using guard_exact [of "\<lparr>gd_allowed = [Prefix4 0x0A010000 16], gd_allowAll = False\<rparr>" "V6 0xFFFF0A010203 []"]
  by (simp add: in_ranges_def ranges4_def quad_def)

section \<open>The dialer reaches only what the guard allows\<close>

lemma dial_loop_tried:
  "dial_loop dial ended as e = (tried, r) \<Longrightarrow> set tried \<subseteq> set as \<and> (\<forall>a. r = Inr a \<longrightarrow> a \<in> set tried \<and> dial a = None)"
  by (induction as arbitrary: e tried r) (fastforce split: option.splits if_splits prod.splits)+

lemma dial_loop_connects:
  assumes "a \<in> set as" and "dial a = None" and "\<forall>b \<in> set as. \<not> ended b"
  shows "\<exists>tried b. dial_loop dial ended as e = (tried, Inr b)"
  using assms
proof (induction as arbitrary: e)
  case (Cons b bs)
  show ?case
  proof (cases "dial b")
    case (Some err)
    then have "a \<in> set bs" using Cons.prems by auto
    then obtain t d where "dial_loop dial ended bs (Some (DialFailed err)) = (t, Inr d)" using Cons.IH Cons.prems by (metis list.set_intros(2))
    then show ?thesis using Some Cons.prems by simp
  qed simp
qed simp

text \<open>
  C25: The dialer never opens a connection to an internal address, whatever the resolver answers now and whatever
  its cache holds, so a name that is rebound between the check and the use gains nothing: each address a dial
  tried passed the guard, so with no exception configured each one without a zone is public, and the connection
  made, if any, is one of them. And the guard costs no reachable destination: when the cached or fresh answer
  has a public address that accepts and the context does not end, the dial connects.
\<close>

theorem ssrf_safe_dial:
  assumes "\<not> gd_allowAll g" and "gd_allowed g = []"
    and "DialContext splitHostPort parse now answer dial ended g address c = (tried, r, c')"
  shows "(\<forall>a \<in> set tried. zone_of a = [] \<longrightarrow> public a) \<and> (\<forall>a. r = Inr a \<longrightarrow> a \<in> set tried \<and> dial a = None) \<and>
    (\<forall>host port addrs c'' a. splitHostPort address = Some (host, port) \<and> DNSCache_Lookup parse now answer host c = ((addrs, None), c'') \<and>
       a \<in> set addrs \<and> zone_of a = [] \<and> public a \<and> dial a = None \<and> (\<forall>b \<in> set addrs. \<not> ended b) \<longrightarrow> (\<exists>b. r = Inr b))"
proof (intro conjI)
  have exact: "Guard_Allow g a \<longleftrightarrow> public a" if "zone_of a = []" for a using Guard_Allow_exact [OF assms(1) that] assms(2) by simp
  have run: "tried = [] \<and> (\<exists>e. r = Inl e) \<or> (\<exists>addrs e. dial_loop dial ended (Guard_Filter g addrs) e = (tried, r))"
    using assms(3) by (auto simp: DialContext_def Let_def split: option.splits prod.splits if_splits) 
  then show "\<forall>a \<in> set tried. zone_of a = [] \<longrightarrow> public a"
    using exact by (force simp: Guard_Filter_def dest: dial_loop_tried)
  show "\<forall>a. r = Inr a \<longrightarrow> a \<in> set tried \<and> dial a = None" using run by (auto dest: dial_loop_tried)
  show "\<forall>host port addrs c'' a. splitHostPort address = Some (host, port) \<and> DNSCache_Lookup parse now answer host c = ((addrs, None), c'') \<and>
       a \<in> set addrs \<and> zone_of a = [] \<and> public a \<and> dial a = None \<and> (\<forall>b \<in> set addrs. \<not> ended b) \<longrightarrow> (\<exists>b. r = Inr b)"
  proof (intro allI impI, elim conjE)
    fix host port addrs c'' a
    assume A: "splitHostPort address = Some (host, port)" "DNSCache_Lookup parse now answer host c = ((addrs, None), c'')"
      "a \<in> set addrs" "zone_of a = []" "public a" "dial a = None" "\<forall>b \<in> set addrs. \<not> ended b"
    have a: "a \<in> set (Guard_Filter g addrs)" using exact A by (simp add: Guard_Filter_def)
    obtain t b where "dial_loop dial ended (Guard_Filter g addrs) None = (t, Inr b)"
      using dial_loop_connects [of a "Guard_Filter g addrs" dial ended None] a A(6,7) by (auto simp: Guard_Filter_def)
    then show "\<exists>b. r = Inr b" using assms(3) A(1,2) a by (auto simp: DialContext_def Let_def split: if_splits)
  qed
qed

theorem ssrf_safe_dial_witness:
  "\<exists>r c'. DialContext (\<lambda>s. Some (s, ''443'')) (\<lambda>_. None) 0 (\<lambda>_. ([V4 0x0A000001, V6 1 [], V4 0x08080808], None)) (\<lambda>_. None) (\<lambda>_. False)
       \<lparr>gd_allowed = [], gd_allowAll = False\<rparr> ''hooks.example'' (NewDNSCache 0 0) = ([V4 0x08080808], r, c') \<and>
     r = Inr (V4 0x08080808) \<and> public (V4 0x08080808)"
proof -
  let ?g = "\<lparr>gd_allowed = [], gd_allowAll = False\<rparr>"
  let ?run = "DialContext (\<lambda>s. Some (s, ''443'')) (\<lambda>_. None) 0 (\<lambda>_. ([V4 0x0A000001, V6 1 [], V4 0x08080808], None)) (\<lambda>_. None) (\<lambda>_. False)
       ?g ''hooks.example'' (NewDNSCache 0 0)"
  have allow: "\<not> Guard_Allow ?g (V4 0x0A000001)" "\<not> Guard_Allow ?g (V6 1 [])" "Guard_Allow ?g (V4 0x08080808)"
    by (simp_all add: Guard_Allow_V4 Guard_Allow_V6 in_ranges_def ranges4_def ranges6_def quad_def)
  then have run: "\<exists>c'. ?run = ([V4 0x08080808], Inr (V4 0x08080808), c')"
    by (simp add: DialContext_def DNSCache_Lookup_def dns_refresh_def NewDNSCache_def Guard_Filter_def)
  then obtain c' where c': "?run = ([V4 0x08080808], Inr (V4 0x08080808), c')" ..
  have "public (V4 0x08080808)" using ssrf_safe_dial [OF _ _ c'] by simp
  then show ?thesis using c' by blast
qed

text \<open>
  An address with a zone walks past the guard. The unique-local address \<^verbatim>\<open>fd00::1\<close> is blocked, and the same
  address written with a zone, as a URL may write it, is allowed and dialled: no prefix contains an address
  with a zone. So is the unspecified address \<^verbatim>\<open>::\<close> with a zone, which reaches the worker's own host.
\<close>

theorem zoned_address_bypass:
  "\<not> Guard_Allow \<lparr>gd_allowed = [], gd_allowAll = False\<rparr> (V6 0xFD000000000000000000000000000001 []) \<and>
   Guard_Allow \<lparr>gd_allowed = [], gd_allowAll = False\<rparr> (V6 0xFD000000000000000000000000000001 ''eth0'') \<and>
   \<not> Guard_Allow \<lparr>gd_allowed = [], gd_allowAll = False\<rparr> (V6 0 []) \<and>
   Guard_Allow \<lparr>gd_allowed = [], gd_allowAll = False\<rparr> (V6 0 ''eth0'') \<and>
   fst (DialContext (\<lambda>s. Some (s, ''80'')) (\<lambda>_. Some (V6 0xFD000000000000000000000000000001 ''eth0'')) 0 (\<lambda>_. ([], None)) (\<lambda>_. None) (\<lambda>_. False)
     \<lparr>gd_allowed = [], gd_allowAll = False\<rparr> ''fd00::1%eth0'' (NewDNSCache 0 0)) = [V6 0xFD000000000000000000000000000001 ''eth0'']"
proof -
  let ?g = "\<lparr>gd_allowed = [], gd_allowAll = False\<rparr>"
  have zoned: "\<not> list_ex (\<lambda>p. Contains p (V6 w (c # z))) ps" for w c z ps
  proof (induction ps)
    case (Cons p ps)
    then show ?case by (cases p) auto
  qed simp
  have 1: "\<not> Guard_Allow ?g (V6 0xFD000000000000000000000000000001 [])" "\<not> Guard_Allow ?g (V6 0 [])"
    by (simp_all add: Guard_Allow_V6 in_ranges_def ranges6_def)
  have 2: "Guard_Allow ?g (V6 0xFD000000000000000000000000000001 ''eth0'')" "Guard_Allow ?g (V6 0 ''eth0'')"
    using zoned by (simp_all add: Guard_Allow_def)
  then show ?thesis using 1 by (simp add: DialContext_def DNSCache_Lookup_def Guard_Filter_def)
qed

section \<open>The resolver cache and the client\<close>

text \<open>An answer is used for its lifetime and no longer, errors for the shorter one.\<close>

lemma dns_answer_lifetime:
  fixes t0 :: time
  assumes "parse host = None" and "dc_entries c host = None" and "answer host = (addrs, err)"
  defines "life \<equiv> (if err \<noteq> None then dc_negTTL c else dc_ttl c)" and "c' \<equiv> snd (DNSCache_Lookup parse t0 answer host c)"
  shows "fst (DNSCache_Lookup parse t0 answer host c) = (addrs, err)"
    and "fst (DNSCache_Lookup parse now later host c') = (if now < t0 + life then (addrs, err) else later host)"
  using assms(1-3) unfolding c'_def life_def by (simp_all add: DNSCache_Lookup_def dns_refresh_def split: prod.splits)

lemma DNSCache_Purge_keeps_live:
  "dc_entries (snd (DNSCache_Purge now c)) host = (case dc_entries c host of Some e \<Rightarrow> if now < de_expiresAt e then Some e else None | None \<Rightarrow> None)"
  by (auto simp: DNSCache_Purge_def Let_def restrict_map_def split: option.splits)

text \<open>A purge is invisible to lookups: they answer as they would have.\<close>

lemma DNSCache_Purge_transparent:
  "now \<le> now' \<Longrightarrow> fst (DNSCache_Lookup parse now' answer host (snd (DNSCache_Purge now c))) = fst (DNSCache_Lookup parse now' answer host c)"
  by (auto simp: DNSCache_Lookup_def DNSCache_Purge_keeps_live dns_refresh_def split: option.splits prod.splits)

text \<open>A delivery result carries a status or an error, never both, and no more of the body than the limit.\<close>

lemma Deliver_result:
  assumes "NewClient True True requestTimeout limit userAgent = Some c" and "Deliver canonical parseDate build exchange reused elapsed now c headers r = res"
    and "\<And>q resp. exchange q = Inr resp \<Longrightarrow> 0 < hr_Status resp"
  shows "(res_StatusCode res = 0 \<longleftrightarrow> res_Err res \<noteq> None) \<and> length (res_Body res) \<le> nat (cl_bodyLimit c)"
  using assms(2) assms(3) [of "client_request canonical c headers r"]
  by (auto simp: Deliver_def Let_def Truncate_def split: option.splits sum.splits)

text \<open>Every request has a time limit of its own, and the two default headers unless the caller sets them.\<close>

lemma client_request_timeout:
  "NewClient g h requestTimeout limit userAgent = Some c \<Longrightarrow> 0 < hq_Timeout (client_request canonical c headers r)"
  by (auto simp: NewClient_def client_request_def split: if_splits)

end
