(* ===== verification/Idempotency.thy ===== *)
theory Idempotency
  imports Entities App_Errors
begin

text \<open>
  Replay protection for POST requests: \<^verbatim>\<open>middleware/idempotency.go\<close> over the table \<^verbatim>\<open>idempotency_key\<close>
  (\<^verbatim>\<open>idempotency_repo.go\<close>). A request touches the table in up to two statements with the handler between
  them, so the model is a system of events: requests arrive, look up the record they lost to, finish, crash;
  time passes; expired records are purged. Each statement may fail, with or without its effect. The BLAKE2b
  digest of the key is third-party, a parameter. A specification without lock times follows, and the proof that
  the system refines it as long as handlers end within the lock's lifetime.
\<close>

section \<open>idempotency\_repo.go\<close>

record idemdb =
  ix_rows :: "string \<rightharpoonup> IdempotencyRecord"
  ix_now :: time

text \<open>How a statement ended: done, not done, or done with its answer lost.\<close>

datatype stmt_fault = NoFault | NotDone | AnswerLost

definition new_lock :: "string \<Rightarrow> duration \<Rightarrow> time \<Rightarrow> IdempotencyRecord" where
  "new_lock key lockTTL now = \<lparr>idem_Key = key, idem_Status = IdempotencyInProgress, idem_Response = [], idem_StatusCode = None,
     idem_ExpiresAt = now + lockTTL, idem_CreatedAt = now\<rparr>"

text \<open>The first statement of \<^verbatim>\<open>Begin\<close>: whether a row came back, or an error.\<close>

definition begin_claim :: "stmt_fault \<Rightarrow> string \<Rightarrow> duration \<Rightarrow> idemdb \<Rightarrow> (repo_error + bool) \<times> idemdb" where
  "begin_claim f key lockTTL d =
    (let won = (case ix_rows d key of None \<Rightarrow> True | Some r \<Rightarrow> idem_ExpiresAt r < ix_now d);
         d' = (if won \<and> f \<noteq> NotDone then d\<lparr>ix_rows := (ix_rows d)(key \<mapsto> new_lock key lockTTL (ix_now d))\<rparr> else d) in
     (if f = NoFault then Inr won else Inl (DriverError ''begin idempotent request''), d'))"

definition idem_get :: "stmt_fault \<Rightarrow> string \<Rightarrow> idemdb \<Rightarrow> repo_error + IdempotencyRecord" where
  "idem_get f key d = (if f \<noteq> NoFault then Inl (DriverError ''select idempotency key'')
     else case ix_rows d key of None \<Rightarrow> Inl ErrNotFound | Some r \<Rightarrow> Inr r)"

definition idem_Complete :: "stmt_fault \<Rightarrow> string \<Rightarrow> int \<Rightarrow> bytes \<Rightarrow> duration \<Rightarrow> idemdb \<Rightarrow> repo_error option \<times> idemdb" where
  "idem_Complete f key statusCode response ttl d =
    (let d' = (case ix_rows d key of
           Some r \<Rightarrow> if f = NotDone then d else
             d\<lparr>ix_rows := (ix_rows d)(key \<mapsto> r\<lparr>idem_Status := IdempotencyComplete, idem_StatusCode := Some statusCode, idem_Response := response,
                 idem_ExpiresAt := ix_now d + ttl\<rparr>)\<rparr>
         | None \<Rightarrow> d) in
     (if f \<noteq> NoFault then Some (DriverError ''complete idempotent request'')
      else if ix_rows d key = None then Some ErrNotFound else None, d'))"

definition idem_Abort :: "stmt_fault \<Rightarrow> string \<Rightarrow> idemdb \<Rightarrow> repo_error option \<times> idemdb" where
  "idem_Abort f key d =
    (let d' = (case ix_rows d key of
           Some r \<Rightarrow> if idem_Status r = IdempotencyInProgress \<and> f \<noteq> NotDone then d\<lparr>ix_rows := (ix_rows d)(key := None)\<rparr> else d
         | None \<Rightarrow> d) in
     (if f \<noteq> NoFault then Some (DriverError ''abort idempotent request'') else None, d'))"

definition idem_expired :: "idemdb \<Rightarrow> string \<Rightarrow> bool" where
  "idem_expired d key \<longleftrightarrow> (case ix_rows d key of Some r \<Rightarrow> idem_ExpiresAt r < ix_now d | None \<Rightarrow> False)"

definition PurgeExpired :: "stmt_fault \<Rightarrow> idemdb \<Rightarrow> idemdb" where
  "PurgeExpired f d = (if f = NotDone then d else d\<lparr>ix_rows := (\<lambda>key. if idem_expired d key then None else ix_rows d key)\<rparr>)"

section \<open>idempotency.go\<close>

record IdempotencyOptions =
  io_LockTTL :: duration
  io_ResponseTTL :: duration

definition Idempotency_defaults :: "IdempotencyOptions \<Rightarrow> IdempotencyOptions" where
  "Idempotency_defaults opts = \<lparr>io_LockTTL = (if io_LockTTL opts \<le> 0 then 30 * Second else io_LockTTL opts),
     io_ResponseTTL = (if io_ResponseTTL opts \<le> 0 then 12 * Hour else io_ResponseTTL opts)\<rparr>"

text \<open>The requests the middleware handles; the others go straight to the handler.\<close>

definition Idempotency_applies :: "string \<Rightarrow> string \<Rightarrow> bool" where
  "Idempotency_applies rmethod clientKey \<longleftrightarrow> \<not> (rmethod \<noteq> ''POST'' \<or> clientKey = '''')"

definition hexDigits :: string where "hexDigits = ''0123456789abcdef''"

definition hex_EncodeToString :: "bytes \<Rightarrow> string" where
  "hex_EncodeToString bs = concat (map (\<lambda>b. [hexDigits ! (unat b div 16), hexDigits ! (unat b mod 16)]) bs)"

definition key_material :: "string \<Rightarrow> string \<Rightarrow> string \<Rightarrow> string \<Rightarrow> string" where
  "key_material orgID rmethod path clientKey = orgID @ [CHR 0x00] @ rmethod @ [CHR 0x00] @ path @ [CHR 0x00] @ clientKey"

definition idempotencyKey :: "(bytes \<Rightarrow> bytes) \<Rightarrow> string \<Rightarrow> string \<Rightarrow> string \<Rightarrow> string \<Rightarrow> string" where
  "idempotencyKey sum256 orgID rmethod path clientKey = hex_EncodeToString (sum256 (bytes_of (key_material orgID rmethod path clientKey)))"

text \<open>What the client gets: the handler's answer, a stored one, or an error.\<close>

datatype idem_answer = Handled int bytes | HandlerFailed | Replayed int bytes | Refused AppError

definition replay :: "IdempotencyRecord option \<Rightarrow> idem_answer" where
  "replay record = (case record of
      None \<Rightarrow> Refused (NewConflictError ''a request with this Idempotency-Key is already in progress'')
    | Some r \<Rightarrow> if idem_Status r \<noteq> IdempotencyComplete then Refused (NewConflictError ''a request with this Idempotency-Key is already in progress'')
                else Replayed (Deref (idem_StatusCode r) 200) (idem_Response r))"

text \<open>The response recorder: the calls a handler makes on it, and what it has at the end.\<close>

datatype recorder_op = WriteHeader int | Write bytes

record responseRecorder =
  rr_status :: int
  rr_body :: bytes

definition newResponseRecorder :: responseRecorder where
  "newResponseRecorder = \<lparr>rr_status = 200, rr_body = []\<rparr>"

fun recorder_step :: "recorder_op \<Rightarrow> responseRecorder \<Rightarrow> responseRecorder" where
  "recorder_step (WriteHeader status) r = r\<lparr>rr_status := status\<rparr>"
| "recorder_step (Write b) r = r\<lparr>rr_body := rr_body r @ b\<rparr>"

text \<open>What \<^verbatim>\<open>next(c)\<close> did: the calls on the recorder, and whether it returned an error.\<close>

record handler_run =
  hd_ops :: "recorder_op list"
  hd_err :: bool

definition recorded :: "handler_run \<Rightarrow> responseRecorder" where
  "recorded h = fold recorder_step (hd_ops h) newResponseRecorder"

definition worth_replaying :: "handler_run \<Rightarrow> bool" where
  "worth_replaying h \<longleftrightarrow> \<not> (hd_err h \<or> 500 \<le> rr_status (recorded h))"

text \<open>The middleware after the handler: the table, and the answer.\<close>

definition after_handler :: "stmt_fault \<Rightarrow> IdempotencyOptions \<Rightarrow> string \<Rightarrow> handler_run \<Rightarrow> idemdb \<Rightarrow> idem_answer \<times> idemdb" where
  "after_handler f opts key h d =
    (let recorder = recorded h;
         answer = (if hd_err h then HandlerFailed else Handled (rr_status recorder) (rr_body recorder)) in
     if hd_err h \<or> 500 \<le> rr_status recorder then (case idem_Abort f key d of (err, d') \<Rightarrow> (answer, d'))
     else (case idem_Complete f key (wrap16 (rr_status recorder)) (rr_body recorder) (io_ResponseTTL opts) d of (err, d') \<Rightarrow> (answer, d')))"

section \<open>The system\<close>

text \<open>
  Requests between their statements: the ones that won the key and run their handler, with the time of the
  claim, and the ones that lost it and have not read the record yet. The log holds the answers given.
\<close>

record idem_sys =
  is_db :: idemdb
  is_running :: "(nat \<times> string \<times> time) list"
  is_looking :: "(nat \<times> string) list"
  is_log :: "(nat \<times> string \<times> idem_answer) list"

datatype idem_event = Tick nat | Arrive nat string stmt_fault | Look nat stmt_fault | Finish nat handler_run stmt_fault | Crash nat | Purge stmt_fault

definition idem_busy :: "idem_sys \<Rightarrow> nat \<Rightarrow> bool" where
  "idem_busy s rid \<longleftrightarrow> rid \<in> fst ` set (is_running s) \<or> rid \<in> fst ` set (is_looking s)"

fun idem_step :: "IdempotencyOptions \<Rightarrow> idem_event \<Rightarrow> idem_sys \<Rightarrow> idem_sys" where
  "idem_step opts (Tick n) s = s\<lparr>is_db := (is_db s)\<lparr>ix_now := ix_now (is_db s) + int n\<rparr>\<rparr>"
| "idem_step opts (Arrive rid key f) s =
    (if idem_busy s rid then s else
     case begin_claim f key (io_LockTTL opts) (is_db s) of
       (Inl e, d) \<Rightarrow> s\<lparr>is_db := d, is_log := is_log s @ [(rid, key, Refused (NewInternalError ''begin idempotent request''))]\<rparr>
     | (Inr True, d) \<Rightarrow> s\<lparr>is_db := d, is_running := (rid, key, ix_now d) # is_running s\<rparr>
     | (Inr False, d) \<Rightarrow> s\<lparr>is_db := d, is_looking := (rid, key) # is_looking s\<rparr>)"
| "idem_step opts (Look rid f) s = (case map_of (is_looking s) rid of
      None \<Rightarrow> s
    | Some key \<Rightarrow> s\<lparr>is_looking := filter (\<lambda>r. fst r \<noteq> rid) (is_looking s),
        is_log := is_log s @ [(rid, key, case idem_get f key (is_db s) of
           Inl e \<Rightarrow> Refused (NewInternalError ''select idempotency key'') | Inr r \<Rightarrow> replay (Some r))]\<rparr>)"
| "idem_step opts (Finish rid h f) s = (case map_of (is_running s) rid of
      None \<Rightarrow> s
    | Some (key, t) \<Rightarrow> (case after_handler f opts key h (is_db s) of
        (answer, d) \<Rightarrow> s\<lparr>is_db := d, is_running := filter (\<lambda>r. fst r \<noteq> rid) (is_running s), is_log := is_log s @ [(rid, key, answer)]\<rparr>))"
| "idem_step opts (Crash rid) s = s\<lparr>is_running := filter (\<lambda>r. fst r \<noteq> rid) (is_running s), is_looking := filter (\<lambda>r. fst r \<noteq> rid) (is_looking s)\<rparr>"
| "idem_step opts (Purge f) s = s\<lparr>is_db := PurgeExpired f (is_db s)\<rparr>"

definition idem_run :: "IdempotencyOptions \<Rightarrow> idem_event list \<Rightarrow> idem_sys \<Rightarrow> idem_sys" where
  "idem_run opts es s = fold (idem_step opts) es s"

definition idem_init :: "time \<Rightarrow> idem_sys" where
  "idem_init now = \<lparr>is_db = \<lparr>ix_rows = Map.empty, ix_now = now\<rparr>, is_running = [], is_looking = [], is_log = []\<rparr>"

text \<open>No handler has outlived its lock, now and in every state of a run.\<close>

definition timely :: "IdempotencyOptions \<Rightarrow> idem_sys \<Rightarrow> bool" where
  "timely opts s \<longleftrightarrow> list_all (\<lambda>(rid, key, t). ix_now (is_db s) \<le> t + io_LockTTL opts) (is_running s)"

fun timely_run :: "IdempotencyOptions \<Rightarrow> idem_event list \<Rightarrow> idem_sys \<Rightarrow> bool" where
  "timely_run opts [] s \<longleftrightarrow> timely opts s"
| "timely_run opts (e # es) s \<longleftrightarrow> timely opts s \<and> timely_run opts es (idem_step opts e s)"

section \<open>A specification without lock times\<close>

text \<open>
  A key is unused, in use by the one request that owns it, stuck until a time because its owner vanished or
  its last statement failed, or keeps an answer until a time. Only the owner ends its use, however long it takes.
\<close>

datatype idem_phase = Unused | InUse nat time | Stuck time | Kept int bytes time

record idem_spec =
  sp_now :: time
  sp_phase :: "string \<Rightarrow> idem_phase"
  sp_running :: "nat \<rightharpoonup> string"
  sp_looking :: "(nat \<times> string) list"
  sp_log :: "(nat \<times> string \<times> idem_answer) list"

fun phase_free :: "time \<Rightarrow> idem_phase \<Rightarrow> bool" where
  "phase_free now Unused \<longleftrightarrow> True"
| "phase_free now (InUse rid until) \<longleftrightarrow> False"
| "phase_free now (Stuck until) \<longleftrightarrow> until < now"
| "phase_free now (Kept code body until) \<longleftrightarrow> until < now"

fun phase_end :: "idem_phase \<Rightarrow> time" where
  "phase_end Unused = 0"
| "phase_end (InUse rid until) = until"
| "phase_end (Stuck until) = until"
| "phase_end (Kept code body until) = until"

fun phase_answer :: "idem_phase \<Rightarrow> idem_answer" where
  "phase_answer Unused = Refused (NewInternalError ''select idempotency key'')"
| "phase_answer (Kept code body until) = Replayed code body"
| "phase_answer _ = Refused (NewConflictError ''a request with this Idempotency-Key is already in progress'')"

fun spec_step :: "IdempotencyOptions \<Rightarrow> idem_event \<Rightarrow> idem_spec \<Rightarrow> idem_spec" where
  "spec_step opts (Tick n) s = s\<lparr>sp_now := sp_now s + int n\<rparr>"
| "spec_step opts (Arrive rid key f) s =
    (if rid \<in> dom (sp_running s) \<or> rid \<in> fst ` set (sp_looking s) then s
     else if f \<noteq> NoFault then
       s\<lparr>sp_phase := (sp_phase s)(key := if phase_free (sp_now s) (sp_phase s key) \<and> f \<noteq> NotDone then Stuck (sp_now s + io_LockTTL opts) else sp_phase s key),
         sp_log := sp_log s @ [(rid, key, Refused (NewInternalError ''begin idempotent request''))]\<rparr>
     else if phase_free (sp_now s) (sp_phase s key) then
       s\<lparr>sp_phase := (sp_phase s)(key := InUse rid (sp_now s + io_LockTTL opts)), sp_running := (sp_running s)(rid \<mapsto> key)\<rparr>
     else s\<lparr>sp_looking := (rid, key) # sp_looking s\<rparr>)"
| "spec_step opts (Look rid f) s = (case map_of (sp_looking s) rid of
      None \<Rightarrow> s
    | Some key \<Rightarrow> s\<lparr>sp_looking := filter (\<lambda>r. fst r \<noteq> rid) (sp_looking s),
        sp_log := sp_log s @ [(rid, key, if f \<noteq> NoFault then Refused (NewInternalError ''select idempotency key'') else phase_answer (sp_phase s key))]\<rparr>)"
| "spec_step opts (Finish rid h f) s = (case sp_running s rid of
      None \<Rightarrow> s
    | Some key \<Rightarrow> s\<lparr>sp_running := (sp_running s)(rid := None),
        sp_phase := (sp_phase s)(key :=
          if f = NotDone then Stuck (phase_end (sp_phase s key))
          else if worth_replaying h then Kept (wrap16 (rr_status (recorded h))) (rr_body (recorded h)) (sp_now s + io_ResponseTTL opts) else Unused),
        sp_log := sp_log s @ [(rid, key, if hd_err h then HandlerFailed else Handled (rr_status (recorded h)) (rr_body (recorded h)))]\<rparr>)"
| "spec_step opts (Crash rid) s = s\<lparr>sp_running := (sp_running s)(rid := None), sp_looking := filter (\<lambda>r. fst r \<noteq> rid) (sp_looking s),
     sp_phase := (\<lambda>key. if sp_running s rid = Some key then Stuck (phase_end (sp_phase s key)) else sp_phase s key)\<rparr>"
| "spec_step opts (Purge f) s = s\<lparr>sp_phase := (\<lambda>key. if f \<noteq> NotDone \<and> phase_free (sp_now s) (sp_phase s key) then Unused else sp_phase s key)\<rparr>"

definition spec_run :: "IdempotencyOptions \<Rightarrow> idem_event list \<Rightarrow> idem_spec \<Rightarrow> idem_spec" where
  "spec_run opts es s = fold (spec_step opts) es s"

section \<open>The refinement\<close>

definition owner :: "(nat \<times> string \<times> time) list \<Rightarrow> string \<Rightarrow> nat option" where
  "owner running key = map_option fst (find (\<lambda>r. fst (snd r) = key) running)"

fun phase_at :: "IdempotencyRecord option \<Rightarrow> nat option \<Rightarrow> idem_phase" where
  "phase_at None own = Unused"
| "phase_at (Some r) own = (if idem_Status r = IdempotencyComplete then Kept (Deref (idem_StatusCode r) 200) (idem_Response r) (idem_ExpiresAt r)
     else case own of Some rid \<Rightarrow> InUse rid (idem_ExpiresAt r) | None \<Rightarrow> Stuck (idem_ExpiresAt r))"

definition phase_of :: "(string \<rightharpoonup> IdempotencyRecord) \<Rightarrow> (nat \<times> string \<times> time) list \<Rightarrow> string \<Rightarrow> idem_phase" where
  "phase_of rows running key = phase_at (rows key) (owner running key)"

definition idem_abs :: "idem_sys \<Rightarrow> idem_spec" where
  "idem_abs s = \<lparr>sp_now = ix_now (is_db s), sp_phase = phase_of (ix_rows (is_db s)) (is_running s),
     sp_running = (\<lambda>rid. map_option fst (map_of (is_running s) rid)), sp_looking = is_looking s, sp_log = is_log s\<rparr>"

text \<open>Each running request holds the row of its key, and no two hold the same.\<close>

definition idem_inv :: "IdempotencyOptions \<Rightarrow> idem_sys \<Rightarrow> bool" where
  "idem_inv opts s \<longleftrightarrow> distinct (map fst (is_running s)) \<and> distinct (map (fst \<circ> snd) (is_running s)) \<and>
     (\<forall>(rid, key, t) \<in> set (is_running s). \<exists>r. ix_rows (is_db s) key = Some r \<and> idem_Status r = IdempotencyInProgress \<and> idem_ExpiresAt r = t + io_LockTTL opts)"

lemma owner_simps [simp]:
  "owner [] key = None" "owner ((rid, k, t) # rs) key = (if k = key then Some rid else owner rs key)"
  by (simp_all add: owner_def)

lemma owner_None: "owner rs key = None \<longleftrightarrow> (\<forall>(rid, k, t) \<in> set rs. k \<noteq> key)"
  by (induction rs) (auto split: if_splits)

lemma owner_SomeD: "owner rs key = Some rid \<Longrightarrow> \<exists>t. (rid, key, t) \<in> set rs"
  by (induction rs) (auto split: if_splits)

lemma owner_of_member:
  "distinct (map (fst \<circ> snd) rs) \<Longrightarrow> (rid, key, t) \<in> set rs \<Longrightarrow> owner rs key = Some rid"
  by (induction rs) (auto simp: rev_image_eqI)

lemma owner_filter:
  assumes "distinct (map (fst \<circ> snd) rs)"
  shows "owner (filter (\<lambda>r. fst r \<noteq> rid) rs) key = (if owner rs key = Some rid then None else owner rs key)"
  using assms by (induction rs) (auto simp: owner_None rev_image_eqI split: if_splits)

lemma map_of_filter_ne: "map_of (filter (\<lambda>r. fst r \<noteq> rid) rs) = (map_of rs)(rid := None)"
  by (induction rs) auto

lemma owner_iff_map_of:
  assumes "distinct (map fst rs)" and "distinct (map (fst \<circ> snd) rs)"
  shows "owner rs key = Some rid \<longleftrightarrow> (\<exists>t. map_of rs rid = Some (key, t))"
  using assms owner_of_member owner_SomeD map_of_SomeD map_of_is_SomeI by (metis (no_types, lifting))

lemma inv_row:
  assumes "idem_inv opts s" and "owner (is_running s) key = Some rid"
  obtains r t where "(rid, key, t) \<in> set (is_running s)" and "ix_rows (is_db s) key = Some r" and "idem_Status r = IdempotencyInProgress"
    and "idem_ExpiresAt r = t + io_LockTTL opts"
  using assms owner_SomeD [OF assms(2)] by (fastforce simp: idem_inv_def)

text \<open>A timely system gives a key away only when the specification does.\<close>

lemma phase_free_iff:
  assumes "idem_inv opts s" and "timely opts s"
  shows "phase_free (ix_now (is_db s)) (phase_of (ix_rows (is_db s)) (is_running s) key) \<longleftrightarrow>
    (case ix_rows (is_db s) key of None \<Rightarrow> True | Some r \<Rightarrow> idem_ExpiresAt r < ix_now (is_db s))"
proof (cases "owner (is_running s) key")
  case None
  then show ?thesis by (auto simp: phase_of_def split: option.splits)
next
  case (Some rid)
  then obtain r t where "(rid, key, t) \<in> set (is_running s)" "ix_rows (is_db s) key = Some r" "idem_Status r = IdempotencyInProgress"
      "idem_ExpiresAt r = t + io_LockTTL opts"
    using inv_row [OF assms(1)] by blast
  then show ?thesis using assms(2) Some by (fastforce simp: timely_def list_all_iff phase_of_def)
qed

lemma free_no_owner:
  assumes "idem_inv opts s" and "timely opts s" and "case ix_rows (is_db s) key of None \<Rightarrow> True | Some r \<Rightarrow> idem_ExpiresAt r < ix_now (is_db s)"
  shows "owner (is_running s) key = None"
proof (rule ccontr)
  assume "owner (is_running s) key \<noteq> None"
  then obtain rid where own: "owner (is_running s) key = Some rid" by auto
  then obtain r where "ix_rows (is_db s) key = Some r" "idem_Status r = IdempotencyInProgress" using inv_row [OF assms(1)] by metis
  then show False using own assms(3) phase_free_iff [OF assms(1,2), of key] by (simp add: phase_of_def)
qed

lemma new_lock_simps [simp]:
  "idem_Status (new_lock key l now) = IdempotencyInProgress" "idem_ExpiresAt (new_lock key l now) = now + l"
  by (simp_all add: new_lock_def)

lemma step_Arrive:
  assumes inv: "idem_inv opts s" and timely: "timely opts s"
  shows "idem_inv opts (idem_step opts (Arrive rid key f) s) \<and> idem_abs (idem_step opts (Arrive rid key f) s) = spec_step opts (Arrive rid key f) (idem_abs s)"
proof (cases "idem_busy s rid")
  case True
  then show ?thesis using inv by (auto simp: idem_busy_def idem_abs_def dom_map_option dom_map_of_conv_image_fst image_iff)
next
  case False
  let ?won = "case ix_rows (is_db s) key of None \<Rightarrow> True | Some r \<Rightarrow> idem_ExpiresAt r < ix_now (is_db s)"
  have fresh: "rid \<notin> fst ` set (is_running s)" "rid \<notin> fst ` set (is_looking s)" using False by (auto simp: idem_busy_def)
  have none: "map_of (is_running s) rid = None" using fresh(1) by (simp add: map_of_eq_None_iff)
  have own: "?won \<Longrightarrow> owner (is_running s) key = None" by (rule free_no_owner [OF inv timely])
  have free: "phase_free (ix_now (is_db s)) (phase_of (ix_rows (is_db s)) (is_running s) key) \<longleftrightarrow> ?won" by (rule phase_free_iff [OF inv timely])
  show ?thesis
  proof (cases ?won)
    case True
    moreover have "\<forall>(rid, k, t) \<in> set (is_running s). k \<noteq> key" using own [OF True] by (simp only: owner_None)
    ultimately show ?thesis using inv own [OF True] free fresh none False
      by (cases f) (auto simp: begin_claim_def Let_def idem_inv_def idem_abs_def phase_of_def fun_eq_iff dom_def)
  next
    case False
    then show ?thesis using inv free fresh none \<open>\<not> idem_busy s rid\<close>
      by (cases f) (auto simp: begin_claim_def Let_def idem_inv_def idem_abs_def fun_eq_iff dom_def)
  qed
qed

lemma step_Finish:
  assumes inv: "idem_inv opts s"
  shows "idem_inv opts (idem_step opts (Finish rid h f) s) \<and> idem_abs (idem_step opts (Finish rid h f) s) = spec_step opts (Finish rid h f) (idem_abs s)"
proof (cases "map_of (is_running s) rid")
  case None
  then show ?thesis using inv by (simp add: idem_abs_def)
next
  case (Some kt)
  then obtain key t where rid: "map_of (is_running s) rid = Some (key, t)" by (cases kt) auto
  have d: "distinct (map fst (is_running s))" "distinct (map (fst \<circ> snd) (is_running s))" using inv by (auto simp: idem_inv_def)
  have own: "owner (is_running s) key = Some rid" using owner_iff_map_of [OF d] rid by blast
  then obtain r where r: "ix_rows (is_db s) key = Some r" "idem_Status r = IdempotencyInProgress" using inv_row [OF inv] by metis
  have others: "k \<noteq> key" if "(rid', k, t') \<in> set (is_running s)" "rid' \<noteq> rid" for rid' k t'
    using owner_of_member [OF d(2) that(1)] own that(2) by auto
  have not_own: "owner (is_running s) k \<noteq> Some rid" if "k \<noteq> key" for k using owner_iff_map_of [OF d] rid that by auto
  have "idem_inv opts (idem_step opts (Finish rid h f) s)"
    using inv rid r others d
    by (cases f) (auto simp: idem_inv_def after_handler_def idem_Abort_def idem_Complete_def Let_def distinct_map_filter)
  moreover have "idem_abs (idem_step opts (Finish rid h f) s) = spec_step opts (Finish rid h f) (idem_abs s)"
    using rid r own not_own
    by (cases f) (auto simp: idem_abs_def after_handler_def idem_Abort_def idem_Complete_def Let_def fun_eq_iff phase_of_def owner_filter [OF d(2)]
      map_of_filter_ne worth_replaying_def Deref_def)
  ultimately show ?thesis ..
qed

lemma step_Purge:
  assumes inv: "idem_inv opts s" and timely: "timely opts s"
  shows "idem_inv opts (idem_step opts (Purge f) s) \<and> idem_abs (idem_step opts (Purge f) s) = spec_step opts (Purge f) (idem_abs s)"
proof -
  have expired: "idem_expired (is_db s) key \<Longrightarrow> owner (is_running s) key = None" for key
    using free_no_owner [OF inv timely] by (simp add: idem_expired_def split: option.splits)
  have "idem_inv opts (idem_step opts (Purge f) s)"
    using inv expired owner_of_member by (fastforce simp: idem_inv_def PurgeExpired_def)
  moreover have "idem_abs (idem_step opts (Purge f) s) = spec_step opts (Purge f) (idem_abs s)"
    using phase_free_iff [OF inv timely] by (auto simp: idem_abs_def PurgeExpired_def fun_eq_iff idem_expired_def phase_of_def split: option.splits)
  ultimately show ?thesis ..
qed

lemma step_Crash:
  assumes inv: "idem_inv opts s"
  shows "idem_inv opts (idem_step opts (Crash rid) s) \<and> idem_abs (idem_step opts (Crash rid) s) = spec_step opts (Crash rid) (idem_abs s)"
proof -
  have d: "distinct (map fst (is_running s))" "distinct (map (fst \<circ> snd) (is_running s))" using inv by (auto simp: idem_inv_def)
  have "phase_of (ix_rows (is_db s)) (filter (\<lambda>r. fst r \<noteq> rid) (is_running s)) key =
      (if map_option fst (map_of (is_running s) rid) = Some key then Stuck (phase_end (phase_of (ix_rows (is_db s)) (is_running s) key))
       else phase_of (ix_rows (is_db s)) (is_running s) key)" for key
  proof (cases "owner (is_running s) key = Some rid")
    case True
    then obtain r where "ix_rows (is_db s) key = Some r" "idem_Status r = IdempotencyInProgress" using inv_row [OF inv] by metis
    moreover obtain t where "map_of (is_running s) rid = Some (key, t)" using True owner_iff_map_of [OF d] by blast
    ultimately show ?thesis using True by (simp add: phase_of_def owner_filter [OF d(2)])
  next
    case False
    then show ?thesis using owner_iff_map_of [OF d, of key rid] by (auto simp: phase_of_def owner_filter [OF d(2)])
  qed
  then show ?thesis using inv by (auto simp: idem_abs_def idem_inv_def fun_eq_iff map_of_filter_ne distinct_map_filter)
qed

lemma step_refines:
  assumes "idem_inv opts s" and "timely opts s"
  shows "idem_inv opts (idem_step opts e s) \<and> idem_abs (idem_step opts e s) = spec_step opts e (idem_abs s)"
proof (cases e)
  case (Look rid f)
  have "replay (Some r) = phase_answer (phase_at (Some r) own)" for r own
    by (cases "idem_Status r"; cases own) (auto simp: replay_def)
  then show ?thesis using assms(1) by (auto simp: Look idem_inv_def idem_abs_def idem_get_def phase_of_def split: option.splits)
qed (use assms step_Arrive step_Finish step_Purge step_Crash in \<open>auto simp: idem_inv_def idem_abs_def\<close>)

lemma run_refines:
  "idem_inv opts s \<Longrightarrow> timely_run opts es s \<Longrightarrow> idem_inv opts (idem_run opts es s) \<and> idem_abs (idem_run opts es s) = spec_run opts es (idem_abs s)"
  using step_refines by (induction es arbitrary: s) (auto simp: idem_run_def spec_run_def)

lemma init_inv: "idem_inv opts (idem_init now)"
  by (simp add: idem_inv_def idem_init_def)

section \<open>Replays\<close>

text \<open>A key that keeps an answer keeps it, and hands nothing else out, until the answer expires.\<close>

definition keeps :: "string \<Rightarrow> int \<Rightarrow> bytes \<Rightarrow> time \<Rightarrow> idem_sys \<Rightarrow> bool" where
  "keeps key code body until s \<longleftrightarrow> (\<forall>(rid, k, t) \<in> set (is_running s). k \<noteq> key) \<and>
     (\<exists>r. ix_rows (is_db s) key = Some r \<and> idem_Status r = IdempotencyComplete \<and> idem_StatusCode r = Some code \<and> idem_Response r = body \<and> idem_ExpiresAt r = until)"

definition answers_after :: "idem_sys \<Rightarrow> idem_sys \<Rightarrow> string \<Rightarrow> idem_answer list" where
  "answers_after s s' key = map (snd \<circ> snd) (filter (\<lambda>(rid, k, a). k = key) (drop (length (is_log s)) (is_log s')))"

lemma keeps_owner: "keeps key code body until s \<Longrightarrow> map_of (is_running s) rid = Some (k, t) \<Longrightarrow> k \<noteq> key"
  by (auto simp: keeps_def dest: map_of_SomeD)

lemma keeps_step:
  assumes "keeps key code body until s" and "ix_now (is_db s) \<le> until"
  shows "keeps key code body until (idem_step opts e s) \<and> (\<exists>new. is_log (idem_step opts e s) = is_log s @ new \<and>
     (\<forall>(rid, k, a) \<in> set new. k = key \<longrightarrow> a = Replayed code body \<or> (\<exists>m. a = Refused (NewInternalError m))))"
proof (cases e)
  case (Arrive rid k f)
  then show ?thesis using assms by (cases f) (auto simp: keeps_def begin_claim_def Let_def split: option.splits)
next
  case (Look rid f)
  then show ?thesis using assms(1) by (auto simp: keeps_def idem_get_def replay_def Deref_def split: option.splits)
next
  case (Finish rid h f)
  then show ?thesis using assms(1) keeps_owner [OF assms(1)]
    by (cases f) (auto simp: keeps_def after_handler_def idem_Abort_def idem_Complete_def Let_def split: option.splits prod.splits if_splits)
next
  case (Purge f)
  then show ?thesis using assms by (auto simp: keeps_def PurgeExpired_def idem_expired_def)
qed (use assms in \<open>auto simp: keeps_def\<close>)

lemma step_now_mono: "ix_now (is_db s) \<le> ix_now (is_db (idem_step opts e s))"
  by (cases e) (auto simp: begin_claim_def after_handler_def idem_Abort_def idem_Complete_def PurgeExpired_def Let_def split: option.splits bool.splits)

lemma run_now_mono: "ix_now (is_db s) \<le> ix_now (is_db (idem_run opts es s))"
  by (induction es arbitrary: s) (auto simp: idem_run_def intro: order_trans [OF step_now_mono])

lemma keeps_run:
  assumes "keeps key code body until s" and "ix_now (is_db (idem_run opts es s)) \<le> until"
  shows "keeps key code body until (idem_run opts es s) \<and> (\<exists>new. is_log (idem_run opts es s) = is_log s @ new \<and>
     (\<forall>(rid, k, a) \<in> set new. k = key \<longrightarrow> a = Replayed code body \<or> (\<exists>m. a = Refused (NewInternalError m))))"
  using assms
proof (induction es arbitrary: s)
  case (Cons e es)
  let ?s' = "idem_step opts e s"
  have run: "idem_run opts (e # es) s = idem_run opts es ?s'" by (simp add: idem_run_def)
  have "ix_now (is_db s) \<le> until" using Cons.prems(2) run_now_mono [of s opts "e # es"] by simp
  then obtain new where new: "keeps key code body until ?s'" "is_log ?s' = is_log s @ new"
      "\<forall>(rid, k, a) \<in> set new. k = key \<longrightarrow> a = Replayed code body \<or> (\<exists>m. a = Refused (NewInternalError m))"
    using keeps_step [OF Cons.prems(1)] by blast
  show ?case using Cons.IH [OF new(1)] Cons.prems(2) new(2,3) by (fastforce simp: run)
qed (simp add: idem_run_def)

text \<open>
  C15: Behind the idempotency middleware a key behaves as if it had no lock times. From an empty table, along any
  sequence of events (arrivals, lookups, handler ends, crashes, purges, statements that fail with or without their
  effect) in which no handler outlives its lock, the table, the running requests and every answer given are
  exactly those of the specification, in which only the owner of a key ends its use; and no two
  requests with the same key ever run at once.
\<close>

theorem idempotency_refines:
  assumes "timely_run opts es (idem_init now)"
  shows "idem_abs (idem_run opts es (idem_init now)) = spec_run opts es (idem_abs (idem_init now)) \<and>
    distinct (map (fst \<circ> snd) (is_running (idem_run opts es (idem_init now))))"
  using run_refines [OF init_inv assms] by (simp add: idem_inv_def)

theorem idempotency_refines_witness:
  "idem_abs (idem_run \<lparr>io_LockTTL = 30, io_ResponseTTL = 100\<rparr> [Arrive 1 ''k'' NoFault, Tick 30, Arrive 2 ''k'' NoFault, Purge NoFault, Look 2 NoFault] (idem_init 0)) =
   spec_run \<lparr>io_LockTTL = 30, io_ResponseTTL = 100\<rparr> [Arrive 1 ''k'' NoFault, Tick 30, Arrive 2 ''k'' NoFault, Purge NoFault, Look 2 NoFault] (idem_abs (idem_init 0)) \<and>
   is_running (idem_run \<lparr>io_LockTTL = 30, io_ResponseTTL = 100\<rparr> [Arrive 1 ''k'' NoFault, Tick 30, Arrive 2 ''k'' NoFault, Purge NoFault, Look 2 NoFault] (idem_init 0)) =
     [(1, ''k'', 0)]"
proof -
  let ?o = "\<lparr>io_LockTTL = 30, io_ResponseTTL = 100\<rparr>"
  let ?es = "[Arrive 1 ''k'' NoFault, Tick 30, Arrive 2 ''k'' NoFault, Purge NoFault, Look 2 NoFault]"
  note defs = idem_init_def timely_def begin_claim_def PurgeExpired_def idem_expired_def new_lock_def idem_busy_def Let_def idem_get_def idem_run_def
  have "timely_run ?o ?es (idem_init 0)" by (simp add: defs)
  moreover have "is_running (idem_run ?o ?es (idem_init 0)) = [(1, ''k'', 0)]" by (simp add: defs)
  ultimately show ?thesis using idempotency_refines [of ?o ?es 0] by blast
qed

text \<open>
  C14: A retried POST is answered, not repeated. Let a request finish with an answer worth keeping and let the
  answer be stored, after a run in which no handler outlived its lock. Then, whatever happens in the answer's
  lifetime, even handlers that overrun on other keys, purges and failing statements, no other request with that key runs its handler, and
  each one answered gets the stored status and body, or a server error of its own lookup.
\<close>

theorem idempotent_once:
  assumes "timely_run opts es (idem_init now)"
    and "map_of (is_running (idem_run opts es (idem_init now))) rid = Some (key, t)"
    and "worth_replaying h"
    and "s = idem_step opts (Finish rid h NoFault) (idem_run opts es (idem_init now))"
    and "ix_now (is_db (idem_run opts later s)) \<le> ix_now (is_db s) + io_ResponseTTL opts"
  shows "(\<forall>(rid', k, t') \<in> set (is_running (idem_run opts later s)). k \<noteq> key) \<and>
    (\<forall>a \<in> set (answers_after s (idem_run opts later s) key).
       a = Replayed (wrap16 (rr_status (recorded h))) (rr_body (recorded h)) \<or> (\<exists>m. a = Refused (NewInternalError m)))"
proof -
  let ?s0 = "idem_run opts es (idem_init now)"
  have inv: "idem_inv opts ?s0" using run_refines [OF init_inv assms(1)] by blast
  have member: "(rid, key, t) \<in> set (is_running ?s0)" using assms(2) by (rule map_of_SomeD)
  then obtain r where r: "ix_rows (is_db ?s0) key = Some r" using inv by (fastforce simp: idem_inv_def)
  have others: "k \<noteq> key" if "(rid', k, t') \<in> set (is_running ?s0)" "rid' \<noteq> rid" for rid' k t'
    using owner_of_member [OF _ that(1)] owner_of_member [OF _ member] that(2) inv by (auto simp: idem_inv_def)
  have now: "ix_now (is_db s) = ix_now (is_db ?s0)"
    using assms(2,3) r by (simp add: assms(4) after_handler_def worth_replaying_def idem_Complete_def Let_def)
  have "keeps key (wrap16 (rr_status (recorded h))) (rr_body (recorded h)) (ix_now (is_db s) + io_ResponseTTL opts) s"
    using assms(2,3) r others unfolding now
    by (auto simp: assms(4) keeps_def after_handler_def worth_replaying_def idem_Complete_def Let_def)
  from keeps_run [OF this assms(5)] show ?thesis
    by (fastforce simp: keeps_def answers_after_def)
qed

theorem idempotent_once_witness:
  "\<exists>s. s = idem_step \<lparr>io_LockTTL = 30, io_ResponseTTL = 100\<rparr> (Finish 1 \<lparr>hd_ops = [WriteHeader 202, Write [7]], hd_err = False\<rparr> NoFault)
       (idem_run \<lparr>io_LockTTL = 30, io_ResponseTTL = 100\<rparr> [Arrive 1 ''k'' NoFault, Tick 5] (idem_init 0)) \<and>
     answers_after s (idem_run \<lparr>io_LockTTL = 30, io_ResponseTTL = 100\<rparr> [Tick 60, Arrive 2 ''k'' NoFault, Look 2 NoFault] s) ''k'' = [Replayed 202 [7]] \<and>
     (\<forall>(rid', k, t') \<in> set (is_running (idem_run \<lparr>io_LockTTL = 30, io_ResponseTTL = 100\<rparr> [Tick 60, Arrive 2 ''k'' NoFault, Look 2 NoFault] s)). k \<noteq> ''k'')"
proof -
  let ?o = "\<lparr>io_LockTTL = 30, io_ResponseTTL = 100\<rparr>"
  let ?h = "\<lparr>hd_ops = [WriteHeader 202, Write [7]], hd_err = False\<rparr>"
  let ?later = "[Tick 60, Arrive 2 ''k'' NoFault, Look 2 NoFault]"
  note defs = idem_init_def timely_def begin_claim_def new_lock_def idem_busy_def Let_def idem_get_def idem_run_def after_handler_def recorded_def
    newResponseRecorder_def idem_Complete_def worth_replaying_def wrap16_id replay_def Deref_def answers_after_def
  let ?s = "idem_step ?o (Finish 1 ?h NoFault) (idem_run ?o [Arrive 1 ''k'' NoFault, Tick 5] (idem_init 0))"
  have 1: "timely_run ?o [Arrive 1 ''k'' NoFault, Tick 5] (idem_init 0)" by (simp add: defs)
  have 2: "map_of (is_running (idem_run ?o [Arrive 1 ''k'' NoFault, Tick 5] (idem_init 0))) 1 = Some (''k'', 0)" by (simp add: defs)
  have 3: "worth_replaying ?h" by (simp add: defs)
  have 4: "ix_now (is_db (idem_run ?o ?later ?s)) \<le> ix_now (is_db ?s) + io_ResponseTTL ?o" by (simp add: defs)
  have "answers_after ?s (idem_run ?o ?later ?s) ''k'' = [Replayed 202 [7]]" by (simp add: defs)
  then show ?thesis using idempotent_once [OF 1 2 3 refl 4] by blast
qed

text \<open>
  Within its own lock a request can lose its key to one that overran. The first request outlives its
  lock and a second takes the key; then the first fails, and its release deletes the lock of the second; a third
  request arrives while the second, well within its lock, still runs, and runs too: both create their message.
\<close>

theorem late_release_frees_key:
  "is_running (idem_run \<lparr>io_LockTTL = 30 * Second, io_ResponseTTL = 12 * Hour\<rparr>
     [Arrive 1 ''k'' NoFault, Tick 30000000001, Arrive 2 ''k'' NoFault, Tick 1, Finish 1 \<lparr>hd_ops = [], hd_err = True\<rparr> NoFault, Arrive 3 ''k'' NoFault]
     (idem_init 0)) = [(3, ''k'', 30000000002), (2, ''k'', 30000000001)]"
  by (simp add: idem_init_def begin_claim_def new_lock_def idem_busy_def Let_def idem_run_def after_handler_def recorded_def newResponseRecorder_def idem_Abort_def)

section \<open>The key\<close>

lemma hexDigits_inject: "i < 16 \<Longrightarrow> j < 16 \<Longrightarrow> hexDigits ! i = hexDigits ! j \<longleftrightarrow> i = j"
  by (simp add: hexDigits_def nth_eq_iff_index_eq)

lemma hex_inject: "hex_EncodeToString a = hex_EncodeToString b \<Longrightarrow> a = b"
proof (induction a arbitrary: b)
  case Nil
  then show ?case by (cases b) (auto simp: hex_EncodeToString_def)
next
  case (Cons x xs)
  then obtain y ys where b: "b = y # ys" by (cases b) (auto simp: hex_EncodeToString_def)
  have "unat v div 16 < 16" for v :: byte using unsigned_less [of v, where ?'a = nat] by simp
  then have "unat x div 16 = unat y div 16" "unat x mod 16 = unat y mod 16" "hex_EncodeToString xs = hex_EncodeToString ys"
    using Cons.prems by (auto simp: b hex_EncodeToString_def hexDigits_inject)
  then show ?case using Cons.IH by (metis b div_mult_mod_eq unsigned_word_eqI)
qed

lemma last_separator:
  assumes "a @ c # b = a' @ c # b'" and "c \<notin> set b" and "c \<notin> set b'"
  shows "a = a' \<and> b = b'"
  using split_at_first_sep [of "rev b" c "rev a" "rev b'" "rev a'"] arg_cong [OF assms(1), of rev] assms(2,3) by simp

text \<open>
  Two requests share a key only if they agree on organization, method, path and client key, unless the
  digest collides on them. A path may hold NUL bytes, the other parts may not.
\<close>

lemma idempotencyKey_separates:
  assumes "idempotencyKey sum256 o1 m1 p1 k1 = idempotencyKey sum256 o2 m2 p2 k2"
    and "sum256 (bytes_of (key_material o1 m1 p1 k1)) = sum256 (bytes_of (key_material o2 m2 p2 k2)) \<Longrightarrow> key_material o1 m1 p1 k1 = key_material o2 m2 p2 k2"
    and "CHR 0x00 \<notin> set o1 \<union> set o2 \<union> set m1 \<union> set m2 \<union> set k1 \<union> set k2"
  shows "o1 = o2 \<and> m1 = m2 \<and> p1 = p2 \<and> k1 = k2"
proof -
  have eq: "o1 @ CHR 0x00 # (m1 @ CHR 0x00 # (p1 @ CHR 0x00 # k1)) = o2 @ CHR 0x00 # (m2 @ CHR 0x00 # (p2 @ CHR 0x00 # k2))"
    using assms(2) [OF hex_inject [OF assms(1) [unfolded idempotencyKey_def]]] by (simp add: key_material_def)
  from split_at_first_sep [OF eq] assms(3) have 1: "o1 = o2" "m1 @ CHR 0x00 # (p1 @ CHR 0x00 # k1) = m2 @ CHR 0x00 # (p2 @ CHR 0x00 # k2)" by auto
  from split_at_first_sep [OF 1(2)] assms(3) have 2: "m1 = m2" "p1 @ CHR 0x00 # k1 = p2 @ CHR 0x00 # k2" by auto
  from last_separator [OF 2(2)] assms(3) show ?thesis using 1(1) 2(1) by auto
qed

end
