(* ===== verification/Config_Manager.thy ===== *)
theory Config_Manager
  imports Endpoint_UseCase
begin

text \<open>
  \<^verbatim>\<open>internal/application/config/manager.go\<close>: the snapshot behind an atomic pointer, rebuilt on a notification, on
  the refresh interval and at start. The one-slot channel is a flag. \<^verbatim>\<open>Run\<close> is a system of steps, one per
  communication or statement, so that configuration changes and notifications fall between any two of
  them: while a burst is being debounced, between the drain and the read, between the read and the
  store. The clock is an argument; the age gauge keeps the last value set, in nanoseconds.
\<close>

section \<open>manager.go\<close>

record ManagerOptions =
  mo_Channel :: string
  mo_RefreshInterval :: duration
  mo_Debounce :: duration

record Manager =
  mg_opts :: ManagerOptions
  mg_gauge :: bool
  mg_age :: "duration option"
  mg_current :: "Snapshot option"
  mg_reload :: bool

definition DefaultChannel :: string where "DefaultChannel = ''huxio_config''"

definition NewManager :: "bool \<Rightarrow> ManagerOptions \<Rightarrow> Manager" where
  "NewManager snapshotAge opts =
    \<lparr>mg_opts = \<lparr>mo_Channel = (if mo_Channel opts = [] then DefaultChannel else mo_Channel opts),
       mo_RefreshInterval = (if mo_RefreshInterval opts \<le> 0 then 60 * Second else mo_RefreshInterval opts),
       mo_Debounce = (if mo_Debounce opts \<le> 0 then 100 * Millisecond else mo_Debounce opts)\<rparr>,
     mg_gauge = snapshotAge, mg_age = None, mg_current = None, mg_reload = False\<rparr>"

definition Manager_Current :: "Manager \<Rightarrow> Snapshot option" where
  "Manager_Current m = mg_current m"

text \<open>What opens secrets and reads custom headers, with the keys.\<close>

record build_env =
  be_pg :: pgenv
  be_open :: "bytes \<Rightarrow> bytes \<Rightarrow> bytes \<Rightarrow> bytes option"
  be_unmarshal :: "bytes \<Rightarrow> (string \<times> string) list option"
  be_sealer :: Sealer

definition store_snapshot :: "build_env \<Rightarrow> time \<Rightarrow> time \<Rightarrow> SnapshotData \<Rightarrow> Manager \<Rightarrow> Manager" where
  "store_snapshot b builtAt now data m =
    m\<lparr>mg_current := Some (fst (BuildSnapshot (be_open b) (be_unmarshal b) (be_sealer b) builtAt now data)),
      mg_age := (if mg_gauge m then Some 0 else mg_age m)\<rparr>"

definition Load :: "build_env \<Rightarrow> time \<Rightarrow> time \<Rightarrow> Manager \<Rightarrow> cfgdb \<Rightarrow> repo_error option \<times> Manager \<times> cfgdb" where
  "Load b builtAt now m d = (case LoadSnapshot (be_pg b) d of
      (Inl e, d) \<Rightarrow> (Some e, m, d)
    | (Inr data, d) \<Rightarrow> (None, store_snapshot b builtAt now data m, d))"

definition Invalidate :: "Manager \<Rightarrow> Manager" where
  "Invalidate m = m\<lparr>mg_reload := True\<rparr>"

definition drain_reload :: "Manager \<Rightarrow> Manager" where
  "drain_reload m = m\<lparr>mg_reload := False\<rparr>"

definition age_tick :: "time \<Rightarrow> Manager \<Rightarrow> Manager" where
  "age_tick now m = (if \<not> mg_gauge m then m else case Manager_Current m of
      None \<Rightarrow> m | Some snapshot \<Rightarrow> m\<lparr>mg_age := Some (Snapshot_Age now snapshot)\<rparr>)"

section \<open>Run\<close>

text \<open>Where the loop is: in its select, debouncing, about to read the rows, with rows read and not stored, returned.\<close>

datatype run_phase = InSelect | Debouncing | Reading | HasRows SnapshotData | Stopped

record config_sys =
  cs_db :: cfgdb
  cs_mgr :: Manager
  cs_phase :: run_phase
  cs_failed :: bool

text \<open>
  A change of the tables by any process, followed by its notification if \<open>True\<close>; then the cases of
  the two selects, and the statements of a reload. \<open>cs_failed\<close> says that the last reload failed.
\<close>

datatype config_event = Change "cfgdb \<Rightarrow> cfgdb" bool | Notified | AgeTick time | RefreshTick | TakeReload | DebounceOver | ReadRows | StoreSnapshot time time | CtxDone

fun config_step :: "build_env \<Rightarrow> config_event \<Rightarrow> config_sys \<Rightarrow> config_sys" where
  "config_step b (Change f n) s = s\<lparr>cs_db := f (cs_db s), cs_mgr := (if n then Invalidate (cs_mgr s) else cs_mgr s)\<rparr>"
| "config_step b Notified s = s\<lparr>cs_mgr := Invalidate (cs_mgr s)\<rparr>"
| "config_step b (AgeTick now) s = (if cs_phase s = InSelect then s\<lparr>cs_mgr := age_tick now (cs_mgr s)\<rparr> else s)"
| "config_step b RefreshTick s = (if cs_phase s = InSelect then s\<lparr>cs_phase := Reading\<rparr> else s)"
| "config_step b TakeReload s =
    (if cs_phase s = InSelect \<and> mg_reload (cs_mgr s) then s\<lparr>cs_mgr := (cs_mgr s)\<lparr>mg_reload := False\<rparr>, cs_phase := Debouncing\<rparr> else s)"
| "config_step b DebounceOver s = (if cs_phase s = Debouncing then s\<lparr>cs_mgr := drain_reload (cs_mgr s), cs_phase := Reading\<rparr> else s)"
| "config_step b ReadRows s =
    (if cs_phase s = Reading then (case LoadSnapshot (be_pg b) (cs_db s) of
        (Inl e, d) \<Rightarrow> s\<lparr>cs_db := d, cs_phase := InSelect, cs_failed := True\<rparr>
      | (Inr data, d) \<Rightarrow> s\<lparr>cs_db := d, cs_phase := HasRows data\<rparr>)
     else s)"
| "config_step b (StoreSnapshot builtAt now) s = (case cs_phase s of
      HasRows data \<Rightarrow> s\<lparr>cs_mgr := store_snapshot b builtAt now data (cs_mgr s), cs_phase := InSelect, cs_failed := False\<rparr>
    | _ \<Rightarrow> s)"
| "config_step b CtxDone s = (if cs_phase s = InSelect \<or> cs_phase s = Debouncing then s\<lparr>cs_phase := Stopped\<rparr> else s)"

definition config_run :: "build_env \<Rightarrow> config_event list \<Rightarrow> config_sys \<Rightarrow> config_sys" where
  "config_run b es s = fold (config_step b) es s"

section \<open>No change is missed\<close>

text \<open>The rows a load would read now, if no statement fails.\<close>

definition live_rows :: "pgenv \<Rightarrow> cfgdb \<Rightarrow> repo_error + SnapshotData" where
  "live_rows env d = fst (LoadSnapshot env (d\<lparr>db_faults := []\<rparr>))"

definition current_is_live :: "build_env \<Rightarrow> config_sys \<Rightarrow> bool" where
  "current_is_live b s \<longleftrightarrow> (\<exists>data builtAt now. live_rows (be_pg b) (cs_db s) = Inr data \<and>
     mg_current (cs_mgr s) = Some (fst (BuildSnapshot (be_open b) (be_unmarshal b) (be_sealer b) builtAt now data)))"

fun config_inv :: "build_env \<Rightarrow> config_sys \<Rightarrow> bool" where
  "config_inv b s \<longleftrightarrow> mg_reload (cs_mgr s) \<or> (case cs_phase s of
      InSelect \<Rightarrow> cs_failed s \<or> current_is_live b s
    | HasRows data \<Rightarrow> live_rows (be_pg b) (cs_db s) = Inr data
    | _ \<Rightarrow> True)"

fun announced :: "config_event \<Rightarrow> bool" where
  "announced (Change f n) \<longleftrightarrow> n"
| "announced _ \<longleftrightarrow> True"

lemma LoadSnapshot_live:
  assumes "LoadSnapshot env d = (r, d')"
  shows "live_rows env d' = live_rows env d" and "r = Inr data \<Longrightarrow> live_rows env d = r"
  using assms by (auto simp: LoadSnapshot_def load_rows_def live_rows_def query_def db_exec_def split: list.splits bool.splits sum.splits prod.splits if_splits)

lemma age_tick_frame: "mg_current (age_tick now m) = mg_current m" "mg_reload (age_tick now m) = mg_reload m"
  by (simp_all add: age_tick_def split: option.splits)

lemma config_step_inv:
  assumes "config_inv b s" and "announced e"
  shows "config_inv b (config_step b e s)"
proof (cases e)
  case ReadRows
  then show ?thesis using assms(1) LoadSnapshot_live [of "be_pg b" "cs_db s"]
    by (cases "LoadSnapshot (be_pg b) (cs_db s)") (auto simp: current_is_live_def split: sum.splits run_phase.splits)
next
  case (StoreSnapshot builtAt now)
  then show ?thesis using assms(1) by (auto simp: current_is_live_def store_snapshot_def split: run_phase.splits)
qed (use assms in \<open>auto simp: current_is_live_def Invalidate_def drain_reload_def age_tick_frame split: run_phase.splits\<close>)

lemma config_run_inv: "config_inv b s \<Longrightarrow> list_all announced es \<Longrightarrow> config_inv b (config_run b es s)"
  using config_step_inv by (induction es arbitrary: s) (auto simp: config_run_def simp del: config_inv.simps)

text \<open>
  C27: No announced configuration change is missed. A manager that has loaded once is interleaved in any way with
  changes of the tables, each announced when it is committed, and with spurious notifications, timer
  ticks and failing statements. Whenever its loop is back in the select with no reload
  pending and the last reload did not fail, the snapshot served is built from the rows of the tables
  as they are now: a change that falls into the debounce, before the read or between the read and the store
  leaves a reload pending.
\<close>

theorem config_quiescent_current:
  assumes "Load b builtAt now (NewManager gauge opts) d = (None, m, d')" and "list_all announced es"
    and "s = config_run b es \<lparr>cs_db = d', cs_mgr = m, cs_phase = InSelect, cs_failed = False\<rparr>"
    and "cs_phase s = InSelect" and "\<not> mg_reload (cs_mgr s)" and "\<not> cs_failed s"
  shows "\<exists>data t t'. live_rows (be_pg b) (cs_db s) = Inr data \<and>
    Manager_Current (cs_mgr s) = Some (fst (BuildSnapshot (be_open b) (be_unmarshal b) (be_sealer b) t t' data))"
proof -
  let ?s0 = "\<lparr>cs_db = d', cs_mgr = m, cs_phase = InSelect, cs_failed = False\<rparr>"
  obtain data where "LoadSnapshot (be_pg b) d = (Inr data, d')" "m = store_snapshot b builtAt now data (NewManager gauge opts)"
    using assms(1) by (auto simp: Load_def split: prod.splits sum.splits)
  moreover from this(1) have "live_rows (be_pg b) d' = Inr data" using LoadSnapshot_live by metis
  ultimately have "config_inv b ?s0" by (auto simp: current_is_live_def store_snapshot_def)
  then have "config_inv b s" using config_run_inv assms(2,3) by blast
  then show ?thesis using assms(4-6) by (simp add: current_is_live_def Manager_Current_def)
qed

definition demo_build :: build_env where
  "demo_build = \<lparr>be_pg = demo_pgenv, be_open = toy_open, be_unmarshal = (\<lambda>_. None), be_sealer = \<lparr>sl_keys = [replicate 32 7]\<rparr>\<rparr>"

definition demo_loaded :: config_sys where
  "demo_loaded = (case Load demo_build 1 1 (NewManager True \<lparr>mo_Channel = [], mo_RefreshInterval = 0, mo_Debounce = 0\<rparr>) (demo_cfg\<lparr>db_eps := [], db_faults := []\<rparr>) of
     (err, m, d) \<Rightarrow> \<lparr>cs_db = d, cs_mgr = m, cs_phase = InSelect, cs_failed = False\<rparr>)"

lemma empty_rows:
  "db_faults d = [] \<Longrightarrow> db_eps d = [] \<Longrightarrow> LoadSnapshot env d = (Inr \<lparr>sd_Organizations = filter (\<lambda>r. org_DeletedAt r = None) (db_orgs d),
     sd_Applications = filter (\<lambda>r. app_DeletedAt r = None) (db_apps d), sd_Endpoints = [], sd_EventTypes = filter (\<lambda>r. et_DeletedAt r = None) (db_types d)\<rparr>, d)"
  by (simp add: LoadSnapshot_def load_rows_def query_def db_exec_def)

theorem config_quiescent_current_witness:
  "\<exists>s data t t'. s = config_run demo_build [TakeReload, Change (\<lambda>d. d\<lparr>db_types := []\<rparr>) True, TakeReload, Notified, DebounceOver, ReadRows, StoreSnapshot 5 5] demo_loaded \<and>
     live_rows demo_pgenv (cs_db s) = Inr data \<and>
     Manager_Current (cs_mgr s) = Some (fst (BuildSnapshot toy_open (\<lambda>_. None) \<lparr>sl_keys = [replicate 32 7]\<rparr> t t' data))"
proof -
  let ?d = "demo_cfg\<lparr>db_eps := [], db_faults := []\<rparr>"
  let ?o = "\<lparr>mo_Channel = [], mo_RefreshInterval = 0, mo_Debounce = 0\<rparr>"
  let ?es = "[TakeReload, Change (\<lambda>d. d\<lparr>db_types := []\<rparr>) True, TakeReload, Notified, DebounceOver, ReadRows, StoreSnapshot 5 5]"
  obtain m d' where l: "Load demo_build 1 1 (NewManager True ?o) ?d = (None, m, d')" "\<not> mg_reload m" "db_faults d' = []" "db_eps d' = []"
    by (simp add: Load_def empty_rows store_snapshot_def NewManager_def)
  have s0: "demo_loaded = \<lparr>cs_db = d', cs_mgr = m, cs_phase = InSelect, cs_failed = False\<rparr>" by (simp add: demo_loaded_def l(1))
  have run: "cs_phase (config_run demo_build ?es demo_loaded) = InSelect" "\<not> mg_reload (cs_mgr (config_run demo_build ?es demo_loaded))"
      "\<not> cs_failed (config_run demo_build ?es demo_loaded)"
    using l(2-4) by (simp_all add: s0 config_run_def Invalidate_def drain_reload_def empty_rows store_snapshot_def)
  have "list_all announced ?es" by simp
  from config_quiescent_current [OF l(1) this refl run [unfolded s0]] show ?thesis by (fastforce simp: demo_build_def s0)
qed

end
