(* ===== verification/Maintenance.thy ===== *)
theory Maintenance
  imports Lease_Repo Queue_Repo Idempotency Signing "HOL-Library.List_Lexorder" "HOL-Library.Char_ord"
begin

text \<open>
  Housekeeping: \<^verbatim>\<open>internal/application/maintenance/loop.go\<close> over the partition repository
  (\<^verbatim>\<open>maintenance_repo.go\<close>), the leases, the queue and the idempotency table. A partitioned table is the list of its
  partitions with their bounds; creating one fails if it would overlap another, as in PostgreSQL. Days are
  counted from 1970-01-01 and the Gregorian calendar of \<^verbatim>\<open>time.Format\<close> and \<^verbatim>\<open>time.Parse\<close> is modelled for
  the layout \<^verbatim>\<open>20060102\<close>.
\<close>

section \<open>The calendar\<close>

definition leap :: "nat \<Rightarrow> bool" where
  "leap y \<longleftrightarrow> 4 dvd y \<and> \<not> 100 dvd y \<or> 400 dvd y"

definition year_len :: "nat \<Rightarrow> nat" where
  "year_len y = (if leap y then 366 else 365)"

definition month_lens :: "nat \<Rightarrow> nat list" where
  "month_lens y = [31, if leap y then 29 else 28, 31, 30, 31, 30, 31, 31, 30, 31, 30, 31]"

lemma year_len_pos: "0 < year_len y" by (simp add: year_len_def)

function civil_year :: "nat \<Rightarrow> nat \<Rightarrow> nat \<times> nat" where
  "civil_year y n = (if n < year_len y then (y, n) else civil_year (y + 1) (n - year_len y))"
  by auto
termination
proof (relation "measure snd")
  fix y n
  assume "\<not> n < year_len y"
  then show "((y + 1, n - year_len y), y, n) \<in> measure snd" using year_len_pos [of y] by simp
qed simp

declare civil_year.simps [simp del]

fun civil_month :: "nat \<Rightarrow> nat list \<Rightarrow> nat \<Rightarrow> nat \<times> nat" where
  "civil_month m [] n = (m, n + 1)"
| "civil_month m (l # ls) n = (if n < l then (m, n + 1) else civil_month (m + 1) ls (n - l))"

text \<open>Year, month and day of a day from 1970 on; and the day of a date.\<close>

definition civil :: "nat \<Rightarrow> nat \<times> nat \<times> nat" where
  "civil n = (case civil_year 1970 n of (y, k) \<Rightarrow> (y, civil_month 1 (month_lens y) k))"

definition days_before_year :: "nat \<Rightarrow> int" where
  "days_before_year y = int (sum_list (map year_len [1970..<y])) - int (sum_list (map year_len [y..<1970]))"

definition day_number :: "nat \<Rightarrow> nat \<Rightarrow> nat \<Rightarrow> int" where
  "day_number y m d = days_before_year y + int (sum_list (take (m - 1) (month_lens y))) + int d - 1"

definition two_digits :: "nat \<Rightarrow> string" where
  "two_digits n = [digit_char (n div 10), digit_char (n mod 10)]"

text \<open>\<^verbatim>\<open>Format("20060102")\<close>: at least four digits of the year.\<close>

definition format_day :: "nat \<Rightarrow> string" where
  "format_day n = (case civil n of (y, m, d) \<Rightarrow>
     (if y < 10000 then two_digits (y div 100) @ two_digits (y mod 100) else nat_digits y) @ two_digits m @ two_digits d)"

definition digit_val :: "char \<Rightarrow> nat option" where
  "digit_val c = (let n = of_char c in if 48 \<le> n \<and> n \<le> (57::nat) then Some (n - 48) else None)"

fun parse_two :: "string \<Rightarrow> nat option" where
  "parse_two [a, b] = (case (digit_val a, digit_val b) of (Some x, Some y) \<Rightarrow> Some (10 * x + y) | _ \<Rightarrow> None)"
| "parse_two _ = None"

text \<open>\<^verbatim>\<open>Parse("20060102", s)\<close> on eight characters: the day, \<open>None\<close> for an error.\<close>

definition parse_day :: "string \<Rightarrow> int option" where
  "parse_day s = (case (parse_two (take 2 s), parse_two (take 2 (drop 2 s)), parse_two (take 2 (drop 4 s)), parse_two (drop 6 s)) of
      (Some c, Some yy, Some m, Some d) \<Rightarrow>
        (let y = 100 * c + yy in
         if 1 \<le> m \<and> m \<le> 12 \<and> 1 \<le> d \<and> d \<le> month_lens y ! (m - 1) then Some (day_number y m d) else None)
    | _ \<Rightarrow> None)"

section \<open>maintenance\_repo.go\<close>

definition TableMessage :: string where "TableMessage = ''message''"
definition TableDeliveryAttempt :: string where "TableDeliveryAttempt = ''delivery_attempt''"

text \<open>A partition of a table, with the days it covers: from the first, up to and without the second.\<close>

record partition =
  pt_Table :: string
  pt_Name :: string
  pt_From :: int
  pt_To :: int

record mtdb =
  mt_parts :: "partition list"
  mt_faults :: "bool list"

record PartitionSpec =
  ps_Table :: string
  ps_Name :: string
  ps_Day :: int

definition mt_exec :: "mtdb \<Rightarrow> bool \<times> mtdb" where
  "mt_exec d = (case mt_faults d of [] \<Rightarrow> (True, d) | f # fs \<Rightarrow> (\<not> f, d\<lparr>mt_faults := fs\<rparr>))"

definition checkPartitionedTable :: "string \<Rightarrow> bool" where
  "checkPartitionedTable table \<longleftrightarrow> table = TableMessage \<or> table = TableDeliveryAttempt"

definition partitionName :: "string \<Rightarrow> int \<Rightarrow> string" where
  "partitionName table day = table @ ''_'' @ format_day (nat day)"

definition partitionDay :: "string \<Rightarrow> string \<Rightarrow> int option" where
  "partitionDay table name =
    (let prefix = table @ ''_'' in
     if length name \<noteq> length prefix + 8 \<or> take (length prefix) name \<noteq> prefix then None else parse_day (drop (length prefix) name))"

fun quote_body :: "string \<Rightarrow> string" where
  "quote_body [] = [CHR 0x22]"
| "quote_body (c # cs) = (if c = CHR 0x22 then [CHR 0x22, CHR 0x22] else [c]) @ quote_body cs"

definition quoteIdent :: "string \<Rightarrow> string" where
  "quoteIdent name = CHR 0x22 # quote_body name"

text \<open>\<^verbatim>\<open>CREATE TABLE IF NOT EXISTS ... PARTITION OF ... FOR VALUES FROM ... TO\<close>, of one day.\<close>

definition create_partition :: "string \<Rightarrow> int \<Rightarrow> mtdb \<Rightarrow> bool \<times> mtdb" where
  "create_partition table day d = (case mt_exec d of
      (False, d) \<Rightarrow> (False, d)
    | (True, d) \<Rightarrow>
       if list_ex (\<lambda>p. pt_Name p = partitionName table day) (mt_parts d) then (True, d)
       else if list_ex (\<lambda>p. pt_Table p = table \<and> pt_From p < day + 1 \<and> day < pt_To p) (mt_parts d) then (False, d)
       else (True, d\<lparr>mt_parts := mt_parts d @ [\<lparr>pt_Table = table, pt_Name = partitionName table day, pt_From = day, pt_To = day + 1\<rparr>]\<rparr>))"

fun ensure_loop :: "string \<Rightarrow> int list \<Rightarrow> PartitionSpec list \<Rightarrow> mtdb \<Rightarrow> bool \<times> PartitionSpec list \<times> mtdb" where
  "ensure_loop table [] created d = (True, created, d)"
| "ensure_loop table (day # days) created d = (case create_partition table day d of
     (False, d) \<Rightarrow> (False, created, d)
   | (True, d) \<Rightarrow> ensure_loop table days (created @ [\<lparr>ps_Table = table, ps_Name = partitionName table day, ps_Day = day\<rparr>]) d)"

definition EnsureDailyPartitions :: "time \<Rightarrow> string \<Rightarrow> int \<Rightarrow> mtdb \<Rightarrow> bool \<times> PartitionSpec list \<times> mtdb" where
  "EnsureDailyPartitions now table ahead d =
    (if \<not> checkPartitionedTable table then (False, [], d)
     else ensure_loop table (map (\<lambda>i. now div (24 * Hour) + i) [0..(if ahead < 0 then 0 else ahead)]) [] d)"

definition ListPartitions :: "string \<Rightarrow> mtdb \<Rightarrow> PartitionSpec list option \<times> mtdb" where
  "ListPartitions table d =
    (if \<not> checkPartitionedTable table then (None, d)
     else case mt_exec d of
       (False, d) \<Rightarrow> (None, d)
     | (True, d) \<Rightarrow> (Some (List.map_filter (\<lambda>p. map_option (\<lambda>day. \<lparr>ps_Table = table, ps_Name = pt_Name p, ps_Day = day\<rparr>) (partitionDay table (pt_Name p)))
           (sort_key pt_Name (filter (\<lambda>p. pt_Table p = table) (mt_parts d)))), d))"

fun drop_loop :: "int \<Rightarrow> PartitionSpec list \<Rightarrow> PartitionSpec list \<Rightarrow> mtdb \<Rightarrow> bool \<times> PartitionSpec list \<times> mtdb" where
  "drop_loop cutoffDay [] dropped d = (True, dropped, d)"
| "drop_loop cutoffDay (spec # specs) dropped d =
    (if \<not> ps_Day spec < cutoffDay then drop_loop cutoffDay specs dropped d
     else case mt_exec d of
       (False, d) \<Rightarrow> (False, dropped, d)
     | (True, d) \<Rightarrow> drop_loop cutoffDay specs (dropped @ [spec]) (d\<lparr>mt_parts := filter (\<lambda>p. pt_Name p \<noteq> ps_Name spec) (mt_parts d)\<rparr>))"

definition DropPartitionsBefore :: "string \<Rightarrow> time \<Rightarrow> mtdb \<Rightarrow> bool \<times> PartitionSpec list \<times> mtdb" where
  "DropPartitionsBefore table cutoff d =
    (if \<not> checkPartitionedTable table then (False, [], d)
     else case ListPartitions table d of
       (None, d) \<Rightarrow> (False, [], d)
     | (Some existing, d) \<Rightarrow> drop_loop (cutoff div (24 * Hour)) existing [] d)"

section \<open>loop.go\<close>

record maint_opts =
  mn_OwnerID :: string
  mn_Pools :: "string list"
  mn_RescueInterval :: duration
  mn_PartitionInterval :: duration
  mn_StatsInterval :: duration
  mn_LeaseTTL :: duration
  mn_PartitionsAhead :: int
  mn_MessageRetentionDays :: int
  mn_AttemptRetentionDays :: int

definition not_positive_or :: "int \<Rightarrow> int \<Rightarrow> int" where
  "not_positive_or d x = (if x \<le> 0 then d else x)"

text \<open>\<^verbatim>\<open>New\<close>: the owner must be named, and every option has a default.\<close>

definition maint_New :: "maint_opts \<Rightarrow> maint_opts option" where
  "maint_New o' =
    (if mn_OwnerID o' = [] then None
     else Some (o'\<lparr>mn_RescueInterval := not_positive_or (30 * Second) (mn_RescueInterval o'), mn_PartitionInterval := not_positive_or Hour (mn_PartitionInterval o'),
       mn_StatsInterval := not_positive_or (15 * Second) (mn_StatsInterval o'), mn_LeaseTTL := not_positive_or (30 * Second) (mn_LeaseTTL o'),
       mn_PartitionsAhead := not_positive_or 7 (mn_PartitionsAhead o'), mn_MessageRetentionDays := not_positive_or 90 (mn_MessageRetentionDays o'),
       mn_AttemptRetentionDays := not_positive_or 90 (mn_AttemptRetentionDays o')\<rparr>))"

definition LeaseName :: string where "LeaseName = ''maintenance''"

text \<open>The databases the loop works on, and its belief to be the leader.\<close>

record maint =
  mm_leases :: ldb
  mm_queue :: pg
  mm_idem :: "idemdb option"
  mm_tables :: mtdb
  mm_leader :: bool

definition acquireLeadership :: "maint_opts \<Rightarrow> maint \<Rightarrow> bool \<times> maint" where
  "acquireLeadership o' m = (case AcquireNamedLease LeaseName (mn_OwnerID o') (mn_LeaseTTL o') (mm_leases m) of
      (Inl e, l) \<Rightarrow> (False, m\<lparr>mm_leases := l, mm_leader := False\<rparr>)
    | (Inr acquired, l) \<Rightarrow> (acquired, m\<lparr>mm_leases := l, mm_leader := acquired\<rparr>))"

definition releaseLeadership :: "maint_opts \<Rightarrow> maint \<Rightarrow> maint" where
  "releaseLeadership o' m = (if \<not> mm_leader m then m
     else m\<lparr>mm_leases := snd (ReleaseNamedLease LeaseName (mn_OwnerID o') (mm_leases m)), mm_leader := False\<rparr>)"

definition rescueStuckTasks :: "maint \<Rightarrow> maint" where
  "rescueStuckTasks m = m\<lparr>mm_queue := snd (RescueStuck (mm_queue m))\<rparr>"

definition reapDeadWorkers :: "maint_opts \<Rightarrow> maint \<Rightarrow> maint" where
  "reapDeadWorkers o' m = m\<lparr>mm_leases := snd (ReapDeadWorkers (mn_LeaseTTL o') (mm_leases m))\<rparr>"

definition purgeIdempotencyKeys :: "stmt_fault \<Rightarrow> maint \<Rightarrow> maint" where
  "purgeIdempotencyKeys f m = m\<lparr>mm_idem := map_option (PurgeExpired f) (mm_idem m)\<rparr>"

text \<open>One table of \<^verbatim>\<open>managePartitions\<close>: create ahead, then drop what is past retention.\<close>

definition manage_table :: "time \<Rightarrow> int \<Rightarrow> string \<times> int \<Rightarrow> mtdb \<Rightarrow> mtdb" where
  "manage_table now ahead t d = (case t of (table, retention) \<Rightarrow>
    (case EnsureDailyPartitions now table ahead d of
       (False, _, d) \<Rightarrow> d
     | (True, _, d) \<Rightarrow> snd (snd (DropPartitionsBefore table (now - retention * (24 * Hour)) d))))"

definition managePartitions :: "time \<Rightarrow> maint_opts \<Rightarrow> maint \<Rightarrow> maint" where
  "managePartitions now o' m = m\<lparr>mm_tables := fold (manage_table now (mn_PartitionsAhead o'))
     [(TableMessage, mn_MessageRetentionDays o'), (TableDeliveryAttempt, mn_AttemptRetentionDays o')] (mm_tables m)\<rparr>"

text \<open>The cases of the loop's select. The metrics of the statistics tick are not modelled; it reads only.\<close>

datatype maint_event = RescueTick stmt_fault | PartitionTick time | StatsTick | LoopDone

fun maint_step :: "maint_opts \<Rightarrow> maint_event \<Rightarrow> maint \<Rightarrow> maint" where
  "maint_step o' (RescueTick f) m = (case acquireLeadership o' m of
     (False, m) \<Rightarrow> m
   | (True, m) \<Rightarrow> purgeIdempotencyKeys f (reapDeadWorkers o' (rescueStuckTasks m)))"
| "maint_step o' (PartitionTick now) m = (case acquireLeadership o' m of
     (False, m) \<Rightarrow> m
   | (True, m) \<Rightarrow> managePartitions now o' m)"
| "maint_step o' StatsTick m = m\<lparr>mm_queue := snd (Stats (mn_Pools o') (mm_queue m))\<rparr>"
| "maint_step o' LoopDone m = releaseLeadership o' m"

text \<open>Before its timers start, the loop makes one partition pass.\<close>

definition maint_start :: "time \<Rightarrow> maint_opts \<Rightarrow> maint \<Rightarrow> maint" where
  "maint_start now o' m = maint_step o' (PartitionTick now) m"

section \<open>Names and days\<close>

lemma civil_year_spec:
  "civil_year y n = (y', k) \<Longrightarrow> k < year_len y' \<and> y \<le> y' \<and> n = sum_list (map year_len [y..<y']) + k"
proof (induction y n rule: civil_year.induct)
  case (1 y n)
  show ?case
  proof (cases "n < year_len y")
    case True
    then show ?thesis using "1.prems" by (simp add: civil_year.simps [of y n])
  next
    case False
    then have eq: "civil_year (y + 1) (n - year_len y) = (y', k)" using "1.prems" by (simp add: civil_year.simps [of y n])
    from "1.IH" [OF False eq] have "k < year_len y' \<and> y + 1 \<le> y' \<and> n - year_len y = sum_list (map year_len [y + 1..<y']) + k" .
    moreover from this have "[y..<y'] = y # [y + 1..<y']" by (simp add: upt_conv_Cons)
    ultimately show ?thesis using False by simp linarith
  qed
qed

lemma civil_month_spec:
  "n < sum_list ls \<Longrightarrow> civil_month m ls n = (m', d) \<Longrightarrow>
   \<exists>i < length ls. m' = m + i \<and> 1 \<le> d \<and> d \<le> ls ! i \<and> n + 1 = sum_list (take i ls) + d"
proof (induction ls arbitrary: m n)
  case (Cons l ls)
  show ?case
  proof (cases "n < l")
    case True
    then show ?thesis using Cons.prems by (intro exI [of _ 0]) auto
  next
    case False
    then have less: "n - l < sum_list ls" using Cons.prems(1) by simp
    from False obtain i where "i < length ls" "m' = m + 1 + i" "1 \<le> d" "d \<le> ls ! i" "n - l + 1 = sum_list (take i ls) + d"
      using Cons.IH [of "n - l" "m + 1"] Cons.prems less by auto
    then show ?thesis using False by (intro exI [of _ "Suc i"]) auto
  qed
qed simp

lemma sum_month_lens: "sum_list (month_lens y) = year_len y"
  by (simp add: month_lens_def year_len_def)

lemma civil_spec:
  assumes "civil n = (y, m, d)"
  shows "1 \<le> m" "m \<le> 12" "1 \<le> d" "d \<le> month_lens y ! (m - 1)" "day_number y m d = int n" "1970 \<le> y"
proof -
  obtain k where k: "civil_year 1970 n = (y, k)" "civil_month 1 (month_lens y) k = (m, d)" using assms by (auto simp: civil_def split: prod.splits)
  note y = civil_year_spec [OF k(1)]
  then obtain i where i: "i < length (month_lens y)" "m = 1 + i" "1 \<le> d" "d \<le> month_lens y ! i" "k + 1 = sum_list (take i (month_lens y)) + d"
    using civil_month_spec [OF _ k(2)] sum_month_lens by metis
  show "1 \<le> m" "m \<le> 12" "1 \<le> d" "d \<le> month_lens y ! (m - 1)" "1970 \<le> y" using i y by (auto simp: month_lens_def)
  show "day_number y m d = int n" using i y by (simp add: day_number_def days_before_year_def)
qed

lemma digit_val_char: "n < 10 \<Longrightarrow> digit_val (digit_char n) = Some n"
  by (auto simp: digit_val_def digit_char_def Let_def of_char_of)

lemma parse_two_digits: "n < 100 \<Longrightarrow> parse_two (two_digits n) = Some n"
  by (simp add: two_digits_def digit_val_char)

lemma length_two_digits [simp]: "length (two_digits n) = 2" by (simp add: two_digits_def)

lemma parse_format_day:
  assumes "fst (civil n) < 10000"
  shows "parse_day (format_day n) = Some (int n)" and "length (format_day n) = 8"
proof -
  obtain y m d where c: "civil n = (y, m, d)" by (cases "civil n") auto
  note s = civil_spec [OF c]
  have y: "y < 10000" using assms c by simp
  have "set (month_lens y) \<subseteq> {..31}" "m - 1 < length (month_lens y)" using s(1,2) by (auto simp: month_lens_def)
  then have "month_lens y ! (m - 1) \<le> 31" using nth_mem by blast
  then have md: "m < 100" "d < 100" using s(2,4) by linarith+
  have f: "format_day n = two_digits (y div 100) @ two_digits (y mod 100) @ two_digits m @ two_digits d" using y by (simp add: format_day_def c)
  have year: "100 * (y div 100) + y mod 100 = y" "y div 100 < 100" "y mod 100 < 100" using y by auto
  show "parse_day (format_day n) = Some (int n)"
    unfolding parse_day_def f using s(1-5) md year by (simp add: parse_two_digits)
  show "length (format_day n) = 8" by (simp add: f)
qed

lemma partition_name_roundtrip:
  assumes "0 \<le> day" and "fst (civil (nat day)) < 10000"
  shows "partitionDay table (partitionName table day) = Some day"
  using parse_format_day [OF assms(2)] assms(1) by (simp add: partitionDay_def partitionName_def)

text \<open>A quoted identifier reads back as the name, so no name can end its quotation.\<close>

fun unquote_body :: "string \<Rightarrow> (string \<times> string) option" where
  "unquote_body [] = None"
| "unquote_body (c # cs) = (if c \<noteq> CHR 0x22 then map_option (\<lambda>(n, rest). (c # n, rest)) (unquote_body cs)
     else case cs of
       d # ds \<Rightarrow> if d = CHR 0x22 then map_option (\<lambda>(n, rest). (CHR 0x22 # n, rest)) (unquote_body ds) else Some ([], cs)
     | [] \<Rightarrow> Some ([], []))"

lemma quoteIdent_roundtrip:
  assumes "rest = [] \<or> hd rest \<noteq> CHR 0x22"
  shows "unquote_body (tl (quoteIdent name) @ rest) = Some (name, rest)"
proof -
  have "unquote_body (quote_body name @ rest) = Some (name, rest)" using assms by (induction name) (auto split: list.splits)
  then show ?thesis by (simp add: quoteIdent_def)
qed

section \<open>Retention\<close>

lemma mt_exec_frame: "mt_exec d = (ok, d') \<Longrightarrow> mt_parts d' = mt_parts d \<and> (mt_faults d = [] \<longrightarrow> ok \<and> mt_faults d' = [])"
  by (auto simp: mt_exec_def split: list.splits)

lemma create_keeps: "create_partition table day d = (ok, d') \<Longrightarrow> set (mt_parts d) \<subseteq> set (mt_parts d')"
  by (auto simp: create_partition_def split: prod.splits bool.splits if_splits dest: mt_exec_frame)

lemma ensure_keeps: "ensure_loop table days created d = (ok, specs, d') \<Longrightarrow> set (mt_parts d) \<subseteq> set (mt_parts d')"
  by (induction days arbitrary: created d) (auto split: prod.splits bool.splits dest!: create_keeps)

lemma create_distinct: "create_partition table day d = (ok, d') \<Longrightarrow> distinct (map pt_Name (mt_parts d)) \<Longrightarrow> distinct (map pt_Name (mt_parts d'))"
  by (auto simp: create_partition_def mt_exec_def list_ex_iff split: list.splits bool.splits if_splits) blast+

lemma ensure_distinct: "ensure_loop table days created d = (ok, specs, d') \<Longrightarrow> distinct (map pt_Name (mt_parts d)) \<Longrightarrow> distinct (map pt_Name (mt_parts d'))"
  by (induction days arbitrary: created d) (auto split: prod.splits bool.splits dest!: create_distinct)

lemma drop_loop_parts:
  "drop_loop lim specs dropped d = (ok, dropped', d') \<Longrightarrow>
   (\<forall>p \<in> set (mt_parts d). p \<in> set (mt_parts d') \<or> (\<exists>s \<in> set specs. ps_Day s < lim \<and> ps_Name s = pt_Name p)) \<and>
   set (mt_parts d') \<subseteq> set (mt_parts d) \<and> (ok \<longrightarrow> (\<forall>p \<in> set (mt_parts d'). \<forall>s \<in> set specs. ps_Day s < lim \<longrightarrow> ps_Name s \<noteq> pt_Name p)) \<and>
   (mt_faults d = [] \<longrightarrow> ok \<and> mt_faults d' = []) \<and> (distinct (map pt_Name (mt_parts d)) \<longrightarrow> distinct (map pt_Name (mt_parts d')))"
proof (induction specs arbitrary: dropped d)
  case (Cons s specs)
  show ?case
  proof (cases "ps_Day s < lim")
    case False
    then show ?thesis using Cons.IH Cons.prems by auto
  next
    case True
    obtain ok1 d1 where e: "mt_exec d = (ok1, d1)" by fastforce
    note f = mt_exec_frame [OF e]
    show ?thesis
    proof (cases ok1)
      case False
      then show ?thesis using Cons.prems True e f by auto
    next
      case ok1: True
      let ?d2 = "d1\<lparr>mt_parts := filter (\<lambda>p. pt_Name p \<noteq> ps_Name s) (mt_parts d1)\<rparr>"
      have "drop_loop lim specs (dropped @ [s]) ?d2 = (ok, dropped', d')" using Cons.prems True e ok1 by simp
      note IH = Cons.IH [OF this]
      show ?thesis using IH True f by (auto simp: distinct_map_filter)
    qed
  qed
qed simp

lemma listed:
  assumes "ListPartitions table d = (Some specs, d')"
  shows "mt_parts d' = mt_parts d" and "mt_faults d = [] \<Longrightarrow> mt_faults d' = []"
    and "s \<in> set specs \<longleftrightarrow> (\<exists>p \<in> set (mt_parts d). pt_Table p = table \<and> partitionDay table (pt_Name p) = Some (ps_Day s) \<and> s = \<lparr>ps_Table = table, ps_Name = pt_Name p, ps_Day = ps_Day s\<rparr>)"
proof -
  have ex: "mt_exec d = (True, d')" and specs: "specs = List.map_filter (\<lambda>p. map_option (\<lambda>day. \<lparr>ps_Table = table, ps_Name = pt_Name p, ps_Day = day\<rparr>) (partitionDay table (pt_Name p)))
      (sort_key pt_Name (filter (\<lambda>p. pt_Table p = table) (mt_parts d')))"
    using assms by (auto simp: ListPartitions_def split: if_splits prod.splits bool.splits)
  show p: "mt_parts d' = mt_parts d" and "mt_faults d = [] \<Longrightarrow> mt_faults d' = []" using mt_exec_frame [OF ex] by auto
  show "s \<in> set specs \<longleftrightarrow> (\<exists>p \<in> set (mt_parts d). pt_Table p = table \<and> partitionDay table (pt_Name p) = Some (ps_Day s) \<and> s = \<lparr>ps_Table = table, ps_Name = pt_Name p, ps_Day = ps_Day s\<rparr>)"
    unfolding specs p by (force simp: List.map_filter_def)
qed

lemma Ensure_loop:
  assumes "EnsureDailyPartitions now table ahead d = (ok, specs, d')"
  shows "\<not> checkPartitionedTable table \<and> \<not> ok \<and> d' = d \<or> checkPartitionedTable table \<and>
    ensure_loop table (map (\<lambda>i. now div (24 * Hour) + i) [0..(if ahead < 0 then 0 else ahead)]) [] d = (ok, specs, d')"
  using assms unfolding EnsureDailyPartitions_def by (cases "checkPartitionedTable table") simp_all

lemma Ensure_keeps:
  assumes "EnsureDailyPartitions now table ahead d = (ok, specs, d')"
  shows "set (mt_parts d) \<subseteq> set (mt_parts d')" and "distinct (map pt_Name (mt_parts d)) \<Longrightarrow> distinct (map pt_Name (mt_parts d'))"
  using Ensure_loop [OF assms] ensure_keeps ensure_distinct by (blast, metis)

text \<open>What a pass over one table may remove.\<close>

definition past_retention :: "time \<Rightarrow> string \<times> int \<Rightarrow> partition \<Rightarrow> bool" where
  "past_retention now t p \<longleftrightarrow> pt_Table p = fst t \<and> (\<exists>day. partitionDay (fst t) (pt_Name p) = Some day \<and> day < now div (24 * Hour) - snd t)"

lemma cutoff_day: "(now - r * (24 * Hour)) div (24 * Hour) = now div (24 * Hour) - (r::int)"
proof -
  have "(now + (- r) * (24 * Hour)) div (24 * Hour) = - r + now div (24 * Hour)" by (rule div_mult_self1) simp
  then show ?thesis by simp
qed

lemma drop_safe:
  assumes "distinct (map pt_Name (mt_parts d))" and "p \<in> set (mt_parts d)" and "\<not> past_retention now (table, r) p"
    and "d' = snd (snd (DropPartitionsBefore table (now - r * (24 * Hour)) d))"
  shows "p \<in> set (mt_parts d') \<and> distinct (map pt_Name (mt_parts d'))"
proof -
  let ?cut = "now - r * (24 * Hour)"
  obtain o' d2 where l: "ListPartitions table d = (o', d2)" by fastforce
  show ?thesis
  proof (cases o')
    case None
    then show ?thesis using assms(1,2) l
      by (auto simp: assms(4) DropPartitionsBefore_def ListPartitions_def split: if_splits prod.splits bool.splits dest: mt_exec_frame)
  next
    case (Some existing)
    obtain ok' dr d3 where dl: "drop_loop (?cut div (24 * Hour)) existing [] d2 = (ok', dr, d3)" by (cases "drop_loop (?cut div (24 * Hour)) existing [] d2") auto
    note L = listed [OF l [unfolded Some]] and D = drop_loop_parts [OF dl]
    have uniq: "q = p" if "q \<in> set (mt_parts d)" "pt_Name q = pt_Name p" for q using that assms(1,2) by (auto simp: distinct_map inj_on_def)
    have "p \<in> set (mt_parts d3)"
    proof (rule ccontr)
      assume "p \<notin> set (mt_parts d3)"
      then obtain s where s: "s \<in> set existing" "ps_Day s < ?cut div (24 * Hour)" "ps_Name s = pt_Name p" using D L(1) assms(2) by auto
      then obtain q where "q \<in> set (mt_parts d)" "pt_Table q = table" "partitionDay table (pt_Name q) = Some (ps_Day s)" "pt_Name q = pt_Name p"
        using L(3) by (metis PartitionSpec.select_convs(2))
      then show False using uniq assms(3) s(2) by (auto simp: past_retention_def cutoff_day)
    qed
    moreover have "d' = d3" using l Some dl by (simp add: assms(4) DropPartitionsBefore_def ListPartitions_def split: if_splits)
    ultimately show ?thesis using D L(1) assms(1) by simp
  qed
qed

lemma manage_table_safe:
  assumes "distinct (map pt_Name (mt_parts d))" and "p \<in> set (mt_parts d)" and "\<not> past_retention now t p"
  shows "p \<in> set (mt_parts (manage_table now ahead t d)) \<and> distinct (map pt_Name (mt_parts (manage_table now ahead t d)))"
proof -
  obtain table r where t: "t = (table, r)" by (cases t)
  obtain ok specs d1 where e: "EnsureDailyPartitions now table ahead d = (ok, specs, d1)" by (cases "EnsureDailyPartitions now table ahead d") auto
  have p1: "p \<in> set (mt_parts d1)" "distinct (map pt_Name (mt_parts d1))" using Ensure_keeps [OF e] assms(1,2) by auto
  show ?thesis using p1 drop_safe [OF p1(2,1) assms(3) [unfolded t] refl] by (cases ok) (simp_all add: manage_table_def t e)
qed

text \<open>A partition as the repository makes them, of a day whose year has four digits.\<close>

definition daily :: "string \<Rightarrow> int \<Rightarrow> partition" where
  "daily table day = \<lparr>pt_Table = table, pt_Name = partitionName table day, pt_From = day, pt_To = day + 1\<rparr>"

definition day_ok :: "int \<Rightarrow> bool" where
  "day_ok day \<longleftrightarrow> 0 \<le> day \<and> fst (civil (nat day)) < 10000"

text \<open>Days up to the year 9994 or so qualify.\<close>

lemma day_ok_before_10000:
  assumes "0 \<le> day" and "day < 8030 * 365"
  shows "day_ok day"
proof -
  obtain y k where y: "civil_year 1970 (nat day) = (y, k)" by fastforce
  note s = civil_year_spec [OF y]
  have "365 * length ys \<le> sum_list (map year_len ys)" for ys by (induction ys) (auto simp: year_len_def)
  from this [of "[1970..<y]"] have "365 * (y - 1970) \<le> nat day" using s by simp
  then have "y < 10000" using assms s by linarith
  then show ?thesis using assms(1) y by (simp add: day_ok_def civil_def)
qed

definition all_daily :: "mtdb \<Rightarrow> bool" where
  "all_daily d \<longleftrightarrow> mt_faults d = [] \<and> distinct (map pt_Name (mt_parts d)) \<and>
     (\<forall>p \<in> set (mt_parts d). \<exists>table day. checkPartitionedTable table \<and> day_ok day \<and> p = daily table day)"

lemma partitionName_inject:
  assumes "checkPartitionedTable t" "checkPartitionedTable t'" "day_ok day" "day_ok day'" "partitionName t day = partitionName t' day'"
  shows "t = t' \<and> day = day'"
proof -
  have "t = t'" using assms(1,2,5) by (auto simp: checkPartitionedTable_def TableMessage_def TableDeliveryAttempt_def partitionName_def)
  then show ?thesis using assms(3-5) partition_name_roundtrip [of day t] partition_name_roundtrip [of day' t] by (auto simp: day_ok_def)
qed

lemma create_daily:
  assumes "all_daily d" and "checkPartitionedTable table" and "day_ok day"
  shows "\<exists>d'. create_partition table day d = (True, d') \<and> all_daily d' \<and> set (mt_parts d') = insert (daily table day) (set (mt_parts d))"
proof (cases "list_ex (\<lambda>p. pt_Name p = partitionName table day) (mt_parts d)")
  case True
  then have "daily table day \<in> set (mt_parts d)" using assms partitionName_inject unfolding all_daily_def daily_def list_ex_iff by fastforce
  then show ?thesis using True assms(1) by (auto simp: create_partition_def mt_exec_def all_daily_def)
next
  case False
  have "\<not> list_ex (\<lambda>p. pt_Table p = table \<and> pt_From p < day + 1 \<and> day < pt_To p) (mt_parts d)"
  proof
    assume "list_ex (\<lambda>p. pt_Table p = table \<and> pt_From p < day + 1 \<and> day < pt_To p) (mt_parts d)"
    then obtain p where p: "p \<in> set (mt_parts d)" "pt_Table p = table" "pt_From p < day + 1" "day < pt_To p" by (auto simp: list_ex_iff)
    then obtain t' day' where "p = daily t' day'" using assms(1) by (auto simp: all_daily_def)
    then have "p = daily table day" using p(2-4) by (simp add: daily_def)
    then show False using False p(1) by (auto simp: list_ex_iff daily_def)
  qed
  then have c: "create_partition table day d = (True, d\<lparr>mt_parts := mt_parts d @ [daily table day]\<rparr>)"
    using False assms(1) by (simp add: create_partition_def mt_exec_def all_daily_def daily_def)
  have "pt_Name (daily table day) \<notin> pt_Name ` set (mt_parts d)" using False by (auto simp: list_ex_iff daily_def)
  then have "all_daily (d\<lparr>mt_parts := mt_parts d @ [daily table day]\<rparr>)" using assms by (auto simp: all_daily_def)
  then show ?thesis using c by auto
qed

lemma ensure_daily:
  assumes "all_daily d" and "checkPartitionedTable table" and "\<forall>day \<in> set days. day_ok day"
  shows "\<exists>specs d'. ensure_loop table days created d = (True, specs, d') \<and> all_daily d' \<and> set (mt_parts d') = daily table ` set days \<union> set (mt_parts d)"
  using assms
proof (induction days arbitrary: created d)
  case (Cons day days)
  obtain d1 where d1: "create_partition table day d = (True, d1)" "all_daily d1" "set (mt_parts d1) = insert (daily table day) (set (mt_parts d))"
    using create_daily [OF Cons.prems(1,2), of day] Cons.prems(3) by auto
  obtain specs d2 where "ensure_loop table days (created @ [\<lparr>ps_Table = table, ps_Name = partitionName table day, ps_Day = day\<rparr>]) d1 = (True, specs, d2)"
      "all_daily d2" "set (mt_parts d2) = daily table ` set days \<union> set (mt_parts d1)"
    using Cons.IH [OF d1(2) Cons.prems(2)] Cons.prems(3) by fastforce
  then show ?case using d1 by auto
qed simp

lemma drop_daily:
  assumes "all_daily d" and "checkPartitionedTable table"
  shows "all_daily (snd (snd (DropPartitionsBefore table t d))) \<and>
    (\<forall>p \<in> set (mt_parts (snd (snd (DropPartitionsBefore table t d)))). pt_Table p = table \<longrightarrow>
       (\<forall>day. partitionDay table (pt_Name p) = Some day \<longrightarrow> \<not> day < t div (24 * Hour))) \<and>
    set (mt_parts (snd (snd (DropPartitionsBefore table t d)))) \<subseteq> set (mt_parts d)"
proof -
  have faults: "mt_faults d = []" using assms(1) by (simp add: all_daily_def)
  then obtain existing d2 where l: "ListPartitions table d = (Some existing, d2)" using assms(2) by (simp add: ListPartitions_def mt_exec_def)
  obtain ok dr d3 where dl: "drop_loop (t div (24 * Hour)) existing [] d2 = (ok, dr, d3)" by (cases "drop_loop (t div (24 * Hour)) existing [] d2") auto
  have eq: "snd (snd (DropPartitionsBefore table t d)) = d3" using assms(2) l dl by (simp add: DropPartitionsBefore_def)
  note L = listed [OF l] and D = drop_loop_parts [OF dl]
  have ok: "ok" "mt_faults d3 = []" using D L(2) [OF faults] by auto
  have sub: "set (mt_parts d3) \<subseteq> set (mt_parts d)" using D L(1) by auto
  have "all_daily d3" using assms(1) ok(2) D L(1) sub by (auto simp: all_daily_def)
  moreover have "\<not> day < t div (24 * Hour)" if "p \<in> set (mt_parts d3)" "pt_Table p = table" "partitionDay table (pt_Name p) = Some day" for p day
  proof
    assume less: "day < t div (24 * Hour)"
    let ?s = "\<lparr>ps_Table = table, ps_Name = pt_Name p, ps_Day = day\<rparr>"
    have "?s \<in> set existing" unfolding L(3) using that sub by (intro bexI [of _ p]) auto
    moreover have "\<forall>p \<in> set (mt_parts d3). \<forall>s \<in> set existing. ps_Day s < t div (24 * Hour) \<longrightarrow> ps_Name s \<noteq> pt_Name p" using D ok(1) by simp
    ultimately show False using that(1) less by force
  qed
  ultimately show ?thesis unfolding eq using sub by blast
qed

lemma manage_table_ready:
  assumes "all_daily d" and "checkPartitionedTable table" and "1 \<le> r" and "0 \<le> ahead" and "\<forall>i \<in> {0..ahead}. day_ok (now div (24 * Hour) + i)"
  shows "all_daily (manage_table now ahead (table, r) d) \<and> (\<forall>i \<in> {0..ahead}. daily table (now div (24 * Hour) + i) \<in> set (mt_parts (manage_table now ahead (table, r) d))) \<and>
    (\<forall>p \<in> set (mt_parts (manage_table now ahead (table, r) d)). \<not> past_retention now (table, r) p)"
proof -
  let ?t = "now div (24 * Hour)"
  let ?days = "map (\<lambda>i. ?t + i) [0..ahead]"
  have "\<forall>day \<in> set ?days. day_ok day" using assms(5) by (simp only: set_map ball_simps set_upto) 
  then obtain specs d1 where d1: "ensure_loop table ?days [] d = (True, specs, d1)" "all_daily d1" "set (mt_parts d1) = daily table ` set ?days \<union> set (mt_parts d)"
    using ensure_daily [OF assms(1,2)] by blast
  then have e: "EnsureDailyPartitions now table ahead d = (True, specs, d1)" using assms(2,4) by (simp add: EnsureDailyPartitions_def)
  let ?d' = "manage_table now ahead (table, r) d"
  have d': "?d' = snd (snd (DropPartitionsBefore table (now - r * (24 * Hour)) d1))" by (simp add: manage_table_def e)
  note D = drop_daily [OF d1(2) assms(2), of "now - r * (24 * Hour)", folded d', unfolded cutoff_day]
  have fresh: "daily table (?t + i) \<in> set (mt_parts ?d')" if i: "i \<in> {0..ahead}" for i
  proof -
    have mem: "daily table (?t + i) \<in> set (mt_parts d1)" unfolding d1(3) using i by auto
    have "partitionDay table (pt_Name (daily table (?t + i))) = Some (?t + i)"
      using partition_name_roundtrip assms(5) i by (simp add: daily_def day_ok_def)
    then have np: "\<not> past_retention now (table, r) (daily table (?t + i))" using assms(3) i by (auto simp: past_retention_def)
    have "distinct (map pt_Name (mt_parts d1))" using d1(2) by (simp add: all_daily_def)
    from drop_safe [OF this mem np d'] show ?thesis by blast
  qed
  show ?thesis using D fresh by (auto simp: past_retention_def)
qed

lemma manage_table_other:
  assumes "all_daily d" and "checkPartitionedTable table" and "0 \<le> ahead" and "\<forall>i \<in> {0..ahead}. day_ok (now div (24 * Hour) + i)"
    and "p \<in> set (mt_parts (manage_table now ahead (table, r) d))" and "pt_Table p \<noteq> table"
  shows "p \<in> set (mt_parts d)"
proof -
  let ?days = "map (\<lambda>i. now div (24 * Hour) + i) [0..ahead]"
  have "\<forall>day \<in> set ?days. day_ok day" using assms(4) by (simp only: set_map ball_simps set_upto)
  then obtain specs d1 where d1: "ensure_loop table ?days [] d = (True, specs, d1)" "all_daily d1" "set (mt_parts d1) = daily table ` set ?days \<union> set (mt_parts d)"
    using ensure_daily [OF assms(1,2)] by blast
  then have "EnsureDailyPartitions now table ahead d = (True, specs, d1)" using assms(2,3) by (simp add: EnsureDailyPartitions_def)
  then have "p \<in> set (mt_parts d1)" using assms(5) drop_daily [OF d1(2) assms(2), of "now - r * (24 * Hour)"] by (auto simp: manage_table_def)
  then show ?thesis using assms(6) unfolding d1(3) by (auto simp: daily_def)
qed

text \<open>
  C19: A partition pass keeps what must be kept and prepares what will be written. Whatever fails in it, a partition
  it removes is a daily partition of one of the two tables whose day lies before the retention window of that table.
  And when no statement fails, and the partitions are the repository's own, there is then a partition for today and for each of the days
  ahead, in both tables, so inserts find their partition, and none past its retention is left.
\<close>

theorem partitions_ready:
  assumes "maint_New o0 = Some o'" and "distinct (map pt_Name (mt_parts (mm_tables m)))"
    and "parts' = set (mt_parts (mm_tables (managePartitions now o' m)))"
  shows "(\<forall>p \<in> set (mt_parts (mm_tables m)). p \<in> parts' \<or> past_retention now (TableMessage, mn_MessageRetentionDays o') p \<or>
      past_retention now (TableDeliveryAttempt, mn_AttemptRetentionDays o') p) \<and>
    (all_daily (mm_tables m) \<and> (\<forall>i \<in> {0..mn_PartitionsAhead o'}. day_ok (now div (24 * Hour) + i)) \<longrightarrow>
      (\<forall>i \<in> {0..mn_PartitionsAhead o'}. daily TableMessage (now div (24 * Hour) + i) \<in> parts' \<and> daily TableDeliveryAttempt (now div (24 * Hour) + i) \<in> parts') \<and>
      (\<forall>p \<in> parts'. \<not> past_retention now (TableMessage, mn_MessageRetentionDays o') p \<and> \<not> past_retention now (TableDeliveryAttempt, mn_AttemptRetentionDays o') p))"
proof (intro conjI impI)
  let ?M = "(TableMessage, mn_MessageRetentionDays o')" and ?A = "(TableDeliveryAttempt, mn_AttemptRetentionDays o')" and ?n = "mn_PartitionsAhead o'"
  let ?d = "mm_tables m"
  let ?d1 = "manage_table now ?n ?M ?d"
  have parts: "parts' = set (mt_parts (manage_table now ?n ?A ?d1))" by (simp add: assms(3) managePartitions_def)
  have opts: "1 \<le> mn_MessageRetentionDays o'" "1 \<le> mn_AttemptRetentionDays o'" "0 \<le> ?n"
    using assms(1) by (auto simp: maint_New_def not_positive_or_def split: if_splits)
  show "\<forall>p \<in> set (mt_parts ?d). p \<in> parts' \<or> past_retention now ?M p \<or> past_retention now ?A p"
    unfolding parts using manage_table_safe [OF assms(2)] manage_table_safe [of ?d1] by blast
  assume A: "all_daily ?d \<and> (\<forall>i \<in> {0..?n}. day_ok (now div (24 * Hour) + i))"
  have tables: "checkPartitionedTable TableMessage" "checkPartitionedTable TableDeliveryAttempt" "TableMessage \<noteq> TableDeliveryAttempt"
    by (simp_all add: checkPartitionedTable_def TableMessage_def TableDeliveryAttempt_def)
  note M = manage_table_ready [OF _ tables(1) opts(1,3), of ?d now] and Att = manage_table_ready [OF _ tables(2) opts(2,3), of ?d1 now]
  have d1: "all_daily ?d1" using M A by blast
  have kept: "p \<in> parts'" if "p \<in> set (mt_parts ?d1)" "pt_Table p = TableMessage" for p
    unfolding parts using manage_table_safe [of ?d1 p now ?A] that d1 tables(3) by (auto simp: all_daily_def past_retention_def)
  show "\<forall>i \<in> {0..?n}. daily TableMessage (now div (24 * Hour) + i) \<in> parts' \<and> daily TableDeliveryAttempt (now div (24 * Hour) + i) \<in> parts'"
    using M Att A d1 kept by (auto simp: parts daily_def)
  show "\<forall>p \<in> parts'. \<not> past_retention now ?M p \<and> \<not> past_retention now ?A p"
  proof (intro ballI conjI)
    fix p assume p: "p \<in> parts'"
    then show "\<not> past_retention now ?A p" using Att A d1 unfolding parts by blast
    show "\<not> past_retention now ?M p"
    proof
      assume past: "past_retention now ?M p"
      then have "p \<in> set (mt_parts ?d1)" using manage_table_other [OF d1 tables(2) opts(3) _ p [unfolded parts]] A tables(3) by (simp add: past_retention_def)
      then show False using M A past by blast
    qed
  qed
qed

definition demo_maint :: maint where
  "demo_maint = \<lparr>mm_leases = demo_ldb, mm_queue = demo_pg, mm_idem = None,
     mm_tables = \<lparr>mt_parts = [daily ''message'' 19900, daily ''message'' 20000], mt_faults = []\<rparr>, mm_leader = False\<rparr>"

definition demo_maint_opts :: maint_opts where
  "demo_maint_opts = \<lparr>mn_OwnerID = ''w1'', mn_Pools = [], mn_RescueInterval = 0, mn_PartitionInterval = 0, mn_StatsInterval = 0, mn_LeaseTTL = 0,
     mn_PartitionsAhead = 1, mn_MessageRetentionDays = 0, mn_AttemptRetentionDays = 0\<rparr>"

lemma demo_days: "day_ok 19900" "day_ok 20000" "day_ok 20001"
  by (simp_all add: day_ok_before_10000)

theorem partitions_ready_witness:
  "\<exists>o' parts'. maint_New demo_maint_opts = Some o' \<and> parts' = set (mt_parts (mm_tables (managePartitions (20000 * (24 * Hour)) o' demo_maint))) \<and>
     daily TableMessage 20001 \<in> parts' \<and> daily TableDeliveryAttempt 20000 \<in> parts' \<and> daily TableMessage 20000 \<in> parts' \<and> daily TableMessage 19900 \<notin> parts'"
proof -
  let ?now = "20000 * (24 * Hour)"
  obtain o' where o': "maint_New demo_maint_opts = Some o'" "mn_PartitionsAhead o' = 1" "mn_MessageRetentionDays o' = 90"
    by (simp add: maint_New_def demo_maint_opts_def not_positive_or_def)
  have tables: "mt_parts (mm_tables demo_maint) = [daily TableMessage 19900, daily TableMessage 20000]" "mt_faults (mm_tables demo_maint) = []"
    by (simp_all add: demo_maint_def TableMessage_def)
  have t: "checkPartitionedTable TableMessage" by (simp add: checkPartitionedTable_def)
  have dist: "distinct (map pt_Name (mt_parts (mm_tables demo_maint)))"
    using partitionName_inject [OF t t demo_days(1,2)] by (auto simp: tables daily_def)
  have all: "all_daily (mm_tables demo_maint)" using dist t demo_days by (auto simp: all_daily_def tables)
  have range: "{0..mn_PartitionsAhead o'} = {0, 1}" using o'(2) by auto
  have days: "\<forall>i \<in> {0..mn_PartitionsAhead o'}. day_ok (?now div (24 * Hour) + i)" unfolding range using demo_days by simp
  have past: "past_retention ?now (TableMessage, mn_MessageRetentionDays o') (daily TableMessage 19900)"
    using partition_name_roundtrip [of 19900 TableMessage] demo_days(1) o'(3) by (simp add: past_retention_def daily_def day_ok_def)
  let ?parts = "set (mt_parts (mm_tables (managePartitions ?now o' demo_maint)))"
  note R = partitions_ready [OF o'(1) dist refl, of ?now, THEN conjunct2, THEN mp, OF conjI [OF all days]]
  have "\<forall>i \<in> {0, 1}. daily TableMessage (?now div (24 * Hour) + i) \<in> ?parts \<and> daily TableDeliveryAttempt (?now div (24 * Hour) + i) \<in> ?parts"
    using R [THEN conjunct1] unfolding range .
  then have "daily TableMessage 20001 \<in> ?parts" "daily TableDeliveryAttempt 20000 \<in> ?parts" "daily TableMessage 20000 \<in> ?parts" by simp_all
  moreover have "daily TableMessage 19900 \<notin> ?parts" using R [THEN conjunct2] past by blast
  ultimately show ?thesis using o'(1) by blast
qed

text \<open>
  A message may be given up to 365 days, and the partition it is in is dropped when the configured
  retention of the table is over: here a message to be kept for a year is lost after 90 days.
\<close>

lemma retention_ignores_expiry:
  "past_retention (20000 * (24 * Hour)) (TableMessage, 90) (daily TableMessage 19900) \<and> 19900 * (24 * Hour) + 365 * (24 * Hour) > 20000 * (24 * Hour)"
  using partition_name_roundtrip [of 19900 TableMessage] demo_days(1) by (simp add: past_retention_def daily_def day_ok_def)

section \<open>Leadership\<close>

text \<open>While another process holds the lease, a tick changes none of the tables it is there to clean.\<close>

lemma follower_changes_nothing:
  assumes "find (\<lambda>n. nl_Name n = LeaseName) (ld_named (mm_leases m)) = Some n" and "nl_OwnerID n \<noteq> mn_OwnerID o'"
    and "\<not> nl_HeartbeatAt n < ld_now (mm_leases m) - mn_LeaseTTL o'" and "e \<noteq> StatsTick"
  shows "mm_queue (maint_step o' e m) = mm_queue m \<and> mm_idem (maint_step o' e m) = mm_idem m \<and> mm_tables (maint_step o' e m) = mm_tables m"
proof -
  have "fst (acquireLeadership o' m) = False" "mm_queue (snd (acquireLeadership o' m)) = mm_queue m" "mm_idem (snd (acquireLeadership o' m)) = mm_idem m"
    "mm_tables (snd (acquireLeadership o' m)) = mm_tables m"
    using assms(1-3) by (auto simp: acquireLeadership_def AcquireNamedLease_def ld_query_def ld_exec_def split: list.splits prod.splits)
  then show ?thesis using assms(4) by (cases e; cases "acquireLeadership o' m") (auto simp: releaseLeadership_def)
qed

end
