(* ===== verification/Access.thy ===== *)
theory Access
  imports Complex_Main Ingest Idempotency Lease_Repo
begin

text \<open>
  Who may do what: the principal (\<^verbatim>\<open>authctx/context.go\<close>), the tokens (\<^verbatim>\<open>auth/tokens.go\<close>), the authentication
  middleware and the portal session, the rate limiter with the node registry that feeds it, and the
  chain of middleware the router puts in front of each route (\<^verbatim>\<open>router.go\<close>), with what the
  handlers themselves check. The JWT library, PEM and X.509 parsing, and the token bucket of
  \<^verbatim>\<open>x/time/rate\<close> are parameters.
\<close>

section \<open>authctx\<close>

record Principal =
  pr_OrgID :: string
  pr_AppID :: string
  pr_Portal :: bool

definition ScopedToApp :: "Principal \<Rightarrow> string \<Rightarrow> bool" where
  "ScopedToApp p appID = (if \<not> pr_Portal p then True else pr_AppID p \<noteq> [] \<and> pr_AppID p = appID)"

text \<open>The context of a request carries the principal, or none.\<close>

definition OrgFrom :: "Principal option \<Rightarrow> string" where
  "OrgFrom ctx = (case ctx of None \<Rightarrow> [] | Some p \<Rightarrow> pr_OrgID p)"

section \<open>tokens.go\<close>

definition ScopePortal :: string where "ScopePortal = ''portal''"

definition supportedAlgorithms :: "string \<rightharpoonup> string" where
  "supportedAlgorithms = map_of [('''', ''HS256''), (''HS256'', ''HS256''), (''HS384'', ''HS384''), (''HS512'', ''HS512''),
     (''RS256'', ''RS256''), (''RS384'', ''RS384''), (''RS512'', ''RS512''), (''EDDSA'', ''EdDSA'')]"

record auth_Config =
  ac_Algorithm :: string
  ac_Secret :: string
  ac_PrivateKeyPEM :: string
  ac_PublicKeyPEM :: string
  ac_Issuer :: string

record Claims =
  cm_Subject :: string
  cm_Issuer :: string
  cm_IssuedAt :: "time option"
  cm_NotBefore :: "time option"
  cm_ExpiresAt :: "time option"
  cm_Scope :: string
  cm_OrgID :: string

text \<open>
  The libraries: upper-casing a string with characters outside ASCII, the first block of a PEM text, the X.509 and PKCS
  parsers with the kind of key they found, signing, and \<^verbatim>\<open>ParseWithClaims\<close> (signature under the one accepted
  algorithm, expiry, not-before and issued-at at a time).
\<close>

datatype key_kind = RSAKey | Ed25519Key | OtherKey

record 'k jwt =
  jw_upper :: "string \<Rightarrow> string"
  jw_bytesKey :: "string \<Rightarrow> 'k"
  jw_pem :: "string \<Rightarrow> bytes option"
  jw_pkix :: "bytes \<Rightarrow> (key_kind \<times> 'k) option"
  jw_pkcs1Public :: "bytes \<Rightarrow> 'k option"
  jw_pkcs8 :: "bytes \<Rightarrow> (key_kind \<times> 'k) option"
  jw_pkcs1Private :: "bytes \<Rightarrow> 'k option"
  jw_sign :: "string \<Rightarrow> 'k \<Rightarrow> Claims \<Rightarrow> string option"
  jw_parse :: "string \<Rightarrow> 'k \<Rightarrow> time \<Rightarrow> string \<Rightarrow> Claims option"

record 'k auth_Manager =
  am_method :: string
  am_issuer :: string
  am_signKey :: "'k option"
  am_verifyKey :: 'k

definition ToUpper :: "(string \<Rightarrow> string) \<Rightarrow> string \<Rightarrow> string" where
  "ToUpper upper s = (if list_all (\<lambda>c. (of_char c :: nat) < 128) s
     then map (\<lambda>c. let n = (of_char c :: nat) in if 97 \<le> n \<and> n \<le> 122 then char_of (n - 32) else c) s else upper s)"

definition parsePublicKey :: "'k jwt \<Rightarrow> string \<Rightarrow> 'k option" where
  "parsePublicKey J pemData = (case jw_pem J pemData of
      None \<Rightarrow> None
    | Some block \<Rightarrow> (case jw_pkix J block of
        Some (kind, key) \<Rightarrow> if kind = OtherKey then None else Some key
      | None \<Rightarrow> jw_pkcs1Public J block))"

definition parsePrivateKey :: "'k jwt \<Rightarrow> string \<Rightarrow> 'k option" where
  "parsePrivateKey J pemData = (case jw_pem J pemData of
      None \<Rightarrow> None
    | Some block \<Rightarrow> (case jw_pkcs8 J block of
        Some (kind, key) \<Rightarrow> if kind = OtherKey then None else Some key
      | None \<Rightarrow> jw_pkcs1Private J block))"

definition auth_NewManager :: "'k jwt \<Rightarrow> auth_Config \<Rightarrow> 'k auth_Manager option" where
  "auth_NewManager J cfg = (case supportedAlgorithms (ToUpper (jw_upper J) (TrimSpace (ac_Algorithm cfg))) of
      None \<Rightarrow> None
    | Some algorithm \<Rightarrow>
       if take 2 algorithm = ''HS'' then
         (if ac_Secret cfg = [] then None
          else Some \<lparr>am_method = algorithm, am_issuer = ac_Issuer cfg, am_signKey = Some (jw_bytesKey J (ac_Secret cfg)), am_verifyKey = jw_bytesKey J (ac_Secret cfg)\<rparr>)
       else if ac_PublicKeyPEM cfg = [] then None
       else (case parsePublicKey J (ac_PublicKeyPEM cfg) of
           None \<Rightarrow> None
         | Some verify \<Rightarrow>
            if ac_PrivateKeyPEM cfg = [] then Some \<lparr>am_method = algorithm, am_issuer = ac_Issuer cfg, am_signKey = None, am_verifyKey = verify\<rparr>
            else (case parsePrivateKey J (ac_PrivateKeyPEM cfg) of
                None \<Rightarrow> None
              | Some sign \<Rightarrow> Some \<lparr>am_method = algorithm, am_issuer = ac_Issuer cfg, am_signKey = Some sign, am_verifyKey = verify\<rparr>)))"

text \<open>A numeric date of a token has whole seconds.\<close>

definition NewNumericDate :: "time \<Rightarrow> time option" where
  "NewNumericDate t = Some (t - t mod Second)"

definition issue :: "'k jwt \<Rightarrow> 'k auth_Manager \<Rightarrow> time \<Rightarrow> string \<Rightarrow> string \<Rightarrow> string \<Rightarrow> duration \<Rightarrow> AppError + string \<times> time" where
  "issue J m now subject scope orgID ttl = (case am_signKey m of
      None \<Rightarrow> Inl (NewInternalError ''auth: no signing key configured'')
    | Some key \<Rightarrow>
       (let ttl = (if ttl \<le> 0 then Hour else ttl); expiry = now + ttl;
            claims = \<lparr>cm_Subject = subject, cm_Issuer = am_issuer m, cm_IssuedAt = NewNumericDate now, cm_NotBefore = NewNumericDate now,
              cm_ExpiresAt = NewNumericDate expiry, cm_Scope = scope, cm_OrgID = orgID\<rparr> in
        case jw_sign J (am_method m) key claims of
          None \<Rightarrow> Inl (NewInternalError ''sign token'')
        | Some token \<Rightarrow> Inr (token, expiry)))"

definition IssueOrgToken :: "'k jwt \<Rightarrow> 'k auth_Manager \<Rightarrow> time \<Rightarrow> string \<Rightarrow> duration \<Rightarrow> AppError + string \<times> time" where
  "IssueOrgToken J m now orgID ttl = (if \<not> HasKindPrefix orgID ''org'' then Inl (NewValidationError ''subject must be an organization id'')
     else issue J m now orgID [] [] ttl)"

definition IssuePortalToken :: "'k jwt \<Rightarrow> 'k auth_Manager \<Rightarrow> time \<Rightarrow> string \<Rightarrow> string \<Rightarrow> duration \<Rightarrow> AppError + string \<times> time" where
  "IssuePortalToken J m now appID orgID ttl = (if \<not> HasKindPrefix appID ''app'' then Inl (NewValidationError ''subject must be an application id'')
     else issue J m now appID ScopePortal orgID ttl)"

definition auth_Parse :: "'k jwt \<Rightarrow> 'k auth_Manager \<Rightarrow> time \<Rightarrow> string \<Rightarrow> AppError + Claims" where
  "auth_Parse J m now token = (case jw_parse J (am_method m) (am_verifyKey m) now token of
      None \<Rightarrow> Inl (NewUnauthorizedError ''invalid or expired token'')
    | Some claims \<Rightarrow>
       if cm_Subject claims = [] then Inl (NewUnauthorizedError ''token is missing a subject'')
       else if am_issuer m \<noteq> [] \<and> cm_Issuer claims \<noteq> am_issuer m then Inl (NewUnauthorizedError ''token issuer is not accepted'')
       else if cm_Scope claims = ScopePortal \<and> \<not> HasKindPrefix (cm_Subject claims) ''app''
         then Inl (NewUnauthorizedError ''portal token subject must be an application'')
       else Inr claims)"

section \<open>middleware/auth.go\<close>

definition bearerToken :: "string \<Rightarrow> AppError + string" where
  "bearerToken header =
    (if header = [] then Inl (NewUnauthorizedError ''missing Authorization header'')
     else (let scheme = takeWhile (\<lambda>c. c \<noteq> CHR '' '') header; rest = dropWhile (\<lambda>c. c \<noteq> CHR '' '') header in
       if rest = [] \<or> map lower_char scheme \<noteq> ''bearer'' \<or> TrimSpace (tl rest) = []
       then Inl (NewUnauthorizedError ''expected an Authorization: Bearer <token> header'')
       else Inr (TrimSpace (tl rest))))"

definition principal_of :: "Claims \<Rightarrow> AppError + Principal" where
  "principal_of claims =
    (if cm_Scope claims = ScopePortal then
       (if cm_OrgID claims = [] then Inl (NewUnauthorizedError ''portal token is missing its organization'')
        else Inr \<lparr>pr_OrgID = cm_OrgID claims, pr_AppID = cm_Subject claims, pr_Portal = True\<rparr>)
     else Inr \<lparr>pr_OrgID = cm_Subject claims, pr_AppID = [], pr_Portal = False\<rparr>)"

text \<open>The three guards: the principal a request goes on with, or the error.\<close>

definition RequireAuth :: "(string \<Rightarrow> AppError + Claims) \<Rightarrow> string \<Rightarrow> AppError + Principal" where
  "RequireAuth parse header = (case bearerToken header of
      Inl e \<Rightarrow> Inl e
    | Inr token \<Rightarrow> (case parse token of Inl e \<Rightarrow> Inl e | Inr claims \<Rightarrow> principal_of claims))"

definition RequireAppScope :: "string \<Rightarrow> Principal option \<Rightarrow> AppError option" where
  "RequireAppScope param ctx = (case ctx of
      None \<Rightarrow> Some (NewUnauthorizedError ''authentication required'')
    | Some p \<Rightarrow> if \<not> pr_Portal p then None
        else if \<not> ScopedToApp p param then Some (NewForbiddenError ''this token cannot access that application'') else None)"

definition RequireOrgToken :: "Principal option \<Rightarrow> AppError option" where
  "RequireOrgToken ctx = (case ctx of
      None \<Rightarrow> Some (NewUnauthorizedError ''authentication required'')
    | Some p \<Rightarrow> if pr_Portal p then Some (NewForbiddenError ''a portal token cannot access this resource'') else None)"

section \<open>portal/session.go\<close>

text \<open>What a request to the portal meets: an error, the redirect that moves the token into the cookie, a session, or a panic.\<close>

datatype session_result = SessionError AppError | SetCookie string time | Session string string | NilExpiry

definition sessionToken :: "string option \<Rightarrow> string \<Rightarrow> string \<times> bool" where
  "sessionToken cookie urlToken = (case cookie of
      Some v \<Rightarrow> if v \<noteq> [] then (v, False) else if urlToken \<noteq> [] then (urlToken, True) else ([], False)
    | None \<Rightarrow> if urlToken \<noteq> [] then (urlToken, True) else ([], False))"

definition RequireSession :: "(string \<Rightarrow> AppError + Claims) \<Rightarrow> time \<Rightarrow> string option \<Rightarrow> string \<Rightarrow> session_result" where
  "RequireSession parse now cookie urlToken = (case sessionToken cookie urlToken of (token, fromQuery) \<Rightarrow>
    (if token = [] then SessionError (NewUnauthorizedError ''this portal link is missing its token'')
     else case parse token of
       Inl e \<Rightarrow> SessionError e
     | Inr claims \<Rightarrow>
        if cm_Scope claims \<noteq> ScopePortal then SessionError (NewForbiddenError ''this token cannot open the portal'')
        else if cm_OrgID claims = [] then SessionError (NewUnauthorizedError ''portal token is missing its organization'')
        else if fromQuery then (case cm_ExpiresAt claims of None \<Rightarrow> NilExpiry
           | Some expiry \<Rightarrow> SetCookie token (if time_IsZero expiry then now + 8 * Hour else expiry))
        else Session (cm_OrgID claims) (cm_Subject claims)))"

text \<open>The session of a page, read from the principal that \<open>RequireSession\<close> put on the request.\<close>

definition sessionFrom :: "Principal option \<Rightarrow> AppError + string \<times> string" where
  "sessionFrom ctx = (case ctx of
      None \<Rightarrow> Inl (NewUnauthorizedError ''no portal session'')
    | Some p \<Rightarrow> if \<not> pr_Portal p \<or> pr_AppID p = [] then Inl (NewUnauthorizedError ''no portal session'') else Inr (pr_OrgID p, pr_AppID p))"

section \<open>ratelimit.go and nodes/registry.go\<close>

text \<open>
  A limiter is what \<^verbatim>\<open>x/time/rate\<close> keeps, built from a rate and a burst; \<open>reserve\<close> says whether one token is there now,
  with the wait if not, and \<open>tokens\<close> what is left. The rate is the exact quotient.
\<close>

record RateLimitOptions =
  rl_RequestsPerSecond :: int
  rl_Burst :: int
  rl_IdleEviction :: duration

record 'l keyedLimiter =
  kl_limiter :: 'l
  kl_lastUsed :: time
  kl_share :: rat

record 'l limiterSet =
  ls_opts :: RateLimitOptions
  ls_limiters :: "string \<rightharpoonup> 'l keyedLimiter"
  ls_lastSweep :: time

record 'l bucket =
  bk_new :: "rat \<Rightarrow> int \<Rightarrow> 'l"
  bk_reserve :: "time \<Rightarrow> 'l \<Rightarrow> (duration option \<times> 'l) option"
  bk_cancel :: "time \<Rightarrow> 'l \<Rightarrow> 'l"
  bk_tokens :: "time \<Rightarrow> 'l \<Rightarrow> rat"

definition newLimiterSet :: "RateLimitOptions \<Rightarrow> time \<Rightarrow> 'l limiterSet" where
  "newLimiterSet opts now =
    \<lparr>ls_opts = opts\<lparr>rl_Burst := (if rl_Burst opts \<le> 0 then max 1 (rl_RequestsPerSecond opts) else rl_Burst opts),
       rl_IdleEviction := (if rl_IdleEviction opts \<le> 0 then 10 * Minute else rl_IdleEviction opts)\<rparr>,
     ls_limiters = Map.empty, ls_lastSweep = now\<rparr>"

definition share :: "RateLimitOptions \<Rightarrow> int option \<Rightarrow> rat" where
  "share opts nodes = (let n = (case nodes of None \<Rightarrow> 1 | Some k \<Rightarrow> max k 1) in max (of_int (rl_RequestsPerSecond opts) / of_int n) 1)"

definition sweepLocked :: "time \<Rightarrow> 'l limiterSet \<Rightarrow> 'l limiterSet" where
  "sweepLocked now s =
    (if time_Sub now (ls_lastSweep s) < rl_IdleEviction (ls_opts s) then s
     else s\<lparr>ls_lastSweep := now,
       ls_limiters := (\<lambda>k. case ls_limiters s k of Some e \<Rightarrow> if time_Sub now (kl_lastUsed e) \<ge> rl_IdleEviction (ls_opts s) then None else Some e | None \<Rightarrow> None)\<rparr>)"

text \<open>The answer: allowed, the limit, what remains, and when to come back.\<close>

definition limiter_allow :: "'l bucket \<Rightarrow> time \<Rightarrow> int option \<Rightarrow> string \<Rightarrow> 'l limiterSet \<Rightarrow> (bool \<times> rat \<times> rat \<times> duration) \<times> 'l limiterSet" where
  "limiter_allow B now nodes key s =
    (let sh = share (ls_opts s) nodes;
         entry = (case ls_limiters s key of
           Some e \<Rightarrow> if kl_share e = sh then e else \<lparr>kl_limiter = bk_new B sh (max 1 \<lfloor>sh\<rfloor>), kl_lastUsed = now, kl_share = sh\<rparr>
         | None \<Rightarrow> \<lparr>kl_limiter = bk_new B sh (max 1 \<lfloor>sh\<rfloor>), kl_lastUsed = now, kl_share = sh\<rparr>);
         entry = entry\<lparr>kl_lastUsed := now\<rparr>;
         s = sweepLocked now (s\<lparr>ls_limiters := (ls_limiters s)(key \<mapsto> entry)\<rparr>);
         put = (\<lambda>l. s\<lparr>ls_limiters := (ls_limiters s)(key \<mapsto> entry\<lparr>kl_limiter := l\<rparr>)\<rparr>) in
     case bk_reserve B now (kl_limiter entry) of
       None \<Rightarrow> ((False, sh, 0, Second), s)
     | Some (Some delay, l) \<Rightarrow> ((False, sh, 0, delay), put (bk_cancel B now l))
     | Some (None, l) \<Rightarrow> ((True, sh, bk_tokens B now l, 0), put l))"

definition org_limit_key :: "RateLimitOptions \<Rightarrow> Principal option \<Rightarrow> string option" where
  "org_limit_key opts ctx = (if rl_RequestsPerSecond opts \<le> 0 then None else if OrgFrom ctx = [] then None else Some (OrgFrom ctx))"

definition app_limit_key :: "RateLimitOptions \<Rightarrow> Principal option \<Rightarrow> string \<Rightarrow> string option" where
  "app_limit_key opts ctx app = (if rl_RequestsPerSecond opts \<le> 0 then None else if app = [] then None else Some (OrgFrom ctx @ ''/'' @ app))"

text \<open>
  The headers of the answer (limit, remaining, reset and, when the request is refused, when to retry) and whether the request
  goes on; seconds are rounded to the nearest.
\<close>

definition round_seconds :: "duration \<Rightarrow> int" where
  "round_seconds d = \<lfloor>of_int d / of_int Second + 1 / 2 :: rat\<rfloor>"

definition enforce :: "'l bucket \<Rightarrow> time \<Rightarrow> int option \<Rightarrow> string \<Rightarrow> 'l limiterSet \<Rightarrow> AppError option \<times> (int \<times> int \<times> int \<times> int option) \<times> 'l limiterSet" where
  "enforce B now nodes key s = (case limiter_allow B now nodes key s of ((ok, limit, remaining, reset), s) \<Rightarrow>
     (if ok then None else Some (NewRateLimitError ''rate limit exceeded''),
      (\<lfloor>limit\<rfloor>, \<lfloor>remaining\<rfloor>, round_seconds reset, if ok then None else Some (max 1 (round_seconds reset))), s))"

record Registry =
  ry_NodeID :: string
  ry_Pool :: string
  ry_Version :: string
  ry_Heartbeat :: duration
  ry_TTL :: duration
  ry_count :: int

definition Registry_New :: "string \<Rightarrow> string \<Rightarrow> string \<Rightarrow> duration \<Rightarrow> duration \<Rightarrow> Registry option" where
  "Registry_New nodeID pool version heartbeat ttl =
    (if nodeID = [] then None
     else (let hb = (if heartbeat \<le> 0 then 5 * Second else heartbeat) in
       Some \<lparr>ry_NodeID = nodeID, ry_Pool = (if pool = [] then ''api'' else pool), ry_Version = version, ry_Heartbeat = hb,
         ry_TTL = (if ttl \<le> hb then 3 * hb else ttl), ry_count = 1\<rparr>))"

definition Registry_Nodes :: "Registry \<Rightarrow> int" where
  "Registry_Nodes r = (if ry_count r > 0 then ry_count r else 1)"

definition refresh :: "Registry \<Rightarrow> ldb \<Rightarrow> Registry \<times> ldb" where
  "refresh r d = (case RegisterWorker \<lparr>wk_ID = ry_NodeID r, wk_Pools = [ry_Pool r], wk_Version = ry_Version r, wk_HeartbeatAt = zero_time, wk_CreatedAt = zero_time\<rparr> d of
      (Some e, d) \<Rightarrow> (r, d)
    | (None, d) \<Rightarrow> (case CountLiveWorkers (ry_Pool r) (ry_TTL r) d of
        (Inl e, d) \<Rightarrow> (r, d)
      | (Inr live, d) \<Rightarrow> (r\<lparr>ry_count := max live 1\<rparr>, d)))"

definition deregister :: "Registry \<Rightarrow> ldb \<Rightarrow> ldb" where
  "deregister r d = snd (DeregisterWorker (ry_NodeID r) d)"

text \<open>
  The registry's loop: a refresh at the start and on every tick, and the row removed at the end. A step sees the
  database as others left it.
\<close>

fun Registry_Run :: "(ldb \<Rightarrow> ldb) list \<Rightarrow> Registry \<Rightarrow> ldb \<Rightarrow> Registry \<times> ldb" where
  "Registry_Run [] r d = (case refresh r d of (r, d) \<Rightarrow> (r, deregister r d))"
| "Registry_Run (others # ticks) r d = (case refresh r d of (r, d) \<Rightarrow> Registry_Run ticks r (others d))"

section \<open>router.go\<close>

text \<open>
  The authenticated routes of \<^verbatim>\<open>NewRouter\<close>. Each is under the group that authenticates, limits by organization and
  applies the idempotency middleware, in that order; \<open>rt_appScope\<close> and \<open>rt_orgOnly\<close> are the guards of
  the sub-group, which run after those three; \<open>rt_handlerOrg\<close> says that the handler begins with
  \<^verbatim>\<open>orgToken\<close>. The limit by application and the body limit of the ingest route can only refuse more.
\<close>

datatype segment = Lit string | Param string

record route =
  rt_Method :: string
  rt_Path :: "segment list"
  rt_appScope :: bool
  rt_orgOnly :: bool
  rt_handlerOrg :: bool
  rt_Handler :: string

definition app_route :: "string \<Rightarrow> segment list \<Rightarrow> bool \<Rightarrow> string \<Rightarrow> route" where
  "app_route m path org h = \<lparr>rt_Method = m, rt_Path = [Lit ''app'', Param ''app_id''] @ path, rt_appScope = True, rt_orgOnly = False, rt_handlerOrg = org, rt_Handler = h\<rparr>"

definition tenant_route :: "string \<Rightarrow> segment list \<Rightarrow> bool \<Rightarrow> string \<Rightarrow> route" where
  "tenant_route m path org h = \<lparr>rt_Method = m, rt_Path = path, rt_appScope = False, rt_orgOnly = False, rt_handlerOrg = org, rt_Handler = h\<rparr>"

definition admin_route :: "string \<Rightarrow> segment list \<Rightarrow> string \<Rightarrow> route" where
  "admin_route m path h = \<lparr>rt_Method = m, rt_Path = Lit ''admin'' # path, rt_appScope = False, rt_orgOnly = True, rt_handlerOrg = True, rt_Handler = h\<rparr>"

definition routes :: "route list" where
  "routes =
    [tenant_route ''POST'' [Lit ''app''] True ''CreateApplication'',
     tenant_route ''GET'' [Lit ''app''] True ''ListApplications'',
     app_route ''GET'' [] False ''GetApplication'',
     app_route ''PUT'' [] True ''UpdateApplication'',
     app_route ''PATCH'' [] True ''UpdateApplication'',
     app_route ''DELETE'' [] True ''DeleteApplication'',
     app_route ''POST'' [Lit ''msg''] False ''CreateMessage'',
     app_route ''GET'' [Lit ''msg''] False ''ListMessages'',
     app_route ''GET'' [Lit ''msg'', Param ''msg_id''] False ''GetMessage'',
     app_route ''POST'' [Lit ''endpoint''] False ''CreateEndpoint'',
     app_route ''GET'' [Lit ''endpoint''] False ''ListEndpoints'',
     app_route ''GET'' [Lit ''endpoint'', Param ''endpoint_id''] False ''GetEndpoint'',
     app_route ''PUT'' [Lit ''endpoint'', Param ''endpoint_id''] False ''UpdateEndpoint'',
     app_route ''PATCH'' [Lit ''endpoint'', Param ''endpoint_id''] False ''UpdateEndpoint'',
     app_route ''DELETE'' [Lit ''endpoint'', Param ''endpoint_id''] False ''DeleteEndpoint'',
     app_route ''GET'' [Lit ''endpoint'', Param ''endpoint_id'', Lit ''secret''] False ''GetSecret'',
     app_route ''POST'' [Lit ''endpoint'', Param ''endpoint_id'', Lit ''secret'', Lit ''rotate''] False ''RotateSecret'',
     app_route ''GET'' [Lit ''endpoint'', Param ''endpoint_id'', Lit ''headers''] False ''GetHeaders'',
     app_route ''PATCH'' [Lit ''endpoint'', Param ''endpoint_id'', Lit ''headers''] False ''PatchHeaders'',
     app_route ''GET'' [Lit ''endpoint'', Param ''endpoint_id'', Lit ''stats''] False ''Stats'',
     app_route ''POST'' [Lit ''endpoint'', Param ''endpoint_id'', Lit ''recover''] False ''Recover'',
     app_route ''GET'' [Lit ''attempt'', Lit ''msg'', Param ''msg_id''] False ''ListByMessage'',
     app_route ''GET'' [Lit ''attempt'', Lit ''endpoint'', Param ''endpoint_id''] False ''ListByEndpoint'',
     app_route ''GET'' [Lit ''msg'', Param ''msg_id'', Lit ''endpoint'', Param ''endpoint_id'', Lit ''attempt''] False ''ListByMessageAndEndpoint'',
     app_route ''POST'' [Lit ''msg'', Param ''msg_id'', Lit ''endpoint'', Param ''endpoint_id'', Lit ''resend''] False ''Resend'',
     app_route ''POST'' [Lit ''replay''] False ''Replay'',
     app_route ''GET'' [Lit ''attempt'', Lit ''stream''] False ''StreamAttempts'',
     app_route ''POST'' [Lit ''portal-access''] True ''PortalAccess'',
     tenant_route ''GET'' [Lit ''event-type''] False ''ListEventTypes'',
     tenant_route ''POST'' [Lit ''event-type''] True ''CreateEventType'',
     tenant_route ''GET'' [Lit ''event-type'', Param ''event_type_name''] False ''GetEventType'',
     tenant_route ''PUT'' [Lit ''event-type'', Param ''event_type_name''] True ''UpdateEventType'',
     tenant_route ''DELETE'' [Lit ''event-type'', Param ''event_type_name''] True ''ArchiveEventType'',
     admin_route ''POST'' [Lit ''rescue-stuck''] ''RescueStuck'',
     admin_route ''GET'' [Lit ''queue''] ''QueueStats'',
     admin_route ''GET'' [Lit ''partitions''] ''Partitions'',
     admin_route ''POST'' [Lit ''pool''] ''MovePool'',
     admin_route ''POST'' [Lit ''endpoint'', Lit ''enable''] ''ReEnableEndpoint'']"

fun match_path :: "segment list \<Rightarrow> string list \<Rightarrow> (string \<times> string) list option" where
  "match_path [] [] = Some []"
| "match_path (Lit l # ps) (s # ss) = (if l = s then match_path ps ss else None)"
| "match_path (Param n # ps) (s # ss) = (if s = [] then None else map_option (\<lambda>m. (n, s) # m) (match_path ps ss))"
| "match_path _ _ = None"

definition find_route :: "string \<Rightarrow> string list \<Rightarrow> (route \<times> (string \<times> string) list) option" where
  "find_route rmethod segs = (case List.map_filter (\<lambda>r. if rt_Method r = rmethod then map_option (\<lambda>m. (r, m)) (match_path (rt_Path r) segs) else None) routes of
      [] \<Rightarrow> None | x # _ \<Rightarrow> Some x)"

record request =
  rq_Method :: string
  rq_Path :: string
  rq_Segments :: "string list"
  rq_Authorization :: string
  rq_IdempotencyKey :: string

text \<open>How a request ends: no route, an error of the chain, a stored answer, or the handler with the principal.\<close>

datatype outcome = NoRoute | Denied AppError | Answered idem_answer | Reached string Principal

definition orgToken :: "Principal option \<Rightarrow> AppError + Principal" where
  "orgToken ctx = (case ctx of
      None \<Rightarrow> Inl (NewUnauthorizedError ''authentication required'')
    | Some p \<Rightarrow> if pr_Portal p then Inl (NewForbiddenError ''a portal token cannot access this resource'') else Inr p)"

text \<open>The guards behind the idempotency middleware, then the handler's own check.\<close>

definition guarded :: "route \<Rightarrow> (string \<times> string) list \<Rightarrow> Principal \<Rightarrow> outcome" where
  "guarded r params p =
    (case (if rt_appScope r then RequireAppScope (case map_of params ''app_id'' of Some v \<Rightarrow> v | None \<Rightarrow> []) (Some p) else None) of
       Some e \<Rightarrow> Denied e
     | None \<Rightarrow> (case (if rt_orgOnly r then RequireOrgToken (Some p) else None) of
         Some e \<Rightarrow> Denied e
       | None \<Rightarrow> (if rt_handlerOrg r then (case orgToken (Some p) of Inl e \<Rightarrow> Denied e | Inr q \<Rightarrow> Reached (rt_Handler r) q)
                  else Reached (rt_Handler r) p)))"

text \<open>
  The whole chain on one request: \<open>parse\<close> validates tokens, \<open>allowed\<close> is the answer of the limiter for a key, \<open>db\<close>
  the idempotency table. A request that wins its key goes on to the guards.
\<close>

definition serve :: "(string \<Rightarrow> AppError + Claims) \<Rightarrow> (string \<Rightarrow> bool) \<Rightarrow> RateLimitOptions \<Rightarrow> (bytes \<Rightarrow> bytes) \<Rightarrow> IdempotencyOptions \<Rightarrow> idemdb \<Rightarrow> request \<Rightarrow> outcome" where
  "serve parse allowed limits sum256 idem db q = (case find_route (rq_Method q) (rq_Segments q) of
      None \<Rightarrow> NoRoute
    | Some (r, params) \<Rightarrow> (case RequireAuth parse (rq_Authorization q) of
        Inl e \<Rightarrow> Denied e
      | Inr p \<Rightarrow>
         if (case org_limit_key limits (Some p) of None \<Rightarrow> False | Some k \<Rightarrow> \<not> allowed k) then Denied (NewRateLimitError ''rate limit exceeded'')
         else if \<not> Idempotency_applies (rq_Method q) (rq_IdempotencyKey q) then guarded r params p
         else (let key = idempotencyKey sum256 (OrgFrom (Some p)) (rq_Method q) (rq_Path q) (rq_IdempotencyKey q) in
           case begin_claim NoFault key (io_LockTTL idem) db of
             (Inl e, _) \<Rightarrow> Denied (NewInternalError ''begin idempotent request'')
           | (Inr True, _) \<Rightarrow> guarded r params p
           | (Inr False, d) \<Rightarrow> (case idem_get NoFault key d of
               Inl e \<Rightarrow> Denied (NewInternalError ''select idempotency key'')
             | Inr rec \<Rightarrow> Answered (replay (Some rec))))))"

section \<open>Tokens and scopes\<close>

text \<open>
  What the token library documents: what was signed with a key verifies under the key that belongs to it, and is valid from
  its not-before and issued-at times until its expiry; tokens have no white space.
\<close>

definition jwt_roundtrip :: "'k jwt \<Rightarrow> 'k auth_Manager \<Rightarrow> bool" where
  "jwt_roundtrip J m \<longleftrightarrow> (\<forall>key claims tok now. am_signKey m = Some key \<and> jw_sign J (am_method m) key claims = Some tok \<longrightarrow>
     TrimSpace tok = tok \<and> tok \<noteq> [] \<and>
     ((\<forall>t. cm_NotBefore claims = Some t \<longrightarrow> t \<le> now) \<and> (\<forall>t. cm_IssuedAt claims = Some t \<longrightarrow> t \<le> now) \<and> (\<forall>t. cm_ExpiresAt claims = Some t \<longrightarrow> now < t) \<longrightarrow>
      jw_parse J (am_method m) (am_verifyKey m) now tok = Some claims))"

lemma issue_parse:
  assumes "jwt_roundtrip J m" and "issue J m t0 subject scope orgID ttl = Inr (tok, expiry)" and "t0 \<le> now" and "now < expiry - expiry mod Second"
    and "subject \<noteq> []" and "scope = ScopePortal \<Longrightarrow> HasKindPrefix subject ''app''"
  shows "\<exists>claims. auth_Parse J m now tok = Inr claims \<and> cm_Subject claims = subject \<and> cm_Scope claims = scope \<and> cm_OrgID claims = orgID \<and>
    cm_ExpiresAt claims = NewNumericDate expiry \<and> TrimSpace tok = tok \<and> tok \<noteq> []"
proof -
  let ?claims = "\<lparr>cm_Subject = subject, cm_Issuer = am_issuer m, cm_IssuedAt = NewNumericDate t0, cm_NotBefore = NewNumericDate t0,
              cm_ExpiresAt = NewNumericDate expiry, cm_Scope = scope, cm_OrgID = orgID\<rparr>"
  obtain key where key: "am_signKey m = Some key" "jw_sign J (am_method m) key ?claims = Some tok"
    using assms(2) by (auto simp: issue_def Let_def split: option.splits)
  have "t0 - t0 mod Second \<le> now" using assms(3) pos_mod_sign [of Second t0] by linarith
  then have "jw_parse J (am_method m) (am_verifyKey m) now tok = Some ?claims" "TrimSpace tok = tok" "tok \<noteq> []"
    using assms(1,4) key unfolding jwt_roundtrip_def by (auto simp: NewNumericDate_def)
  then show ?thesis using assms(5,6) by (intro exI [of _ ?claims]) (auto simp: auth_Parse_def)
qed

lemma bearer:
  assumes "tok \<noteq> []" and "TrimSpace tok = tok"
  shows "bearerToken (''Bearer '' @ tok) = Inr tok"
proof -
  have "map lower_char ''Bearer'' = ''bearer''" by code_simp
  then show ?thesis using assms by (simp add: bearerToken_def Let_def)
qed

lemma kind_prefix_ne: "HasKindPrefix i p \<Longrightarrow> i \<noteq> []"
  by (auto simp: HasKindPrefix_def)

text \<open>
  C17: A token gives exactly the authority it was issued with. From its issue until the second of its expiry, a bearer of a portal token for
  an application of an organization acts as that application's portal in that organization, and the bearer of an
  organization token as that organization; the first passes the scope check for its own application only, never
  the organization-only check, and opens a portal session; the second passes every check and opens none.
\<close>

theorem token_authority:
  assumes "jwt_roundtrip J m" and "t0 \<le> now" and "now < expiry - expiry mod Second"
  shows "(IssuePortalToken J m t0 appID orgID ttl = Inr (tok, expiry) \<and> orgID \<noteq> [] \<longrightarrow>
      (\<exists>p. RequireAuth (auth_Parse J m now) (''Bearer '' @ tok) = Inr p \<and> p = \<lparr>pr_OrgID = orgID, pr_AppID = appID, pr_Portal = True\<rparr> \<and>
        (\<forall>a. RequireAppScope a (Some p) = None \<longleftrightarrow> a = appID) \<and> RequireOrgToken (Some p) \<noteq> None) \<and>
      RequireSession (auth_Parse J m now) now (Some tok) [] = Session orgID appID) \<and>
    (IssueOrgToken J m t0 orgID ttl = Inr (tok, expiry) \<longrightarrow>
      (\<exists>p. RequireAuth (auth_Parse J m now) (''Bearer '' @ tok) = Inr p \<and> p = \<lparr>pr_OrgID = orgID, pr_AppID = [], pr_Portal = False\<rparr> \<and>
        (\<forall>a. RequireAppScope a (Some p) = None) \<and> RequireOrgToken (Some p) = None) \<and>
      (\<exists>e. RequireSession (auth_Parse J m now) now (Some tok) [] = SessionError e))"
proof (intro conjI impI)
  assume P: "IssuePortalToken J m t0 appID orgID ttl = Inr (tok, expiry) \<and> orgID \<noteq> []"
  then have app: "HasKindPrefix appID ''app''" and i: "issue J m t0 appID ScopePortal orgID ttl = Inr (tok, expiry)"
    by (auto simp: IssuePortalToken_def split: if_splits)
  obtain claims where c: "auth_Parse J m now tok = Inr claims" "cm_Subject claims = appID" "cm_Scope claims = ScopePortal" "cm_OrgID claims = orgID"
      "TrimSpace tok = tok" "tok \<noteq> []"
    using issue_parse [OF assms(1) i assms(2,3) kind_prefix_ne [OF app] app] by blast
  then show "\<exists>p. RequireAuth (auth_Parse J m now) (''Bearer '' @ tok) = Inr p \<and> p = \<lparr>pr_OrgID = orgID, pr_AppID = appID, pr_Portal = True\<rparr> \<and>
        (\<forall>a. RequireAppScope a (Some p) = None \<longleftrightarrow> a = appID) \<and> RequireOrgToken (Some p) \<noteq> None"
    using P kind_prefix_ne [OF app] bearer [OF c(6,5)] by (auto simp: RequireAuth_def principal_of_def RequireAppScope_def RequireOrgToken_def ScopedToApp_def)
  show "RequireSession (auth_Parse J m now) now (Some tok) [] = Session orgID appID"
    using c P by (simp add: RequireSession_def sessionToken_def)
next
  assume "IssueOrgToken J m t0 orgID ttl = Inr (tok, expiry)"
  then have org: "HasKindPrefix orgID ''org''" and i: "issue J m t0 orgID [] [] ttl = Inr (tok, expiry)"
    by (auto simp: IssueOrgToken_def split: if_splits)
  have np: "[] \<noteq> ScopePortal" by (simp add: ScopePortal_def)
  obtain claims where c: "auth_Parse J m now tok = Inr claims" "cm_Subject claims = orgID" "cm_Scope claims = []" "TrimSpace tok = tok" "tok \<noteq> []"
    using issue_parse [OF assms(1) i assms(2,3) kind_prefix_ne [OF org]] np by blast
  then show "\<exists>p. RequireAuth (auth_Parse J m now) (''Bearer '' @ tok) = Inr p \<and> p = \<lparr>pr_OrgID = orgID, pr_AppID = [], pr_Portal = False\<rparr> \<and>
        (\<forall>a. RequireAppScope a (Some p) = None) \<and> RequireOrgToken (Some p) = None"
    using bearer [OF c(5,4)] np by (auto simp: RequireAuth_def principal_of_def RequireAppScope_def RequireOrgToken_def)
  show "\<exists>e. RequireSession (auth_Parse J m now) now (Some tok) [] = SessionError e"
    using c np by (simp add: RequireSession_def sessionToken_def)
qed

section \<open>Routes\<close>

text \<open>What a portal token may reach: its own application's routes, less those whose handlers ask for an organization token, and reading event types.\<close>

definition portal_reachable :: "request \<Rightarrow> string \<Rightarrow> string \<Rightarrow> bool" where
  "portal_reachable q appID h \<longleftrightarrow> (\<exists>rest. rq_Segments q = ''app'' # appID # rest) \<and>
      h \<notin> {''UpdateApplication'', ''DeleteApplication'', ''PortalAccess''} \<or>
     rq_Method q = ''GET'' \<and> h \<in> {''ListEventTypes'', ''GetEventType''}"

lemma find_route_mem: "find_route rmethod segs = Some (r, params) \<Longrightarrow> r \<in> set routes \<and> rt_Method r = rmethod \<and> match_path (rt_Path r) segs = Some params"
  by (auto simp: find_route_def List.map_filter_def filter_eq_Cons_iff split: list.splits if_splits) (metis in_set_conv_decomp)

lemma app_scope_param:
  assumes "match_path ([Lit ''app'', Param ''app_id''] @ path) segs = Some params"
  shows "\<exists>a rest. segs = ''app'' # a # rest \<and> map_of params ''app_id'' = Some a"
proof -
  obtain a rest where segs: "segs = ''app'' # a # rest" using assms by (cases segs; cases "tl segs") (auto split: if_splits)
  then show ?thesis using assms by (auto split: if_splits)
qed

definition demo_jwt_claims :: "string \<Rightarrow> string \<Rightarrow> string \<Rightarrow> Claims" where
  "demo_jwt_claims subject scope org = \<lparr>cm_Subject = subject, cm_Issuer = ''huxio'', cm_IssuedAt = Some 0, cm_NotBefore = Some 0, cm_ExpiresAt = Some Hour, cm_Scope = scope, cm_OrgID = org\<rparr>"

definition demo_valid :: "time \<Rightarrow> Claims \<Rightarrow> Claims option" where
  "demo_valid now c = (if (case cm_ExpiresAt c of None \<Rightarrow> True | Some t \<Rightarrow> now < t) then Some c else None)"

definition demo_jwt :: "nat jwt" where
  "demo_jwt = \<lparr>jw_upper = id, jw_bytesKey = size, jw_pem = (\<lambda>_. None), jw_pkix = (\<lambda>_. None), jw_pkcs1Public = (\<lambda>_. None), jw_pkcs8 = (\<lambda>_. None), jw_pkcs1Private = (\<lambda>_. None),
     jw_sign = (\<lambda>_ _ c. if c = demo_jwt_claims ''app_1'' ScopePortal ''org_1'' then Some ''p''
        else if c = demo_jwt_claims ''org_1'' [] [] then Some ''o'' else None),
     jw_parse = (\<lambda>_ _ now tok. if tok = ''p'' then demo_valid now (demo_jwt_claims ''app_1'' ScopePortal ''org_1'')
        else if tok = ''o'' then demo_valid now (demo_jwt_claims ''org_1'' [] []) else None)\<rparr>"

definition demo_manager :: "nat auth_Manager" where
  "demo_manager = \<lparr>am_method = ''HS256'', am_issuer = ''huxio'', am_signKey = Some 7, am_verifyKey = 7\<rparr>"

lemma demo_manager_new:
  "auth_NewManager demo_jwt \<lparr>ac_Algorithm = '' hs256'', ac_Secret = ''secrets'', ac_PrivateKeyPEM = [], ac_PublicKeyPEM = [], ac_Issuer = ''huxio''\<rparr> = Some demo_manager"
  by code_simp

lemma demo_roundtrip: "jwt_roundtrip demo_jwt demo_manager"
proof -
  have "TrimSpace ''p'' = ''p''" "TrimSpace ''o'' = ''o''" by code_simp+
  then show ?thesis by (auto simp: jwt_roundtrip_def demo_jwt_def demo_valid_def split: if_splits option.splits)
qed

lemma demo_issue:
  "IssuePortalToken demo_jwt demo_manager 0 ''app_1'' ''org_1'' 0 = Inr (''p'', Hour)" "IssueOrgToken demo_jwt demo_manager 0 ''org_1'' 0 = Inr (''o'', Hour)"
  "Hour mod Second = 0" "1 < Hour"
  by code_simp+

theorem token_authority_witness:
  "jwt_roundtrip demo_jwt demo_manager \<and>
   RequireAuth (auth_Parse demo_jwt demo_manager 1) ''Bearer p'' = Inr \<lparr>pr_OrgID = ''org_1'', pr_AppID = ''app_1'', pr_Portal = True\<rparr> \<and>
   RequireSession (auth_Parse demo_jwt demo_manager 1) 1 (Some ''p'') [] = Session ''org_1'' ''app_1'' \<and>
   RequireAuth (auth_Parse demo_jwt demo_manager 1) ''Bearer o'' = Inr \<lparr>pr_OrgID = ''org_1'', pr_AppID = [], pr_Portal = False\<rparr>"
proof -
  have t: "(1::int) < Hour - Hour mod Second" by (simp add: demo_issue)
  note both = token_authority [OF demo_roundtrip zero_le_one t]
  have "\<not> ''org_1'' = ([]::string)" by simp
  with both [of "''app_1''" "''org_1''" 0 "''p''"] both [of "''app_1''" "''org_1''" 0 "''o''"] demo_issue(1,2) demo_roundtrip show ?thesis by auto
qed

lemma route_shape:
  assumes "r \<in> set routes" and "\<not> rt_handlerOrg r"
  shows "rt_appScope r \<and> (\<exists>path. rt_Path r = [Lit ''app'', Param ''app_id''] @ path) \<and> rt_Handler r \<notin> {''UpdateApplication'', ''DeleteApplication'', ''PortalAccess''} \<or>
    rt_Method r = ''GET'' \<and> rt_Handler r \<in> {''ListEventTypes'', ''GetEventType''}"
  using assms unfolding routes_def app_route_def tenant_route_def admin_route_def by auto

text \<open>
  C16: A portal token is confined by the route table as a whole. Whatever request it makes, when the chain in front of a
  handler lets it through, the path names its own application and the handler is not one of those that want
  an organization token, or the request only reads event types; in particular it reaches no handler of
  another application, of the tenant's list of applications or of the admin routes.
\<close>

theorem portal_confined:
  assumes "serve parse allowed limits sum256 idem db q = Reached h p" and "pr_Portal p"
  shows "portal_reachable q (pr_AppID p) h"
proof -
  obtain r params where r: "find_route (rq_Method q) (rq_Segments q) = Some (r, params)" "guarded r params p = Reached h p"
  proof -
    obtain r params p' where f: "find_route (rq_Method q) (rq_Segments q) = Some (r, params)" "guarded r params p' = Reached h p"
      using assms(1) by (auto simp: serve_def Let_def split: option.splits sum.splits if_splits prod.splits bool.splits)
    moreover from f(2) have "p' = p" by (auto simp: guarded_def orgToken_def split: option.splits if_splits)
    ultimately show thesis using that by blast
  qed
  note m = find_route_mem [OF r(1)]
  have org: "\<not> rt_handlerOrg r" using r(2) assms(2) by (auto simp: guarded_def orgToken_def split: option.splits if_splits)
  have h: "h = rt_Handler r" using r(2) by (auto simp: guarded_def split: option.splits if_splits sum.splits)
  consider (app) path where "rt_appScope r" "rt_Path r = [Lit ''app'', Param ''app_id''] @ path" "rt_Handler r \<notin> {''UpdateApplication'', ''DeleteApplication'', ''PortalAccess''}"
    | (types) "rt_Method r = ''GET''" "rt_Handler r \<in> {''ListEventTypes'', ''GetEventType''}"
    using route_shape [OF _ org] m by blast
  then show ?thesis
  proof cases
    case app
    obtain a rest where a: "rq_Segments q = ''app'' # a # rest" "map_of params ''app_id'' = Some a" using app_scope_param m app(2) by metis
    have "RequireAppScope a (Some p) = None" using r(2) app(1) a(2) by (auto simp: guarded_def split: option.splits)
    then have "a = pr_AppID p" using assms(2) by (auto simp: RequireAppScope_def ScopedToApp_def split: if_splits)
    then show ?thesis using a(1) app(3) h by (simp add: portal_reachable_def)
  next
    case types
    then show ?thesis using m h by (auto simp: portal_reachable_def)
  qed
qed

definition demo_claims :: Claims where
  "demo_claims = \<lparr>cm_Subject = ''app_1'', cm_Issuer = [], cm_IssuedAt = None, cm_NotBefore = None, cm_ExpiresAt = None, cm_Scope = ScopePortal, cm_OrgID = ''org_1''\<rparr>"

definition demo_limits :: RateLimitOptions where
  "demo_limits = \<lparr>rl_RequestsPerSecond = 0, rl_Burst = 0, rl_IdleEviction = 0\<rparr>"

definition demo_request :: "string \<Rightarrow> request" where
  "demo_request app = \<lparr>rq_Method = ''POST'', rq_Path = ''/api/v1/app/'' @ app @ ''/endpoint'', rq_Segments = [''app'', app, ''endpoint''],
     rq_Authorization = ''Bearer t'', rq_IdempotencyKey = ''retry-1''\<rparr>"

definition demo_idem :: IdempotencyOptions where
  "demo_idem = \<lparr>io_LockTTL = 30, io_ResponseTTL = 100\<rparr>"

lemma demo_route: "find_route ''POST'' [''app'', a, ''endpoint''] = (if a = [] then None else
    Some (app_route ''POST'' [Lit ''endpoint''] False ''CreateEndpoint'', [(''app_id'', a)]))"
  by (simp add: find_route_def routes_def app_route_def tenant_route_def admin_route_def List.map_filter_def)

lemma demo_auth: "RequireAuth (\<lambda>_. Inr demo_claims) ''Bearer t'' = Inr \<lparr>pr_OrgID = ''org_1'', pr_AppID = ''app_1'', pr_Portal = True\<rparr>"
proof -
  have "TrimSpace ''t'' = ''t''" by code_simp
  from bearer [OF _ this] have "bearerToken ''Bearer t'' = Inr ''t''" by simp
  then show ?thesis by (simp add: RequireAuth_def principal_of_def demo_claims_def)
qed

theorem portal_confined_witness:
  "serve (\<lambda>_. Inr demo_claims) (\<lambda>_. True) demo_limits (\<lambda>b. b) demo_idem \<lparr>ix_rows = Map.empty, ix_now = 0\<rparr> (demo_request ''app_1'') =
     Reached ''CreateEndpoint'' \<lparr>pr_OrgID = ''org_1'', pr_AppID = ''app_1'', pr_Portal = True\<rparr> \<and>
   portal_reachable (demo_request ''app_1'') ''app_1'' ''CreateEndpoint''"
proof -
  let ?p = "\<lparr>pr_OrgID = ''org_1'', pr_AppID = ''app_1'', pr_Portal = True\<rparr>"
  have run: "serve (\<lambda>_. Inr demo_claims) (\<lambda>_. True) demo_limits (\<lambda>b. b) demo_idem \<lparr>ix_rows = Map.empty, ix_now = 0\<rparr> (demo_request ''app_1'') = Reached ''CreateEndpoint'' ?p"
    by (simp add: serve_def demo_request_def demo_route demo_auth org_limit_key_def demo_limits_def begin_claim_def Let_def guarded_def
        app_route_def RequireAppScope_def ScopedToApp_def)
  from portal_confined [OF run] run show ?thesis by simp
qed


section \<open>The share of a node\<close>

text \<open>
  With \<open>n\<close> nodes that all count \<open>n\<close>, the cluster admits the configured rate, or one request a second per node when the
  nodes outnumber it.
\<close>

lemma cluster_share:
  assumes "1 \<le> n" and "0 < rl_RequestsPerSecond opts"
  shows "of_int n * share opts (Some n) = max (of_int (rl_RequestsPerSecond opts)) (of_int n)"
proof -
  have "max n 1 = n" using assms(1) by simp
  then have s: "share opts (Some n) = max (of_int (rl_RequestsPerSecond opts) / of_int n) 1" by (simp add: share_def)
  have pos: "(0::rat) < of_int n" using assms(1) by simp
  show ?thesis
  proof (cases "(of_int (rl_RequestsPerSecond opts) :: rat) \<le> of_int n")
    case True
    then show ?thesis using pos by (simp add: s max_def divide_le_eq)
  next
    case False
    then show ?thesis using pos by (simp add: s max_def divide_le_eq)
  qed
qed

lemma Nodes_pos: "1 \<le> Registry_Nodes r"
  by (simp add: Registry_Nodes_def)

text \<open>A change of the node count gives each key a new, full bucket.\<close>

lemma new_share_new_bucket:
  assumes "ls_limiters s key = Some e" and "kl_share e \<noteq> share (ls_opts s) nodes"
  shows "limiter_allow B now nodes key s = limiter_allow B now nodes key (s\<lparr>ls_limiters := (ls_limiters s)(key := None)\<rparr>)"
  using assms by (simp add: limiter_allow_def Let_def)

end
