(* ===== verification/Portal_Operational.thy ===== *)
theory Portal_Operational
  imports Access
begin

text \<open>
  The two use cases built on the others: operational webhooks (\<^verbatim>\<open>operational_usecase.go\<close>), which send the events of
  the engine through the ingest path to a reserved application of the tenant, and portal access
  (\<^verbatim>\<open>portal_usecase.go\<close>), which turns an application into a link that opens its portal. The JSON encoder is a
  parameter; \<^verbatim>\<open>url.QueryEscape\<close> and its inverse are modelled.
\<close>

section \<open>operational\_usecase.go\<close>

definition OperationalAppUID :: string where "OperationalAppUID = ''huxio.operational''"

definition OperationalType_text :: "OperationalType \<Rightarrow> string" where
  "OperationalType_text t = (case t of EventAttemptFailing \<Rightarrow> ''message.attempt.failing'' | EventAttemptRecovered \<Rightarrow> ''message.attempt.recovered''
     | EventAttemptExhausted \<Rightarrow> ''message.attempt.exhausted'' | EventEndpointDisabled \<Rightarrow> ''endpoint.disabled'')"

text \<open>The values of the payload: strings, integers, the formatted time, and a duration as a number of hours.\<close>

datatype payload_value = TextValue string | NumberValue int | TimeValue time | HoursValue duration

type_synonym json_map = "string \<rightharpoonup> payload_value"

definition detail_map :: "OperationalDetail \<Rightarrow> json_map" where
  "detail_map d = (case d of
      AttemptDetail n code url \<Rightarrow> [''attemptNumber'' \<mapsto> NumberValue n, ''responseStatusCode'' \<mapsto> NumberValue code, ''url'' \<mapsto> TextValue url]
    | DisabledDetail url failingFor \<Rightarrow> [''url'' \<mapsto> TextValue url, ''failingForHours'' \<mapsto> HoursValue failingFor])"

definition unless_empty :: "string \<Rightarrow> string \<Rightarrow> json_map \<Rightarrow> json_map" where
  "unless_empty key v m = (if v \<noteq> [] then m(key \<mapsto> TextValue v) else m)"

definition event_payload :: "time \<Rightarrow> OperationalEvent \<Rightarrow> json_map" where
  "event_payload now ev =
     unless_empty ''msgId'' (oe_MsgID ev) (unless_empty ''endpointId'' (oe_EndpointID ev) (unless_empty ''appId'' (oe_AppID ev)
       [''type'' \<mapsto> TextValue (OperationalType_text (oe_Type ev)), ''timestamp'' \<mapsto> TimeValue now])) ++ detail_map (oe_Detail ev)"

definition isNotFound :: "AppError \<Rightarrow> bool" where "isNotFound e \<longleftrightarrow> ae_Kind e = KindNotFound"

definition isConflict :: "AppError \<Rightarrow> bool" where "isConflict e \<longleftrightarrow> ae_Kind e = KindConflict"

record OperationalUseCase =
  op_env :: ucenv
  op_ingest :: IngestUseCase
  op_marshal :: "json_map \<Rightarrow> bytes option"
  op_now :: time

text \<open>
  The cache of reserved applications is part of the state. Between the lookup that missed and the insert, other nodes may
  change the configuration: \<open>others\<close> is what they do.
\<close>

definition reserved_input :: "string \<Rightarrow> CreateApplicationInput" where
  "reserved_input orgID = \<lparr>ca_OrgID = orgID, ca_Name = ''Operational webhooks'', ca_UID = Some OperationalAppUID, ca_RateLimit = None, ca_Metadata = []\<rparr>"

definition find_or_create :: "OperationalUseCase \<Rightarrow> (cfgdb \<Rightarrow> cfgdb) \<Rightarrow> string \<Rightarrow> cfgdb \<Rightarrow> string uc_result" where
  "find_or_create uc others orgID d = (case GetApplication (op_env uc) orgID OperationalAppUID d of
      (Inr app, d) \<Rightarrow> (Inr (app_ID app), d)
    | (Inl e, d) \<Rightarrow>
       if \<not> isNotFound e then (Inl e, d)
       else (case CreateApplication (op_env uc) (reserved_input orgID) (others d) of
           (Inr app, d) \<Rightarrow> (Inr (app_ID app), d)
         | (Inl e, d) \<Rightarrow>
            if \<not> isConflict e then (Inl e, d)
            else (case GetApplication (op_env uc) orgID OperationalAppUID d of
                (Inl e, d) \<Rightarrow> (Inl e, d)
              | (Inr app, d) \<Rightarrow> (Inr (app_ID app), d))))"

definition reservedApp ::
  "OperationalUseCase \<Rightarrow> (cfgdb \<Rightarrow> cfgdb) \<Rightarrow> string \<Rightarrow> (string \<rightharpoonup> string) \<times> cfgdb \<Rightarrow> (AppError + string) \<times> (string \<rightharpoonup> string) \<times> cfgdb" where
  "reservedApp uc others orgID s = (case s of (appIDs, d) \<Rightarrow> (case appIDs orgID of
      Some appID \<Rightarrow> (Inr appID, appIDs, d)
    | None \<Rightarrow> (case find_or_create uc others orgID d of
        (Inl e, d) \<Rightarrow> (Inl e, appIDs, d)
      | (Inr appID, d) \<Rightarrow> (Inr appID, appIDs(orgID \<mapsto> appID), d))))"

definition Emit ::
  "OperationalUseCase \<Rightarrow> (cfgdb \<Rightarrow> cfgdb) \<Rightarrow> OperationalEvent \<Rightarrow> (string \<rightharpoonup> string) \<times> cfgdb \<times> mdb \<Rightarrow> AppError option \<times> (string \<rightharpoonup> string) \<times> cfgdb \<times> mdb" where
  "Emit uc others ev s = (case s of (appIDs, c, d) \<Rightarrow>
    (if IsBlank (oe_OrgID ev) \<or> IsBlank (OperationalType_text (oe_Type ev)) then (Some (NewValidationError ''operational events need a tenant and a type''), s)
     else case reservedApp uc others (oe_OrgID ev) (appIDs, c) of
       (Inl e, appIDs, c) \<Rightarrow> (Some e, appIDs, c, d)
     | (Inr appID, appIDs, c) \<Rightarrow> (case op_marshal uc (event_payload (op_now uc) ev) of
         None \<Rightarrow> (Some (NewInternalError ''json''), appIDs, c, d)
       | Some encoded \<Rightarrow> (case Ingest (op_ingest uc) \<lparr>ii_OrgID = oe_OrgID ev, ii_AppIDOrUID = appID, ii_EventType = OperationalType_text (oe_Type ev),
             ii_EventID = None, ii_Payload = encoded, ii_Channels = [], ii_RetentionDays = None\<rparr> (c, d) of
           (Inl e, c, d) \<Rightarrow> (Some e, appIDs, c, d)
         | (Inr _, c, d) \<Rightarrow> (None, appIDs, c, d)))))"

section \<open>portal\_usecase.go\<close>

definition unreserved :: "char \<Rightarrow> bool" where
  "unreserved c \<longleftrightarrow> (let n = (of_char c :: nat) in 97 \<le> n \<and> n \<le> 122 \<or> 65 \<le> n \<and> n \<le> 90 \<or> 48 \<le> n \<and> n \<le> 57 \<or> n \<in> {45, 46, 95, 126})"

definition upperhex :: "nat \<Rightarrow> char" where
  "upperhex n = char_of (if n < 10 then 48 + n else 55 + n)"

definition unhex :: "char \<Rightarrow> nat option" where
  "unhex c = (let n = (of_char c :: nat) in
     if 48 \<le> n \<and> n \<le> 57 then Some (n - 48) else if 97 \<le> n \<and> n \<le> 102 then Some (n - 87) else if 65 \<le> n \<and> n \<le> 70 then Some (n - 55) else None)"

definition escape_char :: "char \<Rightarrow> string" where
  "escape_char c = (if unreserved c then [c] else if c = CHR '' '' then ''+''
     else [CHR ''%'', upperhex ((of_char c :: nat) div 16), upperhex ((of_char c :: nat) mod 16)])"

definition QueryEscape :: "string \<Rightarrow> string" where
  "QueryEscape s = concat (map escape_char s)"

fun QueryUnescape :: "string \<Rightarrow> string option" where
  "QueryUnescape [] = Some []"
| "QueryUnescape (c # cs) =
    (if c = CHR ''%'' then (case cs of
        a # b # rest \<Rightarrow> (case (unhex a, unhex b) of
            (Some h, Some l) \<Rightarrow> map_option (\<lambda>r. char_of (16 * h + l) # r) (QueryUnescape rest)
          | _ \<Rightarrow> None)
      | _ \<Rightarrow> None)
     else map_option (\<lambda>r. (if c = CHR ''+'' then CHR '' '' else c) # r) (QueryUnescape cs))"

record PortalAccess =
  pl_URL :: string
  pl_Token :: string
  pl_Expiry :: time

record PortalUseCase =
  pu_resolver :: appResolver
  pu_baseURL :: string
  pu_ttl :: duration

definition NewPortalUseCase :: "appResolver \<Rightarrow> string \<Rightarrow> duration \<Rightarrow> PortalUseCase" where
  "NewPortalUseCase r baseURL ttl = \<lparr>pu_resolver = r, pu_baseURL = rev (dropWhile (\<lambda>c. c = CHR ''/'') (rev baseURL)),
     pu_ttl = (if ttl \<le> 0 then 8 * Hour else ttl)\<rparr>"

definition Grant ::
  "pgenv \<Rightarrow> (string \<Rightarrow> string \<Rightarrow> duration \<Rightarrow> AppError + string \<times> time) \<Rightarrow> PortalUseCase \<Rightarrow> string \<Rightarrow> string \<Rightarrow> duration option \<Rightarrow> cfgdb \<Rightarrow> (AppError + PortalAccess) \<times> cfgdb" where
  "Grant env issuePortal uc orgID appIDOrUID ttl d = (case resolve env (pu_resolver uc) orgID appIDOrUID d of
      (Inl e, _, d) \<Rightarrow> (Inl e, d)
    | (Inr app, _, d) \<Rightarrow>
       (let lifetime = Deref ttl (pu_ttl uc) in
        if lifetime \<le> 0 \<or> lifetime > 24 * Hour then (Inl (NewValidationError ''token lifetime must be between 1 second and 24 hours''), d)
        else case issuePortal (ref_ID app) (ref_OrgID app) lifetime of
          Inl e \<Rightarrow> (Inl e, d)
        | Inr (token, expiry) \<Rightarrow>
           (Inr \<lparr>pl_URL = pu_baseURL uc @ ''/portal?token='' @ QueryEscape token, pl_Token = token, pl_Expiry = expiry\<rparr>, d)))"

section \<open>The link opens the portal\<close>

lemma unhex_upperhex: "n < 16 \<Longrightarrow> unhex (upperhex n) = Some n"
  by (auto simp: unhex_def upperhex_def Let_def)

lemma hex_pair: "char_of (16 * ((of_char c :: nat) div 16) + (of_char c :: nat) mod 16) = c"
  by simp

lemma unescape_char: "QueryUnescape (escape_char c @ s) = map_option (\<lambda>r. c # r) (QueryUnescape s)"
proof -
  have num_16: "(256::nat) = 16 * 16" by simp
  have bound: "(of_char c :: nat) div 16 < 16" by (metis less_mult_imp_div_less mod_less_divisor num_16 of_char_mod_256 zero_less_numeral)
  consider (plain) "unreserved c" | (space) "\<not> unreserved c" "c = CHR '' ''" | (hex) "\<not> unreserved c" "c \<noteq> CHR '' ''" by blast
  then show ?thesis
  proof cases
    case plain
    have "\<not> unreserved (CHR ''%'')" "\<not> unreserved (CHR ''+'')" by code_simp+
    with plain show ?thesis by (auto simp: escape_char_def)
  next
    case hex
    then show ?thesis using hex_pair [of c] by (simp add: escape_char_def unhex_upperhex bound)
  qed (simp add: escape_char_def)
qed

lemma QueryUnescape_Escape: "QueryUnescape (QueryEscape s) = Some s"
  by (induction s) (simp_all add: QueryEscape_def unescape_char)

text \<open>
  C22: A granted link opens the portal of the application it was asked for, and no other. When a tenant's request for access is
  granted, its identifier resolved to an application, the link ends in the escaped token,
  the browser's first request with the token of the query, which is the issued token again, is answered by moving it into a
  cookie that ends with the token, and every request with that cookie until then is a session of that application in
  that organization; the token lives for more than zero and at most 24 hours.
\<close>

theorem granted_link_opens:
  assumes "jwt_roundtrip J m" and "Grant env (IssuePortalToken J m t0) uc orgID x ttl d = (Inr access, d')" and "0 \<le> t0"
    and "t0 \<le> now" and "now < pl_Expiry access - pl_Expiry access mod Second" and "\<And>ref n d1. resolve env (pu_resolver uc) orgID x d = (Inr ref, n, d1) \<Longrightarrow> ref_OrgID ref \<noteq> []"
  shows "\<exists>ref n link. resolve env (pu_resolver uc) orgID x d = (Inr ref, n, d') \<and>
    pl_URL access = pu_baseURL uc @ ''/portal?token='' @ link \<and> QueryUnescape link = Some (pl_Token access) \<and>
    RequireSession (auth_Parse J m now) now None (pl_Token access) = SetCookie (pl_Token access) (pl_Expiry access - pl_Expiry access mod Second) \<and>
    RequireSession (auth_Parse J m now) now (Some (pl_Token access)) [] = Session (ref_OrgID ref) (ref_ID ref) \<and>
    t0 < pl_Expiry access \<and> pl_Expiry access \<le> t0 + 24 * Hour"
proof -
  obtain ref n where r: "resolve env (pu_resolver uc) orgID x d = (Inr ref, n, d')"
    using assms(2) by (auto simp: Grant_def Let_def split: prod.splits sum.splits if_splits)
  let ?ttl = "Deref ttl (pu_ttl uc)"
  have g: "0 < ?ttl" "?ttl \<le> 24 * Hour" "IssuePortalToken J m t0 (ref_ID ref) (ref_OrgID ref) ?ttl = Inr (pl_Token access, pl_Expiry access)"
      "pl_URL access = pu_baseURL uc @ ''/portal?token='' @ QueryEscape (pl_Token access)"
    using assms(2) r by (auto simp: Grant_def Let_def split: sum.splits if_splits)
  then have app: "HasKindPrefix (ref_ID ref) ''app''" and i: "issue J m t0 (ref_ID ref) ScopePortal (ref_OrgID ref) ?ttl = Inr (pl_Token access, pl_Expiry access)"
    by (auto simp: IssuePortalToken_def split: if_splits)
  have exp: "pl_Expiry access = t0 + ?ttl" using i g(1) by (auto simp: issue_def Let_def split: option.splits)
  obtain claims where c: "auth_Parse J m now (pl_Token access) = Inr claims" "cm_Subject claims = ref_ID ref" "cm_Scope claims = ScopePortal"
      "cm_OrgID claims = ref_OrgID ref" "pl_Token access \<noteq> []" "cm_ExpiresAt claims = NewNumericDate (pl_Expiry access)"
    using issue_parse [OF assms(1) i assms(4,5) kind_prefix_ne [OF app] app] by blast
  have "\<not> time_IsZero (pl_Expiry access - pl_Expiry access mod Second)" using assms(3,4,5) by (simp add: time_IsZero_def zero_time_def)
  with c assms(6) [OF r] have "RequireSession (auth_Parse J m now) now None (pl_Token access) = SetCookie (pl_Token access) (pl_Expiry access - pl_Expiry access mod Second)"
    "RequireSession (auth_Parse J m now) now (Some (pl_Token access)) [] = Session (ref_OrgID ref) (ref_ID ref)"
    by (simp_all add: RequireSession_def sessionToken_def NewNumericDate_def)
  with r g exp QueryUnescape_Escape show ?thesis by (intro exI [of _ ref] exI [of _ n] exI [of _ "QueryEscape (pl_Token access)"]) simp
qed

section \<open>Operational webhooks\<close>

lemma GetApplication_live:
  assumes "GetApplication v orgID x d = (Inr app, d')"
  shows "live_app d' app \<and> app_OrgID app = orgID \<and> (app_ID app = x \<or> app_UID app = Some x)"
proof -
  have l: "by_id_or_uid ''application'' (app_by_id (uc_pg v) orgID x) (app_by_uid (uc_pg v) orgID x) d = (Inr app, d')"
    using assms by (simp add: GetApplication_def)
  from ap.lookup(1) [OF l] obtain fs where "d' = d\<lparr>db_faults := fs\<rparr>" by blast
  then show ?thesis using ap.lookup(2) [OF l, of app] ap.live_faults [of fs d] by simp
qed

lemma create_reserved_live:
  assumes "CreateApplication v (reserved_input orgID) d = (Inr app, d')"
  shows "\<exists>row. live_app d' row \<and> app_OrgID row = orgID \<and> app_ID row = app_ID app \<and> app_UID row = Some OperationalAppUID"
proof -
  have uid: "NilIfBlank OperationalAppUID = Some OperationalAppUID" by code_simp
  obtain d1 where "ApplicationRepo_CreateApplication (uc_pg v) app d = (None, d1)" "d' = uc_invalidate v orgID d1" "app_OrgID app = orgID" "app_UID app = Some OperationalAppUID"
    using assms by (auto simp: CreateApplication_def reserved_input_def uc_call_def Let_def uid Deref_def split: if_splits option.splits prod.splits)
  then show ?thesis
    by (auto simp: ApplicationRepo_CreateApplication_def inserted_def write_apps_def write_tbl_def insert_row_def live_app_def split: sum.splits prod.splits if_splits bool.splits)
qed

text \<open>
  Every node finds the one reserved application of a tenant. Whatever other nodes do between the lookup that missed and the
  insert, creating the application first included, the application a node takes and remembers is a live application of that tenant with the reserved
  uid (or id), in the database as it is then.
\<close>

theorem reserved_app_live:
  assumes "reservedApp uc others orgID (Map.empty, d) = (Inr appID, appIDs, d')"
  shows "appIDs = [orgID \<mapsto> appID] \<and> (\<exists>app. live_app d' app \<and> app_OrgID app = orgID \<and> app_ID app = appID \<and>
    (app_UID app = Some OperationalAppUID \<or> appID = OperationalAppUID))"
proof -
  have f: "find_or_create uc others orgID d = (Inr appID, d')" "appIDs = [orgID \<mapsto> appID]"
    using assms by (auto simp: reservedApp_def split: sum.splits prod.splits)
  then consider d0 app where "GetApplication (op_env uc) orgID OperationalAppUID d0 = (Inr app, d')" "appID = app_ID app"
    | d0 app where "CreateApplication (op_env uc) (reserved_input orgID) (others d0) = (Inr app, d')" "appID = app_ID app"
    by (auto simp: find_or_create_def split: sum.splits prod.splits if_splits)
  then show ?thesis using GetApplication_live create_reserved_live f(2) by cases fastforce+
qed

text \<open>
  An operational event is delivered like any message or not at all. Emitting one either changes neither the messages nor the
  queue, or appends exactly one message of the tenant's event type with exactly one new fan-out task of it,
  both in the application the tenant's reserved application resolves to, with the encoded event as its payload. The application the
  event is about plays no part, so an event about the reserved application itself is sent to it too.
\<close>

theorem operational_event_ingested:
  assumes "Emit uc others ev (appIDs, c, d) = (res, appIDs', c', d')" and "pg_inv (md_queue d)"
  shows "case res of
      Some e \<Rightarrow> md_msgs d' = md_msgs d \<and> pg_look (md_queue d') = pg_look (md_queue d)
    | None \<Rightarrow> \<exists>msg task encoded app n c1. md_msgs d' = md_msgs d @ [msg] \<and> pg_look (md_queue d') = (pg_look (md_queue d))(task_ID task \<mapsto> task) \<and>
        task_ID task \<notin> dom (pg_look (md_queue d)) \<and> task_Kind task = TaskFanout \<and> task_MsgID task = msg_ID msg \<and> task_AppID task = ref_ID app \<and>
        resolve (iu_pg (op_ingest uc)) (iu_resolver (op_ingest uc)) (oe_OrgID ev) (the (appIDs' (oe_OrgID ev))) c1 = (Inr app, n, c') \<and>
        msg_AppID msg = ref_ID app \<and> msg_EventType msg = OperationalType_text (oe_Type ev) \<and>
        op_marshal uc (event_payload (op_now uc) ev) = Some encoded \<and> msg_Payload msg = Codec_Encode (iu_codec (op_ingest uc)) encoded"
proof -
  let ?inp = "\<lambda>appID encoded. \<lparr>ii_OrgID = oe_OrgID ev, ii_AppIDOrUID = appID, ii_EventType = OperationalType_text (oe_Type ev),
             ii_EventID = None, ii_Payload = encoded, ii_Channels = [], ii_RetentionDays = None\<rparr>"
  consider (none) e where "res = Some e" "d' = d"
    | (sent) appID c1 encoded r where "reservedApp uc others (oe_OrgID ev) (appIDs, c) = (Inr appID, appIDs', c1)"
        "op_marshal uc (event_payload (op_now uc) ev) = Some encoded" "Ingest (op_ingest uc) (?inp appID encoded) (c1, d) = (r, c', d')"
        "res = (case r of Inl e \<Rightarrow> Some e | Inr _ \<Rightarrow> None)"
    using assms(1) unfolding Emit_def by (auto split: sum.splits prod.splits option.splits if_splits)
  then show ?thesis
  proof cases
    case none
    then show ?thesis by simp
  next
    case sent
    have id: "appIDs' (oe_OrgID ev) = Some appID" using sent(1) by (auto simp: reservedApp_def split: option.splits sum.splits prod.splits)
    from sent(3) show ?thesis
    proof (cases rule: Ingest_cases)
      case (accepted app n msgID createdAt d1 r')
      note tx = ingest_tx_ok [OF accepted(8) assms(2)]
      have m: "(ir_Message r')\<lparr>msg_DeletedAt := None\<rparr> = ir_Message r'" "msg_AppID (ir_Message r') = ref_ID app"
          "msg_EventType (ir_Message r') = OperationalType_text (oe_Type ev)" "msg_Payload (ir_Message r') = Codec_Encode (iu_codec (op_ingest uc)) encoded"
        by (simp_all add: accepted(6) new_message_def)
      from tx(3) obtain task where t: "enqueued_as task (ingest_task (op_ingest uc) app (ir_Message r'))" "task_ID task \<notin> dom (pg_look (md_queue d))"
          "pg_look (md_queue d1) = (pg_look (md_queue d))(task_ID task \<mapsto> task)" by blast
      have k: "task_Kind task = TaskFanout" "task_MsgID task = msg_ID (ir_Message r')" "task_AppID task = ref_ID app"
        using t(1) by (simp_all add: enqueued_as_def ingest_task_def)
      have none: "res = None" using sent(4) accepted(1) by simp
      have q: "md_msgs d' = md_msgs d @ [ir_Message r']" "pg_look (md_queue d') = (pg_look (md_queue d))(task_ID task \<mapsto> task)"
        using tx(2) t(3) m(1) by (simp_all add: accepted(9) notify_frame)
      show ?thesis using q t(2) k m(2-4) sent(2) accepted(2) id unfolding none option.case
        by (intro exI [of _ "ir_Message r'"] exI [of _ task] exI [of _ encoded] exI [of _ app] exI [of _ n] exI [of _ c1]) simp
    qed (auto simp: sent(4) dest: ingest_tx_err)
  qed
qed

text \<open>The reserved application is never looked up again: when it was deleted, every event of the node is lost.\<close>

lemma deleted_reserved_app:
  assumes "appIDs (oe_OrgID ev) = Some appID" and "rs_snapshot (iu_resolver (op_ingest uc)) = None" and "rs_appRepo (iu_resolver (op_ingest uc))"
    and "db_faults c = []" and "\<forall>app\<in>set (db_apps c). app_DeletedAt app \<noteq> None"
    and "Emit uc others ev (appIDs, c, d) = (res, appIDs', c', d')"
  shows "res \<noteq> None \<and> appIDs' = appIDs"
proof -
  have "\<not> live_app c app" for app using assms(5) by (auto simp: live_app_def)
  have r: "\<exists>e n c2. resolve (iu_pg (op_ingest uc)) (iu_resolver (op_ingest uc)) (oe_OrgID ev) appID c = (Inl e, n, c2)"
  proof (cases "resolve (iu_pg (op_ingest uc)) (iu_resolver (op_ingest uc)) (oe_OrgID ev) appID c")
    case (fields res n c2)
    show ?thesis
    proof (cases res)
      case (Inr ref)
      let ?db = "case app_by_id (iu_pg (op_ingest uc)) (oe_OrgID ev) appID c of (Inl ErrNotFound, d) \<Rightarrow> app_by_uid (iu_pg (op_ingest uc)) (oe_OrgID ev) appID d | other \<Rightarrow> other"
      obtain q c3 where db: "?db = (q, c3)" by fastforce
      obtain app where "q = Inr app" using fields Inr db assms(2,3) by (auto simp: resolve_def split: sum.splits repo_error.splits if_splits)
      then show ?thesis using resolve_fallback(2) [OF db, of app] \<open>\<And>app. \<not> live_app c app\<close> by blast
    qed (use fields in auto)
  qed
  then show ?thesis using assms(1,6) by (auto simp: Emit_def reservedApp_def Ingest_def split: sum.splits prod.splits option.splits if_splits)
qed

section \<open>A small tenant with webhooks and a portal\<close>

definition demo_portal :: PortalUseCase where
  "demo_portal = NewPortalUseCase \<lparr>rs_snapshot = None, rs_appRepo = True, rs_invalidator = True\<rparr> ''https://hooks.test/'' 0"

definition demo_tenant :: cfgdb where
  "demo_tenant = demo_cfg\<lparr>db_apps := [demo_app], db_faults := []\<rparr>"

definition demo_access :: PortalAccess where
  "demo_access = \<lparr>pl_URL = ''https://hooks.test/portal?token=p'', pl_Token = ''p'', pl_Expiry = Hour\<rparr>"

lemma demo_grant: "Grant demo_pgenv (IssuePortalToken demo_jwt demo_manager 0) demo_portal ''org_1'' ''billing'' (Some Hour) demo_tenant = (Inr demo_access, demo_tenant)"
  by code_simp

theorem granted_link_opens_witness:
  "\<exists>ref n link. resolve demo_pgenv (pu_resolver demo_portal) ''org_1'' ''billing'' demo_tenant = (Inr ref, n, demo_tenant) \<and> ref_ID ref = ''app_1'' \<and>
     RequireSession (auth_Parse demo_jwt demo_manager 1) 1 (Some ''p'') [] = Session ''org_1'' ''app_1''"
proof -
  have r: "resolve demo_pgenv (pu_resolver demo_portal) ''org_1'' ''billing'' demo_tenant = (Inr \<lparr>ref_ID = ''app_1'', ref_OrgID = ''org_1''\<rparr>, 1, demo_tenant)" by code_simp
  have t: "1 < pl_Expiry demo_access - pl_Expiry demo_access mod Second" "pl_Token demo_access = ''p''" by code_simp+
  show ?thesis using granted_link_opens [OF demo_roundtrip demo_grant order_refl zero_le_one t(1)] r by (auto simp: t(2))
qed

definition demo_op :: OperationalUseCase where
  "demo_op = \<lparr>op_env = demo_uc, op_ingest = demo_ingest, op_marshal = (\<lambda>m. if m ''type'' = None then None else Some (bytes_of ''{}'')), op_now = 7\<rparr>"

definition demo_orgs :: cfgdb where
  "demo_orgs = demo_cfg\<lparr>db_orgs := [\<lparr>org_ID = ''org_1'', org_Name = ''one'', org_CreatedAt = 0, org_UpdatedAt = 0, org_DeletedAt = None\<rparr>], db_apps := []\<rparr>"

definition reserved_row :: Application where
  "reserved_row = demo_app\<lparr>app_ID := ''app_9'', app_UID := Some OperationalAppUID\<rparr>"

text \<open>Another node creates the application in between: this one conflicts, and takes the other's.\<close>

theorem reserved_app_live_witness:
  "\<exists>d'. reservedApp demo_op (\<lambda>d. d\<lparr>db_apps := [reserved_row]\<rparr>) ''org_1'' (Map.empty, demo_orgs) = (Inr ''app_9'', [''org_1'' \<mapsto> ''app_9''], d') \<and>
     (\<exists>app. live_app d' app \<and> app_OrgID app = ''org_1'' \<and> app_ID app = ''app_9'' \<and> app_UID app = Some OperationalAppUID)"
proof -
  let ?others = "\<lambda>d. d\<lparr>db_apps := [reserved_row]\<rparr>"
  have "fst (reservedApp demo_op ?others ''org_1'' (Map.empty, demo_orgs)) = Inr ''app_9''" by code_simp
  then obtain ids d' where r: "reservedApp demo_op ?others ''org_1'' (Map.empty, demo_orgs) = (Inr ''app_9'', ids, d')" by (metis prod.collapse)
  have "''app_9'' \<noteq> OperationalAppUID" by (simp add: OperationalAppUID_def)
  with reserved_app_live [OF r] r show ?thesis by auto
qed

definition demo_event :: OperationalEvent where
  "demo_event = \<lparr>oe_OrgID = ''org_1'', oe_Type = EventAttemptExhausted, oe_AppID = ''app_9'', oe_EndpointID = ''ep_1'', oe_MsgID = ''msg_1'',
     oe_Detail = AttemptDetail 8 500 ''https://a''\<rparr>"

text \<open>The event is about the reserved application itself, and is sent to it.\<close>

theorem operational_event_ingested_witness:
  "\<exists>msg d'. snd (snd (snd (Emit demo_op id demo_event ([''org_1'' \<mapsto> ''app_9''], demo_orgs\<lparr>db_apps := [reserved_row]\<rparr>, demo_mdb)))) = d' \<and>
     md_msgs d' = [msg] \<and> msg_EventType msg = ''message.attempt.exhausted'' \<and> msg_AppID msg = oe_AppID demo_event"
proof -
  let ?c = "demo_orgs\<lparr>db_apps := [reserved_row]\<rparr>"
  obtain res ids c' d' where e: "Emit demo_op id demo_event ([''org_1'' \<mapsto> ''app_9''], ?c, demo_mdb) = (res, ids, c', d')" by (metis prod.collapse)
  have "fst (Emit demo_op id demo_event ([''org_1'' \<mapsto> ''app_9''], ?c, demo_mdb)) = None" by code_simp
  then have "res = None" using e by simp
  moreover have "map msg_AppID (md_msgs (snd (snd (snd (Emit demo_op id demo_event ([''org_1'' \<mapsto> ''app_9''], ?c, demo_mdb)))))) = [''app_9'']" by code_simp
  moreover have "OperationalType_text (oe_Type demo_event) = ''message.attempt.exhausted''" "oe_AppID demo_event = ''app_9''" by code_simp+
  ultimately show ?thesis using operational_event_ingested [OF e demo_mdb_inv(1)] e by (auto simp: demo_mdb_inv)
qed

end
