(* ===== verification/Attempt_UseCase.thy ===== *)
theory Attempt_UseCase
  imports Ingest Attempt_Writer
begin

text \<open>
  The delivery log and the replays: the reads of \<^verbatim>\<open>attempt_repo.go\<close> and the whole of \<^verbatim>\<open>attempt_usecase.go\<close>. The
  state is the configuration database, the message database with the queue, and the attempt table. The
  replay visits its messages in the order of a Go map, which is a parameter; the order of notifications is
  that of the tasks.
\<close>

section \<open>attempt\_repo.go: reads\<close>

record AttemptFilters =
  af_ID :: "string Filter option"
  af_OrgID :: "string Filter option"
  af_AppID :: "string Filter option"
  af_MsgID :: "string Filter option"
  af_EndpointID :: "string Filter option"
  af_Status :: "AttemptStatus Filter option"
  af_StatusCodeClass :: "int option"
  af_CreatedAt :: "time Filter option"
  af_TriggerType :: "TriggerType Filter option"

definition no_attempt_filters :: AttemptFilters where
  "no_attempt_filters = \<lparr>af_ID = None, af_OrgID = None, af_AppID = None, af_MsgID = None, af_EndpointID = None, af_Status = None,
     af_StatusCodeClass = None, af_CreatedAt = None, af_TriggerType = None\<rparr>"

fun status_int16 :: "AttemptStatus \<Rightarrow> int" where
  "status_int16 AttemptSucceeded = 0"
| "status_int16 AttemptPendingRetry = 1"
| "status_int16 AttemptFailed = 2"

fun trigger_int16 :: "TriggerType \<Rightarrow> int" where
  "trigger_int16 TriggerScheduled = 0"
| "trigger_int16 TriggerManual = 1"
| "trigger_int16 TriggerBulkReplay = 2"
| "trigger_int16 (TriggerOther n) = n"

definition castFilter :: "'a Filter option \<Rightarrow> ('a \<Rightarrow> 'b) \<Rightarrow> 'b Filter option" where
  "castFilter flt convert = (if Filter_IsZero flt then None else map_option (\<lambda>f.
     \<lparr>f_Is = map_option convert (f_Is f), f_IsNot = map_option convert (f_IsNot f), f_In = map convert (f_In f), f_NotIn = map convert (f_NotIn f),
      f_IContains = None, f_Exists = f_Exists f, f_GT = map_option convert (f_GT f), f_GTE = map_option convert (f_GTE f),
      f_LT = map_option convert (f_LT f), f_LTE = map_option convert (f_LTE f)\<rparr>) flt)"

definition applyAttemptFilters :: "pgenv \<Rightarrow> AttemptFilters \<Rightarrow> DeliveryAttempt QueryBuilder" where
  "applyAttemptFilters env f =
    (let b = ApplyFilter (pe_ilike env) (af_ID f) (\<lambda>a. Some (att_ID a)) NewQueryBuilder;
         b = ApplyFilter (pe_ilike env) (af_OrgID f) (\<lambda>a. Some (att_OrgID a)) b;
         b = ApplyFilter (pe_ilike env) (af_AppID f) (\<lambda>a. Some (att_AppID a)) b;
         b = ApplyFilter (pe_ilike env) (af_MsgID f) (\<lambda>a. Some (att_MsgID a)) b;
         b = ApplyFilter (pe_ilike env) (af_EndpointID f) (\<lambda>a. Some (att_EndpointID a)) b;
         b = ApplyFilter (\<lambda>_ _. False) (af_CreatedAt f) (\<lambda>a. Some (att_CreatedAt a)) b;
         b = (if \<not> Filter_IsZero (af_Status f) then ApplyFilter (\<lambda>_ _. False) (castFilter (af_Status f) status_int16) (\<lambda>a. Some (status_int16 (att_Status a))) b else b);
         b = (if \<not> Filter_IsZero (af_TriggerType f) then ApplyFilter (\<lambda>_ _. False) (castFilter (af_TriggerType f) trigger_int16) (\<lambda>a. Some (trigger_int16 (att_TriggerType a))) b else b);
         b = where_opt (af_StatusCodeClass f) (\<lambda>c. Where (\<lambda>a. wrap16 (c * 100) \<le> att_ResponseStatusCode a \<and> att_ResponseStatusCode a < wrap16 (wrap16 (c * 100) + 100))) b in
     Where (\<lambda>a. att_DeletedAt a = None) b)"

definition ad_query :: "string \<Rightarrow> (DeliveryAttempt list \<Rightarrow> 'a) \<Rightarrow> adb \<Rightarrow> (repo_error + 'a) \<times> adb" where
  "ad_query context f a = (case ad_faults a of
      [] \<Rightarrow> (Inr (f (ad_rows a)), a)
    | fault # fs \<Rightarrow> (if fault then Inl (DriverError context) else Inr (f (ad_rows a)), a\<lparr>ad_faults := fs\<rparr>))"

definition GetAttempt :: "pgenv \<Rightarrow> AttemptFilters \<Rightarrow> adb \<Rightarrow> (repo_error + DeliveryAttempt) \<times> adb" where
  "GetAttempt env f a = (case ad_query ''select delivery attempt''
       (\<lambda>rows. ordered True att_CreatedAt att_ID (filter (Clause (applyAttemptFilters env f)) rows)) a of
      (Inl e, a) \<Rightarrow> (Inl e, a)
    | (Inr [], a) \<Rightarrow> (Inl ErrNotFound, a)
    | (Inr (r # _), a) \<Rightarrow> (Inr r, a))"

definition GetAttempts ::
  "pgenv \<Rightarrow> (time \<Rightarrow> string) \<Rightarrow> (string \<Rightarrow> time option) \<Rightarrow> AttemptFilters \<Rightarrow> CursorPagination \<Rightarrow> adb \<Rightarrow> (repo_error + DeliveryAttempt CursorResult) \<times> adb" where
  "GetAttempts env fmt parse f page = ad_query ''select delivery attempts'' (\<lambda>rows.
     get_page \<lparr>cc_marshal = pe_marshalCursor env, cc_unmarshal = pe_unmarshalCursor env, cc_format = fmt, cc_parse = parse\<rparr>
       att_CreatedAt att_ID True (applyAttemptFilters env f) page rows)"

type_synonym FailedDelivery = "string \<times> string"

text \<open>
  \<^verbatim>\<open>SELECT DISTINCT ON (msg_id, endpoint_id) ... ORDER BY msg_id, endpoint_id, created_at DESC, id DESC\<close>, then the rows
  that failed. The outer order names \<^verbatim>\<open>msg_id\<close> only; ties keep the inner order.
\<close>

definition latest_attempts :: "DeliveryAttempt list \<Rightarrow> DeliveryAttempt list" where
  "latest_attempts rows = map (\<lambda>k. hd (ordered True att_CreatedAt att_ID (filter (\<lambda>a. (att_MsgID a, att_EndpointID a) = k) rows)))
     (sort (remdups (map (\<lambda>a. (att_MsgID a, att_EndpointID a)) rows)))"

definition failed_deliveries :: "pgenv \<Rightarrow> AttemptFilters \<Rightarrow> DeliveryAttempt list \<Rightarrow> FailedDelivery list" where
  "failed_deliveries env f rows = map (\<lambda>a. (att_MsgID a, att_EndpointID a))
     (filter (\<lambda>a. att_Status a = AttemptFailed) (latest_attempts (filter (Clause (applyAttemptFilters env f)) rows)))"

definition ListFailedDeliveries :: "pgenv \<Rightarrow> AttemptFilters \<Rightarrow> int \<Rightarrow> adb \<Rightarrow> (repo_error + FailedDelivery list) \<times> adb" where
  "ListFailedDeliveries env f limit = ad_query ''select failed deliveries''
     (\<lambda>rows. take (nat (if limit \<le> 0 then 1000 else limit)) (failed_deliveries env f rows))"

record AttemptStats =
  ast_Succeeded :: nat
  ast_Pending :: nat
  ast_Failed :: nat

definition AttemptRepo_Stats :: "pgenv \<Rightarrow> AttemptFilters \<Rightarrow> adb \<Rightarrow> (repo_error + AttemptStats) \<times> adb" where
  "AttemptRepo_Stats env f = ad_query ''select attempt stats''
     (\<lambda>rows. let rows = filter (Clause (applyAttemptFilters env f)) rows in
        \<lparr>ast_Succeeded = length (filter (\<lambda>a. att_Status a = AttemptSucceeded) rows),
         ast_Pending = length (filter (\<lambda>a. att_Status a = AttemptPendingRetry) rows),
         ast_Failed = length (filter (\<lambda>a. att_Status a = AttemptFailed) rows)\<rparr>)"

section \<open>attempt\_usecase.go\<close>

definition MaxReplayBatch :: nat where "MaxReplayBatch = 5000"

record AttemptFilterInput =
  fi_Status :: "AttemptStatus option"
  fi_StatusCodeClass :: "int option"
  fi_EventTypes :: "string list"
  fi_Channel :: "string option"
  fi_Before :: "time option"
  fi_After :: "time option"

record ListAttemptsInput =
  la_OrgID :: string
  la_AppIDOrUID :: string
  la_MsgID :: string
  la_EndpointID :: string
  la_Filters :: AttemptFilterInput
  la_Page :: CursorPagination

record RecoverInput =
  ri_OrgID :: string
  ri_AppIDOrUID :: string
  ri_EndpointID :: string
  ri_Since :: time
  ri_Until :: "time option"

record ReplayInput =
  rp_OrgID :: string
  rp_AppIDOrUID :: string
  rp_EndpointIDs :: "string list"
  rp_EventTypes :: "string list"
  rp_Since :: time
  rp_Until :: "time option"

record ReplayResult =
  rr_Enqueued :: nat
  rr_Truncated :: bool

text \<open>The use case with its dependencies, the clock and the order in which the map of messages is visited.\<close>

record AttemptUseCase =
  au_pg :: pgenv
  au_resolver :: appResolver
  au_ksuid :: ksuid
  au_queuePool :: string
  au_now :: time
  au_visit :: "string list \<Rightarrow> string list"

definition NewAttemptUseCase :: "pgenv \<Rightarrow> appResolver \<Rightarrow> ksuid \<Rightarrow> time \<Rightarrow> (string list \<Rightarrow> string list) \<Rightarrow> string \<Rightarrow> AttemptUseCase" where
  "NewAttemptUseCase env r k now visit queuePool =
     \<lparr>au_pg = env, au_resolver = r, au_ksuid = k, au_queuePool = Fallback queuePool ''default'', au_now = now, au_visit = visit\<rparr>"

type_synonym attempt_state = "cfgdb \<times> mdb \<times> adb"

definition resolveEndpoint :: "AttemptUseCase \<Rightarrow> string \<Rightarrow> string \<Rightarrow> cfgdb \<Rightarrow> string uc_result" where
  "resolveEndpoint uc appID idOrUID d = (case by_id_or_uid ''endpoint''
       (EndpointRepo_GetEndpoint (au_pg uc) (no_endpoint_filters\<lparr>ef_AppID := Eq appID, ef_ID := Eq idOrUID\<rparr>))
       (EndpointRepo_GetEndpoint (au_pg uc) (no_endpoint_filters\<lparr>ef_AppID := Eq appID, ef_UID := Eq idOrUID\<rparr>)) d of
      (Inl e, d) \<Rightarrow> (Inl e, d)
    | (Inr ep, d) \<Rightarrow> (Inr (ep_ID ep), d))"

text \<open>Resolve the application, then an endpoint in it.\<close>

definition with_app :: "AttemptUseCase \<Rightarrow> string \<Rightarrow> string \<Rightarrow> (AppRef \<Rightarrow> attempt_state \<Rightarrow> (AppError + 'a) \<times> attempt_state) \<Rightarrow> attempt_state \<Rightarrow> (AppError + 'a) \<times> attempt_state" where
  "with_app uc orgID appIDOrUID f s = (case s of (c, d, a) \<Rightarrow> (case resolve (au_pg uc) (au_resolver uc) orgID appIDOrUID c of
      (Inl e, _, c) \<Rightarrow> (Inl e, c, d, a)
    | (Inr app, _, c) \<Rightarrow> f app (c, d, a)))"

definition in_app_endpoint :: "AttemptUseCase \<Rightarrow> AppRef \<Rightarrow> string \<Rightarrow> (string \<Rightarrow> attempt_state \<Rightarrow> (AppError + 'a) \<times> attempt_state) \<Rightarrow> attempt_state \<Rightarrow> (AppError + 'a) \<times> attempt_state" where
  "in_app_endpoint uc app idOrUID f s = (case s of (c, d, a) \<Rightarrow> (case resolveEndpoint uc (ref_ID app) idOrUID c of
      (Inl e, c) \<Rightarrow> (Inl e, c, d, a)
    | (Inr endpointID, c) \<Rightarrow> f endpointID (c, d, a)))"

definition list_filters :: "ListAttemptsInput \<Rightarrow> AppRef \<Rightarrow> AttemptFilters" where
  "list_filters inp app =
    (let f = no_attempt_filters\<lparr>af_AppID := Eq (ref_ID app), af_StatusCodeClass := fi_StatusCodeClass (la_Filters inp)\<rparr>;
         f = (if la_MsgID inp \<noteq> [] then f\<lparr>af_MsgID := Eq (la_MsgID inp)\<rparr> else f);
         f = (case fi_Status (la_Filters inp) of None \<Rightarrow> f | Some st \<Rightarrow> f\<lparr>af_Status := Eq st\<rparr>) in
     if fi_Before (la_Filters inp) \<noteq> None \<or> fi_After (la_Filters inp) \<noteq> None
     then f\<lparr>af_CreatedAt := Some (no_filter\<lparr>f_LT := fi_Before (la_Filters inp), f_GTE := fi_After (la_Filters inp)\<rparr>)\<rparr> else f)"

definition ListAttempts ::
  "(time \<Rightarrow> string) \<Rightarrow> (string \<Rightarrow> time option) \<Rightarrow> AttemptUseCase \<Rightarrow> ListAttemptsInput \<Rightarrow> attempt_state \<Rightarrow> (AppError + DeliveryAttempt CursorResult) \<times> attempt_state" where
  "ListAttempts fmt parse uc inp = with_app uc (la_OrgID inp) (la_AppIDOrUID inp) (\<lambda>app.
    (let page = (\<lambda>f s. case s of (c, d, a) \<Rightarrow> (case GetAttempts (au_pg uc) fmt parse f (la_Page inp) a of
            (Inl e, a) \<Rightarrow> (Inl (Internal e), c, d, a)
          | (Inr r, a) \<Rightarrow> (Inr r, c, d, a))) in
     if la_EndpointID inp = [] then page (list_filters inp app)
     else in_app_endpoint uc app (la_EndpointID inp) (\<lambda>ep. page ((list_filters inp app)\<lparr>af_EndpointID := Eq ep\<rparr>))))"

definition AttemptUseCase_Stats ::
  "AttemptUseCase \<Rightarrow> string \<Rightarrow> string \<Rightarrow> string \<Rightarrow> time option \<Rightarrow> attempt_state \<Rightarrow> (AppError + AttemptStats) \<times> attempt_state" where
  "AttemptUseCase_Stats uc orgID appIDOrUID endpointIDOrUID since = with_app uc orgID appIDOrUID (\<lambda>app.
     in_app_endpoint uc app endpointIDOrUID (\<lambda>ep s. case s of (c, d, a) \<Rightarrow>
      (let f = no_attempt_filters\<lparr>af_AppID := Eq (ref_ID app), af_EndpointID := Eq ep\<rparr>;
           f = (case since of None \<Rightarrow> f | Some t \<Rightarrow> f\<lparr>af_CreatedAt := Some (no_filter\<lparr>f_GTE := Some t\<rparr>)\<rparr>) in
       case AttemptRepo_Stats (au_pg uc) f a of
         (Inl e, a) \<Rightarrow> (Inl (Internal e), c, d, a)
       | (Inr st, a) \<Rightarrow> (Inr st, c, d, a))))"

definition messageCreatedAt :: "AttemptUseCase \<Rightarrow> string \<Rightarrow> string \<Rightarrow> mdb \<Rightarrow> (AppError + time) \<times> mdb" where
  "messageCreatedAt uc appID msgID d = (case TimeOf (au_ksuid uc) msgID of
      None \<Rightarrow> (Inl (NewNotFoundError ''message''), d)
    | Some createdAt \<Rightarrow> (case MessageRepo_GetMessage (au_pg uc)
          (no_message_filters\<lparr>mf_AppID := Eq appID, mf_ID := Eq msgID, mf_CreatedAt := day_window createdAt\<rparr>) d of
        (Inl e, d) \<Rightarrow> (Inl (not_found_or_internal ''message'' e), d)
      | (Inr msg, d) \<Rightarrow> (Inr (msg_CreatedAt msg), d)))"

definition replay_task :: "AttemptUseCase \<Rightarrow> AppRef \<Rightarrow> time \<Rightarrow> TriggerType \<Rightarrow> FailedDelivery \<Rightarrow> EnqueueTask" where
  "replay_task uc app msgCreatedAt trigger delivery =
    \<lparr>et_PartitionKey = PartitionKeyFor (snd delivery), et_Pool = au_queuePool uc, et_Kind = TaskDeliver, et_TaskOrgID = ref_OrgID app,
     et_AppID = ref_ID app, et_MsgID = fst delivery, et_MsgCreatedAt = msgCreatedAt, et_EndpointID = Some (snd delivery), et_Attempt = 0,
     et_TriggerType = trigger, et_VisibleAt = au_now uc\<rparr>"

definition enqueueReplays :: "AttemptUseCase \<Rightarrow> AppRef \<Rightarrow> FailedDelivery list \<Rightarrow> time \<Rightarrow> TriggerType \<Rightarrow> mdb \<Rightarrow> AppError option \<times> mdb" where
  "enqueueReplays uc app deliveries msgCreatedAt trigger d =
    (let tasks = map (replay_task uc app msgCreatedAt trigger) deliveries in
     case on_queue (Enqueue (au_now uc) tasks) d of
       (Some e, d) \<Rightarrow> (Some (Internal e), d)
     | (None, d) \<Rightarrow> (None, fold (\<lambda>p d. snd (on_queue (Notify p) d)) (Unique (map et_PartitionKey tasks)) d))"

definition Resend :: "AttemptUseCase \<Rightarrow> string \<Rightarrow> string \<Rightarrow> string \<Rightarrow> string \<Rightarrow> attempt_state \<Rightarrow> (AppError + unit) \<times> attempt_state" where
  "Resend uc orgID appIDOrUID msgID endpointIDOrUID = with_app uc orgID appIDOrUID (\<lambda>app.
     in_app_endpoint uc app endpointIDOrUID (\<lambda>ep s. case s of (c, d, a) \<Rightarrow>
       (case messageCreatedAt uc (ref_ID app) msgID d of
          (Inl e, d) \<Rightarrow> (Inl e, c, d, a)
        | (Inr createdAt, d) \<Rightarrow> (case enqueueReplays uc app [(msgID, ep)] createdAt TriggerManual d of
            (Some e, d) \<Rightarrow> (Inl e, c, d, a)
          | (None, d) \<Rightarrow> (Inr (), c, d, a)))))"

definition validateReplayWindow :: "time \<Rightarrow> time option \<Rightarrow> AppError option" where
  "validateReplayWindow since until =
    (if time_IsZero since then Some (NewValidationError ''since is required'')
     else if (case until of None \<Rightarrow> False | Some u \<Rightarrow> \<not> u > since) then Some (NewValidationError ''until must be after since'')
     else None)"

text \<open>The loop over the messages: stop at the first error, skip an identifier that has no time.\<close>

fun replay_loop :: "AttemptUseCase \<Rightarrow> AppRef \<Rightarrow> FailedDelivery list \<Rightarrow> string list \<Rightarrow> nat \<Rightarrow> mdb \<Rightarrow> (AppError + nat) \<times> mdb" where
  "replay_loop uc app failed [] n d = (Inr n, d)"
| "replay_loop uc app failed (msgID # rest) n d =
    (let deliveries = filter (\<lambda>f. fst f = msgID) failed in
     case TimeOf (au_ksuid uc) msgID of
       None \<Rightarrow> replay_loop uc app failed rest n d
     | Some createdAt \<Rightarrow> (case enqueueReplays uc app deliveries createdAt TriggerBulkReplay d of
         (Some e, d) \<Rightarrow> (Inl e, d)
       | (None, d) \<Rightarrow> replay_loop uc app failed rest (n + length deliveries) d))"

definition AttemptUseCase_replay :: "AttemptUseCase \<Rightarrow> AppRef \<Rightarrow> AttemptFilters \<Rightarrow> attempt_state \<Rightarrow> (AppError + ReplayResult) \<times> attempt_state" where
  "AttemptUseCase_replay uc app filters s = (case s of (c, d, a) \<Rightarrow>
    (case ListFailedDeliveries (au_pg uc) filters (int (MaxReplayBatch + 1)) a of
       (Inl e, a) \<Rightarrow> (Inl (Internal e), c, d, a)
     | (Inr failed, a) \<Rightarrow>
        (let truncated = length failed > MaxReplayBatch;
             failed = (if truncated then take MaxReplayBatch failed else failed) in
         if failed = [] then (Inr \<lparr>rr_Enqueued = 0, rr_Truncated = truncated\<rparr>, c, d, a)
         else (case replay_loop uc app failed (au_visit uc (Unique (map fst failed))) 0 d of
             (Inl e, d) \<Rightarrow> (Inl e, c, d, a)
           | (Inr n, d) \<Rightarrow> (Inr \<lparr>rr_Enqueued = n, rr_Truncated = truncated\<rparr>, c, d, a)))))"

definition replay_window :: "time \<Rightarrow> time option \<Rightarrow> time Filter option" where
  "replay_window since until = Some (no_filter\<lparr>f_GTE := Some since, f_LT := until\<rparr>)"

definition Recover :: "AttemptUseCase \<Rightarrow> RecoverInput \<Rightarrow> attempt_state \<Rightarrow> (AppError + ReplayResult) \<times> attempt_state" where
  "Recover uc inp = with_app uc (ri_OrgID inp) (ri_AppIDOrUID inp) (\<lambda>app.
     in_app_endpoint uc app (ri_EndpointID inp) (\<lambda>ep s. case validateReplayWindow (ri_Since inp) (ri_Until inp) of
       Some e \<Rightarrow> (Inl e, s)
     | None \<Rightarrow> AttemptUseCase_replay uc app
         (no_attempt_filters\<lparr>af_AppID := Eq (ref_ID app), af_EndpointID := Eq ep, af_CreatedAt := replay_window (ri_Since inp) (ri_Until inp)\<rparr>) s))"

fun resolve_all :: "AttemptUseCase \<Rightarrow> AppRef \<Rightarrow> string list \<Rightarrow> string list \<Rightarrow> cfgdb \<Rightarrow> string list uc_result" where
  "resolve_all uc app [] out c = (Inr out, c)"
| "resolve_all uc app (x # xs) out c = (case resolveEndpoint uc (ref_ID app) x c of
     (Inl e, c) \<Rightarrow> (Inl e, c)
   | (Inr ep, c) \<Rightarrow> resolve_all uc app xs (out @ [ep]) c)"

definition Replay :: "AttemptUseCase \<Rightarrow> ReplayInput \<Rightarrow> attempt_state \<Rightarrow> (AppError + ReplayResult) \<times> attempt_state" where
  "Replay uc inp = with_app uc (rp_OrgID inp) (rp_AppIDOrUID inp) (\<lambda>app s.
    (case validateReplayWindow (rp_Since inp) (rp_Until inp) of
       Some e \<Rightarrow> (Inl e, s)
     | None \<Rightarrow>
        (let f = no_attempt_filters\<lparr>af_AppID := Eq (ref_ID app), af_CreatedAt := replay_window (rp_Since inp) (rp_Until inp)\<rparr> in
         if rp_EndpointIDs inp = [] then AttemptUseCase_replay uc app f s
         else (case s of (c, d, a) \<Rightarrow> (case resolve_all uc app (rp_EndpointIDs inp) [] c of
             (Inl e, c) \<Rightarrow> (Inl e, c, d, a)
           | (Inr eps, c) \<Rightarrow> AttemptUseCase_replay uc app (f\<lparr>af_EndpointID := AnyOf eps\<rparr>) (c, d, a))))))"

section \<open>What a replay enqueues\<close>

definition attempt_key :: "DeliveryAttempt \<Rightarrow> FailedDelivery" where
  "attempt_key a = (att_MsgID a, att_EndpointID a)"

text \<open>The last of the attempts that satisfy the filters failed.\<close>

definition last_failed :: "(DeliveryAttempt \<Rightarrow> bool) \<Rightarrow> DeliveryAttempt list \<Rightarrow> FailedDelivery \<Rightarrow> bool" where
  "last_failed P rows k \<longleftrightarrow> (\<exists>x \<in> set rows. P x \<and> attempt_key x = k \<and> att_Status x = AttemptFailed \<and>
     (\<forall>y \<in> set rows. P y \<and> attempt_key y = k \<longrightarrow> (att_CreatedAt y, att_ID y) \<le> (att_CreatedAt x, att_ID x)))"

lemma sorted_map_last: "sorted (map f xs) \<Longrightarrow> y \<in> set xs \<Longrightarrow> f y \<le> f (last xs)"
  by (induction xs rule: rev_induct) (auto simp: sorted_append)

lemma hd_ordered:
  assumes "rows \<noteq> []"
  shows "hd (ordered True s i rows) \<in> set rows" and "\<forall>y \<in> set rows. (s y, i y) \<le> (s (hd (ordered True s i rows)), i (hd (ordered True s i rows)))"
proof -
  let ?l = "sort_key (\<lambda>r. (s r, i r)) rows"
  have ne: "?l \<noteq> []" using assms by (metis length_0_conv length_sort)
  have h: "hd (ordered True s i rows) = last ?l" by (simp add: ordered_def hd_rev)
  show "hd (ordered True s i rows) \<in> set rows" unfolding h using last_in_set [OF ne] by simp
  have "sorted (map (\<lambda>r. (s r, i r)) ?l)" by (rule sorted_sort_key)
  from sorted_map_last [OF this] have "\<forall>y \<in> set ?l. (s y, i y) \<le> (s (last ?l), i (last ?l))" by blast
  then show "\<forall>y \<in> set rows. (s y, i y) \<le> (s (hd (ordered True s i rows)), i (hd (ordered True s i rows)))" unfolding h by simp
qed

lemma latest_keys: "map attempt_key (latest_attempts rows) = sort (remdups (map attempt_key rows))"
proof -
  have "attempt_key (hd (ordered True att_CreatedAt att_ID (filter (\<lambda>a. attempt_key a = k) rows))) = k" if "k \<in> attempt_key ` set rows" for k
    using hd_ordered(1) [of "filter (\<lambda>a. attempt_key a = k) rows"] that by (auto simp: filter_empty_conv image_iff)
  then show ?thesis unfolding latest_attempts_def attempt_key_def [symmetric] by (auto simp: comp_def intro: map_idI)
qed

lemma failed_distinct: "distinct (failed_deliveries env f rows)"
proof -
  have "distinct (map attempt_key (latest_attempts rows'))" for rows' by (simp add: latest_keys)
  then show ?thesis unfolding failed_deliveries_def attempt_key_def [symmetric] by (simp add: distinct_map_filter)
qed

lemma set_failed_deliveries:
  assumes "distinct (map (\<lambda>a. (att_CreatedAt a, att_ID a)) rows)"
  shows "set (failed_deliveries env f rows) = {k. last_failed (Clause (applyAttemptFilters env f)) rows k}"
proof -
  let ?P = "Clause (applyAttemptFilters env f)"
  define top where "top k = hd (ordered True att_CreatedAt att_ID (filter (\<lambda>a. attempt_key a = k) (filter ?P rows)))" for k
  have top: "attempt_key (top k) = k" if "k \<in> attempt_key ` set (filter ?P rows)" for k
    using hd_ordered(1) [of "filter (\<lambda>a. attempt_key a = k) (filter ?P rows)"] that unfolding top_def by (auto simp: filter_empty_conv)
  have "set (failed_deliveries env f rows) = (\<lambda>k. attempt_key (top k)) ` {k \<in> attempt_key ` set (filter ?P rows). att_Status (top k) = AttemptFailed}"
    unfolding failed_deliveries_def latest_attempts_def attempt_key_def [symmetric] top_def [symmetric] by (simp only: set_map set_filter set_sort set_remdups) blast
  also have "\<dots> = (\<lambda>k. k) ` {k \<in> attempt_key ` set (filter ?P rows). att_Status (top k) = AttemptFailed}"
    by (rule image_cong) (use top in auto)
  finally have keys: "set (failed_deliveries env f rows) = {k \<in> attempt_key ` set (filter ?P rows). att_Status (top k) = AttemptFailed}" by simp
  have "att_Status (top k) = AttemptFailed \<longleftrightarrow> last_failed ?P rows k" if "k \<in> attempt_key ` set (filter ?P rows)" for k
  proof -
    have ne: "filter (\<lambda>a. attempt_key a = k) (filter ?P rows) \<noteq> []" using that by (auto simp: filter_empty_conv)
    note t = hd_ordered [OF ne, of att_CreatedAt att_ID, folded top_def]
    have uniq: "x = y" if "x \<in> set rows" "y \<in> set rows" "(att_CreatedAt x, att_ID x) = (att_CreatedAt y, att_ID y)" for x y
      using assms that by (auto simp: distinct_map inj_on_def)
    show ?thesis
    proof
      assume "att_Status (top k) = AttemptFailed"
      then show "last_failed ?P rows k" using t unfolding last_failed_def by (intro bexI [of _ "top k"]) auto
    next
      assume "last_failed ?P rows k"
      then obtain x where x: "x \<in> set rows" "?P x" "attempt_key x = k" "att_Status x = AttemptFailed"
          "\<forall>y \<in> set rows. ?P y \<and> attempt_key y = k \<longrightarrow> (att_CreatedAt y, att_ID y) \<le> (att_CreatedAt x, att_ID x)"
        unfolding last_failed_def by blast
      moreover from x have "x \<in> set (filter (\<lambda>a. attempt_key a = k) (filter ?P rows))" by simp
      ultimately have "(att_CreatedAt x, att_ID x) = (att_CreatedAt (top k), att_ID (top k))" using t by (intro antisym) auto
      then have "x = top k" using t(1) x(1) by (intro uniq) auto
      then show "att_Status (top k) = AttemptFailed" using x(4) by simp
    qed
  qed
  moreover have "last_failed ?P rows k \<Longrightarrow> k \<in> attempt_key ` set (filter ?P rows)" for k unfolding last_failed_def by auto
  ultimately show ?thesis unfolding keys by blast
qed

definition added_rows :: "mdb \<Rightarrow> mdb \<Rightarrow> EnqueueTask list \<Rightarrow> DeliveryTask list \<Rightarrow> bool" where
  "added_rows d d' tasks rows \<longleftrightarrow> list_all2 enqueued_as rows tasks \<and> distinct (map task_ID rows) \<and>
     set (map task_ID rows) \<inter> dom (pg_look (md_queue d)) = {} \<and>
     pg_look (md_queue d') = pg_look (md_queue d) ++ map_of (map (\<lambda>t. (task_ID t, t)) rows) \<and> md_msgs d' = md_msgs d \<and> pg_inv (md_queue d')"

lemma added_rows_none: "pg_inv (md_queue d) \<Longrightarrow> added_rows d d [] []"
  by (simp add: added_rows_def)

lemma added_rows_append:
  assumes "added_rows d d1 ts1 rows1" and "added_rows d1 d2 ts2 rows2"
  shows "added_rows d d2 (ts1 @ ts2) (rows1 @ rows2)"
proof -
  have dom1: "dom (pg_look (md_queue d1)) = dom (pg_look (md_queue d)) \<union> task_ID ` set rows1"
    using assms(1) by (simp add: added_rows_def dom_map_of_conv_image_fst image_image Un_commute)
  have "dom (map_of (map (\<lambda>t. (task_ID t, t)) rows1)) \<inter> dom (map_of (map (\<lambda>t. (task_ID t, t)) rows2)) = {}"
    using assms(2) dom1 by (auto simp: added_rows_def dom_map_of_conv_image_fst image_image)
  from map_add_comm [OF this] have maps:
    "map_of (map (\<lambda>t. (task_ID t, t)) rows1) ++ map_of (map (\<lambda>t. (task_ID t, t)) rows2) = map_of (map (\<lambda>t. (task_ID t, t)) (rows1 @ rows2))"
    by simp
  have look: "pg_look (md_queue d2) = pg_look (md_queue d) ++ map_of (map (\<lambda>t. (task_ID t, t)) (rows1 @ rows2))"
    using assms maps by (simp add: added_rows_def map_add_assoc [symmetric] del: map_append)
  have all: "list_all2 enqueued_as (rows1 @ rows2) (ts1 @ ts2)" using assms by (simp add: added_rows_def list_all2_appendI)
  have "distinct (map task_ID (rows1 @ rows2))" using assms dom1 by (auto simp: added_rows_def)
  moreover have "set (map task_ID (rows1 @ rows2)) \<inter> dom (pg_look (md_queue d)) = {}" using assms dom1 by (auto simp: added_rows_def)
  ultimately show ?thesis using assms look all by (simp add: added_rows_def)
qed

lemma notify_inv: "pg_inv (md_queue d) \<Longrightarrow> pg_inv (md_queue (snd (on_queue (Notify p) d)))"
  using pg_inv_ops(6) [of "md_queue d" p] by (cases "Notify p (md_queue d)") (simp add: on_queue_def)

lemma notify_all_frame:
  assumes "d' = fold (\<lambda>p d. snd (on_queue (Notify p) d)) ps d"
  shows "md_msgs d' = md_msgs d" and "pg_look (md_queue d') = pg_look (md_queue d)" and "pg_inv (md_queue d) \<Longrightarrow> pg_inv (md_queue d')"
  unfolding assms by (induction ps arbitrary: d) (simp_all add: notify_frame notify_inv)

lemma enqueueReplays_ok:
  assumes "enqueueReplays uc app fs t trigger d = (None, d')" and "pg_inv (md_queue d)"
  shows "\<exists>rows. added_rows d d' (map (replay_task uc app t trigger) fs) rows"
proof -
  let ?ts = "map (replay_task uc app t trigger) fs"
  obtain q where q: "Enqueue (au_now uc) ?ts (md_queue d) = (None, q)"
      "d' = fold (\<lambda>p d. snd (on_queue (Notify p) d)) (Unique (map et_PartitionKey ?ts)) (d\<lparr>md_queue := q\<rparr>)"
    using assms(1) by (auto simp: enqueueReplays_def Let_def on_queue_def split: prod.splits option.splits)
  have "pg_inv q" using pg_inv_Enqueue [OF assms(2), of "au_now uc" ?ts] q(1) by simp
  then show ?thesis using Enqueue_contract [OF assms(2), of "au_now uc" ?ts] q
      notify_all_frame [OF q(2)] by (auto simp: added_rows_def)
qed

definition replay_tasks :: "AttemptUseCase \<Rightarrow> AppRef \<Rightarrow> FailedDelivery list \<Rightarrow> string list \<Rightarrow> EnqueueTask list" where
  "replay_tasks uc app failed msgs = concat (map (\<lambda>m. case TimeOf (au_ksuid uc) m of None \<Rightarrow> []
     | Some t \<Rightarrow> map (replay_task uc app t TriggerBulkReplay) (filter (\<lambda>f. fst f = m) failed)) msgs)"

lemma replay_loop_ok:
  assumes "replay_loop uc app failed msgs n d = (Inr n', d')" and "pg_inv (md_queue d)"
  shows "n' = n + length (replay_tasks uc app failed msgs) \<and> (\<exists>rows. added_rows d d' (replay_tasks uc app failed msgs) rows)"
  using assms
proof (induction msgs arbitrary: n d)
  case Nil
  then show ?case using added_rows_none by (auto simp: replay_tasks_def)
next
  case (Cons m msgs)
  show ?case
  proof (cases "TimeOf (au_ksuid uc) m")
    case None
    then show ?thesis using Cons by (simp add: replay_tasks_def)
  next
    case (Some t)
    let ?fs = "filter (\<lambda>f. fst f = m) failed"
    obtain d1 where d1: "enqueueReplays uc app ?fs t TriggerBulkReplay d = (None, d1)" "replay_loop uc app failed msgs (n + length ?fs) d1 = (Inr n', d')"
      using Cons.prems(1) Some by (auto simp: Let_def split: prod.splits option.splits)
    obtain rows1 where r1: "added_rows d d1 (map (replay_task uc app t TriggerBulkReplay) ?fs) rows1" using enqueueReplays_ok [OF d1(1) Cons.prems(2)] by blast
    then have "pg_inv (md_queue d1)" by (simp add: added_rows_def)
    from Cons.IH [OF d1(2) this] added_rows_append [OF r1] show ?thesis by (fastforce simp: replay_tasks_def Some)
  qed
qed

lemma replay_tasks_deliveries:
  assumes "distinct failed" and "distinct msgs" and "set msgs = fst ` set failed"
  shows "set (map (\<lambda>t. (et_MsgID t, the (et_EndpointID t))) (replay_tasks uc app failed msgs)) = {f \<in> set failed. TimeOf (au_ksuid uc) (fst f) \<noteq> None}"
    and "distinct (map (\<lambda>t. (et_MsgID t, the (et_EndpointID t))) (replay_tasks uc app failed msgs))"
proof -
  let ?g = "\<lambda>t. (et_MsgID t, the (et_EndpointID t))"
  let ?part = "\<lambda>m. case TimeOf (au_ksuid uc) m of None \<Rightarrow> [] | Some t \<Rightarrow> filter (\<lambda>f. fst f = m) failed"
  have g: "map ?g (replay_tasks uc app failed ms) = concat (map ?part ms)" for ms
    by (induction ms) (simp_all add: replay_tasks_def replay_task_def comp_def split: option.splits)
  have part: "set (?part m) = {f \<in> set failed. fst f = m \<and> TimeOf (au_ksuid uc) m \<noteq> None}" "distinct (?part m)" for m
    using assms(1) by (cases "TimeOf (au_ksuid uc) m"; auto)+
  have "set (concat (map ?part msgs)) = (\<Union>m \<in> set msgs. set (?part m))" by simp
  also have "\<dots> = {f \<in> set failed. TimeOf (au_ksuid uc) (fst f) \<noteq> None}" unfolding part(1) assms(3) by auto
  finally show "set (map ?g (replay_tasks uc app failed msgs)) = {f \<in> set failed. TimeOf (au_ksuid uc) (fst f) \<noteq> None}" unfolding g .
  show "distinct (map ?g (replay_tasks uc app failed msgs))" unfolding g using assms(2)
  proof (induction msgs)
    case (Cons m ms)
    have "set (concat (map ?part ms)) = (\<Union>m \<in> set ms. set (?part m))" by simp
    then have "set (?part m) \<inter> set (concat (map ?part ms)) = {}" unfolding part(1) using Cons.prems by auto
    then show ?case using Cons.IH Cons.prems part(2) [of m] by (simp only: list.map concat.simps distinct_append distinct.simps simp_thms)
  qed simp
qed

lemma replay_rows:
  assumes "AttemptUseCase_replay uc app f (c, d, a) = (Inr r, c', d', a')" and "pg_inv (md_queue d)"
    and "\<And>xs. mset (au_visit uc xs) = mset xs"
  shows "\<exists>failed tasks rows. failed = take (if rr_Truncated r then MaxReplayBatch else length (failed_deliveries (au_pg uc) f (ad_rows a))) (failed_deliveries (au_pg uc) f (ad_rows a)) \<and>
    added_rows d d' tasks rows \<and> (\<forall>t \<in> set tasks. \<exists>created fd. t = replay_task uc app created TriggerBulkReplay fd) \<and>
    rr_Enqueued r = length tasks \<and> distinct (map (\<lambda>t. (et_MsgID t, the (et_EndpointID t))) tasks) \<and>
    set (map (\<lambda>t. (et_MsgID t, the (et_EndpointID t))) tasks) = {k \<in> set failed. TimeOf (au_ksuid uc) (fst k) \<noteq> None}"
proof -
  let ?all = "failed_deliveries (au_pg uc) f (ad_rows a)"
  let ?listed = "take (MaxReplayBatch + 1) ?all"
  let ?tr = "length ?listed > MaxReplayBatch"
  let ?failed = "if ?tr then take MaxReplayBatch ?listed else ?listed"
  have n: "nat (1 + int MaxReplayBatch) = Suc MaxReplayBatch" by simp
  obtain a1 where list: "ListFailedDeliveries (au_pg uc) f (int (MaxReplayBatch + 1)) a = (Inr ?listed, a1)"
    using assms(1) n by (auto simp: AttemptUseCase_replay_def ListFailedDeliveries_def ad_query_def split: list.splits if_splits)
  have tr: "rr_Truncated r = ?tr" using assms(1) list by (auto simp: AttemptUseCase_replay_def Let_def split: if_splits prod.splits sum.splits)
  have failed: "?failed = take (if rr_Truncated r then MaxReplayBatch else length ?all) ?all" unfolding tr by auto
  show ?thesis
  proof (cases "?failed = []")
    case True
    then have "d' = d" "rr_Enqueued r = 0" using assms(1) list by (auto simp: AttemptUseCase_replay_def Let_def split: if_splits)
    then show ?thesis using added_rows_none [OF assms(2)] True failed by (intro exI [of _ "[]"]) auto
  next
    case False
    let ?msgs = "au_visit uc (Unique (map fst ?failed))"
    have loop: "replay_loop uc app ?failed ?msgs 0 d = (Inr (rr_Enqueued r), d')"
      using assms(1) list False by (auto simp: AttemptUseCase_replay_def Let_def split: if_splits prod.splits sum.splits)
    have u: "distinct (Unique (map fst ?failed))" "set (Unique (map fst ?failed)) = fst ` set ?failed"
      using Unique_loop_spec [of "[]" "{}" "map fst ?failed"] by (simp_all add: Unique_def)
    have m: "distinct ?msgs" "set ?msgs = fst ` set ?failed"
      using u assms(3) [of "Unique (map fst ?failed)"] mset_eq_imp_distinct_iff mset_eq_setD by (metis, metis)
    have dist: "distinct ?failed" using failed_distinct [of "au_pg uc" f "ad_rows a"] by simp
    from replay_loop_ok [OF loop assms(2)] replay_tasks_deliveries [OF dist m, of uc app] obtain rows where
      rows: "added_rows d d' (replay_tasks uc app ?failed ?msgs) rows" "rr_Enqueued r = length (replay_tasks uc app ?failed ?msgs)" by auto
    have tasks: "\<forall>t \<in> set (replay_tasks uc app ?failed ?msgs). \<exists>created fd. t = replay_task uc app created TriggerBulkReplay fd"
      by (auto simp: replay_tasks_def split: option.splits)
    show ?thesis
      using rows tasks replay_tasks_deliveries [OF dist m, of uc app] failed
      by (intro exI [of _ ?failed] exI [of _ "replay_tasks uc app ?failed ?msgs"] exI [of _ rows]) blast
  qed
qed


definition demo_attempt_at :: "string \<Rightarrow> time \<Rightarrow> AttemptStatus \<Rightarrow> DeliveryAttempt" where
  "demo_attempt_at i t st = (demo_attempt i st)\<lparr>att_CreatedAt := t, att_MsgID := ''msg_k1''\<rparr>"

definition demo_replay :: AttemptUseCase where
  "demo_replay = NewAttemptUseCase demo_pgenv \<lparr>rs_snapshot = None, rs_appRepo = True, rs_invalidator = False\<rparr> demo_ksuid 30 (\<lambda>xs. xs) []"

definition demo_filters :: "time option \<Rightarrow> AttemptFilters" where
  "demo_filters until = no_attempt_filters\<lparr>af_AppID := Eq ''app_1'', af_CreatedAt := replay_window 1 until\<rparr>"


text \<open>
  A replay of a time window sends again what was delivered since. The only delivery failed at 10 and
  succeeded at 20; a replay of everything finds nothing to send, and one of the window that ends at 15
  sends the message again, because the last attempt is looked for inside the window.
\<close>

theorem replay_window_resends_delivered:
  "failed_deliveries demo_pgenv (demo_filters None) [demo_attempt_at ''a1'' 10 AttemptFailed, demo_attempt_at ''a2'' 20 AttemptSucceeded] = [] \<and>
   failed_deliveries demo_pgenv (demo_filters (Some 15)) [demo_attempt_at ''a1'' 10 AttemptFailed, demo_attempt_at ''a2'' 20 AttemptSucceeded] = [(''msg_k1'', ''ep_1'')]"
  by code_simp

text \<open>
  The replay has a filter on event types in its input, and two inputs that differ in it only do the
  same: the attempt table has no event type and the use case does not look for one.
\<close>

lemma replay_ignores_event_types: "Replay uc (inp\<lparr>rp_EventTypes := types\<rparr>) = Replay uc inp"
proof -
  let ?i = "inp\<lparr>rp_EventTypes := types\<rparr>"
  have "rp_OrgID ?i = rp_OrgID inp" "rp_AppIDOrUID ?i = rp_AppIDOrUID inp" "rp_EndpointIDs ?i = rp_EndpointIDs inp"
    "rp_Since ?i = rp_Since inp" "rp_Until ?i = rp_Until inp" by simp_all
  then show ?thesis by (simp only: Replay_def)
qed

text \<open>A resend adds one deliver task, for that message and an endpoint of the application, which is not retried.\<close>

lemma resend_one_task:
  assumes "Resend uc orgID appIDOrUID msgID ep (c, d, a) = (Inr (), c', d', a')" and "pg_inv (md_queue d)"
  shows "\<exists>row. pg_look (md_queue d') = (pg_look (md_queue d))(task_ID row \<mapsto> row) \<and> task_ID row \<notin> dom (pg_look (md_queue d)) \<and>
    task_MsgID row = msgID \<and> task_Kind row = TaskDeliver \<and> \<not> Retryable (task_TriggerType row) \<and> a' = a"
proof -
  obtain app ep' t d1 where d1: "messageCreatedAt uc (ref_ID app) msgID d = (Inr t, d1)" "enqueueReplays uc app [(msgID, ep')] t TriggerManual d1 = (None, d')" "a' = a"
    using assms(1) by (auto simp: Resend_def with_app_def in_app_endpoint_def split: prod.splits sum.splits option.splits)
  obtain ok where "md_exec d = (ok, d1)"
    using d1(1) by (auto simp: messageCreatedAt_def MessageRepo_GetMessage_def md_query_def split: option.splits prod.splits bool.splits sum.splits)
  note frame = md_exec_frame [OF this]
  obtain rows where "added_rows d1 d' [replay_task uc app t TriggerManual (msgID, ep')] rows"
    using enqueueReplays_ok [OF d1(2) frame(3) [OF assms(2)]] by auto
  then obtain row where "added_rows d1 d' [replay_task uc app t TriggerManual (msgID, ep')] [row]" by (auto simp: added_rows_def list_all2_Cons2)
  then show ?thesis using frame(2) d1(3)
    by (intro exI [of _ row]) (auto simp: added_rows_def enqueued_as_def replay_task_def Retryable_def)
qed

end
