(* ===== verification/Attempt_Stream.thy ===== *)
theory Attempt_Stream
  imports Attempt_UseCase
begin

text \<open>
  The live tail of the delivery log (\<^verbatim>\<open>attemptstream/stream.go\<close>). Its loop polls the attempts since the last one it wrote, newest
  first, and writes them oldest first. A poll sees the tables as they are then, and a write may fail when the client is gone. The source of attempts is an interface in the
  code, and a locale here; the attempt use case implements it.
\<close>

section \<open>stream.go\<close>

definition Microsecond :: duration where "Microsecond = 1000"

datatype frame = KeepAlive | AttemptEvent string bytes

record stream =
  sm_since :: time
  sm_sent :: "DeliveryAttempt list"
  sm_frames :: "frame list"
  sm_left :: nat
  sm_open :: bool

text \<open>A ticker that fired: the keep-alive, or the poll on the tables of that moment. \<open>sm_left\<close> more writes succeed.\<close>

datatype 's stream_event = KeepAliveTick | PollTick 's

type_synonym 's lister = "ListAttemptsInput \<Rightarrow> 's \<Rightarrow> (AppError + DeliveryAttempt CursorResult) \<times> 's"

definition new_stream :: "time \<Rightarrow> nat \<Rightarrow> stream" where
  "new_stream now left = \<lparr>sm_since = now, sm_sent = [], sm_frames = [], sm_left = left, sm_open = True\<rparr>"

definition write_frame :: "frame \<Rightarrow> stream \<Rightarrow> stream" where
  "write_frame f st = (if sm_left st = 0 then st\<lparr>sm_open := False\<rparr> else st\<lparr>sm_frames := sm_frames st @ [f], sm_left := sm_left st - 1\<rparr>)"

fun send_batch :: "(DeliveryAttempt \<Rightarrow> bytes option) \<Rightarrow> DeliveryAttempt list \<Rightarrow> stream \<Rightarrow> stream" where
  "send_batch encode [] st = st"
| "send_batch encode (a # as) st = (case encode a of
      None \<Rightarrow> st\<lparr>sm_open := False\<rparr>
    | Some data \<Rightarrow>
       (let st = write_frame (AttemptEvent (att_ID a) data) st in
        if \<not> sm_open st then st
        else send_batch encode as (st\<lparr>sm_sent := sm_sent st @ [a],
          sm_since := (if att_CreatedAt a < sm_since st then sm_since st else att_CreatedAt a + Microsecond)\<rparr>)))"

definition since_input :: "time \<Rightarrow> ListAttemptsInput \<Rightarrow> ListAttemptsInput" where
  "since_input t inp = inp\<lparr>la_Filters := (la_Filters inp)\<lparr>fi_After := Some t\<rparr>\<rparr>"

fun stream_step :: "'s lister \<Rightarrow> (DeliveryAttempt \<Rightarrow> bytes option) \<Rightarrow> ListAttemptsInput \<Rightarrow> 's stream_event \<Rightarrow> stream \<Rightarrow> stream" where
  "stream_step lister encode inp KeepAliveTick st = (if sm_open st then write_frame KeepAlive st else st)"
| "stream_step lister encode inp (PollTick s) st = (if \<not> sm_open st then st
     else case fst (lister (since_input (sm_since st) inp) s) of
       Inl e \<Rightarrow> st
     | Inr r \<Rightarrow> send_batch encode (rev (cres_Items r)) st)"

definition stream_Serve :: "'s lister \<Rightarrow> (DeliveryAttempt \<Rightarrow> bytes option) \<Rightarrow> ListAttemptsInput \<Rightarrow> time \<Rightarrow> nat \<Rightarrow> 's stream_event list \<Rightarrow> stream" where
  "stream_Serve lister encode inp now left evs = fold (stream_step lister encode inp) evs (new_stream now left)"

section \<open>What a batch does\<close>

lemma sorted_fst: "sorted (map (\<lambda>r. (f r, g r)) xs) \<Longrightarrow> sorted (map f xs)"
  for f :: "'r \<Rightarrow> 'k::linorder" and g :: "'r \<Rightarrow> string"
  by (auto simp: sorted_iff_nth_mono less_eq_prod_def dest: less_imp_le)

definition frame_of :: "(DeliveryAttempt \<Rightarrow> bytes option) \<Rightarrow> DeliveryAttempt \<Rightarrow> frame" where
  "frame_of encode a = AttemptEvent (att_ID a) (the (encode a))"

definition event_frames :: "stream \<Rightarrow> frame list" where
  "event_frames st = filter (\<lambda>f. f \<noteq> KeepAlive) (sm_frames st)"

lemma send_batch:
  assumes "st' = send_batch encode batch st"
  shows "\<exists>pre post. batch = pre @ post \<and> sm_sent st' = sm_sent st @ pre \<and> sm_since st \<le> sm_since st' \<and> (\<forall>a\<in>set pre. att_CreatedAt a < sm_since st') \<and>
    (sm_open st' \<longrightarrow> post = []) \<and> (sm_since st' = sm_since st \<or> (\<exists>a\<in>set pre. sm_since st' = att_CreatedAt a + Microsecond)) \<and>
    (sm_open st \<longrightarrow> event_frames st' = event_frames st @ map (frame_of encode) pre)"
  using assms
proof (induction batch arbitrary: st)
  case (Cons a as)
  show ?case
  proof (cases "encode a = None \<or> sm_left st = 0 \<or> \<not> sm_open st")
    case True
    then have "sm_sent st' = sm_sent st \<and> sm_since st' = sm_since st \<and> \<not> sm_open st' \<and> (sm_open st \<longrightarrow> event_frames st' = event_frames st)"
      using Cons.prems by (auto simp: event_frames_def write_frame_def Let_def split: option.splits)
    then show ?thesis by auto
  next
    case False
    then obtain data where d: "encode a = Some data" "sm_left st \<noteq> 0" "sm_open st" by auto
    let ?t = "if att_CreatedAt a < sm_since st then sm_since st else att_CreatedAt a + Microsecond"
    let ?st = "(write_frame (AttemptEvent (att_ID a) data) st)\<lparr>sm_sent := sm_sent st @ [a], sm_since := ?t\<rparr>"
    have "st' = send_batch encode as ?st" using Cons.prems d by (simp add: write_frame_def)
    from Cons.IH [OF this] obtain pre post where p: "as = pre @ post" "sm_sent st' = (sm_sent st @ [a]) @ pre" "?t \<le> sm_since st'" "\<forall>a\<in>set pre. att_CreatedAt a < sm_since st'"
        "sm_open st' \<longrightarrow> post = []" "sm_since st' = ?t \<or> (\<exists>a\<in>set pre. sm_since st' = att_CreatedAt a + Microsecond)"
        "event_frames st' = event_frames ?st @ map (frame_of encode) pre" using d by (auto simp: write_frame_def)
    have "event_frames ?st = event_frames st @ [frame_of encode a]" using d by (simp add: event_frames_def frame_of_def write_frame_def)
    moreover have "att_CreatedAt a < ?t" "sm_since st \<le> ?t" by (auto simp: Microsecond_def)
    ultimately show ?thesis using p by (intro exI [of _ "a # pre"] exI [of _ post]) (auto split: if_splits)
  qed
qed auto

section \<open>What the stream relies on\<close>

text \<open>
  A log that is written in order: from one poll to the next only newer attempts appear, at most a page of them, and the
  polls succeed.
\<close>

fun in_order :: "'s lister \<Rightarrow> ('s \<Rightarrow> DeliveryAttempt list) \<Rightarrow> (ListAttemptsInput \<Rightarrow> 's \<Rightarrow> DeliveryAttempt \<Rightarrow> bool) \<Rightarrow> ListAttemptsInput \<Rightarrow> (DeliveryAttempt \<Rightarrow> bool) \<Rightarrow> time \<Rightarrow> DeliveryAttempt list \<Rightarrow> 's list \<Rightarrow> bool" where
  "in_order lister rows wanted inp W start prev [] \<longleftrightarrow> True"
| "in_order lister rows wanted inp W start prev (s # ss) \<longleftrightarrow> (\<exists>new. rows s = prev @ new \<and> length new \<le> nat (GetLimit (la_Page inp)) \<and>
     (\<forall>a\<in>set new. start \<le> att_CreatedAt a \<and> (\<forall>b\<in>set prev. att_CreatedAt b + Microsecond \<le> att_CreatedAt a))) \<and> wanted inp s = W \<and>
     (\<forall>t. \<not> isl (fst (lister (since_input t inp) s))) \<and> in_order lister rows wanted inp W start (rows s) ss"

text \<open>A lister returns the newest page of the attempts it is asked for, since the time it is asked for.\<close>

locale attempt_lister =
  fixes lister :: "'s lister" and rows :: "'s \<Rightarrow> DeliveryAttempt list" and wanted :: "ListAttemptsInput \<Rightarrow> 's \<Rightarrow> DeliveryAttempt \<Rightarrow> bool"
  assumes items: "lister (since_input t inp) s = (Inr r, s') \<Longrightarrow> cp_Cursor (la_Page inp) = [] \<Longrightarrow>
    cres_Items r = take (nat (GetLimit (la_Page inp))) (ordered True att_CreatedAt att_ID (filter (\<lambda>a. wanted inp s a \<and> t \<le> att_CreatedAt a) (rows s)))"
begin

text \<open>The batch of a poll, oldest first.\<close>

definition batch :: "ListAttemptsInput \<Rightarrow> time \<Rightarrow> 's \<Rightarrow> DeliveryAttempt list" where
  "batch inp t s = rev (take (nat (GetLimit (la_Page inp))) (ordered True att_CreatedAt att_ID (filter (\<lambda>a. wanted inp s a \<and> t \<le> att_CreatedAt a) (rows s))))"

lemma batch_props:
  shows "sorted (map att_CreatedAt (batch inp t s))" and "a \<in> set (batch inp t s) \<Longrightarrow> a \<in> set (rows s) \<and> wanted inp s a \<and> t \<le> att_CreatedAt a"
    and "distinct (rows s) \<Longrightarrow> distinct (batch inp t s)"
    and "length (filter (\<lambda>a. wanted inp s a \<and> t \<le> att_CreatedAt a) (rows s)) \<le> nat (GetLimit (la_Page inp)) \<Longrightarrow>
      set (batch inp t s) = {a \<in> set (rows s). wanted inp s a \<and> t \<le> att_CreatedAt a}"
proof -
  let ?m = "filter (\<lambda>a. wanted inp s a \<and> t \<le> att_CreatedAt a) (rows s)" and ?k = "\<lambda>r. (att_CreatedAt r, att_ID r)" and ?n = "nat (GetLimit (la_Page inp))"
  have b: "batch inp t s = drop (length (sort_key ?k ?m) - ?n) (sort_key ?k ?m)"
    by (simp add: batch_def ordered_def rev_take)
  have "sorted (map ?k (sort_key ?k ?m))" by simp
  then have "sorted (map att_CreatedAt (sort_key ?k ?m))" by (rule sorted_fst)
  then show "sorted (map att_CreatedAt (batch inp t s))" unfolding b drop_map [symmetric] by (rule sorted_wrt_drop)
  show "a \<in> set (batch inp t s) \<Longrightarrow> a \<in> set (rows s) \<and> wanted inp s a \<and> t \<le> att_CreatedAt a"
    unfolding b by (auto dest!: in_set_dropD)
  show "distinct (rows s) \<Longrightarrow> distinct (batch inp t s)" unfolding b by (simp add: distinct_drop)
  show "length ?m \<le> ?n \<Longrightarrow> set (batch inp t s) = {a \<in> set (rows s). wanted inp s a \<and> t \<le> att_CreatedAt a}" unfolding b by auto
qed

lemma poll:
  assumes "cp_Cursor (la_Page inp) = []" and "sm_open st"
  shows "stream_step lister encode inp (PollTick s) st = (case fst (lister (since_input (sm_since st) inp) s) of Inl e \<Rightarrow> st | Inr _ \<Rightarrow> send_batch encode (batch inp (sm_since st) s) st)"
  using items [of "sm_since st" inp s _ "snd (lister (since_input (sm_since st) inp) s)"] assms
  by (auto simp: batch_def split: sum.splits) (metis prod.collapse)

definition stream_inv :: "(DeliveryAttempt \<Rightarrow> bytes option) \<Rightarrow> ListAttemptsInput \<Rightarrow> time \<Rightarrow> 's set \<Rightarrow> stream \<Rightarrow> bool" where
  "stream_inv encode inp start seen st \<longleftrightarrow> sorted (map att_CreatedAt (sm_sent st)) \<and> distinct (sm_sent st) \<and> start \<le> sm_since st \<and>
     event_frames st = map (frame_of encode) (sm_sent st) \<and>
     (\<forall>a\<in>set (sm_sent st). start \<le> att_CreatedAt a \<and> att_CreatedAt a < sm_since st \<and> (\<exists>s\<in>seen. a \<in> set (rows s) \<and> wanted inp s a))"

lemma step_inv:
  assumes "stream_inv encode inp start seen st" and "cp_Cursor (la_Page inp) = []" and "\<And>s. ev = PollTick s \<Longrightarrow> s \<in> seen \<and> distinct (rows s)"
  shows "stream_inv encode inp start seen (stream_step lister encode inp ev st)"
proof (cases ev)
  case KeepAliveTick
  then show ?thesis using assms(1) by (simp add: stream_inv_def write_frame_def event_frames_def)
next
  case (PollTick s)
  show ?thesis
  proof (cases "sm_open st \<and> \<not> isl (fst (lister (since_input (sm_since st) inp) s))")
    case False
    then show ?thesis using assms(1,2) PollTick poll [of inp st encode s] by (auto split: sum.splits)
  next
    case True
    let ?st = "send_batch encode (batch inp (sm_since st) s) st"
    have st: "stream_step lister encode inp ev st = ?st" using True assms(2) PollTick poll [of inp st encode s] by (auto split: sum.splits)
    obtain pre post where p: "batch inp (sm_since st) s = pre @ post" "sm_sent ?st = sm_sent st @ pre" "sm_since st \<le> sm_since ?st" "\<forall>a\<in>set pre. att_CreatedAt a < sm_since ?st"
        "event_frames ?st = event_frames st @ map (frame_of encode) pre"
      using True send_batch [OF refl, where encode = encode and batch = "batch inp (sm_since st) s" and st = st] by blast
    have b: "sorted (map att_CreatedAt pre)" "distinct pre" "\<forall>a\<in>set pre. a \<in> set (rows s) \<and> wanted inp s a \<and> sm_since st \<le> att_CreatedAt a"
      using batch_props(1-3) [where inp = inp and t = "sm_since st" and s = s] assms(3) [OF PollTick] by (auto simp: p(1) sorted_append)
    show ?thesis using assms(1) b p(2-5) assms(3) [OF PollTick] unfolding st stream_inv_def by (fastforce simp: sorted_append)
  qed
qed

lemma run_inv:
  assumes "stream_inv encode inp start seen st" and "cp_Cursor (la_Page inp) = []" and "\<And>s. PollTick s \<in> set evs \<Longrightarrow> s \<in> seen \<and> distinct (rows s)"
  shows "stream_inv encode inp start seen (fold (stream_step lister encode inp) evs st)"
  using assms by (induction evs arbitrary: st) (simp_all add: step_inv)

lemma sent_once:
  assumes "cp_Cursor (la_Page inp) = []" and "\<And>s. PollTick s \<in> set evs \<Longrightarrow> distinct (rows s)"
  shows "stream_inv encode inp now {s. PollTick s \<in> set evs} (stream_Serve lister encode inp now left evs)"
  unfolding stream_Serve_def by (rule run_inv) (use assms in \<open>simp_all add: stream_inv_def new_stream_def event_frames_def\<close>)

lemma complete:
  assumes "in_order lister rows wanted inp W start prev ss" and "cp_Cursor (la_Page inp) = []" and "start \<le> sm_since st"
    and "set (sm_sent st) = {a \<in> set prev. W a \<and> start \<le> att_CreatedAt a}" and "\<forall>a\<in>set (sm_sent st). att_CreatedAt a < sm_since st"
    and "sm_since st = start \<or> (\<exists>b\<in>set prev. sm_since st = att_CreatedAt b + Microsecond)"
    and "sm_open (fold (stream_step lister encode inp) (map PollTick ss) st)" and "ss \<noteq> []"
  shows "set (sm_sent (fold (stream_step lister encode inp) (map PollTick ss) st)) = {a \<in> set (rows (last ss)). W a \<and> start \<le> att_CreatedAt a}"
  using assms
proof (induction ss arbitrary: prev st)
  case (Cons s ss)
  obtain new where n: "rows s = prev @ new" "length new \<le> nat (GetLimit (la_Page inp))"
      "\<forall>a\<in>set new. start \<le> att_CreatedAt a \<and> (\<forall>b\<in>set prev. att_CreatedAt b + Microsecond \<le> att_CreatedAt a)"
    and w: "wanted inp s = W" "\<not> isl (fst (lister (since_input (sm_since st) inp) s))" and rest: "in_order lister rows wanted inp W start (rows s) ss"
    using Cons.prems(1) by auto
  let ?st = "send_batch encode (batch inp (sm_since st) s) st"
  have closed: "\<not> sm_open st' \<Longrightarrow> fold (stream_step lister encode inp) (map PollTick ss) st' = st'" for st' ss by (induction ss) simp_all
  have op: "sm_open st" using Cons.prems(7) closed [of st "s # ss"] by metis
  have st: "stream_step lister encode inp (PollTick s) st = ?st" using w(2) poll [OF Cons.prems(2) op] by (auto split: sum.splits)
  have "sm_open (fold (stream_step lister encode inp) (map PollTick ss) ?st)" using Cons.prems(7) by (simp add: st del: stream_step.simps)
  then have op': "sm_open ?st" using closed [of ?st ss] by metis
  obtain pre where p: "batch inp (sm_since st) s = pre" "sm_sent ?st = sm_sent st @ pre" "sm_since st \<le> sm_since ?st" "\<forall>a\<in>set pre. att_CreatedAt a < sm_since ?st"
      "sm_since ?st = sm_since st \<or> (\<exists>a\<in>set pre. sm_since ?st = att_CreatedAt a + Microsecond)"
    using send_batch [OF refl, where encode = encode and batch = "batch inp (sm_since st) s" and st = st] op' by auto
  have old: "\<not> (W a \<and> sm_since st \<le> att_CreatedAt a)" if "a \<in> set prev" for a using that Cons.prems(3,4,5) by fastforce
  have since: "sm_since st \<le> att_CreatedAt a" if "a \<in> set new" for a using that n(3) Cons.prems(6) by auto
  have "filter (\<lambda>a. W a \<and> sm_since st \<le> att_CreatedAt a) prev = []" using old by (auto simp: filter_empty_conv)
  then have "length (filter (\<lambda>a. wanted inp s a \<and> sm_since st \<le> att_CreatedAt a) (rows s)) \<le> nat (GetLimit (la_Page inp))"
    using n(1,2) by (simp add: w(1) order_trans [OF length_filter_le])
  from batch_props(4) [OF this] have pre: "set pre = {a \<in> set new. W a}" using p(1) old since n(1) w(1) by auto
  have sent: "set (sm_sent ?st) = {a \<in> set (rows s). W a \<and> start \<le> att_CreatedAt a}" using Cons.prems(4) pre n(1,3) by (auto simp: p(2))
  show ?case
  proof (cases "ss = []")
    case True
    then show ?thesis using sent by (simp add: st del: stream_step.simps)
  next
    case False
    have "\<forall>a\<in>set (sm_sent ?st). att_CreatedAt a < sm_since ?st" using p(2,3,4) Cons.prems(5) by fastforce
    moreover have "sm_since ?st = start \<or> (\<exists>b\<in>set (rows s). sm_since ?st = att_CreatedAt b + Microsecond)" using p(5) pre n(1) Cons.prems(6) by auto
    moreover have "start \<le> sm_since ?st" using p(3) Cons.prems(3) by simp
    ultimately show ?thesis using Cons.IH [OF rest Cons.prems(2) _ sent] Cons.prems(7) False by (simp add: st del: stream_step.simps)
  qed
qed simp

end

section \<open>The attempt use case as the lister\<close>

text \<open>What a request without a time bound is after, in the configuration of a state.\<close>

definition wanted :: "AttemptUseCase \<Rightarrow> ListAttemptsInput \<Rightarrow> attempt_state \<Rightarrow> DeliveryAttempt \<Rightarrow> bool" where
  "wanted uc inp s a = (case s of (c, d, t) \<Rightarrow>
     (let inp = inp\<lparr>la_Filters := (la_Filters inp)\<lparr>fi_After := None\<rparr>\<rparr> in
      case resolve (au_pg uc) (au_resolver uc) (la_OrgID inp) (la_AppIDOrUID inp) c of
        (Inl e, _, c) \<Rightarrow> False
      | (Inr app, _, c) \<Rightarrow>
         if la_EndpointID inp = [] then Clause (applyAttemptFilters (au_pg uc) (list_filters inp app)) a
         else (case fst (resolveEndpoint uc (ref_ID app) (la_EndpointID inp) c) of
             Inl e \<Rightarrow> False
           | Inr ep \<Rightarrow> Clause (applyAttemptFilters (au_pg uc) ((list_filters inp app)\<lparr>af_EndpointID := Eq ep\<rparr>)) a)))"

definition passes :: "('v \<Rightarrow> 'v \<Rightarrow> bool) \<Rightarrow> 'v::linorder Filter option \<Rightarrow> ('r \<Rightarrow> 'v option) \<Rightarrow> 'r \<Rightarrow> bool" where
  "passes il flt col r \<longleftrightarrow> Clause (ApplyFilter il flt col NewQueryBuilder) r"

lemma Clause_steps:
  "Clause (where_opt v (\<lambda>x. where_col col (P x)) b) r \<longleftrightarrow> Clause b r \<and> (\<forall>x. v = Some x \<longrightarrow> (\<exists>y. col r = Some y \<and> P x y))"
  "Clause (where_opt w (\<lambda>x. Where (Q x)) b) r \<longleftrightarrow> Clause b r \<and> (\<forall>x. w = Some x \<longrightarrow> Q x r)"
  "Clause (if c then where_col col R b else b) r \<longleftrightarrow> Clause b r \<and> (c \<longrightarrow> (\<exists>y. col r = Some y \<and> R y))"
  by (auto split: option.splits)

lemma Clause_ApplyFilter: "Clause (ApplyFilter il flt col b) r \<longleftrightarrow> Clause b r \<and> passes il flt col r"
  by (cases "Filter_IsZero flt"; cases flt) (simp_all add: passes_def ApplyFilter_def Let_def Clause_steps conj_assoc del: Clause_simps(3))

lemma Clause_created: "Clause (applyAttemptFilters env f) a \<longleftrightarrow> Clause (applyAttemptFilters env (f\<lparr>af_CreatedAt := None\<rparr>)) a \<and>
    passes (\<lambda>_ _. False) (af_CreatedAt f) (\<lambda>a. Some (att_CreatedAt a)) a"
  by (cases "Filter_IsZero (af_Status f)"; cases "Filter_IsZero (af_TriggerType f)"; cases "af_StatusCodeClass f")
    (simp_all add: applyAttemptFilters_def Let_def Clause_ApplyFilter conj_ac)

lemma Clause_window: "passes il (Some (no_filter\<lparr>f_LT := b, f_GTE := g\<rparr>)) (\<lambda>a. Some (col a)) a \<longleftrightarrow>
    (\<forall>t. b = Some t \<longrightarrow> col a < t) \<and> (\<forall>t. g = Some t \<longrightarrow> t \<le> col a)"
  by (cases b; cases g) (auto simp: passes_def ApplyFilter_def no_filter_def Filter_IsZero_def Let_def where_opt_def)

lemma passes_None: "passes il None col a"
  by (simp add: passes_def)

lemma list_filters_after:
  "Clause (applyAttemptFilters env ((list_filters (since_input t inp) app)\<lparr>af_EndpointID := e\<rparr>)) a \<longleftrightarrow>
     Clause (applyAttemptFilters env ((list_filters (inp\<lparr>la_Filters := (la_Filters inp)\<lparr>fi_After := None\<rparr>\<rparr>) app)\<lparr>af_EndpointID := e\<rparr>)) a \<and> t \<le> att_CreatedAt a"
  using Clause_created [of env "(list_filters (since_input t inp) app)\<lparr>af_EndpointID := e\<rparr>" a]
    Clause_created [of env "(list_filters (inp\<lparr>la_Filters := (la_Filters inp)\<lparr>fi_After := None\<rparr>\<rparr>) app)\<lparr>af_EndpointID := e\<rparr>" a]
  by (cases "fi_Before (la_Filters inp)"; cases "fi_Status (la_Filters inp)"; cases "la_MsgID inp = []")
    (simp_all add: list_filters_def since_input_def Let_def Clause_window no_attempt_filters_def passes_None conj_ac)

lemma list_filters_endpoint: "(list_filters inp app)\<lparr>af_EndpointID := None\<rparr> = list_filters inp app"
  by (simp add: list_filters_def no_attempt_filters_def Let_def split: option.splits)

interpretation uca: attempt_lister "ListAttempts fmt parse uc" "\<lambda>(c, d, t). ad_rows t" "wanted uc" for fmt parse uc
proof (unfold_locales, goal_cases)
  case (1 t inp s r s')
  obtain c d a where s: "s = (c, d, a)" by (cases s)
  let ?inp = "since_input t inp" and ?base = "inp\<lparr>la_Filters := (la_Filters inp)\<lparr>fi_After := None\<rparr>\<rparr>"
  have same: "la_OrgID ?inp = la_OrgID inp" "la_AppIDOrUID ?inp = la_AppIDOrUID inp" "la_EndpointID ?inp = la_EndpointID inp" "la_Page ?inp = la_Page inp"
    by (simp_all add: since_input_def)
  have page: "cres_Items r' = take (nat (GetLimit (la_Page inp))) (ordered True att_CreatedAt att_ID (filter (Clause (applyAttemptFilters (au_pg uc) f)) (ad_rows a)))"
    if "GetAttempts (au_pg uc) fmt parse f (la_Page inp) a = (Inr r', a')" for f r' a'
    using that 1(2) by (auto simp: GetAttempts_def ad_query_def get_page_def ApplyKeysetCursor_def BuildCursorResult_def Let_def min_def split: list.splits if_splits)
  obtain app n c1 where app: "resolve (au_pg uc) (au_resolver uc) (la_OrgID inp) (la_AppIDOrUID inp) c = (Inr app, n, c1)"
    using 1(1) by (auto simp: s ListAttempts_def with_app_def same split: sum.splits prod.splits)
  show ?case
  proof (cases "la_EndpointID inp = []")
    case True
    have "wanted uc inp s x \<and> t \<le> att_CreatedAt x \<longleftrightarrow> Clause (applyAttemptFilters (au_pg uc) (list_filters ?inp app)) x" for x
      using list_filters_after [where env = "au_pg uc" and t = t and inp = inp and app = app and e = None and a = x] by (simp add: wanted_def s app True list_filters_endpoint)
    moreover obtain a' where "GetAttempts (au_pg uc) fmt parse (list_filters ?inp app) (la_Page inp) a = (Inr r, a')"
      using 1(1) by (auto simp: s ListAttempts_def with_app_def same app True split: sum.splits prod.splits)
    ultimately show ?thesis using page by (simp add: s)
  next
    case False
    obtain ep c2 where ep: "resolveEndpoint uc (ref_ID app) (la_EndpointID inp) c1 = (Inr ep, c2)"
      using 1(1) by (auto simp: s ListAttempts_def with_app_def in_app_endpoint_def same app False split: sum.splits prod.splits)
    have "wanted uc inp s x \<and> t \<le> att_CreatedAt x \<longleftrightarrow> Clause (applyAttemptFilters (au_pg uc) ((list_filters ?inp app)\<lparr>af_EndpointID := Eq ep\<rparr>)) x" for x
      using list_filters_after [where env = "au_pg uc" and t = t and inp = inp and app = app and e = "Eq ep" and a = x] by (simp add: wanted_def s app ep False)
    moreover obtain a' where "GetAttempts (au_pg uc) fmt parse ((list_filters ?inp app)\<lparr>af_EndpointID := Eq ep\<rparr>) (la_Page inp) a = (Inr r, a')"
      using 1(1) by (auto simp: s ListAttempts_def with_app_def in_app_endpoint_def same app ep False split: sum.splits prod.splits)
    ultimately show ?thesis using page by (simp add: s)
  qed
qed

text \<open>
  The live tail shows no attempt twice and keeps their order. Whatever happens between the polls, and however many polls and
  writes fail, the events written so far are one per attempt, in the order of their times, each an attempt of the
  application and filters asked for that the log had at one of the polls, and none older than the start of the stream.
\<close>

theorem stream_once:
  assumes "cp_Cursor (la_Page inp) = []" and "\<And>c d t. PollTick (c, d, t) \<in> set evs \<Longrightarrow> distinct (ad_rows t)"
    and "st = stream_Serve (ListAttempts fmt parse uc) encode inp now left evs"
  shows "event_frames st = map (frame_of encode) (sm_sent st) \<and> distinct (sm_sent st) \<and> sorted (map att_CreatedAt (sm_sent st)) \<and>
    (\<forall>a\<in>set (sm_sent st). now \<le> att_CreatedAt a \<and> (\<exists>c d t. PollTick (c, d, t) \<in> set evs \<and> a \<in> set (ad_rows t) \<and> wanted uc inp (c, d, t) a))"
proof -
  have "distinct (case s of (c, d, t) \<Rightarrow> ad_rows t)" if "PollTick s \<in> set evs" for s using assms(2) that by (cases s) auto
  from uca.sent_once [where evs = evs and encode = encode and fmt = fmt and parse = parse and uc = uc and left = left and now = now, OF assms(1) this] show ?thesis
    unfolding uca.stream_inv_def assms(3) [symmetric] by fastforce
qed

text \<open>
  C23: The live tail is complete for a log written in order. When between two polls only newer attempts are added, by a microsecond and at most a
  page of them, the polls succeed and the client reads, the stream has shown at every poll exactly the attempts
  asked for that were added since its start.
\<close>

theorem stream_complete:
  assumes "in_order (ListAttempts fmt parse uc) (\<lambda>(c, d, t). ad_rows t) (wanted uc) inp W now old polls" and "cp_Cursor (la_Page inp) = []" and "polls \<noteq> []"
    and "\<forall>a\<in>set old. att_CreatedAt a < now" and "st = stream_Serve (ListAttempts fmt parse uc) encode inp now left (map PollTick polls)" and "sm_open st"
  shows "set (sm_sent st) = {a \<in> set (case last polls of (c, d, t) \<Rightarrow> ad_rows t). W a \<and> now \<le> att_CreatedAt a}"
proof -
  have "{a \<in> set old. W a \<and> now \<le> att_CreatedAt a} = {}" using assms(4) by auto
  then show ?thesis using uca.complete [OF assms(1,2), of "new_stream now left" encode] assms(3,5,6) by (simp add: new_stream_def stream_Serve_def)
qed

section \<open>A small log\<close>

definition demo_log :: "DeliveryAttempt list \<Rightarrow> attempt_state" where
  "demo_log rows = (demo_cfg\<lparr>db_apps := [demo_app], db_faults := []\<rparr>, demo_mdb, \<lparr>ad_rows = rows, ad_faults = []\<rparr>)"

definition demo_tail :: "int \<Rightarrow> ListAttemptsInput" where
  "demo_tail limit = \<lparr>la_OrgID = ''org_1'', la_AppIDOrUID = ''billing'', la_MsgID = [], la_EndpointID = [],
     la_Filters = \<lparr>fi_Status = None, fi_StatusCodeClass = None, fi_EventTypes = [], fi_Channel = None, fi_Before = None, fi_After = None\<rparr>,
     la_Page = \<lparr>cp_Cursor = [], cp_Limit = limit\<rparr>\<rparr>"

definition demo_serve :: "int \<Rightarrow> DeliveryAttempt list list \<Rightarrow> stream" where
  "demo_serve limit logs = stream_Serve (ListAttempts (\<lambda>_. []) (\<lambda>_. None) demo_replay) (\<lambda>_. Some []) (demo_tail limit) 5 9 (map PollTick (map demo_log logs))"

abbreviation demo_a :: DeliveryAttempt where "demo_a \<equiv> demo_attempt_at ''a'' 10000 AttemptSucceeded"
abbreviation demo_b :: DeliveryAttempt where "demo_b \<equiv> demo_attempt_at ''b'' 20000 AttemptFailed"

lemma demo_log_resolves: "resolve (au_pg demo_replay) (au_resolver demo_replay) ''org_1'' ''billing'' (demo_cfg\<lparr>db_apps := [demo_app], db_faults := []\<rparr>) =
    (Inr \<lparr>ref_ID = ''app_1'', ref_OrgID = ''org_1''\<rparr>, 0, demo_cfg\<lparr>db_apps := [demo_app], db_faults := []\<rparr>)"
  by code_simp

lemma demo_wanted: "wanted demo_replay (demo_tail n) (demo_log rows) (demo_attempt_at i t st)"
  by (simp add: wanted_def demo_log_def demo_tail_def demo_log_resolves list_filters_def no_attempt_filters_def applyAttemptFilters_def Let_def
      Filter_IsZero_def where_opt_def demo_attempt_at_def demo_attempt_def)

lemma demo_lists: "\<exists>r. ListAttempts fmt parse demo_replay (since_input t (demo_tail n)) (demo_log rows) = (Inr r, demo_log rows)"
  using demo_log_resolves by (simp add: ListAttempts_def with_app_def demo_log_def since_input_def demo_tail_def GetAttempts_def ad_query_def Let_def)

lemma demo_poll:
  assumes "sm_open st" and "\<forall>a\<in>set rows. \<exists>i t st. a = demo_attempt_at i t st"
  shows "stream_step (ListAttempts fmt parse demo_replay) encode (demo_tail n) (PollTick (demo_log rows)) st =
    send_batch encode (rev (take (nat (GetLimit \<lparr>cp_Cursor = [], cp_Limit = n\<rparr>)) (ordered True att_CreatedAt att_ID (filter (\<lambda>a. sm_since st \<le> att_CreatedAt a) rows)))) st"
proof -
  have p: "la_Page (demo_tail n) = \<lparr>cp_Cursor = [], cp_Limit = n\<rparr>" "(case demo_log rows of (c, d, t) \<Rightarrow> ad_rows t) = rows" by (simp_all add: demo_tail_def demo_log_def)
  have "filter (\<lambda>a. wanted demo_replay (demo_tail n) (demo_log rows) a \<and> sm_since st \<le> att_CreatedAt a) rows = filter (\<lambda>a. sm_since st \<le> att_CreatedAt a) rows"
    using assms(2) demo_wanted by (intro filter_cong) auto
  moreover obtain r where "ListAttempts fmt parse demo_replay (since_input (sm_since st) (demo_tail n)) (demo_log rows) = (Inr r, demo_log rows)" using demo_lists by blast
  ultimately show ?thesis using uca.poll [where inp = "demo_tail n" and st = st and fmt = fmt and parse = parse and uc = demo_replay and encode = encode and s = "demo_log rows"] assms(1)
    by (simp add: uca.batch_def p del: stream_step.simps)
qed

lemmas demo_eval = demo_serve_def stream_Serve_def new_stream_def demo_poll ordered_def GetLimit_def DefaultPageSize_def MaxPageSize_def write_frame_def
  Microsecond_def demo_attempt_at_def demo_attempt_def

lemma demo_sent: "sm_sent (demo_serve 3 [[demo_a], [demo_a, demo_b]]) = [demo_a, demo_b]" "sm_open (demo_serve 3 [[demo_a], [demo_a, demo_b]])"
proof -
  have a: "\<forall>a\<in>set [demo_a]. \<exists>i t st. a = demo_attempt_at i t st" "\<forall>a\<in>set [demo_a, demo_b]. \<exists>i t st. a = demo_attempt_at i t st" by auto
  show "sm_sent (demo_serve 3 [[demo_a], [demo_a, demo_b]]) = [demo_a, demo_b]" "sm_open (demo_serve 3 [[demo_a], [demo_a, demo_b]])"
    using demo_poll [OF _ a(1)] demo_poll [OF _ a(2)] by (simp_all add: demo_eval del: stream_step.simps)
qed

theorem stream_once_witness:
  "sm_sent (demo_serve 3 [[demo_a], [demo_a, demo_b]]) = [demo_a, demo_b] \<and>
   event_frames (demo_serve 3 [[demo_a], [demo_a, demo_b]]) = map (frame_of (\<lambda>_. Some [])) [demo_a, demo_b]"
proof -
  have c: "cp_Cursor (la_Page (demo_tail 3)) = []" by (simp add: demo_tail_def)
  have "distinct (ad_rows t)" if "PollTick (c, d, t) \<in> set (map PollTick (map demo_log [[demo_a], [demo_a, demo_b]]))" for c d t
    using that by (auto simp: demo_log_def demo_attempt_at_def demo_attempt_def)
  from stream_once [OF c this demo_serve_def [of 3 "[[demo_a], [demo_a, demo_b]]"]] demo_sent(1) show ?thesis by simp
qed

theorem stream_complete_witness: "set (sm_sent (demo_serve 3 [[demo_a], [demo_a, demo_b]])) = {demo_a, demo_b}"
proof -
  have c: "cp_Cursor (la_Page (demo_tail 3)) = []" by (simp add: demo_tail_def)
  let ?W = "wanted demo_replay (demo_tail 3) (demo_log [])"
  have w: "wanted demo_replay (demo_tail 3) (demo_log rows) = ?W" for rows by (simp add: wanted_def demo_log_def fun_eq_iff)
  have l: "\<not> isl (fst (ListAttempts (\<lambda>_. []) (\<lambda>_. None) demo_replay (since_input t (demo_tail 3)) (demo_log rows)))" for t rows
    using demo_lists [of "\<lambda>_. []" "\<lambda>_. None" t 3 rows] by auto
  have r: "(case demo_log rows of (c, d, t) \<Rightarrow> ad_rows t) = rows" for rows by (simp add: demo_log_def)
  have n: "nat (GetLimit (la_Page (demo_tail 3))) = 3" by (simp add: demo_tail_def GetLimit_def MaxPageSize_def)
  have t: "att_CreatedAt demo_a = 10000" "att_CreatedAt demo_b = 20000" "Microsecond = 1000" by (simp_all add: demo_attempt_at_def Microsecond_def)
  have o: "in_order (ListAttempts (\<lambda>_. []) (\<lambda>_. None) demo_replay) (\<lambda>(c, d, t). ad_rows t) (wanted demo_replay) (demo_tail 3) ?W 5 [] (map demo_log [[demo_a], [demo_a, demo_b]])"
    by (simp add: w [of "[demo_a]"] w [of "[demo_a, demo_b]"] l r n t)
  have last_log: "last (map demo_log [[demo_a], [demo_a, demo_b]]) = demo_log [demo_a, demo_b]" by simp
  have "set (sm_sent (demo_serve 3 [[demo_a], [demo_a, demo_b]])) = {x \<in> set [demo_a, demo_b]. ?W x \<and> 5 \<le> att_CreatedAt x}"
    by (rule stream_complete [OF o c _ _ demo_serve_def [of 3 "[[demo_a], [demo_a, demo_b]]"] demo_sent(2), unfolded last_log r]) simp_all
  moreover have "x \<in> {demo_a, demo_b} \<Longrightarrow> ?W x \<and> 5 \<le> att_CreatedAt x" for x using demo_wanted t by auto
  ultimately show ?thesis by auto
qed

text \<open>
  The writer stores attempts in batches after the fact, and several workers write: an attempt that is stored after
  a newer one was shown is never shown, nor are those of a burst that exceed a page.
\<close>

lemma stream_drops_late: "sm_sent (demo_serve 3 [[demo_b], [demo_b, demo_a]]) = [demo_b]"
  and stream_drops_burst: "sm_sent (demo_serve 1 [[demo_a, demo_b], [demo_a, demo_b]]) = [demo_b]"
proof -
  have a: "\<forall>a\<in>set [demo_b]. \<exists>i t st. a = demo_attempt_at i t st" "\<forall>a\<in>set [demo_b, demo_a]. \<exists>i t st. a = demo_attempt_at i t st"
    "\<forall>a\<in>set [demo_a, demo_b]. \<exists>i t st. a = demo_attempt_at i t st" by auto
  show "sm_sent (demo_serve 3 [[demo_b], [demo_b, demo_a]]) = [demo_b]"
    using demo_poll [OF _ a(1)] demo_poll [OF _ a(2)] by (simp add: demo_eval del: stream_step.simps)
  show "sm_sent (demo_serve 1 [[demo_a, demo_b], [demo_a, demo_b]]) = [demo_b]"
    using demo_poll [OF _ a(3)] by (simp add: demo_eval del: stream_step.simps)
qed

end
