(* ===== verification/Handlers.thy ===== *)
theory Handlers
  imports Portal_Operational Attempt_Stream Retry_Policy Signing
begin

text \<open>
  The HTTP handlers of the API (\<^verbatim>\<open>handlers/*.go\<close>): each reads the principal, binds and validates its body, calls its use case
  and shapes the answer. The web framework gives a handler the principal, the path and query parameters and a decoded
  body, none when the body could not be decoded; the tags of the request types are the checks of the validating binder. A
  handler changes the databases through its use case only.
\<close>

section \<open>What the framework gives\<close>

record http_ctx =
  hc_principal :: "Principal option"
  hc_param :: "string \<Rightarrow> string"
  hc_query :: "string \<Rightarrow> string"
  hc_queryAll :: "string \<Rightarrow> string list"

record api_world =
  hw_cfg :: cfgdb
  hw_msgs :: mdb
  hw_attempts :: adb
  hw_leases :: ldb

record api_env =
  he_uc :: ucenv
  he_ingest :: IngestUseCase
  he_messages :: appResolver
  he_attempts :: AttemptUseCase
  he_admin :: appResolver
  he_portal :: PortalUseCase
  he_issuePortal :: "string \<Rightarrow> string \<Rightarrow> duration \<Rightarrow> AppError + string \<times> time"
  he_pools :: "string list"
  he_isURL :: "string \<Rightarrow> bool"
  he_parseTime :: "string \<Rightarrow> time option"
  he_lowerUnicode :: "string \<Rightarrow> string"
  he_formatCursor :: "time \<Rightarrow> string"
  he_parseCursor :: "string \<Rightarrow> time option"
  he_collate :: "string \<Rightarrow> rat"

type_synonym 'a handler_result = "(handler_error + 'a) \<times> api_world"

text \<open>Calling a use case on its part of the world.\<close>

definition on_cfg :: "(cfgdb \<Rightarrow> 'a uc_result) \<Rightarrow> api_world \<Rightarrow> 'a handler_result" where
  "on_cfg f w = (case f (hw_cfg w) of (r, c) \<Rightarrow> (map_sum App id r, w\<lparr>hw_cfg := c\<rparr>))"

definition on_messages :: "(cfgdb \<times> mdb \<Rightarrow> (AppError + 'a) \<times> cfgdb \<times> mdb) \<Rightarrow> api_world \<Rightarrow> 'a handler_result" where
  "on_messages f w = (case f (hw_cfg w, hw_msgs w) of (r, c, d) \<Rightarrow> (map_sum App id r, w\<lparr>hw_cfg := c, hw_msgs := d\<rparr>))"

definition on_queue_table :: "(pg \<Rightarrow> (AppError + 'a) \<times> pg) \<Rightarrow> api_world \<Rightarrow> 'a handler_result" where
  "on_queue_table f w = (case f (md_queue (hw_msgs w)) of (r, q) \<Rightarrow> (map_sum App id r, w\<lparr>hw_msgs := (hw_msgs w)\<lparr>md_queue := q\<rparr>\<rparr>))"

definition on_leases :: "(ldb \<Rightarrow> (AppError + 'a) \<times> ldb) \<Rightarrow> api_world \<Rightarrow> 'a handler_result" where
  "on_leases f w = (case f (hw_leases w) of (r, l) \<Rightarrow> (map_sum App id r, w\<lparr>hw_leases := l\<rparr>))"

definition on_attempts :: "(attempt_state \<Rightarrow> (AppError + 'a) \<times> attempt_state) \<Rightarrow> api_world \<Rightarrow> 'a handler_result" where
  "on_attempts f w = (case f (hw_cfg w, hw_msgs w, hw_attempts w) of (r, c, d, a) \<Rightarrow> (map_sum App id r, w\<lparr>hw_cfg := c, hw_msgs := d, hw_attempts := a\<rparr>))"

definition h_bind :: "'a handler_result \<Rightarrow> ('a \<Rightarrow> api_world \<Rightarrow> 'b handler_result) \<Rightarrow> 'b handler_result" where
  "h_bind r f = (case r of (Inl e, w) \<Rightarrow> (Inl e, w) | (Inr x, w) \<Rightarrow> f x w)"

definition h_lift :: "handler_error + 'a \<Rightarrow> ('a \<Rightarrow> api_world \<Rightarrow> 'b handler_result) \<Rightarrow> api_world \<Rightarrow> 'b handler_result" where
  "h_lift r f w = (case r of Inl e \<Rightarrow> (Inl e, w) | Inr x \<Rightarrow> f x w)"

section \<open>common.go and binder.go\<close>

definition principal :: "http_ctx \<Rightarrow> handler_error + Principal" where
  "principal c = (case hc_principal c of None \<Rightarrow> Inl (App (NewUnauthorizedError ''authentication required'')) | Some p \<Rightarrow> Inr p)"

definition h_orgToken :: "http_ctx \<Rightarrow> handler_error + Principal" where
  "h_orgToken c = map_sum App id (orgToken (hc_principal c))"

text \<open>\<^verbatim>\<open>strconv.Atoi\<close> with its error dropped: zero for what is no number, the nearest number for one out of range.\<close>

definition atoi_value :: "string \<Rightarrow> int" where
  "atoi_value s = (case Atoi s of
      Some n \<Rightarrow> n
    | None \<Rightarrow> (case s of
        [] \<Rightarrow> 0
      | c # cs \<Rightarrow> (let body = (if c = CHR ''-'' \<or> c = CHR ''+'' then cs else s) in
          if body = [] \<or> digits_value 0 body = None then 0 else if c = CHR ''-'' then - (2 ^ 63) else 2 ^ 63 - 1)))"

definition pagination :: "http_ctx \<Rightarrow> CursorPagination" where
  "pagination c = \<lparr>cp_Cursor = (if hc_query c ''iterator'' = [] then hc_query c ''cursor'' else hc_query c ''iterator''), cp_Limit = atoi_value (hc_query c ''limit'')\<rparr>"

definition parseAttemptStatus :: "(string \<Rightarrow> string) \<Rightarrow> string \<Rightarrow> handler_error + AttemptStatus" where
  "parseAttemptStatus low raw = (let s = ToLower low (TrimSpace raw) in
     if s \<in> {''0'', ''success'', ''succeeded''} then Inr AttemptSucceeded
     else if s \<in> {''1'', ''pending'', ''sending''} then Inr AttemptPendingRetry
     else if s \<in> {''2'', ''fail'', ''failed'', ''failure''} then Inr AttemptFailed
     else Inl (App (NewValidationError ''status must be one of success, pending or fail'')))"

definition boolQuery :: "http_ctx \<Rightarrow> string \<Rightarrow> bool" where
  "boolQuery c name \<longleftrightarrow> map lower_char (hc_query c name) = ''true''"

definition intQuery :: "http_ctx \<Rightarrow> string \<Rightarrow> int option" where
  "intQuery c name = (if hc_query c name = [] then None else Atoi (hc_query c name))"

definition parseTimeQuery :: "api_env \<Rightarrow> http_ctx \<Rightarrow> string \<Rightarrow> time option" where
  "parseTimeQuery v c name = (if hc_query c name = [] then None else he_parseTime v (hc_query c name))"

text \<open>
  The binder: a list of the tags of the fields, each with whether it holds, in the order of the fields. The first that fails is
  reported. \<open>max\<close> counts the runes of a string.
\<close>

type_synonym tag_check = "string \<times> string \<times> bool"

definition Bind :: "('r \<Rightarrow> tag_check list) \<Rightarrow> 'r option \<Rightarrow> handler_error + 'r" where
  "Bind checks body = (case body of
      None \<Rightarrow> Inl (EchoHTTP 400 ''invalid request body'')
    | Some req \<Rightarrow> (case filter (\<lambda>(field, tag, ok). \<not> ok) (checks req) of
        [] \<Rightarrow> Inr req
      | (field, tag, _) # _ \<Rightarrow> Inl (EchoHTTP 422 (''field '' @ [CHR 0x27] @ field @ [CHR 0x27] @ '' failed validation: '' @ tag))))"

definition max_runes :: "nat \<Rightarrow> string \<Rightarrow> bool" where
  "max_runes n s \<longleftrightarrow> length (filter isUTF8Start (bytes_of s)) \<le> n"

definition tag_required :: "string \<Rightarrow> string \<Rightarrow> tag_check" where "tag_required f s = (f, ''required'', s \<noteq> [])"
definition tag_max :: "string \<Rightarrow> nat \<Rightarrow> string \<Rightarrow> tag_check" where "tag_max f n s = (f, ''max'', max_runes n s)"
definition tag_optmax :: "string \<Rightarrow> nat \<Rightarrow> string option \<Rightarrow> tag_check" where "tag_optmax f n s = (f, ''max'', case s of None \<Rightarrow> True | Some x \<Rightarrow> max_runes n x)"
definition tag_optmin :: "string \<Rightarrow> int option \<Rightarrow> tag_check" where "tag_optmin f n = (f, ''min'', case n of None \<Rightarrow> True | Some x \<Rightarrow> 1 \<le> x)"
definition tag_len :: "string \<Rightarrow> nat \<Rightarrow> string list \<Rightarrow> tag_check" where "tag_len f n xs = (f, ''max'', length xs \<le> n)"
definition tag_dive :: "string \<Rightarrow> nat \<Rightarrow> string list \<Rightarrow> tag_check list" where
  "tag_dive f n xs = map (\<lambda>(i, x). (f @ ''['' @ FormatInt (int i) @ '']'', ''max'', max_runes n x)) (enumerate 0 xs)"

section \<open>Answers\<close>

record 'a CursorResponse =
  cr_Data :: "'a list"
  cr_Iterator :: "string option"
  cr_PrevIterator :: "string option"
  cr_Done :: bool

definition cursor_response :: "('r \<Rightarrow> 'a) \<Rightarrow> 'r CursorResult \<Rightarrow> 'a CursorResponse" where
  "cursor_response f r = \<lparr>cr_Data = map f (cres_Items r), cr_Iterator = cres_NextCursor r, cr_PrevIterator = cres_PrevCursor r, cr_Done = (\<not> cres_HasMore r)\<rparr>"

record applicationResponse =
  apr_ID :: string
  apr_Name :: string
  apr_UID :: "string option"
  apr_RateLimit :: "int option"
  apr_Metadata :: bytes
  apr_CreatedAt :: time
  apr_UpdatedAt :: time

definition newApplicationResponse :: "Application \<Rightarrow> applicationResponse" where
  "newApplicationResponse app = \<lparr>apr_ID = app_ID app, apr_Name = app_Name app, apr_UID = app_UID app, apr_RateLimit = app_RateLimit app,
     apr_Metadata = app_Metadata app, apr_CreatedAt = app_CreatedAt app, apr_UpdatedAt = app_UpdatedAt app\<rparr>"

record endpointResponse =
  epr_ID :: string
  epr_URL :: string
  epr_Description :: string
  epr_UID :: "string option"
  epr_Version :: int
  epr_RateLimit :: "int option"
  epr_FilterTypes :: "string list"
  epr_Channels :: "string list"
  epr_Disabled :: bool
  epr_CreatedAt :: time
  epr_UpdatedAt :: time

definition newEndpointResponse :: "Endpoint \<Rightarrow> endpointResponse" where
  "newEndpointResponse ep = \<lparr>epr_ID = ep_ID ep, epr_URL = ep_URL ep, epr_Description = ep_Description ep, epr_UID = ep_UID ep, epr_Version = ep_Version ep,
     epr_RateLimit = ep_RateLimit ep, epr_FilterTypes = ep_EventTypes ep, epr_Channels = ep_Channels ep, epr_Disabled = Disabled ep,
     epr_CreatedAt = ep_CreatedAt ep, epr_UpdatedAt = ep_UpdatedAt ep\<rparr>"

record messageResponse =
  mr_ID :: string
  mr_Timestamp :: time
  mr_EventType :: string
  mr_EventID :: "string option"
  mr_Channels :: "string list"
  mr_Payload :: bytes

definition newMessageResponse :: "Message \<Rightarrow> bytes \<Rightarrow> messageResponse" where
  "newMessageResponse msg payload = \<lparr>mr_ID = msg_ID msg, mr_Timestamp = msg_CreatedAt msg, mr_EventType = msg_EventType msg, mr_EventID = msg_UID msg,
     mr_Channels = msg_Channels msg, mr_Payload = payload\<rparr>"

record attemptResponse =
  atr_ID :: string
  atr_Timestamp :: time
  atr_MsgID :: string
  atr_EndpointID :: string
  atr_URL :: string
  atr_Status :: int
  atr_StatusText :: string
  atr_ResponseCode :: int
  atr_Response :: bytes
  atr_DurationMS :: int
  atr_Attempt :: int
  atr_TriggerType :: int
  atr_NextAttempt :: "time option"

definition attemptStatusText :: "AttemptStatus \<Rightarrow> string" where
  "attemptStatusText st = (case st of AttemptSucceeded \<Rightarrow> ''success'' | AttemptPendingRetry \<Rightarrow> ''pending'' | AttemptFailed \<Rightarrow> ''fail'')"

definition newAttemptResponse :: "DeliveryAttempt \<Rightarrow> attemptResponse" where
  "newAttemptResponse a = \<lparr>atr_ID = att_ID a, atr_Timestamp = att_CreatedAt a, atr_MsgID = att_MsgID a, atr_EndpointID = att_EndpointID a, atr_URL = att_URL a,
     atr_Status = status_int16 (att_Status a), atr_StatusText = attemptStatusText (att_Status a), atr_ResponseCode = att_ResponseStatusCode a,
     atr_Response = att_ResponseBody a, atr_DurationMS = att_ResponseDurationMS a, atr_Attempt = att_AttemptNumber a,
     atr_TriggerType = trigger_int16 (att_TriggerType a), atr_NextAttempt = att_NextAttemptAt a\<rparr>"

record eventTypeResponse =
  etr_Name :: string
  etr_Description :: string
  etr_Schemas :: bytes
  etr_Archived :: bool
  etr_CreatedAt :: time
  etr_UpdatedAt :: time

definition newEventTypeResponse :: "EventType \<Rightarrow> eventTypeResponse" where
  "newEventTypeResponse et = \<lparr>etr_Name = et_Name et, etr_Description = et_Description et, etr_Schemas = et_Schemas et, etr_Archived = Archived et,
     etr_CreatedAt = et_CreatedAt et, etr_UpdatedAt = et_UpdatedAt et\<rparr>"

text \<open>The age is kept as a duration; the answer shows it in seconds.\<close>

record queueStatsResponse =
  qsr_Pool :: string
  qsr_Ready :: nat
  qsr_Delayed :: nat
  qsr_Locked :: nat
  qsr_OldestAge :: duration

record partitionLeaseResponse =
  plr_PartitionKey :: int
  plr_Pool :: string
  plr_OwnerID :: "string option"
  plr_HeartbeatAt :: "time option"

datatype api_body =
    NoBody
  | ApplicationBody applicationResponse | ApplicationPage "applicationResponse CursorResponse"
  | EndpointBody endpointResponse | EndpointCreatedBody endpointResponse string | EndpointPage "endpointResponse CursorResponse"
  | SecretBody string | HeadersBody "(string \<times> string) list"
  | MessageBody messageResponse | MessagePage "messageResponse CursorResponse"
  | AttemptPage "attemptResponse CursorResponse" | StatsBody AttemptStats | ReplayBody nat bool
  | EventTypeBody eventTypeResponse | EventTypePage "eventTypeResponse CursorResponse"
  | RescueBody nat | QueueStatsBody "queueStatsResponse list" | PartitionsBody "partitionLeaseResponse list"
  | PortalBody PortalAccess

record api_response =
  resp_Status :: int
  resp_Body :: api_body

definition JSON :: "int \<Rightarrow> api_body \<Rightarrow> api_world \<Rightarrow> api_response handler_result" where
  "JSON status body w = (Inr \<lparr>resp_Status = status, resp_Body = body\<rparr>, w)"

section \<open>application_handler.go\<close>

record createApplicationRequest =
  qca_Name :: string
  qca_UID :: "string option"
  qca_RateLimit :: "int option"
  qca_Metadata :: bytes

definition createApplicationRequest_tags :: "createApplicationRequest \<Rightarrow> tag_check list" where
  "createApplicationRequest_tags q = [tag_required ''Name'' (qca_Name q), tag_max ''Name'' 256 (qca_Name q), tag_optmax ''UID'' 256 (qca_UID q),
     tag_optmin ''RateLimit'' (qca_RateLimit q)]"

record updateApplicationRequest =
  qua_Name :: "string option"
  qua_UID :: "string option"
  qua_RateLimit :: "int option"
  qua_Metadata :: bytes

definition updateApplicationRequest_tags :: "updateApplicationRequest \<Rightarrow> tag_check list" where
  "updateApplicationRequest_tags q = [tag_optmax ''Name'' 256 (qua_Name q), tag_optmax ''UID'' 256 (qua_UID q), tag_optmin ''RateLimit'' (qua_RateLimit q)]"

definition h_CreateApplication :: "api_env \<Rightarrow> http_ctx \<Rightarrow> createApplicationRequest option \<Rightarrow> api_world \<Rightarrow> api_response handler_result" where
  "h_CreateApplication v c body = h_lift (h_orgToken c) (\<lambda>p. h_lift (Bind createApplicationRequest_tags body) (\<lambda>req w.
     h_bind (on_cfg (CreateApplication (he_uc v) \<lparr>ca_OrgID = pr_OrgID p, ca_Name = qca_Name req, ca_UID = qca_UID req,
         ca_RateLimit = qca_RateLimit req, ca_Metadata = qca_Metadata req\<rparr>) w)
       (\<lambda>app. JSON 201 (ApplicationBody (newApplicationResponse app)))))"

definition h_GetApplication :: "api_env \<Rightarrow> http_ctx \<Rightarrow> api_world \<Rightarrow> api_response handler_result" where
  "h_GetApplication v c = h_lift (principal c) (\<lambda>p w.
     h_bind (on_cfg (GetApplication (he_uc v) (pr_OrgID p) (hc_param c ''app_id'')) w)
       (\<lambda>app. JSON 200 (ApplicationBody (newApplicationResponse app))))"

definition h_UpdateApplication :: "api_env \<Rightarrow> http_ctx \<Rightarrow> updateApplicationRequest option \<Rightarrow> api_world \<Rightarrow> api_response handler_result" where
  "h_UpdateApplication v c body = h_lift (h_orgToken c) (\<lambda>p. h_lift (Bind updateApplicationRequest_tags body) (\<lambda>req w.
     h_bind (on_cfg (UpdateApplication (he_uc v) (pr_OrgID p) (hc_param c ''app_id'')
         \<lparr>ua_Name = qua_Name req, ua_UID = qua_UID req, ua_RateLimit = qua_RateLimit req, ua_Metadata = qua_Metadata req\<rparr>) w)
       (\<lambda>app. JSON 200 (ApplicationBody (newApplicationResponse app)))))"

definition h_DeleteApplication :: "api_env \<Rightarrow> http_ctx \<Rightarrow> api_world \<Rightarrow> api_response handler_result" where
  "h_DeleteApplication v c = h_lift (h_orgToken c) (\<lambda>p w.
     h_bind (on_cfg (DeleteApplication (he_uc v) (pr_OrgID p) (hc_param c ''app_id'')) w) (\<lambda>_. JSON 204 NoBody))"

definition h_ListApplications :: "api_env \<Rightarrow> http_ctx \<Rightarrow> api_world \<Rightarrow> api_response handler_result" where
  "h_ListApplications v c = h_lift (h_orgToken c) (\<lambda>p w.
     h_bind (on_cfg (ListApplications (he_uc v) (pr_OrgID p) (hc_query c ''search'') (pagination c)) w)
       (\<lambda>r. JSON 200 (ApplicationPage (cursor_response newApplicationResponse r))))"

section \<open>endpoint_handler.go\<close>

record createEndpointRequest =
  qce_URL :: string
  qce_Description :: string
  qce_UID :: "string option"
  qce_Version :: "int option"
  qce_RateLimit :: "int option"
  qce_FilterTypes :: "string list"
  qce_Channels :: "string list"
  qce_Headers :: "(string \<times> string) list"
  qce_Secret :: string
  qce_SecretType :: "string option"

definition createEndpointRequest_tags :: "(string \<Rightarrow> bool) \<Rightarrow> createEndpointRequest \<Rightarrow> tag_check list" where
  "createEndpointRequest_tags isURL q =
    [tag_required ''URL'' (qce_URL q), (''URL'', ''url'', isURL (qce_URL q)), tag_max ''URL'' 2048 (qce_URL q), tag_max ''Description'' 2048 (qce_Description q),
     tag_optmax ''UID'' 256 (qce_UID q), tag_optmin ''Version'' (qce_Version q), tag_optmin ''RateLimit'' (qce_RateLimit q)] @
    tag_dive ''FilterTypes'' 256 (qce_FilterTypes q) @ tag_len ''Channels'' 10 (qce_Channels q) # tag_dive ''Channels'' 128 (qce_Channels q) @
    [tag_max ''Secret'' 512 (qce_Secret q), (''SecretType'', ''oneof'', qce_SecretType q \<in> {None, Some ''hmac256'', Some ''ed25519''})]"

text \<open>A slice the client left out is nil and not checked.\<close>

record updateEndpointRequest =
  que_URL :: "string option"
  que_Description :: "string option"
  que_UID :: "string option"
  que_Version :: "int option"
  que_RateLimit :: "int option"
  que_FilterTypes :: "string list option"
  que_Channels :: "string list option"
  que_Disabled :: "bool option"

definition updateEndpointRequest_tags :: "(string \<Rightarrow> bool) \<Rightarrow> updateEndpointRequest \<Rightarrow> tag_check list" where
  "updateEndpointRequest_tags isURL q =
    [(''URL'', ''url'', case que_URL q of None \<Rightarrow> True | Some u \<Rightarrow> isURL u), tag_optmax ''URL'' 2048 (que_URL q), tag_optmax ''Description'' 2048 (que_Description q),
     tag_optmax ''UID'' 256 (que_UID q), tag_optmin ''Version'' (que_Version q), tag_optmin ''RateLimit'' (que_RateLimit q)] @
    tag_dive ''FilterTypes'' 256 (Deref (que_FilterTypes q) []) @ tag_len ''Channels'' 10 (Deref (que_Channels q) []) #
    tag_dive ''Channels'' 128 (Deref (que_Channels q) [])"

definition secret_type_of :: "string \<Rightarrow> SecretType" where
  "secret_type_of s = (if s = ''hmac256'' then SecretTypeHMAC256 else if s = ''ed25519'' then SecretTypeEd25519 else SecretTypeOther s)"

definition h_CreateEndpoint :: "api_env \<Rightarrow> http_ctx \<Rightarrow> createEndpointRequest option \<Rightarrow> api_world \<Rightarrow> api_response handler_result" where
  "h_CreateEndpoint v c body = h_lift (principal c) (\<lambda>p w.
     h_bind (on_cfg (GetApplication (he_uc v) (pr_OrgID p) (hc_param c ''app_id'')) w) (\<lambda>app.
       h_lift (Bind (createEndpointRequest_tags (he_isURL v)) body) (\<lambda>req w.
         h_bind (on_cfg (CreateEndpoint (he_uc v) \<lparr>ce_OrgID = app_OrgID app, ce_AppID = app_ID app, ce_URL = qce_URL req, ce_Description = qce_Description req,
             ce_UID = qce_UID req, ce_Version = qce_Version req, ce_RateLimit = qce_RateLimit req, ce_EventTypes = qce_FilterTypes req,
             ce_Channels = qce_Channels req, ce_Headers = qce_Headers req, ce_Secret = qce_Secret req,
             ce_SecretType = map_option secret_type_of (qce_SecretType req), ce_Pool = []\<rparr>) w)
           (\<lambda>(ep, secret). JSON 201 (EndpointCreatedBody (newEndpointResponse ep) secret)))))"

definition resolveAppID :: "api_env \<Rightarrow> http_ctx \<Rightarrow> api_world \<Rightarrow> string handler_result" where
  "resolveAppID v c = h_lift (principal c) (\<lambda>p w.
     h_bind (on_cfg (GetApplication (he_uc v) (pr_OrgID p) (hc_param c ''app_id'')) w) (\<lambda>app w. (Inr (app_ID app), w)))"

text \<open>The other routes: resolve the application, bind the body where there is one, and call the use case with the endpoint of the path.\<close>

definition h_GetEndpoint :: "api_env \<Rightarrow> http_ctx \<Rightarrow> api_world \<Rightarrow> api_response handler_result" where
  "h_GetEndpoint v c w = h_bind (resolveAppID v c w) (\<lambda>appID w.
     h_bind (on_cfg (GetEndpoint (he_uc v) appID (hc_param c ''endpoint_id'')) w) (\<lambda>ep. JSON 200 (EndpointBody (newEndpointResponse ep))))"

definition h_ListEndpoints :: "api_env \<Rightarrow> http_ctx \<Rightarrow> api_world \<Rightarrow> api_response handler_result" where
  "h_ListEndpoints v c w = h_bind (resolveAppID v c w) (\<lambda>appID w.
     h_bind (on_cfg (ListEndpoints (he_uc v) appID (pagination c)) w) (\<lambda>r. JSON 200 (EndpointPage (cursor_response newEndpointResponse r))))"

definition h_UpdateEndpoint :: "api_env \<Rightarrow> http_ctx \<Rightarrow> updateEndpointRequest option \<Rightarrow> api_world \<Rightarrow> api_response handler_result" where
  "h_UpdateEndpoint v c body w = h_bind (resolveAppID v c w) (\<lambda>appID.
     h_lift (Bind (updateEndpointRequest_tags (he_isURL v)) body) (\<lambda>req w.
       h_bind (on_cfg (UpdateEndpoint (he_uc v) appID (hc_param c ''endpoint_id'')
           \<lparr>ue_URL = que_URL req, ue_Description = que_Description req, ue_UID = que_UID req, ue_Version = que_Version req, ue_RateLimit = que_RateLimit req,
            ue_EventTypes = que_FilterTypes req, ue_Channels = que_Channels req, ue_Disabled = que_Disabled req, ue_ClearEventTypes = False, ue_ClearChannels = False\<rparr>) w)
         (\<lambda>ep. JSON 200 (EndpointBody (newEndpointResponse ep)))))"

definition h_DeleteEndpoint :: "api_env \<Rightarrow> http_ctx \<Rightarrow> api_world \<Rightarrow> api_response handler_result" where
  "h_DeleteEndpoint v c w = h_bind (resolveAppID v c w) (\<lambda>appID w.
     h_bind (on_cfg (DeleteEndpoint (he_uc v) appID (hc_param c ''endpoint_id'')) w) (\<lambda>_. JSON 204 NoBody))"

definition h_GetSecret :: "api_env \<Rightarrow> http_ctx \<Rightarrow> api_world \<Rightarrow> api_response handler_result" where
  "h_GetSecret v c w = h_bind (resolveAppID v c w) (\<lambda>appID w.
     h_bind (on_cfg (RevealSecret (he_uc v) appID (hc_param c ''endpoint_id'')) w) (\<lambda>secret. JSON 200 (SecretBody secret)))"

record rotateSecretRequest =
  qrs_Key :: string

definition h_RotateSecret :: "api_env \<Rightarrow> http_ctx \<Rightarrow> rotateSecretRequest option \<Rightarrow> api_world \<Rightarrow> api_response handler_result" where
  "h_RotateSecret v c body w = h_bind (resolveAppID v c w) (\<lambda>appID.
     h_lift (Bind (\<lambda>q. [tag_max ''Key'' 512 (qrs_Key q)]) body) (\<lambda>req w.
       h_bind (on_cfg (RotateSecret (he_uc v) appID (hc_param c ''endpoint_id'') (qrs_Key req)) w) (\<lambda>_. JSON 204 NoBody)))"

definition h_GetHeaders :: "api_env \<Rightarrow> http_ctx \<Rightarrow> api_world \<Rightarrow> api_response handler_result" where
  "h_GetHeaders v c w = h_bind (resolveAppID v c w) (\<lambda>appID w.
     h_bind (on_cfg (GetHeaders (he_uc v) appID (hc_param c ''endpoint_id'')) w) (\<lambda>headers. JSON 200 (HeadersBody headers)))"

text \<open>The map is required: it may be empty but not absent.\<close>

record patchHeadersRequest =
  qph_Headers :: "(string \<times> string) list option"

definition h_PatchHeaders :: "api_env \<Rightarrow> http_ctx \<Rightarrow> patchHeadersRequest option \<Rightarrow> api_world \<Rightarrow> api_response handler_result" where
  "h_PatchHeaders v c body w = h_bind (resolveAppID v c w) (\<lambda>appID.
     h_lift (Bind (\<lambda>q. [(''Headers'', ''required'', qph_Headers q \<noteq> None)]) body) (\<lambda>req w.
       h_bind (on_cfg (PatchHeaders (he_uc v) appID (hc_param c ''endpoint_id'') (Deref (qph_Headers req) [])) w) (\<lambda>headers. JSON 200 (HeadersBody headers))))"

section \<open>message_handler.go\<close>

record createMessageRequest =
  qcm_EventType :: string
  qcm_EventID :: "string option"
  qcm_Payload :: "bytes option"
  qcm_Channels :: "string list"
  qcm_PayloadRetentionPeriod :: "int option"

definition createMessageRequest_tags :: "createMessageRequest \<Rightarrow> tag_check list" where
  "createMessageRequest_tags q =
    [tag_required ''EventType'' (qcm_EventType q), tag_max ''EventType'' 256 (qcm_EventType q), tag_optmax ''EventID'' 256 (qcm_EventID q),
     (''Payload'', ''required'', qcm_Payload q \<noteq> None), tag_len ''Channels'' 10 (qcm_Channels q)] @ tag_dive ''Channels'' 128 (qcm_Channels q) @
    [tag_optmin ''PayloadRetentionPeriod'' (qcm_PayloadRetentionPeriod q),
     (''PayloadRetentionPeriod'', ''max'', case qcm_PayloadRetentionPeriod q of None \<Rightarrow> True | Some n \<Rightarrow> n \<le> 365)]"

definition h_CreateMessage :: "api_env \<Rightarrow> http_ctx \<Rightarrow> createMessageRequest option \<Rightarrow> api_world \<Rightarrow> api_response handler_result" where
  "h_CreateMessage v c body = h_lift (principal c) (\<lambda>p. h_lift (Bind createMessageRequest_tags body) (\<lambda>req w.
     h_bind (on_messages (Ingest (he_ingest v) \<lparr>ii_OrgID = pr_OrgID p, ii_AppIDOrUID = hc_param c ''app_id'', ii_EventType = qcm_EventType req,
         ii_EventID = qcm_EventID req, ii_Payload = Deref (qcm_Payload req) [], ii_Channels = qcm_Channels req,
         ii_RetentionDays = qcm_PayloadRetentionPeriod req\<rparr>) w)
       (\<lambda>r. JSON 202 (MessageBody (newMessageResponse (ir_Message r) (ir_Payload r))))))"

definition h_GetMessage :: "api_env \<Rightarrow> http_ctx \<Rightarrow> api_world \<Rightarrow> api_response handler_result" where
  "h_GetMessage v c = h_lift (principal c) (\<lambda>p w.
     h_bind (on_messages (MessageUseCase_GetMessage (uc_pg (he_uc v)) (iu_ksuid (he_ingest v)) (he_messages v) (pr_OrgID p) (hc_param c ''app_id'') (hc_param c ''msg_id'')) w)
       (\<lambda>msg w. h_bind (on_messages (\<lambda>(cfg, d). case IngestUseCase_LoadPayload (he_ingest v) (msg_ID msg) (msg_CreatedAt msg) d of (r, d) \<Rightarrow> (r, cfg, d)) w)
         (\<lambda>payload. JSON 200 (MessageBody (newMessageResponse msg payload)))))"

definition h_ListMessages :: "api_env \<Rightarrow> http_ctx \<Rightarrow> api_world \<Rightarrow> api_response handler_result" where
  "h_ListMessages v c = h_lift (principal c) (\<lambda>p w.
     h_bind (on_messages (ListMessages (uc_pg (he_uc v)) (he_formatCursor v) (he_parseCursor v) (he_messages v)
         \<lparr>lm_OrgID = pr_OrgID p, lm_AppIDOrUID = hc_param c ''app_id'', lm_EventTypes = hc_queryAll c ''eventTypes'', lm_Channel = NilIfBlank (hc_query c ''channel''),
          lm_Before = parseTimeQuery v c ''before'', lm_After = parseTimeQuery v c ''after'', lm_Page = pagination c\<rparr>) w)
       (\<lambda>r. JSON 200 (MessagePage (cursor_response (\<lambda>msg. newMessageResponse msg []) r))))"

section \<open>attempt_handler.go and stream_handler.go\<close>

definition attemptFilters :: "api_env \<Rightarrow> http_ctx \<Rightarrow> handler_error + AttemptFilterInput" where
  "attemptFilters v c =
    (let filters = \<lparr>fi_Status = None, fi_StatusCodeClass = intQuery c ''statusCodeClass'', fi_EventTypes = hc_queryAll c ''eventTypes'',
           fi_Channel = NilIfBlank (hc_query c ''channel''), fi_Before = parseTimeQuery v c ''before'', fi_After = parseTimeQuery v c ''after''\<rparr>;
         raw = hc_query c ''status'' in
     if raw = [] then Inr filters
     else case parseAttemptStatus (he_lowerUnicode v) raw of Inl e \<Rightarrow> Inl e | Inr status \<Rightarrow> Inr (filters\<lparr>fi_Status := Some status\<rparr>))"

definition AttemptHandler_list :: "api_env \<Rightarrow> http_ctx \<Rightarrow> string \<Rightarrow> string \<Rightarrow> api_world \<Rightarrow> api_response handler_result" where
  "AttemptHandler_list v c msgID endpointID = h_lift (principal c) (\<lambda>p. h_lift (attemptFilters v c) (\<lambda>filters w.
     h_bind (on_attempts (ListAttempts (he_formatCursor v) (he_parseCursor v) (he_attempts v) \<lparr>la_OrgID = pr_OrgID p, la_AppIDOrUID = hc_param c ''app_id'',
         la_MsgID = msgID, la_EndpointID = endpointID, la_Filters = filters, la_Page = pagination c\<rparr>) w)
       (\<lambda>r. JSON 200 (AttemptPage (cursor_response newAttemptResponse r)))))"

definition h_ListByMessage :: "api_env \<Rightarrow> http_ctx \<Rightarrow> api_world \<Rightarrow> api_response handler_result" where
  "h_ListByMessage v c = AttemptHandler_list v c (hc_param c ''msg_id'') []"

definition h_ListByEndpoint :: "api_env \<Rightarrow> http_ctx \<Rightarrow> api_world \<Rightarrow> api_response handler_result" where
  "h_ListByEndpoint v c = AttemptHandler_list v c [] (hc_param c ''endpoint_id'')"

definition h_ListByMessageAndEndpoint :: "api_env \<Rightarrow> http_ctx \<Rightarrow> api_world \<Rightarrow> api_response handler_result" where
  "h_ListByMessageAndEndpoint v c = AttemptHandler_list v c (hc_param c ''msg_id'') (hc_param c ''endpoint_id'')"

definition h_Resend :: "api_env \<Rightarrow> http_ctx \<Rightarrow> api_world \<Rightarrow> api_response handler_result" where
  "h_Resend v c = h_lift (principal c) (\<lambda>p w.
     h_bind (on_attempts (Resend (he_attempts v) (pr_OrgID p) (hc_param c ''app_id'') (hc_param c ''msg_id'') (hc_param c ''endpoint_id'')) w) (\<lambda>_. JSON 202 NoBody))"

record recoverRequest =
  qrc_Since :: "time option"
  qrc_Until :: "time option"

definition h_Recover :: "api_env \<Rightarrow> http_ctx \<Rightarrow> recoverRequest option \<Rightarrow> api_world \<Rightarrow> api_response handler_result" where
  "h_Recover v c body = h_lift (principal c) (\<lambda>p. h_lift (Bind (\<lambda>q. [(''Since'', ''required'', qrc_Since q \<noteq> None)]) body) (\<lambda>req w.
     h_bind (on_attempts (Recover (he_attempts v) \<lparr>ri_OrgID = pr_OrgID p, ri_AppIDOrUID = hc_param c ''app_id'', ri_EndpointID = hc_param c ''endpoint_id'',
         ri_Since = Deref (qrc_Since req) zero_time, ri_Until = qrc_Until req\<rparr>) w)
       (\<lambda>r. JSON 202 (ReplayBody (rr_Enqueued r) (rr_Truncated r)))))"

record replayRequest =
  qrp_Since :: "time option"
  qrp_Until :: "time option"
  qrp_EndpointIDs :: "string list"
  qrp_EventTypes :: "string list"

definition replayRequest_tags :: "replayRequest \<Rightarrow> tag_check list" where
  "replayRequest_tags q = (''Since'', ''required'', qrp_Since q \<noteq> None) #
     tag_len ''EndpointIDs'' 100 (qrp_EndpointIDs q) # tag_dive ''EndpointIDs'' 256 (qrp_EndpointIDs q) @
     tag_len ''EventTypes'' 100 (qrp_EventTypes q) # tag_dive ''EventTypes'' 256 (qrp_EventTypes q)"

definition h_Replay :: "api_env \<Rightarrow> http_ctx \<Rightarrow> replayRequest option \<Rightarrow> api_world \<Rightarrow> api_response handler_result" where
  "h_Replay v c body = h_lift (principal c) (\<lambda>p. h_lift (Bind replayRequest_tags body) (\<lambda>req w.
     h_bind (on_attempts (Replay (he_attempts v) \<lparr>rp_OrgID = pr_OrgID p, rp_AppIDOrUID = hc_param c ''app_id'', rp_EndpointIDs = qrp_EndpointIDs req,
         rp_EventTypes = qrp_EventTypes req, rp_Since = Deref (qrp_Since req) zero_time, rp_Until = qrp_Until req\<rparr>) w)
       (\<lambda>r. JSON 202 (ReplayBody (rr_Enqueued r) (rr_Truncated r)))))"

definition h_Stats :: "api_env \<Rightarrow> http_ctx \<Rightarrow> api_world \<Rightarrow> api_response handler_result" where
  "h_Stats v c = h_lift (principal c) (\<lambda>p w.
     h_bind (on_attempts (AttemptUseCase_Stats (he_attempts v) (pr_OrgID p) (hc_param c ''app_id'') (hc_param c ''endpoint_id'') (parseTimeQuery v c ''since'')) w)
       (\<lambda>st. JSON 200 (StatsBody st)))"

text \<open>The tail: an error before it starts, or the stream served until the client goes away.\<close>

definition h_StreamAttempts ::
  "api_env \<Rightarrow> http_ctx \<Rightarrow> (attemptResponse \<Rightarrow> bytes option) \<Rightarrow> time \<Rightarrow> nat \<Rightarrow> attempt_state stream_event list \<Rightarrow> handler_error + stream" where
  "h_StreamAttempts v c marshal now left evs = (case principal c of
      Inl e \<Rightarrow> Inl e
    | Inr p \<Rightarrow> (case attemptFilters v c of
        Inl e \<Rightarrow> Inl e
      | Inr filters \<Rightarrow> Inr (stream_Serve (ListAttempts (he_formatCursor v) (he_parseCursor v) (he_attempts v)) (\<lambda>a. marshal (newAttemptResponse a))
          \<lparr>la_OrgID = pr_OrgID p, la_AppIDOrUID = hc_param c ''app_id'', la_MsgID = hc_query c ''msgId'', la_EndpointID = hc_query c ''endpointId'',
           la_Filters = filters, la_Page = \<lparr>cp_Cursor = [], cp_Limit = 50\<rparr>\<rparr> now left evs)))"

section \<open>event_type_handler.go\<close>

record createEventTypeRequest =
  qct_Name :: string
  qct_Description :: string
  qct_Schemas :: bytes

definition createEventTypeRequest_tags :: "createEventTypeRequest \<Rightarrow> tag_check list" where
  "createEventTypeRequest_tags q = [tag_required ''Name'' (qct_Name q), tag_max ''Name'' 256 (qct_Name q), tag_max ''Description'' 2048 (qct_Description q)]"

record updateEventTypeRequest =
  qut_Description :: "string option"
  qut_Schemas :: bytes

definition h_CreateEventType :: "api_env \<Rightarrow> http_ctx \<Rightarrow> createEventTypeRequest option \<Rightarrow> api_world \<Rightarrow> api_response handler_result" where
  "h_CreateEventType v c body = h_lift (h_orgToken c) (\<lambda>p. h_lift (Bind createEventTypeRequest_tags body) (\<lambda>req w.
     h_bind (on_cfg (CreateEventType (he_uc v) \<lparr>ct_OrgID = pr_OrgID p, ct_Name = qct_Name req, ct_Description = qct_Description req, ct_Schemas = qct_Schemas req\<rparr>) w)
       (\<lambda>et. JSON 201 (EventTypeBody (newEventTypeResponse et)))))"

definition h_GetEventType :: "api_env \<Rightarrow> http_ctx \<Rightarrow> api_world \<Rightarrow> api_response handler_result" where
  "h_GetEventType v c = h_lift (principal c) (\<lambda>p w.
     h_bind (on_cfg (GetEventType (he_uc v) (pr_OrgID p) (hc_param c ''event_type_name'')) w) (\<lambda>et. JSON 200 (EventTypeBody (newEventTypeResponse et))))"

definition h_UpdateEventType :: "api_env \<Rightarrow> http_ctx \<Rightarrow> updateEventTypeRequest option \<Rightarrow> api_world \<Rightarrow> api_response handler_result" where
  "h_UpdateEventType v c body = h_lift (h_orgToken c) (\<lambda>p. h_lift (Bind (\<lambda>q. [tag_optmax ''Description'' 2048 (qut_Description q)]) body) (\<lambda>req w.
     h_bind (on_cfg (UpdateEventType (he_uc v) (pr_OrgID p) (hc_param c ''event_type_name'') (qut_Description req) (qut_Schemas req)) w)
       (\<lambda>et. JSON 200 (EventTypeBody (newEventTypeResponse et)))))"

definition h_ArchiveEventType :: "api_env \<Rightarrow> http_ctx \<Rightarrow> api_world \<Rightarrow> api_response handler_result" where
  "h_ArchiveEventType v c = h_lift (h_orgToken c) (\<lambda>p w.
     h_bind (on_cfg (ArchiveEventType (he_uc v) (pr_OrgID p) (hc_param c ''event_type_name'')) w) (\<lambda>_. JSON 204 NoBody))"

definition h_ListEventTypes :: "api_env \<Rightarrow> http_ctx \<Rightarrow> api_world \<Rightarrow> api_response handler_result" where
  "h_ListEventTypes v c = h_lift (principal c) (\<lambda>p w.
     h_bind (on_cfg (ListEventTypes (he_uc v) (pr_OrgID p) (boolQuery c ''includeArchived'') (pagination c)) w)
       (\<lambda>r. JSON 200 (EventTypePage (cursor_response newEventTypeResponse r))))"

section \<open>admin_handler.go\<close>

definition h_RescueStuck :: "api_env \<Rightarrow> http_ctx \<Rightarrow> api_world \<Rightarrow> api_response handler_result" where
  "h_RescueStuck v c = h_lift (h_orgToken c) (\<lambda>_ w. h_bind (on_queue_table AdminUseCase_RescueStuck w) (\<lambda>n. JSON 200 (RescueBody n)))"

definition h_QueueStats :: "api_env \<Rightarrow> http_ctx \<Rightarrow> api_world \<Rightarrow> api_response handler_result" where
  "h_QueueStats v c = h_lift (h_orgToken c) (\<lambda>_ w.
     let pools = (case NilIfBlank (hc_query c ''pool'') of None \<Rightarrow> he_pools v | Some requested \<Rightarrow> [requested]) in
     h_bind (on_queue_table (AdminUseCase_QueueStats pools) w)
       (\<lambda>stats. JSON 200 (QueueStatsBody (map (\<lambda>s. \<lparr>qsr_Pool = qs_Pool s, qsr_Ready = qs_Ready s, qsr_Delayed = qs_Delayed s, qsr_Locked = qs_Locked s,
          qsr_OldestAge = qs_OldestAge s\<rparr>) stats))))"

definition h_Partitions :: "api_env \<Rightarrow> http_ctx \<Rightarrow> api_world \<Rightarrow> api_response handler_result" where
  "h_Partitions v c = h_lift (h_orgToken c) (\<lambda>_ w.
     h_bind (on_leases (AdminUseCase_PartitionLeases (he_collate v) (hc_query c ''pool'')) w)
       (\<lambda>leases. JSON 200 (PartitionsBody (map (\<lambda>l. \<lparr>plr_PartitionKey = pl_PartitionKey l, plr_Pool = pl_Pool l, plr_OwnerID = pl_OwnerID l,
          plr_HeartbeatAt = pl_HeartbeatAt l\<rparr>) leases))))"

record poolAssignmentRequest =
  qpa_AppID :: string
  qpa_EndpointID :: string
  qpa_Pool :: string

definition poolAssignmentRequest_tags :: "poolAssignmentRequest \<Rightarrow> tag_check list" where
  "poolAssignmentRequest_tags q = [tag_required ''AppID'' (qpa_AppID q), tag_max ''AppID'' 256 (qpa_AppID q), tag_required ''EndpointID'' (qpa_EndpointID q),
     tag_max ''EndpointID'' 256 (qpa_EndpointID q), tag_required ''Pool'' (qpa_Pool q), tag_max ''Pool'' 128 (qpa_Pool q)]"

definition h_MovePool :: "api_env \<Rightarrow> http_ctx \<Rightarrow> poolAssignmentRequest option \<Rightarrow> api_world \<Rightarrow> api_response handler_result" where
  "h_MovePool v c body = h_lift (h_orgToken c) (\<lambda>p. h_lift (Bind poolAssignmentRequest_tags body) (\<lambda>req w.
     h_bind (on_cfg (MoveEndpointPool (he_uc v) (he_admin v) \<lparr>pa_OrgID = pr_OrgID p, pa_AppIDOrUID = qpa_AppID req, pa_EndpointID = qpa_EndpointID req, pa_Pool = qpa_Pool req\<rparr>) w)
       (\<lambda>_. JSON 204 NoBody)))"

record reEnableRequest =
  qre_AppID :: string
  qre_EndpointID :: string

definition reEnableRequest_tags :: "reEnableRequest \<Rightarrow> tag_check list" where
  "reEnableRequest_tags q = [tag_required ''AppID'' (qre_AppID q), tag_max ''AppID'' 256 (qre_AppID q), tag_required ''EndpointID'' (qre_EndpointID q),
     tag_max ''EndpointID'' 256 (qre_EndpointID q)]"

definition h_ReEnableEndpoint :: "api_env \<Rightarrow> http_ctx \<Rightarrow> reEnableRequest option \<Rightarrow> api_world \<Rightarrow> api_response handler_result" where
  "h_ReEnableEndpoint v c body = h_lift (h_orgToken c) (\<lambda>p. h_lift (Bind reEnableRequest_tags body) (\<lambda>req w.
     h_bind (on_cfg (ReEnableEndpoint (he_uc v) (he_admin v) \<lparr>pa_OrgID = pr_OrgID p, pa_AppIDOrUID = qre_AppID req, pa_EndpointID = qre_EndpointID req, pa_Pool = []\<rparr>) w)
       (\<lambda>_. JSON 204 NoBody)))"

section \<open>portal_handler.go\<close>

record portalAccessRequest =
  qpo_ExpirySeconds :: "int option"

definition h_PortalAccess :: "api_env \<Rightarrow> http_ctx \<Rightarrow> portalAccessRequest option \<Rightarrow> api_world \<Rightarrow> api_response handler_result" where
  "h_PortalAccess v c body = h_lift (h_orgToken c) (\<lambda>p.
     h_lift (Bind (\<lambda>q. [tag_optmin ''ExpirySeconds'' (qpo_ExpirySeconds q), (''ExpirySeconds'', ''max'', case qpo_ExpirySeconds q of None \<Rightarrow> True | Some n \<Rightarrow> n \<le> 86400)]) body)
       (\<lambda>req w. h_bind (on_cfg (Grant (uc_pg (he_uc v)) (he_issuePortal v) (he_portal v) (pr_OrgID p) (hc_param c ''app_id'')
            (map_option (\<lambda>n. n * Second) (qpo_ExpirySeconds req))) w)
          (\<lambda>access. JSON 200 (PortalBody access))))"

section \<open>health_handler.go\<close>

definition MaxSnapshotAge :: duration where "MaxSnapshotAge = 5 * Minute"

record HealthHandler =
  hh_version :: string
  hh_shuttingDown :: bool

definition BeginShutdown :: "HealthHandler \<Rightarrow> HealthHandler" where
  "BeginShutdown h = h\<lparr>hh_shuttingDown := True\<rparr>"

record readinessResponse =
  rd_Status :: string
  rd_Database :: string
  rd_ConfigSnapshotAge :: duration
  rd_Detail :: string

definition Health :: "HealthHandler \<Rightarrow> int \<times> string \<times> string" where
  "Health h = (200, ''ok'', hh_version h)"

text \<open>The answer of the database, the current snapshot and the clock at the two readings of its age.\<close>

definition Ready :: "HealthHandler \<Rightarrow> bool \<Rightarrow> Snapshot option \<Rightarrow> time \<Rightarrow> time \<Rightarrow> int \<times> readinessResponse" where
  "Ready h healthy snapshot now now' =
    (let body = \<lparr>rd_Status = ''ready'', rd_Database = ''ok'', rd_ConfigSnapshotAge = 0, rd_Detail = []\<rparr> in
     if hh_shuttingDown h then (503, body\<lparr>rd_Status := ''shutting_down'', rd_Detail := ''process is draining''\<rparr>)
     else if \<not> healthy then (503, body\<lparr>rd_Status := ''not_ready'', rd_Database := ''unhealthy'', rd_Detail := ''database is not reachable''\<rparr>)
     else case snapshot of
       None \<Rightarrow> (503, body\<lparr>rd_Status := ''not_ready'', rd_Detail := ''config snapshot has not loaded''\<rparr>)
     | Some s \<Rightarrow>
        (let body = body\<lparr>rd_ConfigSnapshotAge := Snapshot_Age now s\<rparr> in
         if Snapshot_Age now' s > MaxSnapshotAge then (503, body\<lparr>rd_Status := ''not_ready'', rd_Detail := ''config snapshot is stale''\<rparr>)
         else (200, body)))"

section \<open>The handlers behind the routes\<close>

text \<open>A call of a handler with the decoded body it binds, and the handler's name in the table of routes.\<close>

datatype api_call =
    CallCreateApplication "createApplicationRequest option" | CallListApplications | CallGetApplication
  | CallUpdateApplication "updateApplicationRequest option" | CallDeleteApplication
  | CallCreateMessage "createMessageRequest option" | CallListMessages | CallGetMessage
  | CallCreateEndpoint "createEndpointRequest option" | CallListEndpoints | CallGetEndpoint | CallUpdateEndpoint "updateEndpointRequest option"
  | CallDeleteEndpoint | CallGetSecret | CallRotateSecret "rotateSecretRequest option" | CallGetHeaders | CallPatchHeaders "patchHeadersRequest option"
  | CallStats | CallRecover "recoverRequest option" | CallListByMessage | CallListByEndpoint | CallListByMessageAndEndpoint | CallResend
  | CallReplay "replayRequest option" | CallPortalAccess "portalAccessRequest option"
  | CallListEventTypes | CallCreateEventType "createEventTypeRequest option" | CallGetEventType | CallUpdateEventType "updateEventTypeRequest option"
  | CallArchiveEventType | CallRescueStuck | CallQueueStats | CallPartitions | CallMovePool "poolAssignmentRequest option"
  | CallReEnableEndpoint "reEnableRequest option"

fun api_handle :: "api_env \<Rightarrow> http_ctx \<Rightarrow> api_call \<Rightarrow> api_world \<Rightarrow> api_response handler_result" where
  "api_handle v c (CallCreateApplication b) = h_CreateApplication v c b"
| "api_handle v c CallListApplications = h_ListApplications v c"
| "api_handle v c CallGetApplication = h_GetApplication v c"
| "api_handle v c (CallUpdateApplication b) = h_UpdateApplication v c b"
| "api_handle v c CallDeleteApplication = h_DeleteApplication v c"
| "api_handle v c (CallCreateMessage b) = h_CreateMessage v c b"
| "api_handle v c CallListMessages = h_ListMessages v c"
| "api_handle v c CallGetMessage = h_GetMessage v c"
| "api_handle v c (CallCreateEndpoint b) = h_CreateEndpoint v c b"
| "api_handle v c CallListEndpoints = h_ListEndpoints v c"
| "api_handle v c CallGetEndpoint = h_GetEndpoint v c"
| "api_handle v c (CallUpdateEndpoint b) = h_UpdateEndpoint v c b"
| "api_handle v c CallDeleteEndpoint = h_DeleteEndpoint v c"
| "api_handle v c CallGetSecret = h_GetSecret v c"
| "api_handle v c (CallRotateSecret b) = h_RotateSecret v c b"
| "api_handle v c CallGetHeaders = h_GetHeaders v c"
| "api_handle v c (CallPatchHeaders b) = h_PatchHeaders v c b"
| "api_handle v c CallStats = h_Stats v c"
| "api_handle v c (CallRecover b) = h_Recover v c b"
| "api_handle v c CallListByMessage = h_ListByMessage v c"
| "api_handle v c CallListByEndpoint = h_ListByEndpoint v c"
| "api_handle v c CallListByMessageAndEndpoint = h_ListByMessageAndEndpoint v c"
| "api_handle v c CallResend = h_Resend v c"
| "api_handle v c (CallReplay b) = h_Replay v c b"
| "api_handle v c (CallPortalAccess b) = h_PortalAccess v c b"
| "api_handle v c CallListEventTypes = h_ListEventTypes v c"
| "api_handle v c (CallCreateEventType b) = h_CreateEventType v c b"
| "api_handle v c CallGetEventType = h_GetEventType v c"
| "api_handle v c (CallUpdateEventType b) = h_UpdateEventType v c b"
| "api_handle v c CallArchiveEventType = h_ArchiveEventType v c"
| "api_handle v c CallRescueStuck = h_RescueStuck v c"
| "api_handle v c CallQueueStats = h_QueueStats v c"
| "api_handle v c CallPartitions = h_Partitions v c"
| "api_handle v c (CallMovePool b) = h_MovePool v c b"
| "api_handle v c (CallReEnableEndpoint b) = h_ReEnableEndpoint v c b"

end
