(* ===== verification/Confinement.thy ===== *)
theory Confinement
  imports Handlers
begin

text \<open>
  What a request may touch, for the handlers of the API and of the portal: a relation on the configuration and a scope, the
  tenants and applications whose messages and queue rows may change. The use cases on messages and attempts are shown to stay in any
  scope that holds of the application they resolve to, and the way the handlers are put together keeps whatever
  relation the calls keep; the two kinds of caller interpret the locale at the end.
\<close>

section \<open>Rows outside a scope\<close>

type_synonym scope = "string \<Rightarrow> string \<Rightarrow> bool"

definition other_messages :: "scope \<Rightarrow> mdb \<Rightarrow> Message list" where
  "other_messages S d = filter (\<lambda>m. \<not> S (msg_OrgID m) (msg_AppID m)) (md_msgs d)"

definition other_tasks :: "scope \<Rightarrow> mdb \<Rightarrow> (int \<times> DeliveryTask) set" where
  "other_tasks S d = {(i, t). pg_look (md_queue d) i = Some t \<and> \<not> S (task_OrgID t) (task_AppID t)}"

definition msgs_kept :: "scope \<Rightarrow> mdb \<Rightarrow> mdb \<Rightarrow> bool" where
  "msgs_kept S d d' \<longleftrightarrow> other_messages S d' = other_messages S d \<and> other_tasks S d' = other_tasks S d"

definition world_kept :: "(cfgdb \<Rightarrow> cfgdb \<Rightarrow> bool) \<Rightarrow> scope \<Rightarrow> api_world \<Rightarrow> api_world \<Rightarrow> bool" where
  "world_kept C S w w' \<longleftrightarrow> C (hw_cfg w) (hw_cfg w') \<and> msgs_kept S (hw_msgs w) (hw_msgs w') \<and>
     ad_rows (hw_attempts w') = ad_rows (hw_attempts w) \<and> ld_leases (hw_leases w') = ld_leases (hw_leases w) \<and>
     ld_workers (hw_leases w') = ld_workers (hw_leases w) \<and> ld_named (hw_leases w') = ld_named (hw_leases w)"

definition spares :: "(cfgdb \<Rightarrow> cfgdb \<Rightarrow> bool) \<Rightarrow> scope \<Rightarrow> api_world \<Rightarrow> 'a handler_result \<Rightarrow> bool" where
  "spares C S w r \<longleftrightarrow> world_kept C S w (snd r)"

lemma msgs_kept_refl [simp]: "msgs_kept S d d"
  by (simp add: msgs_kept_def)

lemma msgs_kept_trans: "msgs_kept S d d' \<Longrightarrow> msgs_kept S d' d'' \<Longrightarrow> msgs_kept S d d''"
  by (simp add: msgs_kept_def)

lemma msgs_kept_same: "md_msgs d' = md_msgs d \<Longrightarrow> pg_look (md_queue d') = pg_look (md_queue d) \<Longrightarrow> msgs_kept S d d'"
  by (simp add: msgs_kept_def other_messages_def other_tasks_def)

lemma md_query_kept: "md_query ctx f d = (r, d') \<Longrightarrow> msgs_kept S d d' \<and> (pg_inv (md_queue d) \<longrightarrow> pg_inv (md_queue d'))"
  by (auto simp: md_query_def md_exec_frame intro!: msgs_kept_same split: prod.splits bool.splits)

text \<open>New rows of the queue that are all in the scope.\<close>

lemma added_kept:
  assumes "pg_look (md_queue d') = pg_look (md_queue d) ++ m" and "dom m \<inter> dom (pg_look (md_queue d)) = {}" and "\<forall>t\<in>ran m. S (task_OrgID t) (task_AppID t)"
    and "other_messages S d' = other_messages S d"
  shows "msgs_kept S d d'"
  using assms by (force simp: msgs_kept_def other_tasks_def map_add_Some_iff ran_def)

section \<open>Use cases on messages and attempts\<close>

lemma faults_same [simp]: "\<exists>fs. d = d\<lparr>db_faults := fs\<rparr>" for d :: cfgdb
  by (rule exI [of _ "db_faults d"]) simp

lemma resolve_frame:
  assumes "resolve env r org x d = (res, n, d')"
  shows "\<exists>fs. d' = d\<lparr>db_faults := fs\<rparr>"
proof -
  obtain r1 d1 where db: "(case app_by_id env org x d of (Inl ErrNotFound, d) \<Rightarrow> app_by_uid env org x d | other \<Rightarrow> other) = (r1, d1)" by fastforce
  then show ?thesis
    using assms resolve_fallback(1) [OF db] db by (auto simp: resolve_def split: if_splits option.splits sum.splits repo_error.splits)
qed

text \<open>The application a resolver finds is in the scope.\<close>

definition resolves_in :: "pgenv \<Rightarrow> appResolver \<Rightarrow> string \<Rightarrow> string \<Rightarrow> cfgdb \<Rightarrow> scope \<Rightarrow> bool" where
  "resolves_in env r org x c S \<longleftrightarrow> (\<forall>ref n c'. resolve env r org x c = (Inr ref, n, c') \<longrightarrow> S (ref_OrgID ref) (ref_ID ref))"

lemma Ingest_kept:
  assumes "Ingest uc inp (c, d) = (res, c', d')" and "pg_inv (md_queue d)" and "resolves_in (iu_pg uc) (iu_resolver uc) (ii_OrgID inp) (ii_AppIDOrUID inp) c S"
  shows "(\<exists>fs. c' = c\<lparr>db_faults := fs\<rparr>) \<and> msgs_kept S d d'"
proof
  show "\<exists>fs. c' = c\<lparr>db_faults := fs\<rparr>"
    using assms(1) by (auto simp: Ingest_def Let_def split: prod.splits sum.splits option.splits dest!: resolve_frame)
  from assms(1) show "msgs_kept S d d'"
  proof (cases rule: Ingest_cases)
    case (failed e app msgID createdAt e')
    then show ?thesis using ingest_tx_err by (blast intro: msgs_kept_same)
  next
    case (accepted app n msgID createdAt d1 r)
    have S: "S (ref_OrgID app) (ref_ID app)" using accepted(2) assms(3) by (auto simp: resolves_in_def)
    note tx = ingest_tx_ok [OF accepted(8) assms(2)]
    from tx(3) obtain task where task: "enqueued_as task (ingest_task uc app (ir_Message r))" "task_ID task \<notin> dom (pg_look (md_queue d))"
        "pg_look (md_queue d1) = (pg_look (md_queue d))(task_ID task \<mapsto> task)" by blast
    have "S (task_OrgID task) (task_AppID task)" "S (msg_OrgID (ir_Message r)) (msg_AppID (ir_Message r))"
      using task(1) accepted(6) S by (simp_all add: enqueued_as_def ingest_task_def new_message_def)
    then have "msgs_kept S d d1"
      using tx(2) task(2,3) by (intro added_kept [where m = "[task_ID task \<mapsto> task]"]) (auto simp: other_messages_def ran_def)
    then show ?thesis unfolding accepted(9) by (rule msgs_kept_trans) (simp add: msgs_kept_same notify_frame)
  qed simp
qed

lemma enqueueReplays_kept:
  assumes "enqueueReplays uc app fs t trigger d = (res, d')" and "pg_inv (md_queue d)" and "S (ref_OrgID app) (ref_ID app)"
  shows "msgs_kept S d d' \<and> pg_inv (md_queue d')"
proof (cases res)
  case None
  with assms(1) obtain rows where rows: "added_rows d d' (map (replay_task uc app t trigger) fs) rows" using enqueueReplays_ok [OF _ assms(2)] by blast
  then have "\<forall>t\<in>set rows. task_OrgID t = ref_OrgID app \<and> task_AppID t = ref_ID app"
    by (force simp: added_rows_def list_all2_conv_all_nth in_set_conv_nth enqueued_as_def replay_task_def)
  then have "\<forall>t\<in>ran (map_of (map (\<lambda>t. (task_ID t, t)) rows)). S (task_OrgID t) (task_AppID t)" using assms(3) by (auto simp: ran_def dest!: map_of_SomeD)
  moreover have "dom (map_of (map (\<lambda>t. (task_ID t, t)) rows)) = task_ID ` set rows" by (simp add: dom_map_of_conv_image_fst image_image)
  ultimately show ?thesis using rows
    by (auto simp: added_rows_def other_messages_def intro!: added_kept [where m = "map_of (map (\<lambda>t. (task_ID t, t)) rows)"])
next
  case (Some e)
  let ?ts = "map (replay_task uc app t trigger) fs"
  obtain x q where q: "Enqueue (au_now uc) ?ts (md_queue d) = (x, q)" by fastforce
  then have "d' = d\<lparr>md_queue := q\<rparr>" "x \<noteq> None" using assms(1) Some
    by (auto simp: enqueueReplays_def Let_def on_queue_def split: option.splits)
  then show ?thesis using look_Enqueue_err [of "au_now uc" ?ts "md_queue d"] pg_inv_Enqueue [OF assms(2), of "au_now uc" ?ts] q
    by (simp add: msgs_kept_same)
qed

lemma replay_loop_kept:
  assumes "S (ref_OrgID app) (ref_ID app)"
  shows "replay_loop uc app failed msgs n d = (res, d') \<Longrightarrow> pg_inv (md_queue d) \<Longrightarrow> msgs_kept S d d'"
proof (induction msgs arbitrary: n d)
  case (Cons m msgs)
  show ?case
  proof (cases "TimeOf (au_ksuid uc) m")
    case None
    with Cons show ?thesis by simp
  next
    case (Some t)
    let ?fs = "filter (\<lambda>f. fst f = m) failed"
    obtain x d1 where x: "enqueueReplays uc app ?fs t TriggerBulkReplay d = (x, d1)" by fastforce
    note k = enqueueReplays_kept [OF x Cons.prems(2), of S, OF assms]
    show ?thesis
    proof (cases x)
      case None
      have "replay_loop uc app failed msgs (n + length ?fs) d1 = (res, d')" using Cons.prems(1) Some x None by (simp add: Let_def)
      with Cons.IH k show ?thesis by (blast intro: msgs_kept_trans)
    qed (use Cons.prems(1) Some x k in \<open>simp add: Let_def\<close>)
  qed
qed simp

definition state_kept :: "scope \<Rightarrow> attempt_state \<Rightarrow> attempt_state \<Rightarrow> bool" where
  "state_kept S s s' = (case (s, s') of ((c, d, a), (c', d', a')) \<Rightarrow> (\<exists>fs. c' = c\<lparr>db_faults := fs\<rparr>) \<and> msgs_kept S d d' \<and> ad_rows a' = ad_rows a)"

lemma state_kept_read: "ad_rows a' = ad_rows a \<Longrightarrow> state_kept S (c, d, a) (c\<lparr>db_faults := fs\<rparr>, d, a')"
  by (auto simp: state_kept_def)

lemma state_kept_refl [simp]: "state_kept S (c, d, a) (c\<lparr>db_faults := fs\<rparr>, d, a)"
  by (simp add: state_kept_read)

lemma with_app_kept:
  assumes "resolves_in (au_pg uc) (au_resolver uc) org x c S" and "\<And>ref fs. S (ref_OrgID ref) (ref_ID ref) \<Longrightarrow> state_kept S (c, d, a) (snd (f ref (c\<lparr>db_faults := fs\<rparr>, d, a)))"
  shows "state_kept S (c, d, a) (snd (with_app uc org x f (c, d, a)))"
proof -
  obtain res n c' where r: "resolve (au_pg uc) (au_resolver uc) org x c = (res, n, c')" using prod_cases3 by blast
  with resolve_frame [OF r] assms show ?thesis by (cases res) (auto simp: with_app_def resolves_in_def)
qed

lemma resolveEndpoint_frame: "resolveEndpoint uc a x c = (res, c') \<Longrightarrow> \<exists>fs. c' = c\<lparr>db_faults := fs\<rparr>"
  by (auto simp: resolveEndpoint_def split: prod.splits sum.splits dest!: ep.lookup(1))

lemma in_app_endpoint_kept:
  assumes "\<And>e fs. state_kept S (c, d, a) (snd (f e (c\<lparr>db_faults := fs\<rparr>, d, a)))"
  shows "state_kept S (c, d, a) (snd (in_app_endpoint uc app x f (c\<lparr>db_faults := fs0\<rparr>, d, a)))"
proof -
  obtain res c' where r: "resolveEndpoint uc (ref_ID app) x (c\<lparr>db_faults := fs0\<rparr>) = (res, c')" by fastforce
  with resolveEndpoint_frame [OF r] assms show ?thesis by (cases res) (auto simp: in_app_endpoint_def)
qed

lemma resolve_all_frame: "resolve_all uc app xs out c = (res, c') \<Longrightarrow> \<exists>fs. c' = c\<lparr>db_faults := fs\<rparr>"
proof (induction xs arbitrary: out c)
  case Nil
  then show ?case by (auto intro: exI [of _ "db_faults c"])
next
  case (Cons x xs)
  then show ?case by (fastforce split: prod.splits sum.splits dest!: resolveEndpoint_frame)
qed

lemma ad_query_rows: "ad_query ctx f a = (r, a') \<Longrightarrow> ad_rows a' = ad_rows a"
  by (auto simp: ad_query_def split: list.splits)

lemma replay_kept:
  assumes "pg_inv (md_queue d)" and "S (ref_OrgID app) (ref_ID app)"
  shows "state_kept S (c, d, a) (snd (AttemptUseCase_replay uc app f (c\<lparr>db_faults := fs\<rparr>, d, a)))"
  using assms(1) unfolding AttemptUseCase_replay_def ListFailedDeliveries_def
  by (auto simp: state_kept_def Let_def split: prod.splits sum.splits dest!: replay_loop_kept [of S, OF assms(2)] ad_query_rows)

lemma attempt_ops_kept:
  assumes "resolves_in (au_pg uc) (au_resolver uc) org x c S"
  shows "la_OrgID li = org \<Longrightarrow> la_AppIDOrUID li = x \<Longrightarrow> state_kept S (c, d, a) (snd (ListAttempts fmt parse uc li (c, d, a)))"
    and "state_kept S (c, d, a) (snd (AttemptUseCase_Stats uc org x e since (c, d, a)))"
    and "pg_inv (md_queue d) \<Longrightarrow> state_kept S (c, d, a) (snd (Resend uc org x m e (c, d, a)))"
    and "pg_inv (md_queue d) \<Longrightarrow> ri_OrgID ri = org \<Longrightarrow> ri_AppIDOrUID ri = x \<Longrightarrow> state_kept S (c, d, a) (snd (Recover uc ri (c, d, a)))"
    and "pg_inv (md_queue d) \<Longrightarrow> rp_OrgID rp = org \<Longrightarrow> rp_AppIDOrUID rp = x \<Longrightarrow> state_kept S (c, d, a) (snd (Replay uc rp (c, d, a)))"
proof -
  show "la_OrgID li = org \<Longrightarrow> la_AppIDOrUID li = x \<Longrightarrow> state_kept S (c, d, a) (snd (ListAttempts fmt parse uc li (c, d, a)))"
    unfolding ListAttempts_def GetAttempts_def using assms
    by (auto intro!: with_app_kept in_app_endpoint_kept state_kept_read simp: Let_def split: prod.splits sum.splits dest!: ad_query_rows)
  show "state_kept S (c, d, a) (snd (AttemptUseCase_Stats uc org x e since (c, d, a)))" unfolding AttemptUseCase_Stats_def AttemptRepo_Stats_def using assms
    by (auto intro!: with_app_kept in_app_endpoint_kept state_kept_read simp: Let_def split: prod.splits sum.splits option.splits dest!: ad_query_rows)
  show "pg_inv (md_queue d) \<Longrightarrow> ri_OrgID ri = org \<Longrightarrow> ri_AppIDOrUID ri = x \<Longrightarrow> state_kept S (c, d, a) (snd (Recover uc ri (c, d, a)))" unfolding Recover_def using assms
    by (auto intro!: with_app_kept in_app_endpoint_kept replay_kept split: option.splits)
  show "pg_inv (md_queue d) \<Longrightarrow> rp_OrgID rp = org \<Longrightarrow> rp_AppIDOrUID rp = x \<Longrightarrow> state_kept S (c, d, a) (snd (Replay uc rp (c, d, a)))" unfolding Replay_def Let_def using assms
    by (auto intro!: with_app_kept replay_kept split: option.splits prod.splits sum.splits dest!: resolve_all_frame)
  assume inv: "pg_inv (md_queue d)"
  show "state_kept S (c, d, a) (snd (Resend uc org x m e (c, d, a)))" unfolding Resend_def
  proof (intro with_app_kept in_app_endpoint_kept assms, goal_cases)
    case (1 app fs0 ep fs)
    obtain r d1 where m: "messageCreatedAt uc (ref_ID app) m d = (r, d1)" by fastforce
    have d1: "msgs_kept S d d1" "pg_inv (md_queue d1)" using m inv
      by (auto simp: messageCreatedAt_def MessageRepo_GetMessage_def split: option.splits prod.splits sum.splits dest!: md_query_kept)
    show ?case
    proof (cases r)
      case (Inr t)
      obtain y d2 where y: "enqueueReplays uc app [(m, ep)] t TriggerManual d1 = (y, d2)" by fastforce
      from enqueueReplays_kept [OF y d1(2), of S] 1 d1(1) have "msgs_kept S d d2" by (blast intro: msgs_kept_trans)
      then show ?thesis by (cases y) (auto simp: m y Inr state_kept_def)
    qed (use d1 in \<open>auto simp: m state_kept_def\<close>)
  qed
qed

text \<open>Each use case on an endpoint stays in its application.\<close>

lemma endpoint_within:
  assumes "ids_ok d"
  shows "ce_AppID inp = a \<Longrightarrow> within_app a d (CreateEndpoint v inp d)" "within_app a d (GetEndpoint v a x d)" "within_app a d (ListEndpoints v a page d)"
    "within_app a d (UpdateEndpoint v a x uinp d)" "within_app a d (DeleteEndpoint v a x d)" "within_app a d (RevealSecret v a x d)"
    "within_app a d (RotateSecret v a x s d)" "within_app a d (GetHeaders v a x d)" "within_app a d (PatchHeaders v a x p d)"
    "within_app a d (Endpoint_UseCase.SetDisabled v a x b d)"
proof -
  show "within_app a d (DeleteEndpoint v a x d)" "within_app a d (RotateSecret v a x s d)" "within_app a d (Endpoint_UseCase.SetDisabled v a x b d)"
    using endpoint_op_within [OF assms, of a v "OpDelete x"] endpoint_op_within [OF assms, of a v "OpRotate x s"] endpoint_op_within [OF assms, of a v "OpSetDisabled x b"]
    by (simp_all add: within_app_def endpoint_op_def)
qed (simp_all add: assms create_within update_within patch_within lookups_within)

section \<open>How handlers are put together\<close>

lemma snd_JSON [simp]: "snd (JSON status body w) = w"
  by (simp add: JSON_def)

locale confined =
  fixes C :: "cfgdb \<Rightarrow> cfgdb \<Rightarrow> bool" and S :: scope
  assumes same: "C d (d\<lparr>db_faults := fs\<rparr>)"
    and trans: "C d d' \<Longrightarrow> C d' d'' \<Longrightarrow> C d d''"
begin

lemma C_refl [simp]: "C d d"
  using same [of d "db_faults d"] by simp

lemma kept_refl [simp]: "world_kept C S w w"
  by (simp add: world_kept_def)

lemma kept_trans: "world_kept C S w w' \<Longrightarrow> world_kept C S w' w'' \<Longrightarrow> world_kept C S w w''"
  by (auto simp: world_kept_def intro: trans msgs_kept_trans)

lemma error: "spares C S w (x, w)"
  by (simp add: spares_def)

lemma lift: "(\<And>x. r = Inr x \<Longrightarrow> spares C S w (f x w)) \<Longrightarrow> spares C S w (h_lift r f w)"
  by (cases r) (simp_all add: h_lift_def spares_def)

lemma bind: "spares C S w r \<Longrightarrow> (\<And>x w'. r = (Inr x, w') \<Longrightarrow> world_kept C S w w' \<Longrightarrow> spares C S w' (f x w')) \<Longrightarrow> spares C S w (h_bind r f)"
  by (cases r; cases "fst r") (auto simp: h_bind_def spares_def intro: kept_trans)

lemma answer: "spares C S w r \<Longrightarrow> (\<And>x w'. snd (f x w') = w') \<Longrightarrow> spares C S w (h_bind r f)"
  by (cases r; cases "fst r") (auto simp: h_bind_def spares_def)

lemma call_cfg: "C (hw_cfg w) (snd (f (hw_cfg w))) \<Longrightarrow> spares C S w (on_cfg f w)"
  by (auto simp: on_cfg_def spares_def world_kept_def split: prod.splits)

lemma call_messages:
  "(\<And>r c d. f (hw_cfg w, hw_msgs w) = (r, c, d) \<Longrightarrow> (\<exists>fs. c = (hw_cfg w)\<lparr>db_faults := fs\<rparr>) \<and> msgs_kept S (hw_msgs w) d) \<Longrightarrow> spares C S w (on_messages f w)"
  using same by (fastforce simp: on_messages_def spares_def world_kept_def split: prod.splits)

lemma call_attempts:
  "state_kept S (hw_cfg w, hw_msgs w, hw_attempts w) (snd (f (hw_cfg w, hw_msgs w, hw_attempts w))) \<Longrightarrow> spares C S w (on_attempts f w)"
  using same by (auto simp: on_attempts_def spares_def world_kept_def state_kept_def split: prod.splits)

lemma caller:
  assumes "hc_principal c = Some p" and "spares C S w (f p w)"
  shows "spares C S w (h_lift (principal c) f w)" "spares C S w (h_lift (h_orgToken c) f w)"
  using assms by (auto simp: principal_def h_orgToken_def orgToken_def h_lift_def spares_def)

end

end
