(* ===== verification/Tenant_Isolation.thy ===== *)
theory Tenant_Isolation
  imports Confinement
begin

text \<open>
  Tenant isolation of the whole API: what belongs to the other tenants in the configuration tables, that each use case leaves it
  alone, and from there, with the contract of confined handlers, that each handler does, whatever the request, the clock and the
  statements that fail.
\<close>

section \<open>What belongs to the other tenants\<close>

definition other_apps :: "string \<Rightarrow> cfgdb \<Rightarrow> Application list" where
  "other_apps org d = filter (\<lambda>a. app_OrgID a \<noteq> org) (db_apps d)"

definition other_types :: "string \<Rightarrow> cfgdb \<Rightarrow> EventType list" where
  "other_types org d = filter (\<lambda>t. et_OrgID t \<noteq> org) (db_types d)"

definition other_eps :: "string \<Rightarrow> cfgdb \<Rightarrow> endpoint_row list" where
  "other_eps org d = filter (\<lambda>r. \<exists>a\<in>set (db_apps d). app_ID a = ep_AppID r \<and> app_OrgID a \<noteq> org) (db_eps d)"

definition cfg_kept :: "string \<Rightarrow> cfgdb \<Rightarrow> cfgdb \<Rightarrow> bool" where
  "cfg_kept org d d' \<longleftrightarrow> db_orgs d' = db_orgs d \<and> other_apps org d' = other_apps org d \<and> other_types org d' = other_types org d \<and> other_eps org d' = other_eps org d"

text \<open>The constraints of the tables, and that a snapshot was built from rows that are still there: rows are only ever marked deleted.\<close>

definition app_ids_ok :: "cfgdb \<Rightarrow> bool" where
  "app_ids_ok d \<longleftrightarrow> distinct (map app_ID (db_apps d))"

definition has_app :: "string \<Rightarrow> string \<Rightarrow> cfgdb \<Rightarrow> bool" where
  "has_app org a d \<longleftrightarrow> (\<exists>app\<in>set (db_apps d). app_ID app = a \<and> app_OrgID app = org)"

definition from_rows :: "cfgdb \<Rightarrow> appResolver \<Rightarrow> bool" where
  "from_rows d r \<longleftrightarrow> (\<forall>s. rs_snapshot r = Some s \<longrightarrow> (\<exists>aead_open um sealer t now data. s = fst (BuildSnapshot aead_open um sealer t now data) \<and>
     (\<forall>app\<in>set (sd_Applications data). CHR 0x00 \<notin> set (app_OrgID app) \<and> (\<forall>uid. app_UID app = Some uid \<longrightarrow> CHR 0x00 \<notin> set uid) \<and>
        has_app (app_OrgID app) (app_ID app) d)))"

definition world_ok :: "api_env \<Rightarrow> api_world \<Rightarrow> bool" where
  "world_ok v w \<longleftrightarrow> ids_ok (hw_cfg w) \<and> app_ids_ok (hw_cfg w) \<and> pg_inv (md_queue (hw_msgs w)) \<and>
     (\<forall>r\<in>{iu_resolver (he_ingest v), he_messages v, au_resolver (he_attempts v), he_admin v, pu_resolver (he_portal v)}. from_rows (hw_cfg w) r)"

section \<open>Writes of the configuration\<close>

lemma cfg_kept_refl [simp]: "cfg_kept org d d" "cfg_kept org d (d\<lparr>db_faults := fs\<rparr>)" "cfg_kept org d (uc_invalidate v x d)"
  by (simp_all add: cfg_kept_def other_apps_def other_types_def other_eps_def)

lemma cfg_kept_trans: "cfg_kept org d d' \<Longrightarrow> cfg_kept org d' d'' \<Longrightarrow> cfg_kept org d d''"
  by (simp add: cfg_kept_def)

lemma cfg_kept_invalidate [simp]: "cfg_kept org d (uc_invalidate v x d') \<longleftrightarrow> cfg_kept org d d'"
  by (simp add: cfg_kept_def other_apps_def other_types_def other_eps_def)

lemma faults_simps [simp]:
  "app_ids_ok (d\<lparr>db_faults := fs\<rparr>) = app_ids_ok d" "has_app org a (d\<lparr>db_faults := fs\<rparr>) = has_app org a d" "from_rows (d\<lparr>db_faults := fs\<rparr>) r = from_rows d r"
  "cfg_kept org (d\<lparr>db_faults := fs\<rparr>) d' = cfg_kept org d d'"
  by (simp_all add: app_ids_ok_def has_app_def from_rows_def cfg_kept_def other_apps_def other_types_def other_eps_def)

lemma app_org_unique: "app_ids_ok d \<Longrightarrow> has_app org a d \<Longrightarrow> app \<in> set (db_apps d) \<Longrightarrow> app_ID app = a \<Longrightarrow> app_OrgID app = org"
  by (auto simp: app_ids_ok_def has_app_def distinct_map inj_on_def)

lemma only_app_kept:
  assumes "only_app a d d'" and "app_ids_ok d" and "has_app org a d"
  shows "cfg_kept org d d'"
proof -
  have "other_eps org d1 = filter (\<lambda>r. \<exists>app\<in>set (db_apps d). app_ID app = ep_AppID r \<and> app_OrgID app \<noteq> org) (foreign a d1)" if "db_apps d1 = db_apps d" for d1
    unfolding other_eps_def foreign_def filter_filter that using app_org_unique [OF assms(2,3)] by (intro filter_cong) auto
  with assms(1) show ?thesis by (simp add: cfg_kept_def only_app_def other_apps_def other_types_def)
qed

lemma write_tbl_cases:
  assumes "write_tbl get put stmt d = (res, d')"
  obtains (fail) e fs where "res = Inl e" "d' = d\<lparr>db_faults := fs\<rparr>"
    | (ok) n rows fs where "res = Inr n" "stmt (d\<lparr>db_faults := fs\<rparr>) (get (d\<lparr>db_faults := fs\<rparr>)) = Inr (n, rows)" "d' = put rows (d\<lparr>db_faults := fs\<rparr>)"
proof -
  obtain ok d1 where x: "db_exec d = (ok, d1)" by fastforce
  then obtain fs where "d1 = d\<lparr>db_faults := fs\<rparr>" using db_exec_frame by blast
  with assms x that show thesis by (cases ok) (auto simp: write_tbl_def split: sum.splits prod.splits)
qed

lemma filter_update: "(\<And>r. r \<in> set rows \<Longrightarrow> P r \<Longrightarrow> \<not> Q r \<and> \<not> Q (f r)) \<Longrightarrow> filter Q (map (\<lambda>r. if P r then f r else r) rows) = filter Q rows"
  by (induction rows) auto

text \<open>A statement on the applications that adds rows of the tenant, or changes rows of the tenant in place.\<close>

lemma put_apps_kept:
  assumes "db_apps d' = rows @ new" and "db_eps d' = db_eps d" and "db_types d' = db_types d" and "db_orgs d' = db_orgs d"
    and "filter (\<lambda>a. app_OrgID a \<noteq> org) rows = other_apps org d" and "\<forall>a\<in>set new. app_OrgID a = org"
    and "(\<lambda>a. (app_ID a, app_OrgID a)) ` set rows = (\<lambda>a. (app_ID a, app_OrgID a)) ` set (db_apps d)"
  shows "cfg_kept org d d'"
proof -
  have "(\<exists>a\<in>set (db_apps d'). app_ID a = x \<and> app_OrgID a \<noteq> org) \<longleftrightarrow> (\<exists>a\<in>set (db_apps d). app_ID a = x \<and> app_OrgID a \<noteq> org)" for x
  proof -
    have "(\<exists>a\<in>set (db_apps d'). app_ID a = x \<and> app_OrgID a \<noteq> org) \<longleftrightarrow> (\<exists>p\<in>(\<lambda>a. (app_ID a, app_OrgID a)) ` set rows. fst p = x \<and> snd p \<noteq> org)"
      using assms(1,6) by auto
    also have "\<dots> \<longleftrightarrow> (\<exists>a\<in>set (db_apps d). app_ID a = x \<and> app_OrgID a \<noteq> org)" unfolding assms(7) by auto
    finally show ?thesis .
  qed
  moreover have "other_apps org d' = other_apps org d" using assms(1,5,6) by (simp add: other_apps_def filter_empty_conv)
  ultimately show ?thesis using assms(2-4) by (simp add: cfg_kept_def other_types_def other_eps_def)
qed

lemma update_apps_kept:
  assumes "affected none ctx (write_apps (\<lambda>d. update_where app_keys (\<lambda>r. app_ID r = i \<and> app_DeletedAt r = None) f) d) = (res, d')"
    and "app_ids_ok d" and "has_app org i d" and "\<And>r. app_ID (f r) = app_ID r \<and> app_OrgID (f r) = app_OrgID r"
  shows "cfg_kept org d d'"
proof -
  obtain x where w: "write_apps (\<lambda>d. update_where app_keys (\<lambda>r. app_ID r = i \<and> app_DeletedAt r = None) f) d = (x, d')"
    using assms(1) by (auto simp: affected_def split: prod.splits sum.splits)
  let ?rows = "map (\<lambda>r. if app_ID r = i \<and> app_DeletedAt r = None then f r else r) (db_apps d)"
  have "filter (\<lambda>a. app_OrgID a \<noteq> org) ?rows = other_apps org d"
    unfolding other_apps_def using app_org_unique [OF assms(2,3)] assms(4) by (intro filter_update) auto
  moreover have "(\<lambda>a. (app_ID a, app_OrgID a)) ` set ?rows = (\<lambda>a. (app_ID a, app_OrgID a)) ` set (db_apps d)"
    unfolding set_map image_image using assms(4) by (intro image_cong) auto
  ultimately have put: "cfg_kept org d (d\<lparr>db_faults := fs, db_apps := ?rows\<rparr>)" for fs
    by (intro put_apps_kept [where rows = ?rows and new = "[]"]) simp_all
  from w [unfolded write_apps_def] show ?thesis
    by (cases rule: write_tbl_cases) (simp_all add: update_where_Inr put)
qed

lemma write_types_kept:
  assumes "write_types stmt d = (res, d')"
    and "\<And>d0 n rows. stmt d0 (db_types d) = Inr (n, rows) \<Longrightarrow> filter (\<lambda>t. et_OrgID t \<noteq> org) rows = other_types org d"
  shows "cfg_kept org d d'"
  using assms(1) unfolding write_types_def
proof (cases rule: write_tbl_cases)
  case (ok n rows fs)
  from assms(2) [of "d\<lparr>db_faults := fs\<rparr>" n rows] ok show ?thesis by (simp add: cfg_kept_def other_types_def other_apps_def other_eps_def)
qed simp

lemma kept_by_call:
  assumes "cfg_kept org d (snd r)" and "\<And>d'. cfg_kept org d d' \<Longrightarrow> cfg_kept org d (snd (f d'))"
  shows "cfg_kept org d (snd (uc_call r t f))"
  using assms by (cases r; cases "fst r") (auto simp: uc_call_def)

lemma GetApplication_found:
  assumes "GetApplication v org x d = (res, d')"
  shows "\<exists>fs. d' = d\<lparr>db_faults := fs\<rparr>" and "res = Inr app \<Longrightarrow> has_app org (app_ID app) d \<and> app_OrgID app = org"
  using ap.lookup [OF assms [unfolded GetApplication_def]] by (auto simp: live_app_def has_app_def)

lemma kept_by_app:
  assumes "\<And>app fs. has_app org (app_ID app) d \<Longrightarrow> app_OrgID app = org \<Longrightarrow> cfg_kept org d (snd (f app (d\<lparr>db_faults := fs\<rparr>)))"
  shows "cfg_kept org d (snd (uc_bind (GetApplication v org x d) f))"
proof -
  obtain res d' where g: "GetApplication v org x d = (res, d')" by fastforce
  from GetApplication_found [OF g] assms show ?thesis by (cases res) (auto simp: uc_bind_def g)
qed

lemma application_ops_kept:
  assumes "app_ids_ok d"
  shows "ca_OrgID inp = org \<Longrightarrow> cfg_kept org d (snd (CreateApplication v inp d))"
    and "cfg_kept org d (snd (GetApplication v org x d))"
    and "cfg_kept org d (snd (UpdateApplication v org x uinp d))"
    and "cfg_kept org d (snd (DeleteApplication v org x d))"
    and "cfg_kept org d (snd (ListApplications v org search page d))"
proof -
  have "cfg_kept org d (snd (ApplicationRepo_CreateApplication env app d))" if "app_OrgID app = org" for env app
  proof -
    obtain x d' where w: "write_tbl db_apps (\<lambda>rows d. d\<lparr>db_apps := rows\<rparr>) (\<lambda>d. insert_row app_keys (app_OrgID app \<in> org_ID ` set (db_orgs d))
       (app\<lparr>app_Metadata := metadata_col env (app_Metadata app), app_UpdatedAt := app_CreatedAt app, app_DeletedAt := None\<rparr>)) d = (x, d')" by fastforce
    then have "cfg_kept org d d'" using that
      by (cases rule: write_tbl_cases) (auto simp: insert_row_Inr other_apps_def intro!: put_apps_kept [where rows = "db_apps d"])
    then show ?thesis by (auto simp: ApplicationRepo_CreateApplication_def write_apps_def w inserted_def split: sum.splits)
  qed
  then show "ca_OrgID inp = org \<Longrightarrow> cfg_kept org d (snd (CreateApplication v inp d))"
    by (auto simp: CreateApplication_def Let_def intro!: kept_by_call)
  show "cfg_kept org d (snd (GetApplication v org x d))"
    using GetApplication_found(1) [of v org x d] by (cases "GetApplication v org x d") auto
  have upd: "cfg_kept org d (snd (ApplicationRepo_UpdateApplication env app (d\<lparr>db_faults := fs\<rparr>)))"
       "cfg_kept org d (snd (ApplicationRepo_DeleteApplication now (app_ID app) (d\<lparr>db_faults := fs\<rparr>)))" if "has_app org (app_ID app) d" for env now fs app
    unfolding ApplicationRepo_UpdateApplication_def ApplicationRepo_DeleteApplication_def softDelete_def
    using update_apps_kept [OF prod.collapse [symmetric], of "d\<lparr>db_faults := fs\<rparr>" org "app_ID app"] assms that by auto
  have keep: "app_ID app' = app_ID app" if "update_app_fields v uinp app = Inr app'" for app app'
    using that by (auto simp: update_app_fields_def split: if_splits)
  show "cfg_kept org d (snd (UpdateApplication v org x uinp d))" unfolding UpdateApplication_def
  proof (intro kept_by_app, goal_cases)
    case (1 app fs)
    show ?case
    proof (cases "update_app_fields v uinp app")
      case (Inr app')
      have "cfg_kept org d (snd (ApplicationRepo_UpdateApplication (uc_pg v) app' (d\<lparr>db_faults := fs\<rparr>)))" using 1(1) keep [OF Inr] by (intro upd(1)) simp
      then show ?thesis by (simp add: Inr kept_by_call)
    qed simp
  qed
  show "cfg_kept org d (snd (DeleteApplication v org x d))" unfolding DeleteApplication_def
    by (intro kept_by_app kept_by_call) (simp_all add: upd)
  show "cfg_kept org d (snd (ListApplications v org search page d))"
    unfolding ListApplications_def internal_page_def ApplicationRepo_GetApplications_def
    by (auto split: prod.splits sum.splits elim!: query_cases)
qed

lemma query_kept: "query ctx f d = (res, d') \<Longrightarrow> cfg_kept org d d'"
  using query_frame by fastforce

lemma GetEventType_found:
  assumes "GetEventType v org n d = (res, d')"
  shows "\<exists>fs. d' = d\<lparr>db_faults := fs\<rparr>" and "res = Inr et \<Longrightarrow> et_OrgID et = org"
proof -
  from assms obtain r where q: "EventTypeRepo_GetEventType (uc_pg v) \<lparr>tf_OrgID = Eq org, tf_Name = Eq n, tf_IncludeArchived = True\<rparr> d = (r, d')"
    by (auto simp: GetEventType_def split: prod.splits sum.splits)
  show "\<exists>fs. d' = d\<lparr>db_faults := fs\<rparr>" using query_frame [OF q [unfolded EventTypeRepo_GetEventType_def]] by blast
  assume "res = Inr et"
  then have "r = Inr et" using assms q by (auto simp: GetEventType_def split: sum.splits)
  then show "et_OrgID et = org" using q unfolding EventTypeRepo_GetEventType_def
    by (elim query_cases) (auto simp: applyEventTypeFilters_def Let_def dest!: select_one_Inr sym [of "Inr _"])
qed

lemma event_type_writes_kept:
  "et_OrgID et = org \<Longrightarrow> cfg_kept org d (snd (EventTypeRepo_CreateEventType env et d))"
  "et_OrgID et = org \<Longrightarrow> cfg_kept org d (snd (EventTypeRepo_UpdateEventType env et d))"
  "cfg_kept org d (snd (setDeletedAt org n stamp archived d))"
proof -
  have w: "cfg_kept org d (snd (affected none ctx (write_types stmt d)))"
    if "\<And>d0 n rows. stmt d0 (db_types d) = Inr (n, rows) \<Longrightarrow> filter (\<lambda>t. et_OrgID t \<noteq> org) rows = other_types org d" for none ctx stmt
  proof -
    obtain x d' where x: "write_types stmt d = (x, d')" by fastforce
    from write_types_kept [OF this that] show ?thesis by (cases x) (auto simp: affected_def x)
  qed
  show "et_OrgID et = org \<Longrightarrow> cfg_kept org d (snd (EventTypeRepo_CreateEventType env et d))" unfolding EventTypeRepo_CreateEventType_def
    by (intro w) (auto simp: upsert_type_def Let_def update_where_Inr insert_row_Inr other_types_def split: if_splits intro!: filter_update)
  show "et_OrgID et = org \<Longrightarrow> cfg_kept org d (snd (EventTypeRepo_UpdateEventType env et d))" unfolding EventTypeRepo_UpdateEventType_def
    by (intro w) (auto simp: update_where_Inr other_types_def intro!: filter_update)
  show "cfg_kept org d (snd (setDeletedAt org n stamp archived d))" unfolding setDeletedAt_def
    by (intro w) (auto simp: update_where_Inr other_types_def intro!: filter_update)
qed

lemma event_type_ops_kept:
  "ct_OrgID inp = org \<Longrightarrow> cfg_kept org d (snd (CreateEventType v inp d))"
  "cfg_kept org d (snd (GetEventType v org n d))"
  "cfg_kept org d (snd (UpdateEventType v org n desc schemas d))"
  "cfg_kept org d (snd (ArchiveEventType v org n d))"
  "cfg_kept org d (snd (ListEventTypes v org inc page d))"
proof -
  show "ct_OrgID inp = org \<Longrightarrow> cfg_kept org d (snd (CreateEventType v inp d))"
    by (auto simp: CreateEventType_def Let_def intro!: kept_by_call event_type_writes_kept split: option.splits)
  show "cfg_kept org d (snd (GetEventType v org n d))" using GetEventType_found(1) [of v org n d] by (cases "GetEventType v org n d") auto
  obtain res d1 where g: "GetEventType v org n d = (res, d1)" by fastforce
  from GetEventType_found(1) [OF g] obtain fs where d1: "d1 = d\<lparr>db_faults := fs\<rparr>" by blast
  have "cfg_kept org d (snd (EventTypeRepo_UpdateEventType env et d1))" if "et_OrgID et = org" for env et
    using event_type_writes_kept(2) [OF that, of d1 env] by (simp add: d1)
  then show "cfg_kept org d (snd (UpdateEventType v org n desc schemas d))"
    using GetEventType_found(2) [OF g] by (cases res) (auto simp: UpdateEventType_def uc_bind_def g d1 Let_def intro!: kept_by_call)
  show "cfg_kept org d (snd (ArchiveEventType v org n d))"
    by (auto simp: ArchiveEventType_def EventTypeRepo_ArchiveEventType_def intro!: kept_by_call event_type_writes_kept(3))
  show "cfg_kept org d (snd (ListEventTypes v org inc page d))"
    unfolding ListEventTypes_def internal_page_def EventTypeRepo_GetEventTypes_def
    by (auto split: prod.splits sum.splits dest!: query_kept)
qed

lemma endpoint_ops_kept:
  assumes "within_app a d r" and "app_ids_ok d" and "has_app org a d"
  shows "cfg_kept org d (snd r)"
  using assms by (auto simp: within_app_def intro: only_app_kept)

section \<open>Resolution stays in the tenant\<close>

lemma resolve_tenant:
  assumes "resolve env r org x d = (Inr ref, n, d')" and "from_rows d r"
  shows "ref_OrgID ref = org \<and> has_app org (ref_ID ref) d"
proof (cases "case rs_snapshot r of None \<Rightarrow> None | Some s \<Rightarrow> ResolveApp s org x")
  case (Some app)
  then obtain s where s: "rs_snapshot r = Some s" "ResolveApp s org x = Some app" by (auto split: option.splits)
  from assms(2) s(1) obtain aead_open um sealer t now data where b: "s = fst (BuildSnapshot aead_open um sealer t now data)"
      and rows: "\<forall>app\<in>set (sd_Applications data). CHR 0x00 \<notin> set (app_OrgID app) \<and> (\<forall>uid. app_UID app = Some uid \<longrightarrow> CHR 0x00 \<notin> set uid) \<and>
        has_app (app_OrgID app) (app_ID app) d" unfolding from_rows_def by metis
  obtain problems where "BuildSnapshot aead_open um sealer t now data = (s, problems)" using b by (metis prod.collapse)
  from ResolveApp_in_tenant [OF _ this s(2)] rows have "app_OrgID (ca_App app) = org" "has_app org (app_ID (ca_App app)) d" by auto
  with assms(1) s show ?thesis by (auto simp: resolve_def split: if_splits)
next
  case None
  obtain r1 d1 where db: "(case app_by_id env org x d of (Inl ErrNotFound, d) \<Rightarrow> app_by_uid env org x d | other \<Rightarrow> other) = (r1, d1)" by fastforce
  obtain app where "r1 = Inr app" "ref = \<lparr>ref_ID = app_ID app, ref_OrgID = app_OrgID app\<rparr>"
    using assms(1) None db by (auto simp: resolve_def split: if_splits sum.splits repo_error.splits)
  with resolve_fallback(2) [OF db] show ?thesis by (auto simp: live_app_def has_app_def)
qed

lemma resolves_in_tenant: "from_rows d r \<Longrightarrow> resolves_in env r org x d (\<lambda>o' _. o' = org)"
  by (auto simp: resolves_in_def dest: resolve_tenant)

lemma admin_ops_kept:
  assumes "ids_ok d" and "app_ids_ok d" and "from_rows d r" and "pa_OrgID inp = org"
  shows "cfg_kept org d (snd (MoveEndpointPool v r inp d))" and "cfg_kept org d (snd (ReEnableEndpoint v r inp d))"
proof -
  have look: "cfg_kept org d (snd (with_endpoint v r inp f d))"
    if f: "\<And>app ep d'. cfg_kept org d d' \<Longrightarrow> app_ids_ok d' \<Longrightarrow> ids_ok d' \<Longrightarrow> has_app org (ref_ID app) d' \<Longrightarrow> owned (ep_ID ep) (ref_ID app) d' \<Longrightarrow> cfg_kept org d (snd (f app ep d'))" for f
  proof -
    obtain res n d1 where r: "resolve (uc_pg v) r org (pa_AppIDOrUID inp) d = (res, n, d1)" using prod_cases3 by blast
    obtain fs where d1: "d1 = d\<lparr>db_faults := fs\<rparr>" using resolve_frame [OF r] by blast
    show ?thesis
    proof (cases res)
      case (Inr app)
      let ?q = "EndpointRepo_GetEndpoint (uc_pg v) (no_endpoint_filters\<lparr>ef_AppID := Eq (ref_ID app), ef_ID := Eq (pa_EndpointID inp)\<rparr>) d1"
      obtain e d2 where q: "?q = (e, d2)" by fastforce
      note g = ep.get_id [OF q]
      from g obtain fs' where d2: "d2 = d\<lparr>db_faults := fs'\<rparr>" using d1 by auto
      show ?thesis
      proof (cases e)
        case (Inr ep)
        with g d1 obtain row where row: "row \<in> set (db_eps d)" "ep_ID row = ep_ID ep" "ep_AppID row = ref_ID app" by (auto simp: live_ep_def scan_simps)
        have "inj_on ep_ID (set (db_eps d))" using assms(1) ep_keys_id by (auto simp: ids_ok_def distinct_map)
        with row have "owned (ep_ID ep) (ref_ID app) d" unfolding owned_def by (metis inj_onD)
        then have "cfg_kept org d (snd (f app ep d2))" using resolve_tenant [OF r [unfolded \<open>res = Inr app\<close>] assms(3)] assms(1,2) by (intro f) (simp_all add: d2)
        then show ?thesis using r q Inr \<open>res = Inr app\<close> by (simp add: with_endpoint_def assms(4))
      qed (use r q \<open>res = Inr app\<close> d2 in \<open>simp add: with_endpoint_def assms(4)\<close>)
    qed (use r d1 in \<open>simp add: with_endpoint_def assms(4)\<close>)
  qed
  have col: "cfg_kept org d d2 \<and> app_ids_ok d2 \<and> ids_ok d2 \<and> has_app org a d2 \<and> owned i a d2"
    if "updateColumn i c upd d1 = (x, d2)" "cfg_kept org d d1" "app_ids_ok d1" "ids_ok d1" "has_app org a d1" "owned i a d1" "\<And>r. ep_AppID (upd r) = ep_AppID r \<and> ep_ID (upd r) = ep_ID r"
    for i a c upd d1 d2 x
  proof -
    note u = update_statement [OF that(1) [unfolded updateColumn_def], of a]
    have o': "only_app a d1 d2" "owned i a d2" "ids_ok d2" using u that by simp_all
    then show ?thesis using only_app_kept [OF o'(1) that(3,5)] cfg_kept_trans [OF that(2)] that by (auto simp: only_app_def app_ids_ok_def has_app_def)
  qed
  show "cfg_kept org d (snd (MoveEndpointPool v r inp d))" unfolding MoveEndpointPool_def
    by (auto intro!: look simp: EndpointRepo_SetPool_def uc_call_def split: prod.splits option.splits dest!: col)
  show "cfg_kept org d (snd (ReEnableEndpoint v r inp d))" unfolding ReEnableEndpoint_def
    by (auto intro!: look simp: EndpointRepo_SetDisabled_def EndpointRepo_SetFirstFailure_def uc_call_def split: prod.splits option.splits dest!: col)
qed

section \<open>A request leaves the other tenants alone\<close>

interpretation tenant: confined "cfg_kept org" "\<lambda>o' _. o' = org" for org
  by unfold_locales (auto intro: cfg_kept_trans)

definition tenant_spared :: "string \<Rightarrow> api_world \<Rightarrow> 'a handler_result \<Rightarrow> bool" where
  "tenant_spared org w r \<longleftrightarrow> spares (cfg_kept org) (\<lambda>o' _. o' = org) w r"
text \<open>The application a handler looks up itself, by database.\<close>

lemma spares_app:
  assumes "\<And>app fs. has_app org (app_ID app) (hw_cfg w) \<Longrightarrow> app_OrgID app = org \<Longrightarrow> tenant_spared org w (f app (w\<lparr>hw_cfg := (hw_cfg w)\<lparr>db_faults := fs\<rparr>\<rparr>))"
  shows "tenant_spared org w (h_bind (on_cfg (GetApplication v org x) w) f)"
proof -
  obtain res d' where g: "GetApplication v org x (hw_cfg w) = (res, d')" by fastforce
  from GetApplication_found [OF g] assms show ?thesis
    by (cases res) (auto simp: on_cfg_def h_bind_def g tenant_spared_def spares_def world_kept_def)
qed

lemma spares_resolved:
  assumes "hc_principal c = Some p"
    and "\<And>a fs. has_app (pr_OrgID p) a (hw_cfg w) \<Longrightarrow> tenant_spared (pr_OrgID p) w (f a (w\<lparr>hw_cfg := (hw_cfg w)\<lparr>db_faults := fs\<rparr>\<rparr>))"
  shows "tenant_spared (pr_OrgID p) w (h_bind (resolveAppID v c w) f)"
proof -
  have "h_bind (resolveAppID v c w) f = h_bind (on_cfg (GetApplication (he_uc v) (pr_OrgID p) (hc_param c ''app_id'')) w) (\<lambda>app. f (app_ID app))"
    using assms(1) by (auto simp: resolveAppID_def principal_def h_lift_def h_bind_def split: prod.splits sum.splits)
  then show ?thesis using assms(2) by (simp add: spares_app)
qed

text \<open>An operation on an endpoint of that application.\<close>

lemma spares_within:
  assumes "world_ok v w" and "has_app org a (hw_cfg w)"
    and "\<And>d. ids_ok d \<Longrightarrow> within_app a d (f d)"
  shows "tenant_spared org w (on_cfg f (w\<lparr>hw_cfg := (hw_cfg w)\<lparr>db_faults := fs\<rparr>\<rparr>))"
proof -
  let ?d = "(hw_cfg w)\<lparr>db_faults := fs\<rparr>"
  have "within_app a ?d (f ?d)" using assms(1,3) by (simp add: world_ok_def)
  from endpoint_ops_kept [OF this] assms(1,2) have "cfg_kept org (hw_cfg w) (snd (f ?d))" by (simp add: world_ok_def)
  then show ?thesis by (auto simp: on_cfg_def tenant_spared_def spares_def world_kept_def split: prod.splits)
qed

lemma spares_bound: "(\<And>x. r = Inr x \<Longrightarrow> tenant_spared org w (f x (w\<lparr>hw_cfg := d\<rparr>))) \<Longrightarrow> cfg_kept org (hw_cfg w) d \<Longrightarrow> tenant_spared org w (h_lift r f (w\<lparr>hw_cfg := d\<rparr>))"
  by (cases r) (simp_all add: h_lift_def tenant_spared_def spares_def world_kept_def)

lemma endpoint_handlers_spare:
  assumes "world_ok v w" and "hc_principal c = Some p"
  shows "tenant_spared (pr_OrgID p) w (h_CreateEndpoint v c b1 w)" "tenant_spared (pr_OrgID p) w (h_GetEndpoint v c w)" "tenant_spared (pr_OrgID p) w (h_ListEndpoints v c w)"
    "tenant_spared (pr_OrgID p) w (h_UpdateEndpoint v c b2 w)" "tenant_spared (pr_OrgID p) w (h_DeleteEndpoint v c w)" "tenant_spared (pr_OrgID p) w (h_GetSecret v c w)"
    "tenant_spared (pr_OrgID p) w (h_RotateSecret v c b3 w)" "tenant_spared (pr_OrgID p) w (h_GetHeaders v c w)" "tenant_spared (pr_OrgID p) w (h_PatchHeaders v c b4 w)"
  unfolding h_CreateEndpoint_def h_GetEndpoint_def h_ListEndpoints_def h_UpdateEndpoint_def h_DeleteEndpoint_def h_GetSecret_def h_RotateSecret_def
    h_GetHeaders_def h_PatchHeaders_def
  by ((rule tenant.caller(1) [OF assms(2), folded tenant_spared_def] spares_resolved [OF assms(2)] spares_app spares_bound tenant.answer [folded tenant_spared_def] spares_within [OF assms(1)]
      | assumption | erule endpoint_within | simp split: prod.splits)+)

lemma reads_spare:
  assumes "world_ok v w"
  shows "tenant_spared org w (on_messages (MessageUseCase_GetMessage env k r org x m) w)" "lm_OrgID li = org \<Longrightarrow> tenant_spared org w (on_messages (ListMessages env fmt parse r li) w)"
    "tenant_spared org w (on_queue_table (AdminUseCase_QueueStats pools) w)" "tenant_spared org w (on_leases (AdminUseCase_PartitionLeases collate pool) w)"
    "tenant_spared org w (on_cfg (Grant env mint pu org x ttl) w)"
proof -
  show "tenant_spared org w (on_messages (MessageUseCase_GetMessage env k r org x m) w)"
    by (rule tenant.call_messages [folded tenant_spared_def]) (auto simp: MessageUseCase_GetMessage_def MessageRepo_GetMessage_def Let_def split: prod.splits sum.splits dest!: resolve_frame md_query_kept)
  show "lm_OrgID li = org \<Longrightarrow> tenant_spared org w (on_messages (ListMessages env fmt parse r li) w)"
    by (rule tenant.call_messages [folded tenant_spared_def]) (auto simp: ListMessages_def MessageRepo_GetMessages_def Let_def split: prod.splits sum.splits dest!: resolve_frame md_query_kept)
  show "tenant_spared org w (on_queue_table (AdminUseCase_QueueStats pools) w)"
    by (auto simp: on_queue_table_def AdminUseCase_QueueStats_def Stats_def pg_exec_def pg_look_def tenant_spared_def spares_def world_kept_def Let_def
        intro!: msgs_kept_same split: prod.splits sum.splits bool.splits list.splits)
  show "tenant_spared org w (on_leases (AdminUseCase_PartitionLeases collate pool) w)"
    by (auto simp: on_leases_def AdminUseCase_PartitionLeases_def ListPartitionLeases_def ld_query_def ld_exec_def tenant_spared_def spares_def world_kept_def
        split: prod.splits sum.splits list.splits if_splits)
  show "tenant_spared org w (on_cfg (Grant env mint pu org x ttl) w)"
    by (rule tenant.call_cfg [folded tenant_spared_def]) (auto simp: Grant_def Let_def split: prod.splits sum.splits dest!: resolve_frame)
qed

text \<open>Two databases in a row: the message, then its payload.\<close>

lemma message_read_spares:
  assumes "world_ok v w" and "hc_principal c = Some p"
  shows "tenant_spared (pr_OrgID p) w (h_GetMessage v c w)"
proof -
  let ?get = "on_messages (MessageUseCase_GetMessage (uc_pg (he_uc v)) (iu_ksuid (he_ingest v)) (he_messages v) (pr_OrgID p) (hc_param c ''app_id'') (hc_param c ''msg_id'')) w"
  let ?load = "\<lambda>msg (cfg, d). case IngestUseCase_LoadPayload (he_ingest v) (msg_ID msg) (msg_CreatedAt msg) d of (r, d) \<Rightarrow> (r, cfg, d)"
  have load: "tenant_spared org w1 (h_bind (on_messages (?load msg) w1) (\<lambda>payload. JSON 200 (MessageBody (newMessageResponse msg payload))))" for org w1 msg
    by (rule tenant.answer [folded tenant_spared_def], rule tenant.call_messages [folded tenant_spared_def])
      (auto simp: IngestUseCase_LoadPayload_def GetPayload_def split: prod.splits sum.splits dest!: md_query_kept)
  have "tenant_spared (pr_OrgID p) w (h_bind ?get (\<lambda>msg w. h_bind (on_messages (?load msg) w) (\<lambda>payload. JSON 200 (MessageBody (newMessageResponse msg payload)))))"
    by (intro tenant.bind [folded tenant_spared_def] reads_spare(1) [OF assms(1)] load)
  then show ?thesis unfolding h_GetMessage_def by (intro tenant.caller(1) [OF assms(2), folded tenant_spared_def])
qed

lemma handlers_spare:
  assumes "world_ok v w" and "hc_principal c = Some p" and "call \<noteq> CallRescueStuck"
  shows "tenant_spared (pr_OrgID p) w (api_handle v c call w)"
proof -
  have ok: "app_ids_ok (hw_cfg w)" "ids_ok (hw_cfg w)" "pg_inv (md_queue (hw_msgs w))" "from_rows (hw_cfg w) (iu_resolver (he_ingest v))"
      "from_rows (hw_cfg w) (au_resolver (he_attempts v))" "from_rows (hw_cfg w) (he_admin v)" using assms(1) by (simp_all add: world_ok_def)
  note principal = tenant.caller [OF assms(2), folded tenant_spared_def]
  note steps = tenant.lift [of "Bind tags body" for tags body, folded tenant_spared_def] tenant.lift [of "attemptFilters v c", folded tenant_spared_def] tenant.answer [folded tenant_spared_def]
  note calls = tenant.call_cfg [folded tenant_spared_def] tenant.call_messages [folded tenant_spared_def] tenant.call_attempts [folded tenant_spared_def]
  show ?thesis
  proof (cases call)
    case (CallCreateMessage b)
    then show ?thesis using Ingest_kept [OF _ ok(3) resolves_in_tenant [OF ok(4)]]
      by (auto simp: h_CreateMessage_def intro!: principal steps calls) fastforce+
  next
    case CallRescueStuck
    with assms(3) show ?thesis by simp
  qed (use assms(1,2) ok in \<open>simp_all add: endpoint_handlers_spare message_read_spares\<close>,
    (auto simp: h_CreateApplication_def h_GetApplication_def h_UpdateApplication_def h_DeleteApplication_def h_ListApplications_def
       intro!: principal steps calls application_ops_kept)[5],
    (auto simp: h_ListMessages_def intro!: principal steps reads_spare)[1],
    (auto simp: h_Stats_def h_Recover_def h_ListByMessage_def h_ListByEndpoint_def h_ListByMessageAndEndpoint_def AttemptHandler_list_def h_Resend_def h_Replay_def
       intro!: principal steps calls attempt_ops_kept resolves_in_tenant)[7],
    (auto simp: h_PortalAccess_def intro!: principal steps reads_spare)[1],
    (auto simp: h_ListEventTypes_def h_CreateEventType_def h_GetEventType_def h_UpdateEventType_def h_ArchiveEventType_def
       intro!: principal steps calls event_type_ops_kept)[5],
    (auto simp: h_QueueStats_def h_Partitions_def Let_def intro!: principal steps reads_spare)[2],
    (auto simp: h_MovePool_def h_ReEnableEndpoint_def intro!: principal steps calls admin_ops_kept)[2])
qed

text \<open>Without a principal every handler refuses and changes nothing.\<close>

lemma handle_unauthenticated:
  "hc_principal c = None \<Longrightarrow> api_handle v c call w = (Inl (App (NewUnauthorizedError ''authentication required'')), w)"
  by (cases call) (simp_all add: h_CreateApplication_def h_GetApplication_def h_UpdateApplication_def h_DeleteApplication_def h_ListApplications_def
      h_CreateEndpoint_def h_GetEndpoint_def h_ListEndpoints_def h_UpdateEndpoint_def h_DeleteEndpoint_def h_GetSecret_def h_RotateSecret_def
      h_GetHeaders_def h_PatchHeaders_def resolveAppID_def h_CreateMessage_def h_GetMessage_def h_ListMessages_def AttemptHandler_list_def h_ListByMessage_def
      h_ListByEndpoint_def h_ListByMessageAndEndpoint_def h_Resend_def h_Recover_def h_Replay_def h_Stats_def h_CreateEventType_def h_GetEventType_def
      h_UpdateEventType_def h_ArchiveEventType_def h_ListEventTypes_def h_RescueStuck_def h_QueueStats_def h_Partitions_def h_MovePool_def
      h_ReEnableEndpoint_def h_PortalAccess_def principal_def h_orgToken_def orgToken_def h_lift_def h_bind_def)

text \<open>
  C12: one tenant's requests never change another tenant's data. Whatever handler of the API runs, with any path, query and body,
  any clock, and whatever statements of the database fail: with the principal of an organization, every application and
  event type of another organization, every endpoint of its applications, its messages and its queue rows are afterwards
  exactly what they were, and so are the organizations, the delivery log and the leases. The sweep of stuck
  tasks is left out: it unlocks rows of every tenant by design. Tables satisfy their unique keys, and snapshots, where
  applications are resolved, were built from rows that are still there. Without a principal nothing changes at all.
\<close>
theorem api_tenant_isolation:
  assumes "world_ok v w" and "call \<noteq> CallRescueStuck" and "api_handle v c call w = (answer, w')"
  shows "case hc_principal c of
      None \<Rightarrow> w' = w \<and> answer = Inl (App (NewUnauthorizedError ''authentication required''))
    | Some p \<Rightarrow> (let org = pr_OrgID p in
        filter (\<lambda>a. app_OrgID a \<noteq> org) (db_apps (hw_cfg w')) = filter (\<lambda>a. app_OrgID a \<noteq> org) (db_apps (hw_cfg w)) \<and>
        filter (\<lambda>t. et_OrgID t \<noteq> org) (db_types (hw_cfg w')) = filter (\<lambda>t. et_OrgID t \<noteq> org) (db_types (hw_cfg w)) \<and>
        other_eps org (hw_cfg w') = other_eps org (hw_cfg w) \<and> db_orgs (hw_cfg w') = db_orgs (hw_cfg w) \<and>
        filter (\<lambda>m. msg_OrgID m \<noteq> org) (md_msgs (hw_msgs w')) = filter (\<lambda>m. msg_OrgID m \<noteq> org) (md_msgs (hw_msgs w)) \<and>
        (\<forall>i t. task_OrgID t \<noteq> org \<longrightarrow> (pg_look (md_queue (hw_msgs w')) i = Some t \<longleftrightarrow> pg_look (md_queue (hw_msgs w)) i = Some t)) \<and>
        ad_rows (hw_attempts w') = ad_rows (hw_attempts w) \<and> ld_leases (hw_leases w') = ld_leases (hw_leases w))"
proof (cases "hc_principal c")
  case None
  then show ?thesis using handle_unauthenticated [OF None, of v call w] assms(3) by simp
next
  case (Some p)
  have "world_kept (cfg_kept (pr_OrgID p)) (\<lambda>o' _. o' = pr_OrgID p) w w'"
    using handlers_spare [OF assms(1) Some assms(2)] assms(3) by (simp add: tenant_spared_def spares_def)
  then show ?thesis using Some
    by (auto simp: world_kept_def cfg_kept_def msgs_kept_def other_apps_def other_types_def other_messages_def other_tasks_def Let_def set_eq_iff)
qed

section \<open>Two tenants\<close>

definition demo_neighbour :: Application where
  "demo_neighbour = demo_app\<lparr>app_ID := ''app_2'', app_OrgID := ''org_2'', app_UID := None\<rparr>"

definition demo_api :: api_env where
  "demo_api = \<lparr>he_uc = demo_uc, he_ingest = demo_ingest, he_messages = \<lparr>rs_snapshot = Some demo_snapshot, rs_appRepo = True, rs_invalidator = True\<rparr>,
     he_attempts = demo_replay, he_admin = \<lparr>rs_snapshot = Some demo_snapshot, rs_appRepo = True, rs_invalidator = True\<rparr>, he_portal = demo_portal,
     he_issuePortal = IssuePortalToken demo_jwt demo_manager 0, he_pools = [''default''], he_isURL = (\<lambda>_. True), he_parseTime = (\<lambda>_. None),
     he_lowerUnicode = (\<lambda>s. s), he_formatCursor = (\<lambda>_. []), he_parseCursor = (\<lambda>_. None), he_collate = (\<lambda>_. 0)\<rparr>"

definition demo_api_world :: api_world where
  "demo_api_world = \<lparr>hw_cfg = demo_tenant\<lparr>db_apps := [demo_app, demo_neighbour]\<rparr>, hw_msgs = demo_mdb, hw_attempts = demo_adb, hw_leases = demo_ldb\<rparr>"

definition demo_ctx :: "string \<Rightarrow> string \<Rightarrow> http_ctx" where
  "demo_ctx org a = \<lparr>hc_principal = Some \<lparr>pr_OrgID = org, pr_AppID = [], pr_Portal = False\<rparr>, hc_param = (\<lambda>n. if n = ''app_id'' then a else ''ep_2''),
     hc_query = (\<lambda>_. []), hc_queryAll = (\<lambda>_. [])\<rparr>"

lemma demo_world_ok: "world_ok demo_api demo_api_world"
proof -
  have "ids_ok (hw_cfg demo_api_world)" "app_ids_ok (hw_cfg demo_api_world)" unfolding ids_ok_def app_ids_ok_def by code_simp+
  moreover have "from_rows (hw_cfg demo_api_world) \<lparr>rs_snapshot = Some demo_snapshot, rs_appRepo = True, rs_invalidator = True\<rparr>"
    unfolding from_rows_def
    by (auto simp: demo_snapshot_def intro!: exI [of _ "\<lambda>k n c. Some c"] exI [of _ "\<lambda>_. None"] exI [of _ "\<lparr>sl_keys = [replicate 32 7]\<rparr>"] exI [of _ 5] exI [of _ demo_data])
      (auto simp: demo_data_def demo_app_def demo_api_world_def has_app_def)
  ultimately show ?thesis using demo_mdb_inv
    by (simp add: world_ok_def demo_api_def demo_api_world_def demo_ingest_def demo_replay_def NewAttemptUseCase_def demo_portal_def NewPortalUseCase_def from_rows_def)
qed

text \<open>The neighbour deletes its own application; the first tenant's application stays.\<close>

theorem api_tenant_isolation_witness:
  "resp_Status (projr (fst (api_handle demo_api (demo_ctx ''org_2'' ''app_2'') CallDeleteApplication demo_api_world))) = 204 \<and>
   filter (\<lambda>a. app_OrgID a \<noteq> ''org_2'') (db_apps (hw_cfg (snd (api_handle demo_api (demo_ctx ''org_2'' ''app_2'') CallDeleteApplication demo_api_world)))) = [demo_app]"
proof -
  have "resp_Status (projr (fst (api_handle demo_api (demo_ctx ''org_2'' ''app_2'') CallDeleteApplication demo_api_world))) = 204" by code_simp
  moreover have "filter (\<lambda>a. app_OrgID a \<noteq> ''org_2'') (db_apps (hw_cfg demo_api_world)) = [demo_app]" by code_simp
  ultimately show ?thesis
    using api_tenant_isolation [OF demo_world_ok _ prod.collapse [symmetric], of CallDeleteApplication "demo_ctx ''org_2'' ''app_2''"]
    by (simp add: demo_ctx_def Let_def)
qed

end
