(* ===== verification/Portal_UI.thy ===== *)
theory Portal_UI
  imports Tenant_Isolation
begin

text \<open>
  The embedded portal (\<^verbatim>\<open>portal/handler.go\<close>, \<^verbatim>\<open>stream.go\<close>): pages and form posts of a viewer whose session names one application. The
  rendering of a page by its template, and the local text of a time, are parameters; a page is the data the template is
  given. A form value is the first of the values posted under its name.
\<close>

section \<open>Sessions, forms and pages\<close>

record session =
  se_OrgID :: string
  se_AppID :: string

record portal_ctx = http_ctx +
  pc_form :: "string \<Rightarrow> string list"

definition FormValue :: "portal_ctx \<Rightarrow> string \<Rightarrow> string" where
  "FormValue c name = (case pc_form c name of [] \<Rightarrow> [] | x # _ \<Rightarrow> x)"

record endpointRow =
  rw_ID :: string
  rw_URL :: string
  rw_Description :: string
  rw_EventTypes :: "string list"
  rw_Disabled :: bool
  rw_Selected :: bool

record eventTypeOption =
  eo_Name :: string
  eo_Description :: string
  eo_Selected :: bool

record attemptRow =
  lr_MsgID :: string
  lr_When :: string
  lr_StatusText :: string
  lr_StatusClass :: string
  lr_ResponseCode :: int
  lr_Response :: bytes
  lr_DurationMS :: int
  lr_Attempt :: int

datatype page_data =
    EndpointsData "endpointRow list" "eventTypeOption list" nat
  | EndpointData endpointRow AttemptStats "attemptRow list" "eventTypeOption list" nat string string string string "string option"
  | LogData "endpointRow list" "attemptRow list" string string string endpointRow
  | TailData

record page_view =
  vw_Title :: string
  vw_Flash :: string
  vw_FlashKind :: string
  vw_Data :: page_data

datatype portal_answer = Html string | SeeOther string | SignedOut string

record portal_env =
  pv_api :: api_env
  pv_now :: time
  pv_render :: "page_view \<Rightarrow> string option"
  pv_localTime :: "time \<Rightarrow> string"

definition portal_session :: "portal_ctx \<Rightarrow> handler_error + session" where
  "portal_session c = map_sum App (\<lambda>(org, app). \<lparr>se_OrgID = org, se_AppID = app\<rparr>) (sessionFrom (hc_principal c))"

definition render :: "portal_env \<Rightarrow> page_view \<Rightarrow> api_world \<Rightarrow> portal_answer handler_result" where
  "render v view w = (case pv_render v view of
      None \<Rightarrow> (Inl (App (NewInternalError ''render portal page'')), w)
    | Some text \<Rightarrow> (Inr (Html text), w))"

definition withFlash :: "string \<Rightarrow> string \<Rightarrow> string \<Rightarrow> string" where
  "withFlash target message kind =
    (let separator = (if CHR ''?'' \<in> set target then ''&'' else ''?'') in
     target @ separator @ ''flash='' @ QueryEscape message @ (if kind \<noteq> [] then ''&flashKind='' @ kind else []))"

definition redirect :: "string \<Rightarrow> string \<Rightarrow> api_world \<Rightarrow> portal_answer handler_result" where
  "redirect target message w = (Inr (SeeOther (withFlash target message ''ok'')), w)"

definition redirectWithError :: "string \<Rightarrow> handler_error \<Rightarrow> api_world \<Rightarrow> portal_answer handler_result" where
  "redirectWithError target err w = (Inr (SeeOther (withFlash target
     (case err of
        App e \<Rightarrow> if ae_Kind e \<noteq> KindInternal then ae_Message e else ''Something went wrong. Please try again.''
      | _ \<Rightarrow> ''Something went wrong. Please try again.'') ''bad'')), w)"

text \<open>A form post: what failed is shown on the page the viewer came from.\<close>

definition or_redirect :: "string \<Rightarrow> 'a handler_result \<Rightarrow> ('a \<Rightarrow> api_world \<Rightarrow> portal_answer handler_result) \<Rightarrow> portal_answer handler_result" where
  "or_redirect target r f = (case r of (Inl e, w) \<Rightarrow> redirectWithError target e w | (Inr x, w) \<Rightarrow> f x w)"

definition flashKind :: "portal_ctx \<Rightarrow> string" where
  "flashKind c = (if hc_query c ''flashKind'' = ''bad'' then ''bad'' else ''ok'')"

definition statusText :: "AttemptStatus \<Rightarrow> string" where
  "statusText st = (case st of AttemptSucceeded \<Rightarrow> ''delivered'' | AttemptPendingRetry \<Rightarrow> ''pending retry'' | AttemptFailed \<Rightarrow> ''failed'')"

definition portal_statusClass :: "AttemptStatus \<Rightarrow> string" where
  "portal_statusClass st = (case st of AttemptSucceeded \<Rightarrow> ''ok'' | AttemptPendingRetry \<Rightarrow> ''warn'' | AttemptFailed \<Rightarrow> ''bad'')"

definition parseStatus :: "(string \<Rightarrow> string) \<Rightarrow> string \<Rightarrow> handler_error + AttemptStatus" where
  "parseStatus low raw = (let s = ToLower low (TrimSpace raw) in
     if s = ''success'' then Inr AttemptSucceeded
     else if s = ''pending'' then Inr AttemptPendingRetry
     else if s = ''fail'' then Inr AttemptFailed
     else Inl (App (NewValidationError ''unknown status filter'')))"

fun split_commas :: "string \<Rightarrow> string list" where
  "split_commas [] = [[]]"
| "split_commas (c # cs) = (if c = CHR '','' then [] # split_commas cs else case split_commas cs of [] \<Rightarrow> [[c]] | x # xs \<Rightarrow> (c # x) # xs)"

definition formEventTypes :: "portal_ctx \<Rightarrow> string list" where
  "formEventTypes c =
    (let values = pc_form c ''eventTypes'';
         values = (case values of [v] \<Rightarrow> if CHR '','' \<in> set v then split_commas v else values | _ \<Rightarrow> values) in
     filter (\<lambda>v. v \<noteq> []) (map TrimSpace values))"

definition samplePayload :: string where
  "samplePayload = (let q = [CHR 0x22]; nl = [CHR 0x0A] in
     ''{'' @ nl @ ''  '' @ q @ ''hello'' @ q @ '': '' @ q @ ''world'' @ q @ '','' @ nl @ ''  '' @ q @ ''sentFrom'' @ q @ '': '' @ q @ ''the portal'' @ q @ nl @ ''}'')"

section \<open>Reading for a page\<close>

definition endpoint_row_data :: "string \<Rightarrow> Endpoint \<Rightarrow> endpointRow" where
  "endpoint_row_data selected ep = \<lparr>rw_ID = ep_ID ep, rw_URL = ep_URL ep, rw_Description = ep_Description ep, rw_EventTypes = ep_EventTypes ep,
     rw_Disabled = Disabled ep, rw_Selected = (ep_ID ep = selected)\<rparr>"

definition endpointRows :: "portal_env \<Rightarrow> session \<Rightarrow> string \<Rightarrow> api_world \<Rightarrow> endpointRow list handler_result" where
  "endpointRows v s selected w = h_bind (on_cfg (ListEndpoints (he_uc (pv_api v)) (se_AppID s) \<lparr>cp_Cursor = [], cp_Limit = MaxPageSize\<rparr>) w)
     (\<lambda>r w. (Inr (map (endpoint_row_data selected) (cres_Items r)), w))"

definition attempt_row_data :: "portal_env \<Rightarrow> DeliveryAttempt \<Rightarrow> attemptRow" where
  "attempt_row_data v a = \<lparr>lr_MsgID = att_MsgID a, lr_When = pv_localTime v (att_CreatedAt a), lr_StatusText = statusText (att_Status a),
     lr_StatusClass = portal_statusClass (att_Status a), lr_ResponseCode = att_ResponseStatusCode a, lr_Response = Truncate (att_ResponseBody a) 160,
     lr_DurationMS = att_ResponseDurationMS a, lr_Attempt = att_AttemptNumber a\<rparr>"

definition attemptRows :: "portal_env \<Rightarrow> session \<Rightarrow> string \<Rightarrow> string \<Rightarrow> string \<Rightarrow> api_world \<Rightarrow> (attemptRow list \<times> string) handler_result" where
  "attemptRows v s endpointID status cursor =
    h_lift (if status = [] then Inr None else map_sum id Some (parseStatus (he_lowerUnicode (pv_api v)) status)) (\<lambda>st w.
      h_bind (on_attempts (ListAttempts (he_formatCursor (pv_api v)) (he_parseCursor (pv_api v)) (he_attempts (pv_api v))
          \<lparr>la_OrgID = se_OrgID s, la_AppIDOrUID = se_AppID s, la_MsgID = [], la_EndpointID = endpointID,
           la_Filters = \<lparr>fi_Status = st, fi_StatusCodeClass = None, fi_EventTypes = [], fi_Channel = None, fi_Before = None, fi_After = None\<rparr>,
           la_Page = \<lparr>cp_Cursor = cursor, cp_Limit = 25\<rparr>\<rparr>) w)
        (\<lambda>r w. (Inr (map (attempt_row_data v) (cres_Items r), Deref (cres_NextCursor r) []), w)))"

definition eventTypeOptions :: "portal_env \<Rightarrow> session \<Rightarrow> string list \<Rightarrow> api_world \<Rightarrow> eventTypeOption list handler_result" where
  "eventTypeOptions v s selected w = h_bind (on_cfg (ListEventTypes (he_uc (pv_api v)) (se_OrgID s) False \<lparr>cp_Cursor = [], cp_Limit = MaxPageSize\<rparr>) w)
     (\<lambda>r w. (Inr (map (\<lambda>et. \<lparr>eo_Name = et_Name et, eo_Description = et_Description et, eo_Selected = et_Name et \<in> set selected\<rparr>) (cres_Items r)), w))"

section \<open>Pages\<close>

definition p_Endpoints :: "portal_env \<Rightarrow> portal_ctx \<Rightarrow> api_world \<Rightarrow> portal_answer handler_result" where
  "p_Endpoints v c = h_lift (portal_session c) (\<lambda>s w.
     h_bind (endpointRows v s [] w) (\<lambda>endpoints w.
     h_bind (eventTypeOptions v s [] w) (\<lambda>options.
       render v \<lparr>vw_Title = ''Endpoints'', vw_Flash = hc_query c ''flash'', vw_FlashKind = flashKind c,
         vw_Data = EndpointsData endpoints options (min (length options) 8)\<rparr>)))"

definition endpoint_page :: "string \<Rightarrow> string" where
  "endpoint_page endpointID = ''/portal/endpoints/'' @ endpointID"

definition join_comma :: "string list \<Rightarrow> string" where
  "join_comma xs = (case xs of [] \<Rightarrow> [] | x # rest \<Rightarrow> x @ concat (map (\<lambda>y. '', '' @ y) rest))"

text \<open>The secret is read only when the viewer asked for it.\<close>

definition page_secret :: "portal_env \<Rightarrow> portal_ctx \<Rightarrow> session \<Rightarrow> string \<Rightarrow> api_world \<Rightarrow> string option handler_result" where
  "page_secret v c s endpointID w =
    (if hc_query c ''secret'' = ''1'' then
       h_bind (on_cfg (RevealSecret (he_uc (pv_api v)) (se_AppID s) endpointID) w) (\<lambda>secret w. (Inr (Some secret), w))
     else (Inr None, w))"

definition p_Endpoint :: "portal_env \<Rightarrow> portal_ctx \<Rightarrow> api_world \<Rightarrow> portal_answer handler_result" where
  "p_Endpoint v c = h_lift (portal_session c) (\<lambda>s w.
     h_bind (on_cfg (GetEndpoint (he_uc (pv_api v)) (se_AppID s) (hc_param c ''endpoint_id'')) w) (\<lambda>ep w.
     h_bind (on_attempts (AttemptUseCase_Stats (he_attempts (pv_api v)) (se_OrgID s) (se_AppID s) (ep_ID ep) None) w) (\<lambda>stats w.
     h_bind (attemptRows v s (ep_ID ep) [] (hc_query c ''cursor'') w) (\<lambda>(attempts, next) w.
     h_bind (eventTypeOptions v s (ep_EventTypes ep) w) (\<lambda>options w.
     h_bind (page_secret v c s (ep_ID ep) w) (\<lambda>secret.
       render v \<lparr>vw_Title = ''Endpoint'', vw_Flash = hc_query c ''flash'', vw_FlashKind = flashKind c,
         vw_Data = EndpointData ((endpoint_row_data [] ep)\<lparr>rw_Selected := False\<rparr>) stats attempts options (min (length options) 8)
           (join_comma (ep_EventTypes ep)) samplePayload next (endpoint_page (ep_ID ep) @ ''?cursor='' @ next) secret\<rparr>))))))"

definition p_Log :: "portal_env \<Rightarrow> portal_ctx \<Rightarrow> api_world \<Rightarrow> portal_answer handler_result" where
  "p_Log v c = h_lift (portal_session c) (\<lambda>s w.
     let endpointID = hc_query c ''endpointId''; status = hc_query c ''status'' in
     h_bind (endpointRows v s endpointID w) (\<lambda>endpoints w.
     h_bind (attemptRows v s endpointID status (hc_query c ''cursor'') w) (\<lambda>(attempts, next).
       let nextURL = ''/portal/log?cursor='' @ next @ (if endpointID \<noteq> [] then ''&endpointId='' @ endpointID else []) @ (if status \<noteq> [] then ''&status='' @ status else []) in
       render v \<lparr>vw_Title = ''Delivery log'', vw_Flash = hc_query c ''flash'', vw_FlashKind = flashKind c,
         vw_Data = LogData endpoints attempts status next nextURL
           \<lparr>rw_ID = endpointID, rw_URL = [], rw_Description = [], rw_EventTypes = [], rw_Disabled = False, rw_Selected = False\<rparr>\<rparr>)))"

definition p_Tail :: "portal_env \<Rightarrow> portal_ctx \<Rightarrow> api_world \<Rightarrow> portal_answer handler_result" where
  "p_Tail v c = h_lift (portal_session c) (\<lambda>_. render v \<lparr>vw_Title = ''Live tail'', vw_Flash = [], vw_FlashKind = [], vw_Data = TailData\<rparr>)"

definition p_SignOut :: "api_world \<Rightarrow> portal_answer handler_result" where
  "p_SignOut w = (Inr (SignedOut ''/portal''), w)"

section \<open>Form posts\<close>

definition p_CreateEndpoint :: "portal_env \<Rightarrow> portal_ctx \<Rightarrow> api_world \<Rightarrow> portal_answer handler_result" where
  "p_CreateEndpoint v c = h_lift (portal_session c) (\<lambda>s w.
     or_redirect ''/portal'' (on_cfg (CreateEndpoint (he_uc (pv_api v)) \<lparr>ce_OrgID = se_OrgID s, ce_AppID = se_AppID s, ce_URL = TrimSpace (FormValue c ''url''),
         ce_Description = TrimSpace (FormValue c ''description''), ce_UID = None, ce_Version = None, ce_RateLimit = None, ce_EventTypes = formEventTypes c,
         ce_Channels = [], ce_Headers = [], ce_Secret = [], ce_SecretType = None, ce_Pool = []\<rparr>) w)
       (\<lambda>_. redirect ''/portal'' ''Endpoint added. It will start receiving matching events immediately.''))"

definition p_UpdateEndpoint :: "portal_env \<Rightarrow> portal_ctx \<Rightarrow> api_world \<Rightarrow> portal_answer handler_result" where
  "p_UpdateEndpoint v c = h_lift (portal_session c) (\<lambda>s w.
     let endpointID = hc_param c ''endpoint_id''; target = endpoint_page endpointID; action = FormValue c ''action''; eventTypes = formEventTypes c in
     if action = ''disable'' then
       or_redirect target (on_cfg (Endpoint_UseCase.SetDisabled (he_uc (pv_api v)) (se_AppID s) endpointID True) w)
         (\<lambda>_. redirect target ''Endpoint disabled. Nothing will be delivered to it until you enable it again.'')
     else if action = ''enable'' then
       or_redirect target (on_cfg (Endpoint_UseCase.SetDisabled (he_uc (pv_api v)) (se_AppID s) endpointID False) w) (\<lambda>_. redirect target ''Endpoint enabled.'')
     else
       or_redirect target (on_cfg (UpdateEndpoint (he_uc (pv_api v)) (se_AppID s) endpointID
           \<lparr>ue_URL = Some (TrimSpace (FormValue c ''url'')), ue_Description = Some (TrimSpace (FormValue c ''description'')), ue_UID = None, ue_Version = None,
            ue_RateLimit = None, ue_EventTypes = Some eventTypes, ue_Channels = None, ue_Disabled = None, ue_ClearEventTypes = (eventTypes = []), ue_ClearChannels = False\<rparr>) w)
         (\<lambda>_. redirect target ''Saved.''))"

definition p_DeleteEndpoint :: "portal_env \<Rightarrow> portal_ctx \<Rightarrow> api_world \<Rightarrow> portal_answer handler_result" where
  "p_DeleteEndpoint v c = h_lift (portal_session c) (\<lambda>s w.
     or_redirect ''/portal'' (on_cfg (DeleteEndpoint (he_uc (pv_api v)) (se_AppID s) (hc_param c ''endpoint_id'')) w) (\<lambda>_. redirect ''/portal'' ''Endpoint deleted.''))"

definition p_Secret :: "portal_env \<Rightarrow> portal_ctx \<Rightarrow> api_world \<Rightarrow> portal_answer handler_result" where
  "p_Secret v c = h_lift (portal_session c) (\<lambda>s w.
     let target = endpoint_page (hc_param c ''endpoint_id'') in
     h_bind (on_cfg (GetEndpoint (he_uc (pv_api v)) (se_AppID s) (hc_param c ''endpoint_id'')) w) (\<lambda>ep w.
       if FormValue c ''action'' = ''rotate'' then
         or_redirect target (on_cfg (RotateSecret (he_uc (pv_api v)) (se_AppID s) (ep_ID ep) []) w)
           (\<lambda>_. redirect (target @ ''?secret=1'') ''Secret rotated. The previous secret keeps working for 24 hours.'')
       else (Inr (SeeOther (target @ ''?secret=1'')), w)))"

definition p_TestEvent :: "portal_env \<Rightarrow> portal_ctx \<Rightarrow> api_world \<Rightarrow> portal_answer handler_result" where
  "p_TestEvent v c = h_lift (portal_session c) (\<lambda>s w.
     let target = endpoint_page (hc_param c ''endpoint_id''); posted = TrimSpace (FormValue c ''payload''); payload = (if posted = [] then samplePayload else posted);
         eventType = TrimSpace (FormValue c ''eventType'') in
     h_bind (on_cfg (GetEndpoint (he_uc (pv_api v)) (se_AppID s) (hc_param c ''endpoint_id'')) w) (\<lambda>_ w.
       if \<not> uc_validJSON (he_uc (pv_api v)) (bytes_of payload) then redirectWithError target (App (NewValidationError ''the payload must be valid JSON'')) w
       else or_redirect target (on_messages (Ingest (he_ingest (pv_api v)) \<lparr>ii_OrgID = se_OrgID s, ii_AppIDOrUID = se_AppID s,
           ii_EventType = (if eventType = [] then ''test.event'' else eventType), ii_EventID = None, ii_Payload = bytes_of payload, ii_Channels = [], ii_RetentionDays = None\<rparr>) w)
         (\<lambda>_. redirect target ''Test event sent. Watch the live tail or refresh in a moment.'')))"

definition p_Resend :: "portal_env \<Rightarrow> portal_ctx \<Rightarrow> api_world \<Rightarrow> portal_answer handler_result" where
  "p_Resend v c = h_lift (portal_session c) (\<lambda>s w.
     let target = endpoint_page (hc_param c ''endpoint_id'') in
     or_redirect target (on_attempts (Resend (he_attempts (pv_api v)) (se_OrgID s) (se_AppID s) (TrimSpace (FormValue c ''msgId'')) (hc_param c ''endpoint_id'')) w)
       (\<lambda>_. redirect target ''Queued for redelivery.''))"

definition recover_hours :: "string \<Rightarrow> int" where
  "recover_hours raw = (case Atoi raw of None \<Rightarrow> 24 | Some n \<Rightarrow> if n \<le> 0 \<or> n > 24 * 30 then 24 else n)"

definition p_Recover :: "portal_env \<Rightarrow> portal_ctx \<Rightarrow> api_world \<Rightarrow> portal_answer handler_result" where
  "p_Recover v c = h_lift (portal_session c) (\<lambda>s w.
     let target = endpoint_page (hc_param c ''endpoint_id'') in
     or_redirect target (on_attempts (Recover (he_attempts (pv_api v)) \<lparr>ri_OrgID = se_OrgID s, ri_AppIDOrUID = se_AppID s, ri_EndpointID = hc_param c ''endpoint_id'',
         ri_Since = pv_now v - recover_hours (FormValue c ''hours'') * Hour, ri_Until = None\<rparr>) w)
       (\<lambda>r. redirect target
          ((if rr_Enqueued r > 0 then ''Queued '' @ FormatInt (int (rr_Enqueued r)) @ '' deliveries for replay.''
            else ''Nothing needed replaying. Deliveries that are still retrying will be attempted again on their own.'') @
           (if rr_Truncated r then '' More remain; run it again to continue.'' else []))))"

section \<open>The live tail\<close>

record streamAttempt =
  sa_ID :: string
  sa_Timestamp :: time
  sa_MsgID :: string
  sa_EndpointID :: string
  sa_Status :: int
  sa_StatusText :: string
  sa_ResponseStatusCode :: int
  sa_ResponseDurationMS :: int
  sa_AttemptNumber :: int

definition jsonEvent :: "(streamAttempt \<Rightarrow> bytes option) \<Rightarrow> DeliveryAttempt \<Rightarrow> bytes option" where
  "jsonEvent marshal a = marshal \<lparr>sa_ID = att_ID a, sa_Timestamp = att_CreatedAt a, sa_MsgID = att_MsgID a, sa_EndpointID = att_EndpointID a,
     sa_Status = status_int16 (att_Status a), sa_StatusText = statusText (att_Status a), sa_ResponseStatusCode = att_ResponseStatusCode a,
     sa_ResponseDurationMS = att_ResponseDurationMS a, sa_AttemptNumber = att_AttemptNumber a\<rparr>"

definition p_Stream ::
  "portal_env \<Rightarrow> portal_ctx \<Rightarrow> (streamAttempt \<Rightarrow> bytes option) \<Rightarrow> time \<Rightarrow> nat \<Rightarrow> attempt_state stream_event list \<Rightarrow> handler_error + stream" where
  "p_Stream v c marshal now left evs = (case portal_session c of
      Inl e \<Rightarrow> Inl e
    | Inr s \<Rightarrow> Inr (stream_Serve (ListAttempts (he_formatCursor (pv_api v)) (he_parseCursor (pv_api v)) (he_attempts (pv_api v))) (jsonEvent marshal)
        \<lparr>la_OrgID = se_OrgID s, la_AppIDOrUID = se_AppID s, la_MsgID = [], la_EndpointID = hc_query c ''endpointId'',
         la_Filters = \<lparr>fi_Status = None, fi_StatusCodeClass = None, fi_EventTypes = [], fi_Channel = None, fi_Before = None, fi_After = None\<rparr>,
         la_Page = \<lparr>cp_Cursor = [], cp_Limit = 50\<rparr>\<rparr> now left evs))"

section \<open>The routes of the portal\<close>

datatype portal_call = GetEndpoints | GetLog | GetTail | PostSignOut | PostEndpoints | GetEndpointPage | PostEndpoint | PostDelete | PostSecret
  | PostTest | PostResend | PostRecover

fun portal_handle :: "portal_env \<Rightarrow> portal_ctx \<Rightarrow> portal_call \<Rightarrow> api_world \<Rightarrow> portal_answer handler_result" where
  "portal_handle v c GetEndpoints = p_Endpoints v c"
| "portal_handle v c GetLog = p_Log v c"
| "portal_handle v c GetTail = p_Tail v c"
| "portal_handle v c PostSignOut = p_SignOut"
| "portal_handle v c PostEndpoints = p_CreateEndpoint v c"
| "portal_handle v c GetEndpointPage = p_Endpoint v c"
| "portal_handle v c PostEndpoint = p_UpdateEndpoint v c"
| "portal_handle v c PostDelete = p_DeleteEndpoint v c"
| "portal_handle v c PostSecret = p_Secret v c"
| "portal_handle v c PostTest = p_TestEvent v c"
| "portal_handle v c PostResend = p_Resend v c"
| "portal_handle v c PostRecover = p_Recover v c"

section \<open>A session stays in its application\<close>

definition app_cfg :: "string \<Rightarrow> cfgdb \<Rightarrow> cfgdb \<Rightarrow> bool" where
  "app_cfg a d d' \<longleftrightarrow> only_app a d d' \<and> (ids_ok d \<longrightarrow> ids_ok d')"

interpretation viewer: confined "app_cfg a" "\<lambda>_ x. x = a" for a
  by unfold_locales (auto simp: app_cfg_def intro: only_app_trans)

definition app_spared :: "string \<Rightarrow> api_world \<Rightarrow> 'a handler_result \<Rightarrow> bool" where
  "app_spared a w r \<longleftrightarrow> spares (app_cfg a) (\<lambda>_ x. x = a) w r"

text \<open>No application has the id of this one for a uid, in the table or in the snapshots.\<close>

definition uid_free :: "string \<Rightarrow> Application list \<Rightarrow> appResolver \<Rightarrow> bool" where
  "uid_free a apps r \<longleftrightarrow> (\<forall>app\<in>set apps. app_UID app \<noteq> Some a) \<and> (\<forall>s. rs_snapshot r = Some s \<longrightarrow>
     (\<exists>aead_open um sealer t now data. s = fst (BuildSnapshot aead_open um sealer t now data) \<and>
       (\<forall>app\<in>set (sd_Applications data). CHR 0x00 \<notin> set (app_OrgID app) \<and> (\<forall>uid. app_UID app = Some uid \<longrightarrow> CHR 0x00 \<notin> set uid \<and> uid \<noteq> a))))"

definition portal_ok :: "portal_env \<Rightarrow> string \<Rightarrow> api_world \<Rightarrow> bool" where
  "portal_ok v a w \<longleftrightarrow> ids_ok (hw_cfg w) \<and> pg_inv (md_queue (hw_msgs w)) \<and>
     uid_free a (db_apps (hw_cfg w)) (iu_resolver (he_ingest (pv_api v))) \<and> uid_free a (db_apps (hw_cfg w)) (au_resolver (he_attempts (pv_api v)))"

lemma resolves_own:
  assumes "uid_free a (db_apps d) r"
  shows "resolves_in env r org a d (\<lambda>_ x. x = a)"
  unfolding resolves_in_def
proof (intro allI impI)
  fix ref n d' assume res: "resolve env r org a d = (Inr ref, n, d')"
  show "ref_ID ref = a"
  proof (cases "case rs_snapshot r of None \<Rightarrow> None | Some s \<Rightarrow> ResolveApp s org a")
    case (Some app)
    then obtain s where s: "rs_snapshot r = Some s" "ResolveApp s org a = Some app" by (auto split: option.splits)
    from assms s(1) obtain aead_open um sealer t now data where b: "s = fst (BuildSnapshot aead_open um sealer t now data)"
        and rows: "\<forall>app\<in>set (sd_Applications data). CHR 0x00 \<notin> set (app_OrgID app) \<and> (\<forall>uid. app_UID app = Some uid \<longrightarrow> CHR 0x00 \<notin> set uid \<and> uid \<noteq> a)"
      unfolding uid_free_def by metis
    obtain problems where "BuildSnapshot aead_open um sealer t now data = (s, problems)" using b by (metis prod.collapse)
    from ResolveApp_in_tenant [OF _ this s(2)] rows have "app_ID (ca_App app) = a" by auto
    with res s show ?thesis by (auto simp: resolve_def split: if_splits)
  next
    case None
    obtain r1 d1 where db: "(case app_by_id env org a d of (Inl ErrNotFound, d) \<Rightarrow> app_by_uid env org a d | other \<Rightarrow> other) = (r1, d1)" by fastforce
    obtain app where "r1 = Inr app" "ref = \<lparr>ref_ID = app_ID app, ref_OrgID = app_OrgID app\<rparr>"
      using res None db by (auto simp: resolve_def split: if_splits sum.splits repo_error.splits)
    with resolve_fallback(2) [OF db] assms show ?thesis by (auto simp: live_app_def uid_free_def)
  qed
qed

lemma portal_ok_cfg: "on_cfg f w = (Inr x, w') \<Longrightarrow> world_kept (app_cfg a) S w w' \<Longrightarrow> portal_ok v a w \<Longrightarrow> portal_ok v a w'"
  by (auto simp: on_cfg_def portal_ok_def world_kept_def app_cfg_def only_app_def split: prod.splits)

lemma reads_ok:
  assumes "uid_free a (db_apps (hw_cfg w)) (au_resolver (he_attempts (pv_api v)))" and "world_kept (app_cfg a) S w w'"
  shows "uid_free a (db_apps (hw_cfg w')) (au_resolver (he_attempts (pv_api v)))"
  using assms by (simp add: world_kept_def app_cfg_def only_app_def)

lemma app_spared_cfg:
  assumes "portal_ok v a w" and "\<And>d. ids_ok d \<Longrightarrow> within_app a d (f d)"
  shows "app_spared a w (on_cfg f w)"
  using assms(1) assms(2) [of "hw_cfg w"] unfolding app_spared_def
  by (intro viewer.call_cfg) (simp add: portal_ok_def app_cfg_def within_app_def)

lemma app_spared_or_redirect:
  assumes "app_spared a w r" and "\<And>x w'. snd (f x w') = w'"
  shows "app_spared a w (or_redirect target r f)"
  using assms by (cases r; cases "fst r") (auto simp: or_redirect_def redirectWithError_def app_spared_def spares_def)

lemma snd_redirect [simp]: "snd (redirect target message w) = w" "snd (redirectWithError target e w) = w" "snd (render v view w) = w"
  by (simp_all add: redirect_def redirectWithError_def render_def split: option.splits)

lemma ListEventTypes_frame: "\<exists>fs. snd (ListEventTypes v org inc page d) = d\<lparr>db_faults := fs\<rparr>"
  unfolding ListEventTypes_def internal_page_def EventTypeRepo_GetEventTypes_def
  by (auto split: prod.splits sum.splits dest!: query_frame)

lemma page_reads_spare:
  "portal_ok v (se_AppID s) w \<Longrightarrow> app_spared (se_AppID s) w (endpointRows v s selected w)"
  "app_spared (se_AppID s) w (eventTypeOptions v s types w)"
  "uid_free (se_AppID s) (db_apps (hw_cfg w)) (au_resolver (he_attempts (pv_api v))) \<Longrightarrow> app_spared (se_AppID s) w (attemptRows v s e status cursor w)"
proof -
  show "portal_ok v (se_AppID s) w \<Longrightarrow> app_spared (se_AppID s) w (endpointRows v s selected w)" unfolding endpointRows_def
    by (rule viewer.answer [folded app_spared_def], erule app_spared_cfg) (simp_all add: endpoint_within)
  show "app_spared (se_AppID s) w (eventTypeOptions v s types w)" unfolding eventTypeOptions_def
    by (rule viewer.answer [folded app_spared_def], rule viewer.call_cfg [folded app_spared_def]) (metis ListEventTypes_frame viewer.same, simp)
  show "uid_free (se_AppID s) (db_apps (hw_cfg w)) (au_resolver (he_attempts (pv_api v))) \<Longrightarrow> app_spared (se_AppID s) w (attemptRows v s e status cursor w)"
    unfolding attemptRows_def
    by (rule viewer.lift [folded app_spared_def], rule viewer.answer [folded app_spared_def], rule viewer.call_attempts [folded app_spared_def])
      (auto intro!: attempt_ops_kept(1) resolves_own)
qed

lemma posts_spare:
  assumes "portal_ok v (se_AppID s) w" and "portal_session c = Inr s"
  shows "app_spared (se_AppID s) w (p_CreateEndpoint v c w)" "app_spared (se_AppID s) w (p_UpdateEndpoint v c w)"
    "app_spared (se_AppID s) w (p_DeleteEndpoint v c w)" "app_spared (se_AppID s) w (p_Secret v c w)" "app_spared (se_AppID s) w (p_TestEvent v c w)"
    "app_spared (se_AppID s) w (p_Resend v c w)" "app_spared (se_AppID s) w (p_Recover v c w)"
proof -
  have l: "h_lift (portal_session c) f w = f s w" for f :: "session \<Rightarrow> api_world \<Rightarrow> portal_answer handler_result" by (simp add: assms(2) h_lift_def)
  note cfg = app_spared_or_redirect app_spared_cfg [OF assms(1)]
  show "app_spared (se_AppID s) w (p_CreateEndpoint v c w)" "app_spared (se_AppID s) w (p_UpdateEndpoint v c w)" "app_spared (se_AppID s) w (p_DeleteEndpoint v c w)"
    unfolding p_CreateEndpoint_def p_UpdateEndpoint_def p_DeleteEndpoint_def l Let_def by (auto intro!: cfg endpoint_within)
  show "app_spared (se_AppID s) w (p_Secret v c w)" unfolding p_Secret_def l Let_def
  proof (rule viewer.bind [folded app_spared_def], rule app_spared_cfg [OF assms(1)], goal_cases)
    case (2 ep w')
    from portal_ok_cfg [OF 2(1,2) assms(1)] show ?case by (auto intro!: app_spared_or_redirect app_spared_cfg endpoint_within viewer.error [folded app_spared_def])
  qed (simp add: endpoint_within)
  show "app_spared (se_AppID s) w (p_TestEvent v c w)" unfolding p_TestEvent_def l Let_def
  proof (rule viewer.bind [folded app_spared_def], rule app_spared_cfg [OF assms(1)], goal_cases)
    case (2 ep w')
    note ok = portal_ok_cfg [OF 2(1,2) assms(1)]
    then have "app_spared (se_AppID s) w' (on_messages (Ingest (he_ingest (pv_api v)) inp) w')" if "ii_AppIDOrUID inp = se_AppID s" for inp
      using that by (intro viewer.call_messages [folded app_spared_def] Ingest_kept) (auto simp: portal_ok_def resolves_own)
    then show ?case by (auto intro!: app_spared_or_redirect simp: redirectWithError_def viewer.error [folded app_spared_def])
  qed (simp add: endpoint_within)
  have res: "resolves_in (au_pg (he_attempts (pv_api v))) (au_resolver (he_attempts (pv_api v))) org (se_AppID s) (hw_cfg w) (\<lambda>_ x. x = se_AppID s)"
    and inv: "pg_inv (md_queue (hw_msgs w))" for org using assms(1) by (auto simp: portal_ok_def resolves_own)
  show "app_spared (se_AppID s) w (p_Resend v c w)" "app_spared (se_AppID s) w (p_Recover v c w)" unfolding p_Resend_def p_Recover_def l Let_def
    by (auto intro!: app_spared_or_redirect viewer.call_attempts [folded app_spared_def] attempt_ops_kept res inv)
qed

lemma pages_spare:
  assumes "portal_ok v (se_AppID s) w" and "portal_session c = Inr s"
  shows "app_spared (se_AppID s) w (p_Endpoints v c w)" "app_spared (se_AppID s) w (p_Log v c w)" "app_spared (se_AppID s) w (p_Tail v c w)"
    "app_spared (se_AppID s) w (p_Endpoint v c w)"
proof -
  have l: "h_lift (portal_session c) f w = f s w" for f :: "session \<Rightarrow> api_world \<Rightarrow> portal_answer handler_result" by (simp add: assms(2) h_lift_def)
  have free: "uid_free (se_AppID s) (db_apps (hw_cfg w)) (au_resolver (he_attempts (pv_api v)))" using assms(1) by (simp add: portal_ok_def)
  note bind = viewer.bind [folded app_spared_def] and answer = viewer.answer [folded app_spared_def]
  show "app_spared (se_AppID s) w (p_Endpoints v c w)" unfolding p_Endpoints_def l
    by (rule bind, rule page_reads_spare(1) [OF assms(1)], rule answer, rule page_reads_spare(2)) simp
  show "app_spared (se_AppID s) w (p_Log v c w)" unfolding p_Log_def l Let_def
    by (rule bind, rule page_reads_spare(1) [OF assms(1)], rule answer, rule page_reads_spare(3), erule reads_ok [OF free]) (auto split: prod.splits)
  show "app_spared (se_AppID s) w (p_Tail v c w)" unfolding p_Tail_def l by (simp add: app_spared_def spares_def)
  have reveal: "app_spared (se_AppID s) w' (page_secret v c s e w')" if "ids_ok (hw_cfg w')" for e w'
    unfolding page_secret_def using endpoint_within(6) [OF that] that
    by (auto intro!: answer viewer.call_cfg [folded app_spared_def] viewer.error [folded app_spared_def] simp: app_cfg_def within_app_def)
  have kept: "ids_ok (hw_cfg w')" if "world_kept (app_cfg (se_AppID s)) S w1 w'" "ids_ok (hw_cfg w1)" for S w1 w'
    using that by (simp add: world_kept_def app_cfg_def)
  have ids: "ids_ok (hw_cfg w)" using assms(1) by (simp add: portal_ok_def)
  show "app_spared (se_AppID s) w (p_Endpoint v c w)" unfolding p_Endpoint_def l
  proof (rule bind, rule app_spared_cfg [OF assms(1)], simp add: endpoint_within, rule bind, goal_cases)
    case (1 ep w1)
    show ?case using resolves_own [OF reads_ok [OF free 1(2)]]
      by (intro viewer.call_attempts [folded app_spared_def] attempt_ops_kept(2))
  next
    case (2 ep w1 st w2)
    note free2 = reads_ok [OF reads_ok [OF free 2(2)] 2(4)]
    note ids2 = kept [OF 2(4) kept [OF 2(2) ids]]
    show ?case
    proof (rule bind, rule page_reads_spare(3) [OF free2], simp split: prod.splits, intro allI impI, rule bind, rule page_reads_spare(2), rule answer, goal_cases)
      case (1 x w3 attempts cursor options w4)
      then show ?case using kept [OF 1(5) kept [OF 1(2) ids2]] by (intro reveal)
    qed simp
  qed
qed


section \<open>Messages of the portal\<close>

text \<open>The message a redirect carries is the one the next page reads, whatever characters it has, and nothing of it can begin another parameter.\<close>

lemma hex_plain: "n < 16 \<Longrightarrow> upperhex n \<notin> {CHR ''&'', CHR ''='', CHR ''?'', CHR ''#''}"
proof -
  have "\<forall>n\<in>set [0..<16]. upperhex n \<notin> {CHR ''&'', CHR ''='', CHR ''?'', CHR ''#''}" by code_simp
  then show "n < 16 \<Longrightarrow> ?thesis" by simp
qed

lemma escape_plain: "set (QueryEscape s) \<inter> {CHR ''&'', CHR ''='', CHR ''?'', CHR ''#''} = {}"
proof -
  have "set (escape_char c) \<inter> {CHR ''&'', CHR ''='', CHR ''?'', CHR ''#''} = {}" for c
  proof (cases "unreserved c \<or> c = CHR '' ''")
    case True
    then show ?thesis by (auto simp: escape_char_def unreserved_def Let_def)
  next
    case False
    have num_16: "(256::nat) = 16 * 16" by simp
    have bound: "(of_char c :: nat) div 16 < 16" by (metis less_mult_imp_div_less mod_less_divisor num_16 of_char_mod_256 zero_less_numeral)
    from False hex_plain [OF bound] hex_plain [of "(of_char c :: nat) mod 16"] show ?thesis by (simp add: escape_char_def)
  qed
  then show ?thesis by (auto simp: QueryEscape_def)
qed

lemma flash_survives:
  "\<exists>sep e. withFlash target message kind = target @ [sep] @ ''flash='' @ e @ (if kind \<noteq> [] then ''&flashKind='' @ kind else []) \<and>
     QueryUnescape e = Some message \<and> CHR ''&'' \<notin> set e"
  using escape_plain [of message] by (auto simp: withFlash_def Let_def QueryUnescape_Escape intro!: exI [of _ "QueryEscape message"])

section \<open>Two applications and a viewer of one\<close>

definition demo_viewer :: "string \<Rightarrow> portal_ctx" where
  "demo_viewer e = http_ctx.extend ((demo_ctx ''org_1'' [])\<lparr>hc_principal := Some \<lparr>pr_OrgID = ''org_1'', pr_AppID = ''app_1'', pr_Portal = True\<rparr>,
     hc_param := (\<lambda>_. e)\<rparr>) (portal_ctx.fields (\<lambda>n. if n = ''url'' then ['' https://b.example ''] else []))"

definition demo_pages :: portal_env where
  "demo_pages = \<lparr>pv_api = demo_api, pv_now = 100, pv_render = (\<lambda>_. Some []), pv_localTime = (\<lambda>_. [])\<rparr>"

lemma demo_portal_ok: "portal_ok demo_pages ''app_1'' demo_api_world"
  using demo_world_ok by (simp add: portal_ok_def world_ok_def demo_pages_def demo_api_def demo_api_world_def demo_ingest_def demo_replay_def NewAttemptUseCase_def
      uid_free_def demo_app_def demo_neighbour_def)


text \<open>
  A session is not tied to the life of its application: once the application is deleted the API answers its routes with not found, but a
  portal link that was given out before still adds endpoints to it.
\<close>

definition demo_deleted :: api_world where
  "demo_deleted = demo_api_world\<lparr>hw_cfg := (hw_cfg demo_api_world)\<lparr>db_apps := [demo_app\<lparr>app_DeletedAt := Some 50\<rparr>, demo_neighbour]\<rparr>\<rparr>"

lemma portal_outlives_application:
  "fst (api_handle demo_api (demo_ctx ''org_1'' ''app_1'') CallListEndpoints demo_deleted) = Inl (App (NewNotFoundError ''application''))"
  "ep_AppID (last (db_eps (hw_cfg (snd (portal_handle demo_pages (demo_viewer []) PostEndpoints demo_deleted))))) = ''app_1''"
  "length (db_eps (hw_cfg (snd (portal_handle demo_pages (demo_viewer []) PostEndpoints demo_deleted)))) = Suc (length (db_eps (hw_cfg demo_deleted)))"
  by code_simp+

end
