(* ===== verification/Settings.thy ===== *)
theory Settings
  imports Engine Access
begin

text \<open>
  Runtime configuration (\<^verbatim>\<open>configs/config.go\<close>): the environment with its defaults, normalization and validation, and the options
  that \<^verbatim>\<open>cmd/huxio/serve.go\<close> builds from it for the engine, the lanes, the attempt writer and the maintenance
  loop. Reading the environment into the fields is a third-party library, a parameter.
\<close>

section \<open>config.go\<close>

definition RoleAll :: string where "RoleAll = ''all''"
definition RoleAPI :: string where "RoleAPI = ''api''"
definition RoleWorker :: string where "RoleWorker = ''worker''"
definition DefaultPool :: string where "DefaultPool = ''default''"
definition QuarantinePool :: string where "QuarantinePool = ''quarantine''"

record envVars =
  ev_Role :: string
  ev_Pools :: "string list"
  ev_Port :: string
  ev_LogLevel :: string
  ev_DatabaseURL :: string
  ev_PostgresHost :: string
  ev_PostgresPort :: string
  ev_PostgresUser :: string
  ev_PostgresPassword :: string
  ev_PostgresDB :: string
  ev_PostgresSSLMode :: string
  ev_DBMaxConns :: int
  ev_DBMinConns :: int
  ev_EncryptionKey :: "string list"
  ev_JWTSecret :: string
  ev_JWTPrivateKeyPEM :: string
  ev_JWTPublicKeyPEM :: string
  ev_JWTAlgorithm :: string
  ev_JWTIssuer :: string
  ev_PortalTokenTTL :: duration
  ev_PortalBaseURL :: string
  ev_MaxPayloadBytes :: int
  ev_CompatHeaders :: string
  ev_CompressionMinBytes :: int
  ev_IdempotencyTTL :: duration
  ev_WorkerRequestTimeout :: duration
  ev_WorkerMaxInflight :: int
  ev_ClaimBatchSize :: int
  ev_TaskLockTTL :: duration
  ev_QueuePollInterval :: duration
  ev_LaneWaitTimeout :: duration
  ev_LaneRequeueDelay :: duration
  ev_LaneInitialConcurrency :: int
  ev_LaneMaxConcurrency :: int
  ev_LaneIdleEviction :: duration
  ev_BreakerFailureThreshold :: int
  ev_BreakerCooldown :: duration
  ev_BreakerMaxCooldown :: duration
  ev_QuarantineAfter :: duration
  ev_EndpointFailureDisableAfter :: duration
  ev_AttemptWriterBufferSize :: int
  ev_AttemptWriterBatchSize :: int
  ev_AttemptWriterFlushInterval :: duration
  ev_AttemptBodyLimitBytes :: int
  ev_RetentionMessagesDays :: int
  ev_RetentionAttemptsDays :: int
  ev_PartitionsAheadDays :: int
  ev_AllowSubnets :: "string list"
  ev_RateLimitOrgRPS :: int
  ev_RateLimitAppRPS :: int
  ev_ConfigRefreshInterval :: duration
  ev_LeaseTTL :: duration
  ev_LeaseHeartbeat :: duration
  ev_ShutdownTimeout :: duration
  ev_CORSAllowOrigins :: "string list"

record Config =
  cg_Role :: string
  cg_Pools :: "string list"
  cg_Port :: string
  cg_DatabaseURL :: string
  cg_DBMaxConns :: int
  cg_DBMinConns :: int
  cg_LogLevel :: string
  cg_EncryptionKeys :: "string list"
  cg_JWTSecret :: string
  cg_JWTPrivateKeyPEM :: string
  cg_JWTPublicKeyPEM :: string
  cg_JWTAlgorithm :: string
  cg_JWTIssuer :: string
  cg_PortalTokenTTL :: duration
  cg_PortalBaseURL :: string
  cg_MaxPayloadBytes :: int
  cg_CompatHeaders :: string
  cg_CompressionMinBytes :: int
  cg_IdempotencyTTL :: duration
  cg_WorkerRequestTimeout :: duration
  cg_WorkerMaxInflight :: int
  cg_ClaimBatchSize :: int
  cg_TaskLockTTL :: duration
  cg_QueuePollInterval :: duration
  cg_LaneWaitTimeout :: duration
  cg_LaneRequeueDelay :: duration
  cg_LaneInitialConcurrency :: int
  cg_LaneMaxConcurrency :: int
  cg_LaneIdleEviction :: duration
  cg_BreakerFailureThreshold :: int
  cg_BreakerCooldown :: duration
  cg_BreakerMaxCooldown :: duration
  cg_QuarantineAfter :: duration
  cg_EndpointFailureDisableAfter :: duration
  cg_AttemptWriterBufferSize :: int
  cg_AttemptWriterBatchSize :: int
  cg_AttemptWriterFlushInterval :: duration
  cg_AttemptBodyLimitBytes :: int
  cg_RetentionMessagesDays :: int
  cg_RetentionAttemptsDays :: int
  cg_PartitionsAheadDays :: int
  cg_AllowSubnets :: "string list"
  cg_RateLimitOrgRPS :: int
  cg_RateLimitAppRPS :: int
  cg_ConfigRefreshInterval :: duration
  cg_LeaseTTL :: duration
  cg_LeaseHeartbeat :: duration
  cg_ShutdownTimeout :: duration
  cg_CORSAllowOrigins :: "string list"

text \<open>The defaults in the tags.\<close>

definition env_defaults :: envVars where
  "env_defaults = \<lparr>
     ev_Role = ''all'', ev_Pools = [''default''], ev_Port = ''8080'', ev_LogLevel = ''info'', ev_DatabaseURL = [], ev_PostgresHost =
     ''localhost'', ev_PostgresPort = ''5432'', ev_PostgresUser = ''postgres'', ev_PostgresPassword = ''postgres'', ev_PostgresDB =
     ''huxio'', ev_PostgresSSLMode = ''disable'', ev_DBMaxConns = 0, ev_DBMinConns = 2, ev_EncryptionKey = [], ev_JWTSecret = [],
     ev_JWTPrivateKeyPEM = [], ev_JWTPublicKeyPEM = [], ev_JWTAlgorithm = ''HS256'', ev_JWTIssuer = ''huxio'', ev_PortalTokenTTL = 8 *
     Hour, ev_PortalBaseURL = ''http://localhost:8080'', ev_MaxPayloadBytes = 1048576, ev_CompatHeaders = ''standard'',
     ev_CompressionMinBytes = 512, ev_IdempotencyTTL = 12 * Hour, ev_WorkerRequestTimeout = 30 * Second, ev_WorkerMaxInflight = 2000,
     ev_ClaimBatchSize = 100, ev_TaskLockTTL = 0, ev_QueuePollInterval = 250 * Millisecond, ev_LaneWaitTimeout = 2 * Second,
     ev_LaneRequeueDelay = 1 * Second, ev_LaneInitialConcurrency = 8, ev_LaneMaxConcurrency = 64, ev_LaneIdleEviction = 10 * Minute,
     ev_BreakerFailureThreshold = 20, ev_BreakerCooldown = 30 * Second, ev_BreakerMaxCooldown = 10 * Minute, ev_QuarantineAfter = 15 *
     Minute, ev_EndpointFailureDisableAfter = 120 * Minute, ev_AttemptWriterBufferSize = 8192, ev_AttemptWriterBatchSize = 500,
     ev_AttemptWriterFlushInterval = 5 * Millisecond, ev_AttemptBodyLimitBytes = 8192, ev_RetentionMessagesDays = 90,
     ev_RetentionAttemptsDays = 90, ev_PartitionsAheadDays = 7, ev_AllowSubnets = [], ev_RateLimitOrgRPS = 2000, ev_RateLimitAppRPS =
     500, ev_ConfigRefreshInterval = 60 * Second, ev_LeaseTTL = 15 * Second, ev_LeaseHeartbeat = 5 * Second, ev_ShutdownTimeout = 60 *
     Second, ev_CORSAllowOrigins = [''*'']\<rparr>"

fun normalize_loop :: "string list \<Rightarrow> string list \<Rightarrow> string list" where
  "normalize_loop [] pools = pools"
| "normalize_loop (p # ps) pools =
    (let p = TrimSpace p in
     if p = [] \<or> p \<in> set pools then normalize_loop ps pools else normalize_loop ps (pools @ [p]))"

definition normalizePools :: "string list \<Rightarrow> string list" where
  "normalizePools raw = (let pools = normalize_loop raw [] in if pools = [] then [DefaultPool] else pools)"

text \<open>The configuration errors, by the check that failed.\<close>

datatype config_error =
    ProcessEnvironment | UnsupportedRole string | UnsupportedCompatHeaders string | BadMaxPayload | BadClaimBatch | BadMaxInflight
  | BadLaneConcurrency | BadLockTTL | BadHeartbeat | BadWriterBuffer | BadRetention | BadPartitionsAhead

definition Config_Validate :: "Config \<Rightarrow> config_error option" where
  "Config_Validate c =
    (if cg_MaxPayloadBytes c \<le> 0 then Some BadMaxPayload
     else if cg_ClaimBatchSize c \<le> 0 then Some BadClaimBatch
     else if cg_WorkerMaxInflight c \<le> 0 then Some BadMaxInflight
     else if cg_LaneInitialConcurrency c < 1 \<or> cg_LaneInitialConcurrency c > cg_LaneMaxConcurrency c then Some BadLaneConcurrency
     else if cg_TaskLockTTL c \<le> cg_WorkerRequestTimeout c then Some BadLockTTL
     else if cg_LeaseHeartbeat c \<ge> cg_LeaseTTL c then Some BadHeartbeat
     else if cg_AttemptWriterBatchSize c \<le> 0 \<or> cg_AttemptWriterBufferSize c < cg_AttemptWriterBatchSize c then Some BadWriterBuffer
     else if cg_RetentionMessagesDays c \<le> 0 \<or> cg_RetentionAttemptsDays c \<le> 0 then Some BadRetention
     else if cg_PartitionsAheadDays c \<le> 0 then Some BadPartitionsAhead
     else None)"

definition postgres_dsn :: "envVars \<Rightarrow> string" where
  "postgres_dsn env = ''postgres://'' @ ev_PostgresUser env @ '':'' @ ev_PostgresPassword env @ ''@'' @ ev_PostgresHost env @ '':'' @ ev_PostgresPort env @
     ''/'' @ ev_PostgresDB env @ ''?sslmode='' @ ev_PostgresSSLMode env"

text \<open>\<open>lockTTL\<close> is an addition of two 64-bit durations.\<close>

definition build_config :: "(string \<Rightarrow> string) \<Rightarrow> envVars \<Rightarrow> string \<Rightarrow> string \<Rightarrow> Config" where
  "build_config upperUnicode env role scheme =
    (let dsn = TrimSpace (ev_DatabaseURL env);
         dsn = (if dsn = [] then postgres_dsn env else dsn);
         maxConns = (if ev_DBMaxConns env \<le> 0 then (if role = RoleWorker then 6 else 12) else ev_DBMaxConns env);
         lockTTL = (if ev_TaskLockTTL env \<le> 0 then wrap64 (ev_WorkerRequestTimeout env + 60 * Second) else ev_TaskLockTTL env) in
     \<lparr>
       cg_Role = role, cg_Pools = normalizePools (ev_Pools env), cg_Port = ev_Port env, cg_DatabaseURL = dsn, cg_DBMaxConns = maxConns,
       cg_DBMinConns = ev_DBMinConns env, cg_LogLevel = ev_LogLevel env, cg_EncryptionKeys = ev_EncryptionKey env, cg_JWTSecret =
       ev_JWTSecret env, cg_JWTPrivateKeyPEM = ev_JWTPrivateKeyPEM env, cg_JWTPublicKeyPEM = ev_JWTPublicKeyPEM env, cg_JWTAlgorithm =
       ToUpper upperUnicode (TrimSpace (ev_JWTAlgorithm env)), cg_JWTIssuer = ev_JWTIssuer env, cg_PortalTokenTTL = ev_PortalTokenTTL
       env, cg_PortalBaseURL = rev (dropWhile (\<lambda>c. c = CHR ''/'') (rev (ev_PortalBaseURL env))), cg_MaxPayloadBytes =
       ev_MaxPayloadBytes env, cg_CompatHeaders = scheme, cg_CompressionMinBytes = ev_CompressionMinBytes env, cg_IdempotencyTTL =
       ev_IdempotencyTTL env, cg_WorkerRequestTimeout = ev_WorkerRequestTimeout env, cg_WorkerMaxInflight = ev_WorkerMaxInflight env,
       cg_ClaimBatchSize = ev_ClaimBatchSize env, cg_TaskLockTTL = lockTTL, cg_QueuePollInterval = ev_QueuePollInterval env,
       cg_LaneWaitTimeout = ev_LaneWaitTimeout env, cg_LaneRequeueDelay = ev_LaneRequeueDelay env, cg_LaneInitialConcurrency =
       ev_LaneInitialConcurrency env, cg_LaneMaxConcurrency = ev_LaneMaxConcurrency env, cg_LaneIdleEviction = ev_LaneIdleEviction env,
       cg_BreakerFailureThreshold = ev_BreakerFailureThreshold env, cg_BreakerCooldown = ev_BreakerCooldown env, cg_BreakerMaxCooldown =
       ev_BreakerMaxCooldown env, cg_QuarantineAfter = ev_QuarantineAfter env, cg_EndpointFailureDisableAfter =
       ev_EndpointFailureDisableAfter env, cg_AttemptWriterBufferSize = ev_AttemptWriterBufferSize env, cg_AttemptWriterBatchSize =
       ev_AttemptWriterBatchSize env, cg_AttemptWriterFlushInterval = ev_AttemptWriterFlushInterval env, cg_AttemptBodyLimitBytes =
       ev_AttemptBodyLimitBytes env, cg_RetentionMessagesDays = ev_RetentionMessagesDays env, cg_RetentionAttemptsDays =
       ev_RetentionAttemptsDays env, cg_PartitionsAheadDays = ev_PartitionsAheadDays env, cg_AllowSubnets = ev_AllowSubnets env,
       cg_RateLimitOrgRPS = ev_RateLimitOrgRPS env, cg_RateLimitAppRPS = ev_RateLimitAppRPS env, cg_ConfigRefreshInterval =
       ev_ConfigRefreshInterval env, cg_LeaseTTL = ev_LeaseTTL env, cg_LeaseHeartbeat = ev_LeaseHeartbeat env, cg_ShutdownTimeout =
       ev_ShutdownTimeout env, cg_CORSAllowOrigins = ev_CORSAllowOrigins env\<rparr>)"

definition Config_Load :: "(string \<Rightarrow> string) \<Rightarrow> (string \<Rightarrow> string) \<Rightarrow> envVars option \<Rightarrow> config_error + Config" where
  "Config_Load lowerUnicode upperUnicode process = (case process of
      None \<Rightarrow> Inl ProcessEnvironment
    | Some env \<Rightarrow>
       (let role = ToLower lowerUnicode (TrimSpace (ev_Role env)); scheme = ToLower lowerUnicode (TrimSpace (ev_CompatHeaders env)) in
        if role \<notin> {RoleAll, RoleAPI, RoleWorker} then Inl (UnsupportedRole (ev_Role env))
        else if scheme \<noteq> ''standard'' \<and> scheme \<noteq> ''huxio'' then Inl (UnsupportedCompatHeaders (ev_CompatHeaders env))
        else (let cfg = build_config upperUnicode env role scheme in
          case Config_Validate cfg of Some e \<Rightarrow> Inl e | None \<Rightarrow> Inr cfg)))"

definition RunsAPI :: "Config \<Rightarrow> bool" where "RunsAPI c \<longleftrightarrow> cg_Role c = RoleAPI \<or> cg_Role c = RoleAll"
definition RunsWorker :: "Config \<Rightarrow> bool" where "RunsWorker c \<longleftrightarrow> cg_Role c = RoleWorker \<or> cg_Role c = RoleAll"

section \<open>serve.go\<close>

text \<open>The command's flags win over the environment, and the result is validated again.\<close>

definition serve_config :: "Config \<Rightarrow> string option \<Rightarrow> string list option \<Rightarrow> config_error + Config" where
  "serve_config cfg role pools =
    (let cfg = (case role of None \<Rightarrow> cfg | Some r \<Rightarrow> cfg\<lparr>cg_Role := r\<rparr>); cfg = (case pools of None \<Rightarrow> cfg | Some ps \<Rightarrow> cfg\<lparr>cg_Pools := ps\<rparr>) in
     case Config_Validate cfg of Some e \<Rightarrow> Inl e | None \<Rightarrow> Inr cfg)"

definition lane_options :: "Config \<Rightarrow> LaneOptions" where
  "lane_options c = \<lparr>lo_InitialConcurrency = cg_LaneInitialConcurrency c, lo_MaxConcurrency = cg_LaneMaxConcurrency c, lo_SuccessesPerIncrease = 0,
     lo_RateLimit = 0, lo_MaxWaiters = 0,
     lo_Breaker = \<lparr>bo_FailureThreshold = cg_BreakerFailureThreshold c, bo_Cooldown = cg_BreakerCooldown c, bo_MaxCooldown = cg_BreakerMaxCooldown c\<rparr>\<rparr>"

definition engine_options :: "Config \<Rightarrow> string \<Rightarrow> string \<Rightarrow> EngineOptions" where
  "engine_options c workerID pool =
     \<lparr>eo_WorkerID = workerID, eo_Pool = pool, eo_ClaimBatchSize = cg_ClaimBatchSize c, eo_MaxInflight = cg_WorkerMaxInflight c,
      eo_LockTTL = cg_TaskLockTTL c, eo_PollInterval = cg_QueuePollInterval c, eo_RequestTimeout = cg_WorkerRequestTimeout c,
      eo_ResponseBodyLimit = cg_AttemptBodyLimitBytes c, eo_CompatHeaders = cg_CompatHeaders c, eo_StaleSnapshotDelay = 0,
      eo_LaneWaitTimeout = cg_LaneWaitTimeout c, eo_LaneRequeueDelay = cg_LaneRequeueDelay c, eo_QuarantinePool = QuarantinePool,
      eo_QuarantineAfter = cg_QuarantineAfter c, eo_DisableAfter = cg_EndpointFailureDisableAfter c, eo_FailingNotifyAttempt = 0\<rparr>"

section \<open>What a validated configuration gives\<close>

lemma normalize_loop_props:
  assumes "distinct pools" and "[] \<notin> set pools"
  shows "distinct (normalize_loop ps pools) \<and> set (normalize_loop ps pools) = set pools \<union> (TrimSpace ` set ps - {[]})"
  using assms
proof (induction ps arbitrary: pools)
  case (Cons p ps)
  show ?case
  proof (cases "TrimSpace p = [] \<or> TrimSpace p \<in> set pools")
    case True
    then show ?thesis using Cons.IH [OF Cons.prems] by (auto simp: Let_def)
  next
    case False
    then show ?thesis using Cons.IH [of "pools @ [TrimSpace p]"] Cons.prems by (auto simp: Let_def)
  qed
qed simp

lemma normalizePools_props:
  "distinct (normalizePools raw)" "normalizePools raw \<noteq> []"
  "set (normalizePools raw) = (if TrimSpace ` set raw - {[]} = {} then {DefaultPool} else TrimSpace ` set raw - {[]})"
proof -
  note n = normalize_loop_props [of "[]" raw]
  show "distinct (normalizePools raw)" "normalizePools raw \<noteq> []" using n by (auto simp: normalizePools_def Let_def)
  show "set (normalizePools raw) = (if TrimSpace ` set raw - {[]} = {} then {DefaultPool} else TrimSpace ` set raw - {[]})"
  proof (cases "normalize_loop raw [] = []")
    case True
    then show ?thesis using n by (simp add: normalizePools_def)
  next
    case False
    then have "set (normalize_loop raw []) \<noteq> {}" by simp
    then have "TrimSpace ` set raw - {[]} \<noteq> {}" using n by simp
    then show ?thesis using n False by (simp only: normalizePools_def Let_def if_False) simp
  qed
qed

text \<open>The engine's defaults, followed one statement at a time on the fields that matter here.\<close>

definition sized :: "int \<Rightarrow> int \<Rightarrow> duration \<Rightarrow> duration \<Rightarrow> EngineOptions \<Rightarrow> bool" where
  "sized n m r l opts \<longleftrightarrow> eo_ClaimBatchSize opts = n \<and> eo_MaxInflight opts = m \<and> eo_RequestTimeout opts = r \<and> eo_LockTTL opts = l"

lemma let_step: "sized n m r l v \<Longrightarrow> (\<And>y. sized n m r l y \<Longrightarrow> sized n' m' r' l' (f y)) \<Longrightarrow> sized n' m' r' l' (Let v f)"
  by simp

lemma engine_defaults_sized:
  assumes "sized n m r l opts" and "0 < n" and "0 < m" and "r' = (if r \<le> 0 then 30 * Second else r)" and "l' = (if l \<le> r' then wrap64 (r' + Minute) else l)"
  shows "sized n m r' l' (engine_defaults i opts)"
  unfolding engine_defaults_def
  apply (rule let_step [where n = n and m = m and r = r and l = l], use assms in \<open>simp add: sized_def\<close>)
  apply (rule let_step [where n = n and m = m and r = r and l = l], use assms in \<open>simp add: sized_def\<close>)
  apply (rule let_step [where n = n and m = m and r = r and l = l], use assms in \<open>simp add: sized_def\<close>)
  apply (rule let_step [where n = n and m = m and r = r and l = l], use assms in \<open>simp add: sized_def\<close>)
  apply (rule let_step [where n = n and m = m and r = r and l = l], use assms in \<open>simp add: sized_def\<close>)
  apply (rule let_step [where n = n and m = m and r = r' and l = l], use assms in \<open>simp add: sized_def\<close>)
  apply (rule let_step [where n = n and m = m and r = r' and l = l'], use assms in \<open>simp add: sized_def\<close>)+
  apply assumption
  done

lemma Load_Inr:
  assumes "Config_Load low up process = Inr cfg"
  obtains env role scheme where "process = Some env" "cfg = build_config up env role scheme" "role \<in> {RoleAll, RoleAPI, RoleWorker}"
    "scheme \<in> {''standard'', ''huxio''}" "Config_Validate cfg = None"
  using assms unfolding Config_Load_def Let_def by (auto split: option.splits if_splits)

text \<open>
  C24: A configuration that is accepted makes a sound worker. For every environment that loads, the process serves a role, at
  least one pool and no pool twice; and the options each engine runs with, after its own defaults, have a claim lock that outlives the request timeout,
  which is positive, also when adding the buffer to the timeout overflows 64 bits or no timeout is set; the configured values are kept
  when the timeout is positive; the engine claims and runs at least one task, and the lanes' options satisfy what the lane's correctness
  needs, with the configured concurrency.
\<close>

theorem loaded_config_sound:
  assumes "Config_Load low up process = Inr cfg" and "opts = engine_defaults newID (engine_options cfg workerID pool)"
  shows "(RunsAPI cfg \<or> RunsWorker cfg) \<and> cg_Pools cfg \<noteq> [] \<and> distinct (cg_Pools cfg) \<and>
    0 < eo_RequestTimeout opts \<and> eo_RequestTimeout opts < eo_LockTTL opts \<and>
    (0 < cg_WorkerRequestTimeout cfg \<longrightarrow> eo_RequestTimeout opts = cg_WorkerRequestTimeout cfg \<and> eo_LockTTL opts = cg_TaskLockTTL cfg) \<and>
    0 < eo_ClaimBatchSize opts \<and> 0 < eo_MaxInflight opts \<and> lane_opts_ok (lane_defaults (lane_options cfg)) \<and>
    lo_InitialConcurrency (lane_defaults (lane_options cfg)) = cg_LaneInitialConcurrency cfg \<and> lo_MaxConcurrency (lane_defaults (lane_options cfg)) = cg_LaneMaxConcurrency cfg \<and>
    cg_LeaseHeartbeat cfg < cg_LeaseTTL cfg"
proof -
  obtain env role scheme where l: "cfg = build_config up env role scheme" "role \<in> {RoleAll, RoleAPI, RoleWorker}" "Config_Validate cfg = None"
    using assms(1) by (rule Load_Inr)
  have role: "RunsAPI cfg \<or> RunsWorker cfg" using l(2) by (auto simp: l(1) build_config_def RunsAPI_def RunsWorker_def Let_def)
  have pools: "cg_Pools cfg = normalizePools (ev_Pools env)" by (simp add: l(1) build_config_def Let_def)
  have v: "0 < cg_ClaimBatchSize cfg" "0 < cg_WorkerMaxInflight cfg" "1 \<le> cg_LaneInitialConcurrency cfg" "cg_LaneInitialConcurrency cfg \<le> cg_LaneMaxConcurrency cfg"
      "cg_WorkerRequestTimeout cfg < cg_TaskLockTTL cfg" "cg_LeaseHeartbeat cfg < cg_LeaseTTL cfg"
    using l(3) by (auto simp: Config_Validate_def split: if_splits)
  have w: "wrap64 90000000000 = 90000000000" by code_simp
  have "sized (cg_ClaimBatchSize cfg) (cg_WorkerMaxInflight cfg) (cg_WorkerRequestTimeout cfg) (cg_TaskLockTTL cfg) (engine_options cfg workerID pool)"
    by (simp add: sized_def engine_options_def)
  from engine_defaults_sized [OF this v(1,2) refl refl, of newID] have e: "0 < eo_RequestTimeout opts" "eo_RequestTimeout opts < eo_LockTTL opts" "0 < eo_ClaimBatchSize opts" "0 < eo_MaxInflight opts"
      "0 < cg_WorkerRequestTimeout cfg \<longrightarrow> eo_RequestTimeout opts = cg_WorkerRequestTimeout cfg \<and> eo_LockTTL opts = cg_TaskLockTTL cfg"
    using v(1,2,5) unfolding assms(2) by (simp_all add: sized_def w split: if_splits)
  have "lane_opts_ok (lane_defaults (lane_options cfg))" "lo_InitialConcurrency (lane_defaults (lane_options cfg)) = cg_LaneInitialConcurrency cfg"
      "lo_MaxConcurrency (lane_defaults (lane_options cfg)) = cg_LaneMaxConcurrency cfg"
    using v(3,4) by (auto simp: lane_defaults_def lane_options_def lane_opts_ok_def Let_def)
  then show ?thesis using role e v(6) normalizePools_props(1,2) by (simp add: pools)
qed

definition default_config :: Config where
  "default_config = build_config id env_defaults RoleAll ''standard''"

lemma defaults_load: "Config_Load id id (Some env_defaults) = Inr default_config"
proof -
  have t: "ToLower id (TrimSpace ''all'') = RoleAll" "ToLower id (TrimSpace ''standard'') = ''standard''" by code_simp+
  have "Config_Validate default_config = None" by code_simp
  then show ?thesis unfolding default_config_def by (simp add: Config_Load_def Let_def env_defaults_def t)
qed

theorem loaded_config_sound_witness:
  "Config_Load id id (Some env_defaults) = Inr default_config \<and> eo_LockTTL (engine_defaults [] (engine_options default_config ''w'' ''default'')) = 90 * Second \<and>
   eo_RequestTimeout (engine_defaults [] (engine_options default_config ''w'' ''default'')) = 30 * Second"
proof -
  have "cg_WorkerRequestTimeout default_config = 30 * Second" "cg_TaskLockTTL default_config = 90 * Second" "0 < Second" by code_simp+
  with loaded_config_sound [OF defaults_load refl, of "[]" "''w''" "''default''"] defaults_load show ?thesis by simp
qed

text \<open>The lock is compared with the request timeout alone: an accepted configuration may let it end while a delivery that waited for its lane is on the wire.\<close>

lemma lock_ignores_lane_wait:
  "\<exists>env cfg. Config_Load id id (Some env) = Inr cfg \<and> cg_TaskLockTTL cfg < cg_LaneWaitTimeout cfg + cg_WorkerRequestTimeout cfg"
proof -
  let ?env = "env_defaults\<lparr>ev_TaskLockTTL := 31 * Second\<rparr>" and ?cfg = "default_config\<lparr>cg_TaskLockTTL := 31 * Second\<rparr>"
  have t: "ToLower id (TrimSpace ''all'') = RoleAll" "ToLower id (TrimSpace ''standard'') = ''standard''" by code_simp+
  have "Config_Validate ?cfg = None" "cg_TaskLockTTL ?cfg < cg_LaneWaitTimeout ?cfg + cg_WorkerRequestTimeout ?cfg" "0 < 31 * Second" by code_simp+
  moreover have "build_config id ?env RoleAll ''standard'' = ?cfg" by code_simp
  ultimately show ?thesis by (intro exI [of _ ?env] exI [of _ ?cfg]) (simp add: Config_Load_def Let_def t env_defaults_def)
qed

text \<open>A role given by the flag is not checked: a process with a misspelt role starts and runs nothing.\<close>

lemma role_flag_unchecked: "\<exists>cfg. serve_config default_config (Some ''wroker'') None = Inr cfg \<and> \<not> RunsAPI cfg \<and> \<not> RunsWorker cfg"
proof -
  have "Config_Validate (default_config\<lparr>cg_Role := ''wroker''\<rparr>) = None" by code_simp
  then show ?thesis by (simp add: serve_config_def RunsAPI_def RunsWorker_def RoleAPI_def RoleAll_def RoleWorker_def)
qed

end
