(* ===== verification/Worker_Runner.thy ===== *)
theory Worker_Runner
  imports Lease_Repo Retry_Policy "HOL-Library.Multiset"
begin

text \<open>
  The worker process (\<^verbatim>\<open>worker/runner.go\<close>): it registers, starts the attempt writer and one goroutine for each loop of each pool, waits for
  them, and shuts down in order. The loops themselves are in their own theories; here each is a routine that starts, and ends on its own
  error or after the group was cancelled. The process is a step relation, so that every interleaving of the routines
  with the cancellation is a run of it.
\<close>

section \<open>runner.go\<close>

text \<open>The goroutines of the group; those of a pool carry its index.\<close>

datatype routine = Heartbeat | MaintenanceLoop | LeaseLoop nat | Listener nat | EngineLoop nat

record worker_pool =
  wp_Name :: string
  wp_LeaseManager :: bool

record runner_deps =
  rd_Pools :: "worker_pool list"
  rd_AttemptWriter :: bool
  rd_Registry :: bool
  rd_Notifications :: bool
  rd_Maintenance :: bool

record runner_opts =
  ro_WorkerID :: string
  ro_Pools :: "string list"
  ro_Version :: string
  ro_TaskChannel :: string
  ro_HeartbeatInterval :: duration
  ro_LeaseTTL :: duration
  ro_WakeupBuffer :: int

record Runner =
  rn_deps :: runner_deps
  rn_opts :: runner_opts

definition NewRunner :: "runner_deps \<Rightarrow> runner_opts \<Rightarrow> Runner option" where
  "NewRunner deps opts =
    (if rd_Pools deps = [] then None
     else if \<not> rd_AttemptWriter deps then None
     else if ro_WorkerID opts = [] then None
     else (let opts = (if ro_HeartbeatInterval opts \<le> 0 then opts\<lparr>ro_HeartbeatInterval := 5 * Second\<rparr> else opts);
               opts = (if ro_LeaseTTL opts \<le> ro_HeartbeatInterval opts then opts\<lparr>ro_LeaseTTL := wrap64 (3 * ro_HeartbeatInterval opts)\<rparr> else opts);
               opts = (if ro_WakeupBuffer opts \<le> 0 then opts\<lparr>ro_WakeupBuffer := 1024\<rparr> else opts) in
       Some \<lparr>rn_deps = deps, rn_opts = opts\<rparr>))"

text \<open>The goroutines in the order in which \<^verbatim>\<open>Run\<close> starts them.\<close>

definition pool_routines :: "runner_deps \<Rightarrow> nat \<times> worker_pool \<Rightarrow> routine list" where
  "pool_routines deps = (\<lambda>(i, p). (if wp_LeaseManager p then [LeaseLoop i] else []) @ (if rd_Notifications deps then [Listener i] else []) @ [EngineLoop i])"

definition routines :: "runner_deps \<Rightarrow> routine list" where
  "routines deps = Heartbeat # (if rd_Maintenance deps then [MaintenanceLoop] else []) @ concat (map (pool_routines deps) (enumerate 0 (rd_Pools deps)))"

definition Runner_register :: "Runner \<Rightarrow> ldb \<Rightarrow> repo_error option \<times> ldb" where
  "Runner_register r d = (if \<not> rd_Registry (rn_deps r) then (None, d)
     else RegisterWorker \<lparr>wk_ID = ro_WorkerID (rn_opts r), wk_Pools = ro_Pools (rn_opts r), wk_Version = ro_Version (rn_opts r), wk_HeartbeatAt = zero_time, wk_CreatedAt = zero_time\<rparr> d)"

definition Runner_deregister :: "Runner \<Rightarrow> ldb \<Rightarrow> ldb" where
  "Runner_deregister r d = (if \<not> rd_Registry (rn_deps r) then d else snd (DeregisterWorker (ro_WorkerID (rn_opts r)) d))"

text \<open>One tick of the heartbeat, whose errors are logged.\<close>

definition heartbeat_tick :: "Runner \<Rightarrow> ldb \<Rightarrow> ldb" where
  "heartbeat_tick r d = snd (Runner_register r d)"

text \<open>One notification: its payload is a partition number, sent without blocking into the buffered channel of the pool.\<close>

definition listen_payload :: "Runner \<Rightarrow> string \<Rightarrow> int list \<Rightarrow> int list" where
  "listen_payload r payload wakeups = (case Atoi payload of
      None \<Rightarrow> wakeups
    | Some n \<Rightarrow> if int (length wakeups) < ro_WakeupBuffer (rn_opts r) then wakeups @ [wrap16 n] else wakeups)"

text \<open>
  How far \<^verbatim>\<open>Run\<close> is. The trace records what happened, in order; \<open>None\<close> as the end of a routine is a return without an
  error.
\<close>

datatype run_phase = Registering | Starting "routine list" | Waiting | Flushing | Deregistering | Returned "string option"

datatype run_action = Registered | WriterStarted | Started routine | Cancelled | Ended routine "string option" | WriterStopped | WriterFlushed | Deregistered

record run_state =
  rs_phase :: run_phase
  rs_live :: "routine list"
  rs_cancelled :: bool
  rs_err :: "string option"
  rs_db :: ldb
  rs_trace :: "run_action list"

definition run_start :: "ldb \<Rightarrow> run_state" where
  "run_start d = \<lparr>rs_phase = Registering, rs_live = [], rs_cancelled = False, rs_err = None, rs_db = d, rs_trace = []\<rparr>"

text \<open>
  A routine that ends with an error cancels the group, and the first error is kept. The error of a cancelled context is not returned.
\<close>

definition ctxCanceled :: string where "ctxCanceled = ''context canceled''"

definition end_routine :: "routine \<Rightarrow> string option \<Rightarrow> run_state \<Rightarrow> run_state" where
  "end_routine x e s = s\<lparr>rs_live := remove1 x (rs_live s), rs_cancelled := (rs_cancelled s \<or> e \<noteq> None),
     rs_err := (if rs_err s = None then e else rs_err s), rs_trace := rs_trace s @ [Ended x e]\<rparr>"

inductive run_step :: "Runner \<Rightarrow> run_state \<Rightarrow> run_state \<Rightarrow> bool" for r where
  register_failed: "rs_phase s = Registering \<Longrightarrow> Runner_register r (rs_db s) = (Some e, d) \<Longrightarrow>
    run_step r s (s\<lparr>rs_phase := Returned (Some ''register worker''), rs_db := d\<rparr>)"
| register_ok: "rs_phase s = Registering \<Longrightarrow> Runner_register r (rs_db s) = (None, d) \<Longrightarrow>
    run_step r s (s\<lparr>rs_phase := Starting (routines (rn_deps r)), rs_db := d, rs_trace := rs_trace s @ [Registered, WriterStarted]\<rparr>)"
| start: "rs_phase s = Starting (x # xs) \<Longrightarrow>
    run_step r s (s\<lparr>rs_phase := Starting xs, rs_live := rs_live s @ [x], rs_trace := rs_trace s @ [Started x]\<rparr>)"
| started: "rs_phase s = Starting [] \<Longrightarrow> run_step r s (s\<lparr>rs_phase := Waiting\<rparr>)"
| cancel: "\<not> rs_cancelled s \<Longrightarrow> \<forall>e. rs_phase s \<noteq> Returned e \<Longrightarrow> run_step r s (s\<lparr>rs_cancelled := True, rs_trace := rs_trace s @ [Cancelled]\<rparr>)"
| ended: "x \<in> set (rs_live s) \<Longrightarrow> e = None \<longrightarrow> rs_cancelled s \<Longrightarrow> run_step r s (end_routine x e s)"
| waited: "rs_phase s = Waiting \<Longrightarrow> rs_live s = [] \<Longrightarrow> run_step r s (s\<lparr>rs_phase := Flushing, rs_trace := rs_trace s @ [WriterStopped]\<rparr>)"
| flushed: "rs_phase s = Flushing \<Longrightarrow> run_step r s (s\<lparr>rs_phase := Deregistering, rs_trace := rs_trace s @ [WriterFlushed]\<rparr>)"
| returned: "rs_phase s = Deregistering \<Longrightarrow>
    run_step r s (s\<lparr>rs_phase := Returned (if rs_err s = Some ctxCanceled then None else rs_err s), rs_db := Runner_deregister r (rs_db s),
      rs_trace := rs_trace s @ [Deregistered]\<rparr>)"

inductive_cases run_stepE: "run_step r s s'"

inductive run_steps :: "Runner \<Rightarrow> run_state \<Rightarrow> nat \<Rightarrow> run_state \<Rightarrow> bool" for r where
  run_refl: "run_steps r s 0 s"
| run_more: "run_steps r s n s' \<Longrightarrow> run_step r s' s'' \<Longrightarrow> run_steps r s (Suc n) s''"

section \<open>Every run shuts down, and in order\<close>

text \<open>What a trace shows of the group, and the trace without the cancellation.\<close>

definition visible :: "run_action list \<Rightarrow> run_action list" where
  "visible t = filter (\<lambda>a. a \<noteq> Cancelled) t"

fun starts :: "run_action list \<Rightarrow> routine list" where
  "starts [] = []"
| "starts (Started x # t) = x # starts t"
| "starts (_ # t) = starts t"

fun ends :: "run_action list \<Rightarrow> routine list" where
  "ends [] = []"
| "ends (Ended x e # t) = x # ends t"
| "ends (_ # t) = ends t"

lemma starts_append [simp]: "starts (t @ u) = starts t @ starts u"
  by (induction t rule: starts.induct) simp_all

lemma ends_append [simp]: "ends (t @ u) = ends t @ ends u"
  by (induction t rule: ends.induct) simp_all

lemma visible_append [simp]: "visible (t @ u) = visible t @ visible u"
  by (simp add: visible_def)

text \<open>A body of the trace has nothing but starts and ends, with the routines that are still live in between.\<close>

definition group_body :: "Runner \<Rightarrow> routine list \<Rightarrow> routine list \<Rightarrow> run_action list \<Rightarrow> bool" where
  "group_body r rest live b \<longleftrightarrow> (\<forall>a\<in>set b. \<exists>x e. a = Started x \<or> a = Ended x e) \<and> starts b @ rest = routines (rn_deps r) \<and> mset (starts b) = mset (ends b) + mset live"

definition run_inv :: "Runner \<Rightarrow> run_state \<Rightarrow> bool" where
  "run_inv r s = (case rs_phase s of
      Registering \<Rightarrow> visible (rs_trace s) = [] \<and> rs_live s = []
    | Starting rest \<Rightarrow> (\<exists>b. visible (rs_trace s) = [Registered, WriterStarted] @ b \<and> group_body r rest (rs_live s) b)
    | Waiting \<Rightarrow> (\<exists>b. visible (rs_trace s) = [Registered, WriterStarted] @ b \<and> group_body r [] (rs_live s) b)
    | Flushing \<Rightarrow> rs_live s = [] \<and> (\<exists>b. visible (rs_trace s) = [Registered, WriterStarted] @ b @ [WriterStopped] \<and> group_body r [] [] b)
    | Deregistering \<Rightarrow> rs_live s = [] \<and> (\<exists>b. visible (rs_trace s) = [Registered, WriterStarted] @ b @ [WriterStopped, WriterFlushed] \<and> group_body r [] [] b)
    | Returned e \<Rightarrow> rs_live s = [] \<and> (visible (rs_trace s) = [] \<and> e = Some ''register worker'' \<or>
        (\<exists>b. visible (rs_trace s) = [Registered, WriterStarted] @ b @ [WriterStopped, WriterFlushed, Deregistered] \<and> group_body r [] [] b)))"

lemma visible_one [simp]: "visible [a] = (if a = Cancelled then [] else [a])" "visible (a # b # t) = (if a = Cancelled then [] else [a]) @ visible (b # t)" "visible [] = []"
  by (simp_all add: visible_def)

lemma group_started: "group_body r (x # xs) live b \<Longrightarrow> group_body r xs (live @ [x]) (b @ [Started x])"
  by (auto simp: group_body_def)

lemma group_ended: "group_body r rest live b \<Longrightarrow> x \<in> set live \<Longrightarrow> group_body r rest (remove1 x live) (b @ [Ended x e])"
  by (auto simp: group_body_def)

lemma run_step_inv:
  assumes "run_step r s s'" and "run_inv r s"
  shows "run_inv r s'"
  using assms
proof (induction rule: run_step.induct)
  case (ended x s e)
  then show ?case
    by (cases "rs_phase s") (auto simp: run_inv_def end_routine_def intro: group_ended)
qed (auto simp: run_inv_def group_body_def split: run_phase.splits dest!: group_started)

lemma run_steps_inv: "run_steps r s n s' \<Longrightarrow> run_inv r s \<Longrightarrow> run_inv r s'"
  by (induction rule: run_steps.induct) (auto intro: run_step_inv)

definition run_weight :: "Runner \<Rightarrow> run_state \<Rightarrow> nat" where
  "run_weight r s = (case rs_phase s of Registering \<Rightarrow> 2 * length (routines (rn_deps r)) + 5 | Starting xs \<Rightarrow> 2 * length xs + 4 | Waiting \<Rightarrow> 3 | Flushing \<Rightarrow> 2
     | Deregistering \<Rightarrow> 1 | Returned _ \<Rightarrow> 0) + length (rs_live s) + (if rs_cancelled s then 0 else 1)"

lemma run_step_weight: "run_step r s s' \<Longrightarrow> run_weight r s' < run_weight r s"
proof (induction rule: run_step.induct)
  case (ended x s e)
  then have "length (remove1 x (rs_live s)) < length (rs_live s)" by (metis One_nat_def diff_less length_pos_if_in_set length_remove1 zero_less_one)
  then show ?case by (simp add: run_weight_def end_routine_def)
qed (simp_all add: run_weight_def split: run_phase.splits)

lemma run_steps_weight: "run_steps r s n s' \<Longrightarrow> n + run_weight r s' \<le> run_weight r s"
proof (induction rule: run_steps.induct)
  case (run_more s n s' s'')
  then show ?case using run_step_weight [OF run_more.hyps(2)] by linarith
qed simp

lemma run_progress:
  assumes "\<forall>e. rs_phase s \<noteq> Returned e"
  shows "\<exists>s'. run_step r s s'"
proof (cases "rs_cancelled s")
  case False
  then show ?thesis using run_step.cancel [of s r] assms by blast
next
  case True
  show ?thesis
  proof (cases "rs_phase s")
    case Registering
    then show ?thesis using run_step.register_failed [of s r] run_step.register_ok [of s r] by (cases "Runner_register r (rs_db s)"; cases "fst (Runner_register r (rs_db s))") auto
  next
    case (Starting xs)
    then show ?thesis using run_step.start [of s _ _ r] run_step.started [of s r] by (cases xs) blast+
  next
    case Waiting
    then show ?thesis using run_step.waited [of s r] run_step.ended [of _ s None r] True by (cases "rs_live s") auto
  qed (use assms run_step.flushed [of s r] run_step.returned [of s r] in blast)+
qed

text \<open>
  C20: The worker shuts down in order, on every run. In whatever order its goroutines start, fail and end, and whenever it is cancelled: when \<^verbatim>\<open>Run\<close>
  has returned, either the registration failed and nothing was started, or the trace is: registered, the writer
  started, then exactly the goroutines of the configured pools, each started and ended, then the writer stopped, flushed, and the process
  deregistered. So no engine runs when the writer stops, and none before the process is registered.
\<close>

theorem shutdown_in_order:
  assumes "run_steps r (run_start d) n s" and "rs_phase s = Returned e"
  shows "visible (rs_trace s) = [] \<and> e = Some ''register worker'' \<or>
    (\<exists>b. visible (rs_trace s) = [Registered, WriterStarted] @ b @ [WriterStopped, WriterFlushed, Deregistered] \<and>
      (\<forall>a\<in>set b. \<exists>x e. a = Started x \<or> a = Ended x e) \<and> starts b = routines (rn_deps r) \<and> mset (ends b) = mset (routines (rn_deps r)))"
proof -
  have "run_inv r (run_start d)" by (simp add: run_inv_def run_start_def)
  then have "run_inv r s" by (rule run_steps_inv [OF assms(1)])
  then show ?thesis using assms(2) by (auto simp: run_inv_def group_body_def)
qed


section \<open>A worker with one pool\<close>

definition demo_worker :: Runner where
  "demo_worker = \<lparr>rn_deps = \<lparr>rd_Pools = [\<lparr>wp_Name = ''default'', wp_LeaseManager = True\<rparr>], rd_AttemptWriter = True, rd_Registry = False, rd_Notifications = False, rd_Maintenance = False\<rparr>,
     rn_opts = \<lparr>ro_WorkerID = ''w'', ro_Pools = [''default''], ro_Version = [], ro_TaskChannel = [], ro_HeartbeatInterval = 5, ro_LeaseTTL = 15, ro_WakeupBuffer = 2\<rparr>\<rparr>"

text \<open>The heartbeat starts, the engine fails, and the others end because the group is cancelled.\<close>

definition demo_end :: "ldb \<Rightarrow> run_state" where
  "demo_end d = \<lparr>rs_phase = Returned (Some ''boom''), rs_live = [], rs_cancelled = True, rs_err = Some ''boom'', rs_db = d,
     rs_trace = [Registered, WriterStarted, Started Heartbeat, Started (LeaseLoop 0), Started (EngineLoop 0), Ended (EngineLoop 0) (Some ''boom''),
       Ended (LeaseLoop 0) None, Ended Heartbeat None, WriterStopped, WriterFlushed, Deregistered]\<rparr>"

lemma demo_worker_run: "run_steps demo_worker (run_start d) 11 (demo_end d)"
proof -
  let ?s = "\<lambda>p l c e t. \<lparr>rs_phase = p, rs_live = l, rs_cancelled = c, rs_err = e, rs_db = d, rs_trace = t\<rparr>"
  let ?t = "[Registered, WriterStarted]" and ?h = Heartbeat and ?l = "LeaseLoop 0" and ?e = "EngineLoop 0" and ?b = "Some ''boom''"
  let ?t3 = "?t @ [Started ?h] @ [Started ?l] @ [Started ?e]"
  let ?t6 = "?t3 @ [Ended ?e ?b] @ [Ended ?l None] @ [Ended ?h None]"
  have rs: "routines (rn_deps demo_worker) = [?h, ?l, ?e]" by (simp add: routines_def pool_routines_def demo_worker_def)
  have reg: "Runner_register demo_worker d = (None, d)" "Runner_deregister demo_worker d = d" by (simp_all add: Runner_register_def Runner_deregister_def demo_worker_def)
  have 1: "run_step demo_worker (run_start d) (?s (Starting [?h, ?l, ?e]) [] False None ?t)" using run_step.register_ok [of "run_start d" demo_worker d] by (simp add: run_start_def reg rs)
  have 2: "run_step demo_worker (?s (Starting [?h, ?l, ?e]) [] False None ?t) (?s (Starting [?l, ?e]) [?h] False None (?t @ [Started ?h]))"
    using run_step.start [of "?s (Starting [?h, ?l, ?e]) [] False None ?t" ?h "[?l, ?e]"] by simp
  have 3: "run_step demo_worker (?s (Starting [?l, ?e]) [?h] False None (?t @ [Started ?h])) (?s (Starting [?e]) [?h, ?l] False None (?t @ [Started ?h] @ [Started ?l]))"
    using run_step.start [of "?s (Starting [?l, ?e]) [?h] False None (?t @ [Started ?h])" ?l "[?e]"] by simp
  have 4: "run_step demo_worker (?s (Starting [?e]) [?h, ?l] False None (?t @ [Started ?h] @ [Started ?l])) (?s (Starting []) [?h, ?l, ?e] False None ?t3)"
    using run_step.start [of "?s (Starting [?e]) [?h, ?l] False None (?t @ [Started ?h] @ [Started ?l])" ?e "[]"] by simp
  have 5: "run_step demo_worker (?s (Starting []) [?h, ?l, ?e] False None ?t3) (?s (Starting []) [?h, ?l] True ?b (?t3 @ [Ended ?e ?b]))"
    using run_step.ended [of ?e "?s (Starting []) [?h, ?l, ?e] False None ?t3" ?b] by (simp add: end_routine_def)
  have 6: "run_step demo_worker (?s (Starting []) [?h, ?l] True ?b (?t3 @ [Ended ?e ?b])) (?s Waiting [?h, ?l] True ?b (?t3 @ [Ended ?e ?b]))"
    using run_step.started [of "?s (Starting []) [?h, ?l] True ?b (?t3 @ [Ended ?e ?b])"] by simp
  have 7: "run_step demo_worker (?s Waiting [?h, ?l] True ?b (?t3 @ [Ended ?e ?b])) (?s Waiting [?h] True ?b (?t3 @ [Ended ?e ?b] @ [Ended ?l None]))"
    using run_step.ended [of ?l "?s Waiting [?h, ?l] True ?b (?t3 @ [Ended ?e ?b])" None] by (simp add: end_routine_def)
  have 8: "run_step demo_worker (?s Waiting [?h] True ?b (?t3 @ [Ended ?e ?b] @ [Ended ?l None])) (?s Waiting [] True ?b ?t6)"
    using run_step.ended [of ?h "?s Waiting [?h] True ?b (?t3 @ [Ended ?e ?b] @ [Ended ?l None])" None] by (simp add: end_routine_def)
  have 9: "run_step demo_worker (?s Waiting [] True ?b ?t6) (?s Flushing [] True ?b (?t6 @ [WriterStopped]))" using run_step.waited [of "?s Waiting [] True ?b ?t6"] by simp
  have 10: "run_step demo_worker (?s Flushing [] True ?b (?t6 @ [WriterStopped])) (?s Deregistering [] True ?b (?t6 @ [WriterStopped] @ [WriterFlushed]))"
    using run_step.flushed [of "?s Flushing [] True ?b (?t6 @ [WriterStopped])"] by simp
  have 11: "run_step demo_worker (?s Deregistering [] True ?b (?t6 @ [WriterStopped] @ [WriterFlushed])) (demo_end d)"
    using run_step.returned [of "?s Deregistering [] True ?b (?t6 @ [WriterStopped] @ [WriterFlushed])" demo_worker] by (simp add: reg demo_end_def ctxCanceled_def)
  have "run_steps demo_worker (run_start d) (Suc (Suc (Suc (Suc (Suc (Suc (Suc (Suc (Suc (Suc (Suc 0))))))))))) (demo_end d)"
    by (rule run_more [OF _ 11], rule run_more [OF _ 10], rule run_more [OF _ 9], rule run_more [OF _ 8], rule run_more [OF _ 7], rule run_more [OF _ 6],
        rule run_more [OF _ 5], rule run_more [OF _ 4], rule run_more [OF _ 3], rule run_more [OF _ 2], rule run_more [OF _ 1], rule run_refl)
  then show ?thesis by (simp add: eval_nat_numeral)
qed

theorem shutdown_in_order_witness:
  "\<exists>b. visible (rs_trace (demo_end demo_ldb)) = [Registered, WriterStarted] @ b @ [WriterStopped, WriterFlushed, Deregistered] \<and> mset (ends b) = mset [EngineLoop 0, LeaseLoop 0, Heartbeat]"
proof -
  have p: "rs_phase (demo_end demo_ldb) = Returned (Some ''boom'')" "visible (rs_trace (demo_end demo_ldb)) \<noteq> []" by (simp_all add: demo_end_def)
  have rs: "mset (routines (rn_deps demo_worker)) = mset [EngineLoop 0, LeaseLoop 0, Heartbeat]" by (simp add: routines_def pool_routines_def demo_worker_def)
  from shutdown_in_order [OF demo_worker_run p(1)] p(2) show ?thesis unfolding rs by blast
qed


text \<open>A notification with a number outside 16 bits wakes the partition it wraps to; a full channel drops it, which the poll makes good.\<close>

lemma listen_wraps: "listen_payload demo_worker ''65541'' [] = [5]" "listen_payload demo_worker ''7'' [1, 2] = [1, 2]" "listen_payload demo_worker ''x'' [1] = [1]"
  by code_simp+

end
