(* ===== verification/Listener.thy ===== *)
theory Listener
  imports Huxio_Prelude
begin

text \<open>
  \<^verbatim>\<open>postgres/listener.go\<close>: one dedicated connection that waits for notifications and reconnects with backoff. A connection is what
  came of it before it ended: it could not be had, LISTEN failed, or the payloads it received until it broke or the context was
  cancelled. The run is the list of connections made, with where the context was cancelled, if it was.
\<close>

record Listener =
  ln_reconnectDelay :: duration
  ln_maxDelay :: duration

definition NewListener :: Listener where
  "NewListener = \<lparr>ln_reconnectDelay = 250 * Millisecond, ln_maxDelay = 10 * Second\<rparr>"

datatype connection = AcquireFailed | ListenFailed | Payloads "string list"

datatype cancelled = NotCancelled | WhileListening | WhileWaiting

text \<open>The payloads handed to \<^verbatim>\<open>handle\<close>, and the error unless the context ended the connection.\<close>

definition listenOnce :: "connection \<Rightarrow> cancelled \<Rightarrow> string list \<times> string option" where
  "listenOnce conn ctx = (case conn of
      AcquireFailed \<Rightarrow> ([], Some ''acquire listener connection'')
    | ListenFailed \<Rightarrow> ([], Some ''listen'')
    | Payloads payloads \<Rightarrow> (payloads, if ctx = WhileListening then None else Some ''wait for notification''))"

text \<open>What was handled and how long it waited before each new connection; the run goes on at the end of the list.\<close>

fun Listen_loop :: "Listener \<Rightarrow> duration \<Rightarrow> (connection \<times> cancelled) list \<Rightarrow> string list \<times> duration list" where
  "Listen_loop l delay [] = ([], [])"
| "Listen_loop l delay ((conn, ctx) # rest) =
    (let seen = fst (listenOnce conn ctx) in
     case ctx of
       WhileListening \<Rightarrow> (seen, [])
     | WhileWaiting \<Rightarrow> (seen, [])
     | NotCancelled \<Rightarrow>
        (let next = (if delay * 2 > ln_maxDelay l then ln_maxDelay l else delay * 2) in
         case Listen_loop l next rest of (later, waits) \<Rightarrow> (seen @ later, delay # waits)))"

definition Listen :: "Listener \<Rightarrow> (connection \<times> cancelled) list \<Rightarrow> string list \<times> duration list" where
  "Listen l = Listen_loop l (ln_reconnectDelay l)"

definition received :: "connection \<Rightarrow> string list" where
  "received conn = (case conn of Payloads ps \<Rightarrow> ps | _ \<Rightarrow> [])"

text \<open>The connections of a run: all up to the first at which the context was cancelled.\<close>

fun run_of :: "(connection \<times> cancelled) list \<Rightarrow> (connection \<times> cancelled) list" where
  "run_of [] = []"
| "run_of (x # xs) = (if snd x = NotCancelled then x # run_of xs else [x])"

lemma listen_loop_handled: "fst (Listen_loop l delay cs) = concat (map (received \<circ> fst) (run_of cs))"
  by (induction l delay cs rule: Listen_loop.induct)
    (auto simp: Let_def listenOnce_def received_def split: cancelled.splits connection.splits prod.splits)

lemma listen_loop_waits:
  assumes "delay \<le> ln_maxDelay l" and "0 \<le> delay" and "i < length (snd (Listen_loop l delay cs))"
  shows "snd (Listen_loop l delay cs) ! i = min (delay * 2 ^ i) (ln_maxDelay l)"
  using assms
proof (induction l delay cs arbitrary: i rule: Listen_loop.induct)
  case (2 l delay conn ctx rest)
  let ?next = "if delay * 2 > ln_maxDelay l then ln_maxDelay l else delay * 2"
  have ctx: "ctx = NotCancelled" using 2(4) by (cases ctx) (simp_all add: Let_def)
  have step: "snd (Listen_loop l delay ((conn, ctx) # rest)) = delay # snd (Listen_loop l ?next rest)" by (simp add: ctx Let_def split: prod.splits)
  show ?case
  proof (cases i)
    case (Suc j)
    have "snd (Listen_loop l ?next rest) ! j = min (?next * 2 ^ j) (ln_maxDelay l)"
      by (rule 2(1) [OF refl ctx refl]) (use 2(2-4) step Suc in auto)
    moreover have "min (?next * 2 ^ j) (ln_maxDelay l) = min (delay * 2 ^ i) (ln_maxDelay l)"
    proof (cases "delay * 2 > ln_maxDelay l")
      case True
      have "(1::int) \<le> 2 ^ j" by simp
      then have "ln_maxDelay l \<le> ln_maxDelay l * 2 ^ j" "delay * 2 \<le> delay * 2 * 2 ^ j" using 2(2,3) by (simp_all add: mult_le_cancel_left1)
      with True show ?thesis by (simp add: Suc mult.assoc)
    qed (simp add: Suc mult.assoc)
    ultimately show ?thesis unfolding step Suc by simp
  qed (use 2(2) step in simp)
qed simp

text \<open>
  The listener passes on what its connections received, in their order, up to the cancellation; the wait before the reconnect number
  \<open>i\<close> is 250 ms doubled \<open>i\<close> times and at most ten seconds. It depends on the number of reconnects only: a connection that worked for days
  does not bring the delay back, so that after a handful of drops in the life of a process every further drop costs ten
  seconds of missed notifications.
\<close>

lemma listener_in_order:
  "fst (Listen l cs) = concat (map (received \<circ> fst) (run_of cs))"
  "i < length (snd (Listen NewListener cs)) \<Longrightarrow> snd (Listen NewListener cs) ! i = min (250 * Millisecond * 2 ^ i) (10 * Second)"
proof -
  show "fst (Listen l cs) = concat (map (received \<circ> fst) (run_of cs))" by (simp add: Listen_def listen_loop_handled)
  assume "i < length (snd (Listen NewListener cs))"
  then show "snd (Listen NewListener cs) ! i = min (250 * Millisecond * 2 ^ i) (10 * Second)"
    using listen_loop_waits [of "ln_reconnectDelay NewListener" NewListener i cs] by (simp add: Listen_def NewListener_def)
qed

lemma delay_never_resets:
  "snd (Listen NewListener (replicate 6 (AcquireFailed, NotCancelled) @ [(Payloads [''a'', ''b''], NotCancelled), (Payloads [''c''], WhileListening)])) ! 6 = 10 * Second"
  by code_simp

end
