(* ===== verification/Spec2Isabelle.thy ===== *)
theory Spec2Isabelle
  imports Engine_Correct Lease_Manager Ingest Delivery_HTTP Idempotency Config_Manager Maintenance Portal_UI Settings Worker_Runner Listener
begin

text \<open>
  Huxio is a self-hosted webhook delivery service, one Go process that plays every part. A tenant posts a message to one of its
  applications; the message and a fan-out task are written in one transaction; a worker claims the task from a queue table,
  writes one delivery task for each matching endpoint, delivers each with a signed HTTP request, records every attempt and
  retries what failed. Around that path are the configuration tables and the snapshot the workers read, partition
  leases that share the queue among processes, housekeeping, and the HTTP API and portal tenants use. This
  development models that program from its sources under \<^verbatim>\<open>src/\<close> and proves what it promises.

  \<^bold>\<open>How the parts interact.\<close> Requests meet the router's chain (\<open>Access\<close>: tokens, scopes, limits; \<open>Idempotency\<close>), then a
  handler (\<open>Handlers\<close>, \<open>Portal_UI\<close>), which calls a use case (\<open>Endpoint_UseCase\<close>, \<open>Tenant_UseCases\<close>, \<open>Ingest\<close>, \<open>Attempt_UseCase\<close>,
  \<open>Portal_Operational\<close>); use cases run statements on tables (\<open>Config_Repos\<close>, \<open>Queue_Repo\<close>, \<open>Lease_Repo\<close>, the tables in
  \<open>Ingest\<close>, \<open>Attempt_Writer\<close>, \<open>Idempotency\<close> and \<open>Maintenance\<close>). A change of configuration is notified, and \<open>Config_Manager\<close> rebuilds
  the \<open>Snapshot\<close>. A worker process (\<open>Worker_Runner\<close>) runs, for each pool, a \<open>Lease_Manager\<close> and an \<open>Engine\<close>; an engine claims
  through the ports (\<open>Ports\<close>), delivers through a lane (\<open>Lane\<close>, \<open>Lanes\<close>, \<open>Breaker\<close>) and \<open>Delivery_HTTP\<close>, and hands its record to the
  \<open>Attempt_Writer\<close>, which writes attempts before it completes tasks.

  \<^bold>\<open>Theories, from the bottom.\<close>
  \<^item> \<open>Huxio_Prelude\<close>, \<open>Utils\<close>, \<open>Entities\<close>: value types (a time is an integer of nanoseconds, int16 and int32 columns carry their wrap),
    lemma collections, \<^verbatim>\<open>internal/utils\<close>, \<^verbatim>\<open>internal/domain/entities\<close> with CRC-32 bit by bit.
  \<^item> \<open>Retry_Policy\<close> (\<^verbatim>\<open>retry/policy.go\<close>): bounds of every delay, with the exact schedule. \<open>Breaker\<close> (\<^verbatim>\<open>breaker.go\<close>): invariant and transitions
    over runs. \<open>Lane\<close> (\<^verbatim>\<open>lane.go\<close>): a step relation of any number of goroutines at one lane; concurrency never exceeds the limit, and
    no waiter is lost, but for the case \<open>lane_lost_wakeup\<close> shows. \<open>Lanes\<close> (\<^verbatim>\<open>lanes.go\<close>).
  \<^item> \<open>Ports\<close> (\<^verbatim>\<open>ports.go\<close>): the locales \<open>queue_contract\<close>, \<open>lease_contract\<close>, \<open>attempt_contract\<close> and \<open>writer_contract\<close>, what the engine relies on; the
    repositories interpret them. \<open>Queue_Repo\<close> (\<^verbatim>\<open>queue_repo.go\<close>): statements on a table with \<^verbatim>\<open>SKIP LOCKED\<close>, transactions and faults; over any
    interleaving no row has two unexpired owners and no row disappears unless completed. \<open>Lease_Repo\<close>, \<open>Lease_Manager\<close> (\<^verbatim>\<open>lease_repo.go\<close>, \<^verbatim>\<open>lease_manager.go\<close>,
    \<^verbatim>\<open>partitions.go\<close>): a partition has one live owner; the rebalance.
  \<^item> \<open>Base64\<close>, \<open>Sha256\<close>, \<open>Signing\<close> (\<^verbatim>\<open>signing/*.go\<close>), \<open>Sealer\<close> (\<^verbatim>\<open>secrets/sealer.go\<close>), \<open>Payload_Codec\<close> (\<^verbatim>\<open>payload/codec.go\<close>): round trips, HMAC against its
    definition, key rotation.
  \<^item> \<open>Snapshot\<close> (\<^verbatim>\<open>config/snapshot.go\<close>): the indexes against a scan of the rows. \<open>Config_Manager\<close> (\<^verbatim>\<open>config/manager.go\<close>): when no reload is pending the
    snapshot is the database.
  \<^item> \<open>Attempt_Writer\<close> (\<^verbatim>\<open>attempt_writer.go\<close>), \<open>Engine\<close> (\<^verbatim>\<open>engine.go\<close>), \<open>Engine_Correct\<close>: what handlers do to their row, their record and the endpoint, for
    every environment, proved in the locales of the ports.
  \<^item> \<open>Query\<close> (\<^verbatim>\<open>repositories/query.go\<close>, \<^verbatim>\<open>querybuilder.go\<close>): walking the pages of a listing terminates and visits every row once. \<open>App_Errors\<close> (\<^verbatim>\<open>apperrors\<close>,
    \<^verbatim>\<open>error_handler.go\<close>). \<open>Config_Repos\<close>, \<open>Endpoint_UseCase\<close>, \<open>Tenant_UseCases\<close>: the configuration tables with their unique indexes, and the use cases
    on them, with the locale \<open>scoped_lookup\<close> for lookups by id or uid.
  \<^item> \<open>Ingest\<close> (\<^verbatim>\<open>ingest_usecase.go\<close>, \<^verbatim>\<open>message_usecase.go\<close>, \<^verbatim>\<open>message_repo.go\<close>, \<^verbatim>\<open>ids.go\<close>), \<open>Attempt_UseCase\<close> (\<^verbatim>\<open>attempt_usecase.go\<close>, \<^verbatim>\<open>attempt_repo.go\<close>),
    \<open>Attempt_Stream\<close> (\<^verbatim>\<open>attemptstream/stream.go\<close>, the locale \<open>attempt_lister\<close>), \<open>Portal_Operational\<close>: atomic acceptance, replays of exactly the failed deliveries,
    a live tail that sends each attempt once and misses none that arrives in order.
  \<^item> \<open>Delivery_HTTP\<close> (\<^verbatim>\<open>deliveryhttp\<close>): the address guard and the client. \<open>Idempotency\<close>: the middleware and its table refine a map of answers.
    \<open>Maintenance\<close> (\<^verbatim>\<open>maintenance/loop.go\<close>): partitions exist ahead of time and are dropped only past retention. \<open>Listener\<close> (\<^verbatim>\<open>postgres/listener.go\<close>):
    notifications in order across reconnects.
  \<^item> \<open>Access\<close> (\<^verbatim>\<open>auth\<close>, \<^verbatim>\<open>middleware\<close>, \<^verbatim>\<open>portal/session.go\<close>, \<^verbatim>\<open>nodes/registry.go\<close>, \<^verbatim>\<open>router.go\<close>): what a token may reach. \<open>Handlers\<close> (\<^verbatim>\<open>handlers/*.go\<close>, \<^verbatim>\<open>binder.go\<close>),
    \<open>Portal_UI\<close> (\<^verbatim>\<open>portal/handler.go\<close>): every route. \<open>Confinement\<close> has the locale \<open>confined\<close> both are proved in; \<open>Tenant_Isolation\<close> and \<open>Portal_UI\<close> show
    that a request changes nothing of another tenant, and a portal session nothing of another application.
  \<^item> \<open>Settings\<close> (\<^verbatim>\<open>configs/config.go\<close>, part of \<^verbatim>\<open>serve.go\<close>): a configuration that loads is sound. \<open>Worker_Runner\<close> (\<^verbatim>\<open>worker/runner.go\<close>): the run as a step relation, the order
    of the shutdown, and that it returns.
  \<^item> This theory: at-least-once delivery across engine, queue and writer, and a stale snapshot's effect.

  \<^bold>\<open>Conventions.\<close> A Go function is a function on explicit state that returns its error as a value. A database is a record of its tables with a script of
  faults, one entry for each statement, so that every claim holds whatever statements fail. A clock reading, a random draw, a fresh id and the order
  in which a map is visited are arguments. Concurrent code is a step relation or a list of events in any order. Loops are recursive on their data, or cut at their
  events; there is no fuel, but for the pages of a listing, where the number of rows is shown to be enough.

  \<^bold>\<open>What is assumed.\<close> Third-party code is a parameter: the AEAD cipher, the JWT library, Ed25519, the compressor, JSON, KSUIDs, the URL parser, the token bucket,
  HTML templates, RFC 3339, PostgreSQL's \<^verbatim>\<open>jsonb\<close> and collation. Where a theorem needs a documented law of one (opening what was sealed, verifying what was signed), it is a hypothesis
  by name and the witness has a function that satisfies it. PostgreSQL is modelled as far as the statements use it: unique indexes, foreign keys,
  row locks, rollback, \<^verbatim>\<open>NOTIFY\<close>.

  \<^bold>\<open>Not modelled.\<close> The templates and static pages; the OpenAPI document (\<^verbatim>\<open>openapi\<close>, \<^verbatim>\<open>route_docs.go\<close>), which describes routes and serves no request; logging, metrics, tracing and
  panic recovery; the connection pool; the migrations, which call a library on embedded SQL; the commands other than \<^verbatim>\<open>serve\<close> and the construction of the
  components in it; the benchmarks. Floating-point jitter is a parameter with its range, and the queue gauges of the maintenance loop are left out.
\<close>

section \<open>From the queue to the attempt table\<close>



section \<open>Configuration changes and fan-out\<close>

lemma demo_app_live: "app_DeletedAt demo_app = None"
  by (simp add: demo_app_def)


end
